(* ===== verification/Dbus_Prelude.thy ===== *)
theory Dbus_Prelude
  imports Main "HOL-Library.Word" "HOL-Library.While_Combinator"
begin

text \<open>
  What every component of the model shares.

  \<^item> \<open>exn\<close>: the ways in which a C++ function of the repository does not return
    normally: the exceptions that are thrown under src/, the undefined behaviour the
    code can run into (a \<open>std::string\<close> made from a null pointer, a null dereference),
    a mutex locked twice by one thread, an exception that leaves a \<open>noexcept\<close> function
    (\<open>std::terminate\<close>), and a loop that never ends.
  \<^item> \<open>('s, 'a) eff\<close>: a member function that reads and writes a state and may throw.
    What was written before a throw stays written, as in C++.
  \<^item> \<open>loop_eff\<close>: a \<open>while\<close> loop of the source; a loop that never ends is the value
    \<open>Diverges\<close>, so a theorem that a function returns is a theorem of termination too.
  \<^item> \<open>c_str\<close>: what a C function sees of a \<open>std::string\<close>.
\<close>

named_theorems eff_simps \<open>rewrite rules that run an effectful model on a state\<close>

section \<open>Exceptions and other abnormal outcomes\<close>

datatype exn =
    Runtime_error string
  | Invalid_object_path string
  | Already_owner
  | Already_owned
  | No_memory
  | Bad_function_call
  | Undefined_behaviour string
  | Deadlock
  | Terminate
  | Diverges

text \<open>The exceptions that \<open>catch (const std::runtime_error&)\<close> catches, and those that
  \<open>catch (...)\<close> catches.\<close>

fun is_runtime_error :: "exn \<Rightarrow> bool" where
  "is_runtime_error (Runtime_error s) = True"
| "is_runtime_error Already_owner = True"
| "is_runtime_error Already_owned = True"
| "is_runtime_error No_memory = True"
| "is_runtime_error e = False"

fun is_exception :: "exn \<Rightarrow> bool" where
  "is_exception (Invalid_object_path s) = True"
| "is_exception Bad_function_call = True"
| "is_exception e = is_runtime_error e"

section \<open>Effects: a state and an outcome\<close>

type_synonym ('s, 'a) eff = "'s \<Rightarrow> (exn + 'a) \<times> 's"

definition return_eff :: "'a \<Rightarrow> ('s, 'a) eff" where
  "return_eff x s = (Inr x, s)"

definition throw_eff :: "exn \<Rightarrow> ('s, 'a) eff" where
  "throw_eff e s = (Inl e, s)"

definition bind_eff :: "('s, 'a) eff \<Rightarrow> ('a \<Rightarrow> ('s, 'b) eff) \<Rightarrow> ('s, 'b) eff" where
  "bind_eff m f s = (case m s of (Inl e, s') \<Rightarrow> (Inl e, s') | (Inr x, s') \<Rightarrow> f x s')"

definition then_eff :: "('s, 'a) eff \<Rightarrow> ('s, 'b) eff \<Rightarrow> ('s, 'b) eff" where
  "then_eff m n = bind_eff m (\<lambda>_. n)"

definition catch_eff :: "('s, 'a) eff \<Rightarrow> (exn \<Rightarrow> ('s, 'a) eff) \<Rightarrow> ('s, 'a) eff" where
  "catch_eff m h s = (case m s of (Inl e, s') \<Rightarrow> h e s' | (Inr x, s') \<Rightarrow> (Inr x, s'))"

fun each_eff :: "('a \<Rightarrow> ('s, unit) eff) \<Rightarrow> 'a list \<Rightarrow> ('s, unit) eff" where
  "each_eff f [] = return_eff ()"
| "each_eff f (x # xs) = then_eff (f x) (each_eff f xs)"

lemma return_eff_run [eff_simps]: "return_eff x s = (Inr x, s)"
  by (simp add: return_eff_def)

lemma throw_eff_run [eff_simps]: "throw_eff e s = (Inl e, s)"
  by (simp add: throw_eff_def)

lemma bind_eff_Inr [eff_simps]: "m s = (Inr x, s') \<Longrightarrow> bind_eff m f s = f x s'"
  by (simp add: bind_eff_def)

lemma bind_eff_Inl [eff_simps]: "m s = (Inl e, s') \<Longrightarrow> bind_eff m f s = (Inl e, s')"
  by (simp add: bind_eff_def)

lemma then_eff_Inr [eff_simps]: "m s = (Inr x, s') \<Longrightarrow> then_eff m n s = n s'"
  by (simp add: then_eff_def bind_eff_Inr)

lemma then_eff_Inl [eff_simps]: "m s = (Inl e, s') \<Longrightarrow> then_eff m n s = (Inl e, s')"
  by (simp add: then_eff_def bind_eff_Inl)

lemma catch_eff_Inr [eff_simps]: "m s = (Inr x, s') \<Longrightarrow> catch_eff m h s = (Inr x, s')"
  by (simp add: catch_eff_def)

lemma catch_eff_Inl [eff_simps]: "m s = (Inl e, s') \<Longrightarrow> catch_eff m h s = h e s'"
  by (simp add: catch_eff_def)

lemma bind_return_left [simp]: "bind_eff (return_eff x) f = f x"
  by (rule ext) (simp add: bind_eff_def return_eff_def)

lemma bind_return_right [simp]: "bind_eff m return_eff = m"
  by (rule ext) (simp add: bind_eff_def return_eff_def split: prod.split sum.split)

lemma bind_assoc: "bind_eff (bind_eff m f) g = bind_eff m (\<lambda>x. bind_eff (f x) g)"
  by (rule ext) (simp add: bind_eff_def split: prod.split sum.split)

lemma bind_throw [simp]: "bind_eff (throw_eff e) f = throw_eff e"
  by (rule ext) (simp add: bind_eff_def throw_eff_def)

lemma then_assoc: "then_eff (then_eff m n) p = then_eff m (then_eff n p)"
  by (simp add: then_eff_def bind_assoc)

lemma then_return_left [simp]: "then_eff (return_eff x) n = n"
  by (simp add: then_eff_def)

lemma each_eff_append: "each_eff f (xs @ ys) = then_eff (each_eff f xs) (each_eff f ys)"
  by (induction xs) (simp_all add: then_assoc)

lemma bind_eff_cong [fundef_cong]:
  assumes "m s = m' s'" and "s = s'"
    and "\<And>x t. m' s' = (Inr x, t) \<Longrightarrow> f x t = g x t"
  shows "bind_eff m f s = bind_eff m' g s'"
  using assms by (auto simp: bind_eff_def split: prod.splits sum.splits)

lemma each_eff_cong [fundef_cong]:
  "xs = ys \<Longrightarrow> (\<And>x. x \<in> set ys \<Longrightarrow> f x = g x) \<Longrightarrow> each_eff f xs = each_eff g ys"
  by (induction ys arbitrary: xs) auto

section \<open>Parts of a state, and mutexes\<close>

text \<open>
  \<open>zoom get put e\<close> runs \<open>e\<close> on the part of the state that \<open>get\<close> reads and \<open>put\<close> writes.
  \<open>guarded held set_held e\<close> is a scope with a \<open>std::lock_guard\<close>: the mutex is free again when the
  scope is left, by a throw as well. A thread that locks a mutex it holds is stuck; the model
  follows one thread at a time, so a mutex that is found locked is locked by that thread.
\<close>

definition zoom :: "('s \<Rightarrow> 't) \<Rightarrow> ('t \<Rightarrow> 's \<Rightarrow> 's) \<Rightarrow> ('t, 'a) eff \<Rightarrow> ('s, 'a) eff" where
  "zoom get put e s = (case e (get s) of (r, t) \<Rightarrow> (r, put t s))"

definition guarded ::
  "('s \<Rightarrow> bool) \<Rightarrow> (bool \<Rightarrow> 's \<Rightarrow> 's) \<Rightarrow> ('s, 'a) eff \<Rightarrow> ('s, 'a) eff" where
  "guarded held set_held e s =
     (if held s then (Inl Deadlock, s)
      else (case e (set_held True s) of (r, s') \<Rightarrow> (r, set_held False s')))"

lemma guarded_free [eff_simps]:
  "\<not> held s \<Longrightarrow> e (set_held True s) = (r, s') \<Longrightarrow> guarded held set_held e s = (r, set_held False s')"
  by (simp add: guarded_def)

section \<open>Loops\<close>

definition loop_eff :: "('s \<Rightarrow> bool) \<Rightarrow> ('a \<Rightarrow> ('s, 'a) eff) \<Rightarrow> 'a \<Rightarrow> ('s, 'a) eff" where
  "loop_eff b c a s =
     (case while_option (\<lambda>(r, s). case r of Inl e \<Rightarrow> False | Inr x \<Rightarrow> b s)
             (\<lambda>(r, s). case r of Inl e \<Rightarrow> (Inl e, s) | Inr x \<Rightarrow> c x s) (Inr a, s) of
        None \<Rightarrow> (Inl Diverges, s)
      | Some rs \<Rightarrow> rs)"

lemma loop_eff_stop [eff_simps]: "\<not> b s \<Longrightarrow> loop_eff b c a s = (Inr a, s)"
  by (simp add: loop_eff_def while_option_unfold)

lemma loop_eff_throw [eff_simps]:
  "b s \<Longrightarrow> c a s = (Inl e, s') \<Longrightarrow> loop_eff b c a s = (Inl e, s')"
  by (simp add: loop_eff_def while_option_unfold)

lemma loop_eff_step:
  assumes "b s" and "c a s = (Inr a', s')" and "loop_eff b c a' s' = (Inr r, s'')"
  shows "loop_eff b c a s = (Inr r, s'')"
  using assms
  by (subst loop_eff_def, subst while_option_unfold)
     (auto simp: loop_eff_def split: option.splits)

section \<open>Lists\<close>

lemma concat_map_concat:
  "concat (map f (concat xss)) = concat (map (\<lambda>xs. concat (map f xs)) xss)"
  by (induction xss) simp_all

lemma concat_map_single: "(\<And>x. x \<in> set xs \<Longrightarrow> f x = [g x]) \<Longrightarrow> concat (map f xs) = map g xs"
  by (induction xs) simp_all

fun intercalate :: "'a list \<Rightarrow> 'a list list \<Rightarrow> 'a list" where
  "intercalate sep [] = []"
| "intercalate sep [x] = x"
| "intercalate sep (x # y # xs) = x @ sep @ intercalate sep (y # xs)"

lemma intercalate_Cons: "intercalate sep (x # xs) = x @ concat (map (\<lambda>y. sep @ y) xs)"
  by (induction xs arbitrary: x) simp_all

section \<open>Numbers as text\<close>

fun show_nat :: "nat \<Rightarrow> string" where
  "show_nat n = (if n < 10 then [char_of (48 + n)] else show_nat (n div 10) @ [char_of (48 + n mod 10)])"

declare show_nat.simps [simp del]

lemma show_nat_digits: "set (show_nat n) \<subseteq> char_of ` {48..57::nat}"
proof (induction n rule: show_nat.induct)
  case (1 n)
  have "n mod 10 < 10" by simp
  then have "48 + n mod 10 \<in> {48..57}" by simp
  then show ?case using 1 by (subst show_nat.simps) (auto intro!: imageI)
qed

section \<open>Strings as C functions see them\<close>

definition c_str :: "string \<Rightarrow> string" where
  "c_str s = takeWhile (\<lambda>c. c \<noteq> CHR 0x00) s"

lemma c_str_id [simp]: "CHR 0x00 \<notin> set s \<Longrightarrow> c_str s = s"
  by (auto simp: c_str_def takeWhile_eq_all_conv)

lemma c_str_no_nul [simp]: "CHR 0x00 \<notin> set (c_str s)"
  by (auto simp: c_str_def dest: set_takeWhileD)

lemma c_str_idem [simp]: "c_str (c_str s) = c_str s"
  by simp

end
