(* ===== verification/Argument_Type.thy ===== *)
theory Argument_Type
  imports Dbus_Prelude
begin

text \<open>
  The enumeration \<open>ArgumentType\<close> of include/core/dbus/argument\_type.h, its printer, and
  \<open>is_compound_type\<close> of include/core/dbus/helper/is\_compound\_type.h.

  The enumeration has the underlying type \<open>int\<close> and is made by \<open>static_cast\<close> from
  whatever \<open>dbus_message_iter_get_arg_type\<close> or a character of a signature is, so it can
  hold any integer: \<open>At_other n\<close> is a value without a name. The numbers are the type codes
  of the D-Bus protocol, which are ASCII characters (dbus.h spells them DBUS\_TYPE\_...).
\<close>

datatype argument_type =
    At_byte | At_boolean | At_int16 | At_uint16 | At_int32 | At_uint32 | At_int64 | At_uint64
  | At_floating_point | At_string | At_object_path | At_signature | At_unix_fd
  | At_array | At_variant | At_structure | At_dictionary_entry | At_invalid
  | At_other int

section \<open>The type codes\<close>

fun at_code :: "argument_type \<Rightarrow> int" where
  "at_code At_byte = 121"
| "at_code At_boolean = 98"
| "at_code At_int16 = 110"
| "at_code At_uint16 = 113"
| "at_code At_int32 = 105"
| "at_code At_uint32 = 117"
| "at_code At_int64 = 120"
| "at_code At_uint64 = 116"
| "at_code At_floating_point = 100"
| "at_code At_string = 115"
| "at_code At_object_path = 111"
| "at_code At_signature = 103"
| "at_code At_unix_fd = 104"
| "at_code At_array = 97"
| "at_code At_variant = 118"
| "at_code At_structure = 114"
| "at_code At_dictionary_entry = 101"
| "at_code At_invalid = 0"
| "at_code (At_other n) = n"

definition named_argument_types :: "argument_type list" where
  "named_argument_types =
     [At_byte, At_boolean, At_int16, At_uint16, At_int32, At_uint32, At_int64, At_uint64,
      At_floating_point, At_string, At_object_path, At_signature, At_unix_fd,
      At_array, At_variant, At_structure, At_dictionary_entry, At_invalid]"

text \<open>The cast from \<open>int\<close>: the enumerator with that number, where there is one.\<close>

definition argument_type_of :: "int \<Rightarrow> argument_type" where
  "argument_type_of n =
     (case filter (\<lambda>t. at_code t = n) named_argument_types of
        [] \<Rightarrow> At_other n
      | t # _ \<Rightarrow> t)"

definition at_named :: "argument_type \<Rightarrow> bool" where
  "at_named t \<longleftrightarrow> t \<in> set named_argument_types"

lemma at_code_argument_type_of [simp]: "at_code (argument_type_of n) = n"
  by (simp add: argument_type_of_def named_argument_types_def)

lemma argument_type_of_at_code [simp]: "at_named t \<Longrightarrow> argument_type_of (at_code t) = t"
  by (auto simp: at_named_def argument_type_of_def named_argument_types_def)

lemma at_named_simps [simp]:
  "at_named At_byte" "at_named At_boolean" "at_named At_int16" "at_named At_uint16"
  "at_named At_int32" "at_named At_uint32" "at_named At_int64" "at_named At_uint64"
  "at_named At_floating_point" "at_named At_string" "at_named At_object_path"
  "at_named At_signature" "at_named At_unix_fd" "at_named At_array" "at_named At_variant"
  "at_named At_structure" "at_named At_dictionary_entry" "at_named At_invalid"
  "\<not> at_named (At_other n)"
  by (simp_all add: at_named_def named_argument_types_def)

lemma argument_type_of_eq_iff: "at_named t \<Longrightarrow> argument_type_of n = t \<longleftrightarrow> n = at_code t"
  by auto

lemma argument_type_of_invalid_iff [simp]: "argument_type_of n = At_invalid \<longleftrightarrow> n = 0"
  by (simp add: argument_type_of_eq_iff)

section \<open>The printer\<close>

definition argument_type_lut :: "(argument_type \<times> string) list" where
  "argument_type_lut =
     [(At_byte, ''byte''), (At_boolean, ''boolean''), (At_int16, ''int16''),
      (At_uint16, ''uint16''), (At_int32, ''int32''), (At_uint32, ''uint32''),
      (At_int64, ''int64''), (At_uint64, ''uint64''), (At_floating_point, ''floating_point''),
      (At_string, ''string''), (At_object_path, ''object_path''), (At_signature, ''signature''),
      (At_unix_fd, ''unix_fd''), (At_array, ''array''), (At_variant, ''variant''),
      (At_structure, ''structure''), (At_dictionary_entry, ''dictionary_entry''),
      (At_invalid, ''invalid'')]"

text \<open>\<open>lut.at\<close> throws for a value that is not in the table; the handler prints the text
  of \<open>invalid\<close> instead.\<close>

definition print_argument_type :: "argument_type \<Rightarrow> string" where
  "print_argument_type t =
     (case map_of argument_type_lut t of Some s \<Rightarrow> s | None \<Rightarrow> ''invalid'')"

definition is_compound_type :: "argument_type \<Rightarrow> bool" where
  "is_compound_type t =
     (case t of At_array \<Rightarrow> True | At_structure \<Rightarrow> True | At_dictionary_entry \<Rightarrow> True | _ \<Rightarrow> False)"

section \<open>Properties\<close>

text \<open>
  The cast from \<open>int\<close> to \<open>ArgumentType\<close> loses nothing: casting back gives the same
  integer, every named enumerator is reached from its own code and from no other, and a code
  outside the enumeration is never taken for a named type. So a comparison of two
  \<open>ArgumentType\<close> values, as every reader operation makes, is a comparison of type codes.
\<close>

lemma argument_type_cast:
  "at_code (argument_type_of n) = n
   \<and> (argument_type_of m = argument_type_of n \<longleftrightarrow> m = n)
   \<and> (at_named (argument_type_of n) \<longleftrightarrow> n \<in> at_code ` set named_argument_types)"
proof (intro conjI)
  show "argument_type_of m = argument_type_of n \<longleftrightarrow> m = n"
    by (metis at_code_argument_type_of)
  show "at_named (argument_type_of n) \<longleftrightarrow> n \<in> at_code ` set named_argument_types"
    by (metis at_code_argument_type_of argument_type_of_at_code at_named_def imageE image_eqI)
qed simp

lemma print_argument_type_distinct: "distinct (map print_argument_type named_argument_types)"
  by code_simp

lemma print_argument_type_inj:
  "at_named t \<Longrightarrow> at_named u \<Longrightarrow> print_argument_type t = print_argument_type u \<longleftrightarrow> t = u"
  using print_argument_type_distinct
  by (auto simp: distinct_map at_named_def dest: inj_onD)

lemma print_argument_type_other: "print_argument_type (At_other n) = ''invalid''"
  by (simp add: print_argument_type_def argument_type_lut_def)

end
