(* ===== verification/Libdbus.thy ===== *)
theory Libdbus
  imports Argument_Type
begin

text \<open>
  The interface to libdbus, which is not part of the repository: a record of the C functions
  that src/ calls on messages and message iterators, over three unspecified types: \<open>'m\<close> for a
  \<open>DBusMessage\<close>, \<open>'i\<close> for a \<open>DBusMessageIter\<close> that reads, \<open>'w\<close> for one that appends.
  Every definition of the model that calls libdbus takes such a record as its argument.

  What the code relies on is stated by three predicates over the record, taken from the
  documentation of libdbus: \<open>reads\<close> (an iterator stands for the list of values it still has to
  visit), \<open>writes\<close> (an appending iterator adds its values to the container it is in, as long as
  the container may hold them) and \<open>stores\<close> (a message that was written is read back as it was
  written). \<open>list_libdbus\<close> is a concrete record that meets all three; the witnesses use it.
\<close>

section \<open>Values on the wire\<close>

text \<open>The memory a basic value is passed in, by its width; \<open>Raw_str\<close> is a \<open>char*\<close> to a string.\<close>

datatype raw = Raw8 "8 word" | Raw16 "16 word" | Raw32 "32 word" | Raw64 "64 word" | Raw_str string

text \<open>
  A value: a basic value with its type code, or a container with its type code, the signature it
  was opened with (arrays and variants) and its contents.
\<close>

datatype dval = D_basic int raw | D_container int "string option" "dval list"

fun dtype :: "dval \<Rightarrow> int" where
  "dtype (D_basic c r) = c"
| "dtype (D_container c sg xs) = c"

text \<open>The signature of a value: one complete type.\<close>

fun dsig :: "dval \<Rightarrow> string" where
  "dsig (D_basic c r) = [char_of (nat c)]"
| "dsig (D_container c sg xs) =
     (if c = at_code At_array then CHR ''a'' # (case sg of Some s \<Rightarrow> s | None \<Rightarrow> [])
      else if c = at_code At_variant then ''v''
      else if c = at_code At_structure then CHR ''('' # concat (map dsig xs) @ '')''
      else CHR ''{'' # concat (map dsig xs) @ ''}'')"

fun is_dbasic :: "dval \<Rightarrow> bool" where
  "is_dbasic (D_basic c r) = True"
| "is_dbasic (D_container c sg xs) = False"

section \<open>The functions\<close>

record ('m, 'i, 'w) libdbus =
  iter_init :: "'m \<Rightarrow> bool \<times> 'i"
  iter_get_arg_type :: "'i \<Rightarrow> int"
  iter_get_basic8 :: "'i \<Rightarrow> 8 word"
  iter_get_basic16 :: "'i \<Rightarrow> 16 word"
  iter_get_basic32 :: "'i \<Rightarrow> 32 word"
  iter_get_basic64 :: "'i \<Rightarrow> 64 word"
  iter_get_basic_str :: "'i \<Rightarrow> string option"
  iter_next :: "'i \<Rightarrow> 'i"
  iter_recurse :: "'i \<Rightarrow> 'i"
  iter_init_append :: "'m \<Rightarrow> 'w"
  iter_append_basic :: "'w \<Rightarrow> int \<Rightarrow> raw \<Rightarrow> 'm \<Rightarrow> bool \<times> 'w \<times> 'm"
  iter_open_container :: "'w \<Rightarrow> int \<Rightarrow> string option \<Rightarrow> 'm \<Rightarrow> bool \<times> 'w \<times> 'w \<times> 'm"
  iter_close_container :: "'w \<Rightarrow> 'w \<Rightarrow> 'm \<Rightarrow> 'w \<times> 'm"
  validate_path :: "string \<Rightarrow> bool"
  message_new_method_call :: "string \<Rightarrow> string \<Rightarrow> string \<Rightarrow> string \<Rightarrow> 'm option"
  message_new_method_return :: "'m \<Rightarrow> 'm option"
  message_new_signal :: "string \<Rightarrow> string \<Rightarrow> string \<Rightarrow> 'm option"
  message_new_error :: "'m \<Rightarrow> string \<Rightarrow> string \<Rightarrow> 'm option"
  message_copy :: "'m \<Rightarrow> 'm option"
  message_get_type :: "'m \<Rightarrow> int"
  message_get_no_reply :: "'m \<Rightarrow> bool"
  message_get_path :: "'m \<Rightarrow> string option"
  message_get_member :: "'m \<Rightarrow> string option"
  message_get_signature :: "'m \<Rightarrow> string option"
  message_get_interface :: "'m \<Rightarrow> string option"
  message_get_destination :: "'m \<Rightarrow> string option"
  message_get_sender :: "'m \<Rightarrow> string option"
  set_error_from_message :: "'m \<Rightarrow> (string \<times> string) option"
  message_set_serial :: "32 word \<Rightarrow> 'm \<Rightarrow> 'm"

section \<open>What reading promises\<close>

fun get_basic_is :: "('m, 'i, 'w) libdbus \<Rightarrow> 'i \<Rightarrow> raw \<Rightarrow> bool" where
  "get_basic_is L i (Raw8 b) \<longleftrightarrow> iter_get_basic8 L i = b"
| "get_basic_is L i (Raw16 b) \<longleftrightarrow> iter_get_basic16 L i = b"
| "get_basic_is L i (Raw32 b) \<longleftrightarrow> iter_get_basic32 L i = b"
| "get_basic_is L i (Raw64 b) \<longleftrightarrow> iter_get_basic64 L i = b"
| "get_basic_is L i (Raw_str s) \<longleftrightarrow> iter_get_basic_str L i = Some s"

definition reads :: "('m, 'i, 'w) libdbus \<Rightarrow> ('i \<Rightarrow> dval list \<Rightarrow> bool) \<Rightarrow> bool" where
  "reads L den \<longleftrightarrow>
     (\<forall>i. den i [] \<longrightarrow> iter_get_arg_type L i = 0)
     \<and> (\<forall>i d ds. den i (d # ds) \<longrightarrow> iter_get_arg_type L i = dtype d \<and> den (iter_next L i) ds)
     \<and> (\<forall>i c r ds. den i (D_basic c r # ds) \<longrightarrow> get_basic_is L i r)
     \<and> (\<forall>i c sg xs ds. den i (D_container c sg xs # ds) \<longrightarrow> den (iter_recurse L i) xs)"

lemma reads_end: "reads L den \<Longrightarrow> den i [] \<Longrightarrow> iter_get_arg_type L i = 0"
  by (simp add: reads_def)

lemma reads_type: "reads L den \<Longrightarrow> den i (d # ds) \<Longrightarrow> iter_get_arg_type L i = dtype d"
  by (simp add: reads_def)

lemma reads_next: "reads L den \<Longrightarrow> den i (d # ds) \<Longrightarrow> den (iter_next L i) ds"
  by (auto simp: reads_def)

lemma reads_basic: "reads L den \<Longrightarrow> den i (D_basic c r # ds) \<Longrightarrow> get_basic_is L i r"
  unfolding reads_def by blast

lemma reads_recurse:
  "reads L den \<Longrightarrow> den i (D_container c sg xs # ds) \<Longrightarrow> den (iter_recurse L i) xs"
  unfolding reads_def by blast

section \<open>What writing promises\<close>

text \<open>
  The appending iterators of a message that are in use form a stack: the innermost open
  container first, the message itself last. A frame is an iterator, the type code and signature
  its container was opened with (none for the message itself), and the values appended so far.

  \<open>frame_opens\<close> and \<open>frame_accepts\<close> say which containers may be opened and which values may be
  appended in a frame: the elements of an array have the signature the array was opened with, a
  variant holds one value of its signature, a dictionary entry holds a basic key and one value.
  Calls outside these are misuse, and libdbus promises nothing for them.
\<close>

type_synonym hdr = "(int \<times> string option) option"

type_synonym 'w frame = "'w \<times> hdr \<times> dval list"

fun opens_as :: "int \<Rightarrow> string option \<Rightarrow> string \<Rightarrow> bool" where
  "opens_as c sg s =
     (if c = at_code At_array then s = CHR ''a'' # (case sg of Some t \<Rightarrow> t | None \<Rightarrow> [])
      else if c = at_code At_variant then s = ''v''
      else if c = at_code At_structure then s \<noteq> [] \<and> hd s = CHR ''(''
      else s \<noteq> [] \<and> hd s = CHR ''{'')"

fun frame_opens :: "hdr \<Rightarrow> dval list \<Rightarrow> int \<Rightarrow> string option \<Rightarrow> bool" where
  "frame_opens None vs c sg = True"
| "frame_opens (Some (k, s)) vs c sg =
     (if k = at_code At_array then (case s of Some t \<Rightarrow> opens_as c sg t | None \<Rightarrow> False)
      else if k = at_code At_variant
        then vs = [] \<and> (case s of Some t \<Rightarrow> opens_as c sg t | None \<Rightarrow> False)
      else if k = at_code At_dictionary_entry then length vs = 1
      else True)"

fun frame_accepts :: "hdr \<Rightarrow> dval list \<Rightarrow> dval \<Rightarrow> bool" where
  "frame_accepts None vs d = True"
| "frame_accepts (Some (k, s)) vs d =
     (if k = at_code At_array then s = Some (dsig d)
      else if k = at_code At_variant then vs = [] \<and> s = Some (dsig d)
      else if k = at_code At_dictionary_entry then (vs = [] \<and> is_dbasic d) \<or> length vs = 1
      else True)"

text \<open>When a container may be closed.\<close>

definition frame_complete :: "int \<Rightarrow> dval list \<Rightarrow> bool" where
  "frame_complete k xs \<longleftrightarrow>
     (k = at_code At_variant \<longrightarrow> length xs = 1)
     \<and> (k = at_code At_dictionary_entry \<longrightarrow> length xs = 2)
     \<and> (k = at_code At_structure \<longrightarrow> xs \<noteq> [])"

text \<open>
  \<open>ok c r\<close> is the condition under which libdbus takes the basic value \<open>r\<close> of type \<open>c\<close> (a string
  is valid UTF-8, an object path is valid, a file descriptor can be duplicated, there is memory).
\<close>

definition writes ::
  "('m, 'i, 'w) libdbus \<Rightarrow> (int \<Rightarrow> raw \<Rightarrow> bool) \<Rightarrow> ('m \<Rightarrow> 'w frame list \<Rightarrow> bool) \<Rightarrow> bool" where
  "writes L ok wden \<longleftrightarrow>
     (\<forall>m w h vs st c r. wden m ((w, h, vs) # st) \<and> frame_accepts h vs (D_basic c r) \<and> ok c r \<longrightarrow>
        (\<exists>w' m'. iter_append_basic L w c r m = (True, w', m')
           \<and> wden m' ((w', h, vs @ [D_basic c r]) # st)))
     \<and> (\<forall>m w h vs st c sg. wden m ((w, h, vs) # st) \<and> frame_opens h vs c sg \<longrightarrow>
        (\<exists>w' s m'. iter_open_container L w c sg m = (True, w', s, m')
           \<and> wden m' ((s, Some (c, sg), []) # (w', h, vs) # st)))
     \<and> (\<forall>m s c sg xs w h vs st. wden m ((s, Some (c, sg), xs) # (w, h, vs) # st)
          \<and> frame_complete c xs \<and> frame_accepts h vs (D_container c sg xs) \<longrightarrow>
        (\<exists>w' m'. iter_close_container L w s m = (w', m')
           \<and> wden m' ((w', h, vs @ [D_container c sg xs]) # st)))"

lemma writes_append:
  assumes "writes L ok wden" and "wden m ((w, h, vs) # st)"
    and "frame_accepts h vs (D_basic c r)" and "ok c r"
  obtains w' m' where "iter_append_basic L w c r m = (True, w', m')"
    and "wden m' ((w', h, vs @ [D_basic c r]) # st)"
proof -
  have "\<exists>w' m'. iter_append_basic L w c r m = (True, w', m')
      \<and> wden m' ((w', h, vs @ [D_basic c r]) # st)"
    using assms unfolding writes_def by simp
  then show thesis using that by blast
qed

lemma writes_open:
  assumes "writes L ok wden" and "wden m ((w, h, vs) # st)" and "frame_opens h vs c sg"
  obtains w' s m' where "iter_open_container L w c sg m = (True, w', s, m')"
    and "wden m' ((s, Some (c, sg), []) # (w', h, vs) # st)"
proof -
  have "\<exists>w' s m'. iter_open_container L w c sg m = (True, w', s, m')
      \<and> wden m' ((s, Some (c, sg), []) # (w', h, vs) # st)"
    using assms unfolding writes_def by simp
  then show thesis using that by blast
qed

lemma writes_close:
  assumes "writes L ok wden" and "wden m ((s, Some (c, sg), xs) # (w, h, vs) # st)"
    and "frame_complete c xs" and "frame_accepts h vs (D_container c sg xs)"
  obtains w' m' where "iter_close_container L w s m = (w', m')"
    and "wden m' ((w', h, vs @ [D_container c sg xs]) # st)"
proof -
  have "\<exists>w' m'. iter_close_container L w s m = (w', m')
      \<and> wden m' ((w', h, vs @ [D_container c sg xs]) # st)"
    using assms unfolding writes_def by simp
  then show thesis using that by blast
qed

section \<open>A message is read back as it was written\<close>

definition stores ::
  "('m, 'i, 'w) libdbus \<Rightarrow> ('i \<Rightarrow> dval list \<Rightarrow> bool) \<Rightarrow> ('m \<Rightarrow> 'w frame list \<Rightarrow> bool) \<Rightarrow> bool"
  where
  "stores L den wden \<longleftrightarrow>
     (\<forall>m w vs. wden m [(w, None, vs)] \<longrightarrow>
        (vs = [] \<longrightarrow> \<not> fst (iter_init L m))
        \<and> (vs \<noteq> [] \<longrightarrow> fst (iter_init L m) \<and> den (snd (iter_init L m)) vs))
     \<and> (\<forall>m w vs. wden m [(w, None, vs)] \<longrightarrow> wden m [(iter_init_append L m, None, vs)])"

section \<open>A concrete library\<close>

text \<open>
  Messages as stacks of frames (without iterators), reading iterators as the list of values left.
  An appending iterator carries no information: it is always the innermost one that is used.
\<close>

record list_message =
  lm_type :: int
  lm_path :: "string option"
  lm_interface :: "string option"
  lm_member :: "string option"
  lm_destination :: "string option"
  lm_sender :: "string option"
  lm_error :: "(string \<times> string) option"
  lm_frames :: "(hdr \<times> dval list) list"

definition list_body :: "list_message \<Rightarrow> dval list" where
  "list_body m = (case rev (lm_frames m) of [] \<Rightarrow> [] | (h, vs) # _ \<Rightarrow> vs)"

definition new_list_message :: "int \<Rightarrow> list_message" where
  "new_list_message ty =
     \<lparr>lm_type = ty, lm_path = None, lm_interface = None, lm_member = None,
      lm_destination = None, lm_sender = None, lm_error = None, lm_frames = [(None, [])]\<rparr>"

definition list_append :: "unit \<Rightarrow> int \<Rightarrow> raw \<Rightarrow> list_message \<Rightarrow> bool \<times> unit \<times> list_message" where
  "list_append w c r m =
     (case lm_frames m of
        [] \<Rightarrow> (False, (), m)
      | (h, vs) # st \<Rightarrow> (True, (), m\<lparr>lm_frames := (h, vs @ [D_basic c r]) # st\<rparr>))"

definition list_open ::
  "unit \<Rightarrow> int \<Rightarrow> string option \<Rightarrow> list_message \<Rightarrow> bool \<times> unit \<times> unit \<times> list_message" where
  "list_open w c sg m = (True, (), (), m\<lparr>lm_frames := (Some (c, sg), []) # lm_frames m\<rparr>)"

definition list_close :: "unit \<Rightarrow> unit \<Rightarrow> list_message \<Rightarrow> unit \<times> list_message" where
  "list_close w s m =
     (case lm_frames m of
        (Some (c, sg), xs) # (h, vs) # st \<Rightarrow>
          ((), m\<lparr>lm_frames := (h, vs @ [D_container c sg xs]) # st\<rparr>)
      | _ \<Rightarrow> ((), m))"

fun list_raw8 :: "dval list \<Rightarrow> 8 word" where
  "list_raw8 (D_basic c (Raw8 b) # ds) = b"
| "list_raw8 ds = 0"

fun list_raw16 :: "dval list \<Rightarrow> 16 word" where
  "list_raw16 (D_basic c (Raw16 b) # ds) = b"
| "list_raw16 ds = 0"

fun list_raw32 :: "dval list \<Rightarrow> 32 word" where
  "list_raw32 (D_basic c (Raw32 b) # ds) = b"
| "list_raw32 ds = 0"

fun list_raw64 :: "dval list \<Rightarrow> 64 word" where
  "list_raw64 (D_basic c (Raw64 b) # ds) = b"
| "list_raw64 ds = 0"

fun list_raw_str :: "dval list \<Rightarrow> string option" where
  "list_raw_str (D_basic c (Raw_str s) # ds) = Some s"
| "list_raw_str ds = None"

fun list_recurse :: "dval list \<Rightarrow> dval list" where
  "list_recurse (D_container c sg xs # ds) = xs"
| "list_recurse ds = []"

definition list_libdbus :: "(list_message, dval list, unit) libdbus" where
  "list_libdbus =
     \<lparr>iter_init = (\<lambda>m. (list_body m \<noteq> [], list_body m)),
      iter_get_arg_type = (\<lambda>ds. case ds of [] \<Rightarrow> 0 | d # _ \<Rightarrow> dtype d),
      iter_get_basic8 = list_raw8, iter_get_basic16 = list_raw16,
      iter_get_basic32 = list_raw32, iter_get_basic64 = list_raw64,
      iter_get_basic_str = list_raw_str,
      iter_next = tl, iter_recurse = list_recurse,
      iter_init_append = (\<lambda>m. ()), iter_append_basic = list_append,
      iter_open_container = list_open, iter_close_container = list_close,
      validate_path = (\<lambda>s. s \<noteq> [] \<and> hd s = CHR ''/''),
      message_new_method_call = (\<lambda>d p i m. Some ((new_list_message 1)
        \<lparr>lm_destination := Some d, lm_path := Some p, lm_interface := Some i, lm_member := Some m\<rparr>)),
      message_new_method_return = (\<lambda>m. Some (new_list_message 2)),
      message_new_signal = (\<lambda>p i m. Some ((new_list_message 4)
        \<lparr>lm_path := Some p, lm_interface := Some i, lm_member := Some m\<rparr>)),
      message_new_error = (\<lambda>m n d. Some ((new_list_message 3)\<lparr>lm_error := Some (n, d)\<rparr>)),
      message_copy = Some,
      message_get_type = lm_type, message_get_no_reply = (\<lambda>m. False),
      message_get_path = lm_path, message_get_member = lm_member,
      message_get_signature = (\<lambda>m. Some (concat (map dsig (list_body m)))),
      message_get_interface = lm_interface, message_get_destination = lm_destination,
      message_get_sender = lm_sender, set_error_from_message = lm_error,
      message_set_serial = (\<lambda>n m. m)\<rparr>"

definition list_den :: "dval list \<Rightarrow> dval list \<Rightarrow> bool" where
  "list_den i ds \<longleftrightarrow> i = ds"

definition list_wden :: "list_message \<Rightarrow> unit frame list \<Rightarrow> bool" where
  "list_wden m st \<longleftrightarrow> lm_frames m = map snd st"

lemma list_reads: "reads list_libdbus list_den"
  unfolding reads_def list_den_def
proof (intro conjI allI impI)
  fix i c r ds
  assume "i = D_basic c r # ds"
  then show "get_basic_is list_libdbus i r"
    by (cases r) (simp_all add: list_libdbus_def)
qed (simp_all add: list_libdbus_def)

lemma list_writes: "writes list_libdbus (\<lambda>c r. True) list_wden"
  by (auto simp: writes_def list_libdbus_def list_wden_def list_append_def list_open_def
      list_close_def)

lemma list_stores: "stores list_libdbus list_den list_wden"
  by (auto simp: stores_def list_libdbus_def list_wden_def list_den_def list_body_def)

end
