(* ===== verification/Dbus_Types.thy ===== *)
theory Dbus_Types
  imports Libdbus "HOL-Library.List_Lexorder" "HOL-Library.Char_ord"
begin

text \<open>
  The small value classes: \<open>Error\<close> (src/core/dbus/error.cpp), \<open>types::ObjectPath\<close>
  (src/core/dbus/types/object\_path.cpp), \<open>types::Signature\<close> and \<open>types::UnixFd\<close>
  (include/core/dbus/types/). A C string that becomes a \<open>std::string\<close> is an option here, and
  making a \<open>std::string\<close> from a null pointer is undefined behaviour.
\<close>

section \<open>std::string from a C string\<close>

definition string_from_chars :: "string option \<Rightarrow> exn + string" where
  "string_from_chars s =
     (case s of None \<Rightarrow> Inl (Undefined_behaviour ''std::string from a null pointer'')
      | Some t \<Rightarrow> Inr t)"

definition lift_res :: "(exn + 'a) \<Rightarrow> ('s, 'a) eff" where
  "lift_res r s = (r, s)"

lemma lift_res_run [eff_simps]: "lift_res r s = (r, s)"
  by (simp add: lift_res_def)

section \<open>Error\<close>

text \<open>A \<open>DBusError\<close> that is set has a name and a message; one that is only initialised has null
  pointers for both.\<close>

type_synonym dbus_error = "(string \<times> string) option"

definition error_init :: dbus_error where
  "error_init = None"

definition error_name :: "dbus_error \<Rightarrow> exn + string" where
  "error_name e = string_from_chars (map_option fst e)"

definition error_message :: "dbus_error \<Rightarrow> exn + string" where
  "error_message e = string_from_chars (map_option snd e)"

definition error_print :: "dbus_error \<Rightarrow> exn + string" where
  "error_print e =
     (case error_name e of Inl x \<Rightarrow> Inl x
      | Inr n \<Rightarrow> (case error_message e of Inl x \<Rightarrow> Inl x | Inr m \<Rightarrow> Inr (n @ '': '' @ m)))"

definition error_is_set :: "dbus_error \<Rightarrow> bool" where
  "error_is_set e \<longleftrightarrow> e \<noteq> None"

text \<open>Throwing the text of an error: \<open>throw std::runtime_error(e.print())\<close>.\<close>

definition throw_error_text :: "dbus_error \<Rightarrow> exn" where
  "throw_error_text e = (case error_print e of Inl x \<Rightarrow> x | Inr s \<Rightarrow> Runtime_error s)"

lemma error_print_set [simp]: "error_print (Some (n, m)) = Inr (n @ '': '' @ m)"
  by (simp add: error_print_def error_name_def error_message_def string_from_chars_def)

lemma throw_error_text_set [simp]:
  "throw_error_text (Some (n, m)) = Runtime_error (n @ '': '' @ m)"
  by (simp add: throw_error_text_def)

lemma error_print_unset:
  "error_print None = Inl (Undefined_behaviour ''std::string from a null pointer'')"
  by (simp add: error_print_def error_name_def string_from_chars_def)

section \<open>ObjectPath\<close>

text \<open>An object path is the string it was made from; the constructor validates what libdbus sees
  of it and throws otherwise.\<close>

definition object_path_root :: string where
  "object_path_root = ''/''"

definition make_object_path :: "('m, 'i, 'w) libdbus \<Rightarrow> string \<Rightarrow> exn + string" where
  "make_object_path L path =
     (if \<not> validate_path L (c_str path)
      then Inl (Invalid_object_path
             (''Could not construct valid object path from provided string: '' @ path))
      else Inr path)"

definition object_path_empty :: "string \<Rightarrow> bool" where
  "object_path_empty p \<longleftrightarrow> p = []"

definition object_path_less :: "string \<Rightarrow> string \<Rightarrow> bool" where
  "object_path_less p q \<longleftrightarrow> p < q"

definition object_path_eq :: "string \<Rightarrow> string \<Rightarrow> bool" where
  "object_path_eq p q \<longleftrightarrow> p = q"

definition object_path_neq :: "string \<Rightarrow> string \<Rightarrow> bool" where
  "object_path_neq p q \<longleftrightarrow> p \<noteq> q"

text \<open>The printer ends the line (\<open>std::endl\<close>).\<close>

definition print_object_path :: "string \<Rightarrow> string" where
  "print_object_path p = p @ [CHR 0x0A]"

text \<open>The hash of a path is the hash of its text.\<close>

definition object_path_hash :: "(string \<Rightarrow> 'h) \<Rightarrow> string \<Rightarrow> 'h" where
  "object_path_hash h p = h p"

lemma make_object_path_Inr:
  "make_object_path L s = Inr p \<longleftrightarrow> p = s \<and> validate_path L (c_str s)"
  by (auto simp: make_object_path_def)

section \<open>Signature and UnixFd\<close>

text \<open>A signature is not checked when it is made.\<close>

definition make_signature :: "string \<Rightarrow> string" where
  "make_signature s = s"

definition signature_less :: "string \<Rightarrow> string \<Rightarrow> bool" where
  "signature_less s t \<longleftrightarrow> s < t"

definition signature_eq :: "string \<Rightarrow> string \<Rightarrow> bool" where
  "signature_eq s t \<longleftrightarrow> s = t"

definition unix_fd_default :: "32 word" where
  "unix_fd_default = - 1"

definition unix_fd_eq :: "32 word \<Rightarrow> 32 word \<Rightarrow> bool" where
  "unix_fd_eq a b \<longleftrightarrow> a = b"

end
