(* ===== verification/Message.thy ===== *)
theory Message
  imports Dbus_Types
begin

text \<open>
  The class \<open>Message\<close> with its \<open>Reader\<close> and \<open>Writer\<close>: include/core/dbus/message.h,
  src/core/dbus/message.cpp, src/core/dbus/message\_p.h and the factory of
  src/core/dbus/message\_factory\_impl.h.

  A \<open>Reader\<close> is a pointer to a libdbus iterator, which its operations move: an operation is an
  effect on the iterator \<open>'i\<close>, \<open>('i, 'a) eff\<close>. A \<open>Writer\<close> has an iterator of its own and shares
  the message with every other writer of it: an operation is an effect on \<open>'w \<times> 'm\<close>.
  Every operation takes the libdbus record \<open>L\<close> first.
\<close>

section \<open>Message types\<close>

datatype message_type = Mt_invalid | Mt_signal | Mt_method_call | Mt_method_return | Mt_error
  | Mt_other int

fun mt_code :: "message_type \<Rightarrow> int" where
  "mt_code Mt_invalid = 0"
| "mt_code Mt_method_call = 1"
| "mt_code Mt_method_return = 2"
| "mt_code Mt_error = 3"
| "mt_code Mt_signal = 4"
| "mt_code (Mt_other n) = n"

definition message_type_of :: "int \<Rightarrow> message_type" where
  "message_type_of n =
     (if n = 0 then Mt_invalid else if n = 1 then Mt_method_call
      else if n = 2 then Mt_method_return else if n = 3 then Mt_error
      else if n = 4 then Mt_signal else Mt_other n)"

lemma mt_code_message_type_of [simp]: "mt_code (message_type_of n) = n"
  by (simp add: message_type_of_def)

fun print_message_type :: "message_type \<Rightarrow> string" where
  "print_message_type Mt_error = ''error''"
| "print_message_type Mt_invalid = ''invalid''"
| "print_message_type Mt_method_call = ''method_call''"
| "print_message_type Mt_method_return = ''method_return''"
| "print_message_type Mt_signal = ''signal''"
| "print_message_type (Mt_other n) = []"

section \<open>Reader\<close>

text \<open>\<open>Reader::type\<close> and \<open>Reader::pop\<close>.\<close>

definition reader_type :: "('m, 'i, 'w) libdbus \<Rightarrow> 'i \<Rightarrow> argument_type" where
  "reader_type L i = argument_type_of (iter_get_arg_type L i)"

definition reader_pop :: "('m, 'i, 'w) libdbus \<Rightarrow> ('i, unit) eff" where
  "reader_pop L i = (Inr (), iter_next L i)"

definition mismatch_text :: "argument_type \<Rightarrow> argument_type \<Rightarrow> string" where
  "mismatch_text expected actual =
     ''Mismatch between expected and actual type reported by iterator: '' @ [CHR 0x0A]
     @ [CHR 0x09] @ '' Expected: '' @ print_argument_type expected @ [CHR 0x0A]
     @ [CHR 0x09] @ '' Actual: '' @ print_argument_type actual"

definition ensure_argument_type_or_throw ::
  "('m, 'i, 'w) libdbus \<Rightarrow> argument_type \<Rightarrow> ('i, unit) eff" where
  "ensure_argument_type_or_throw L expected i =
     (let actual = argument_type_of (iter_get_arg_type L i) in
      if actual \<noteq> expected then (Inl (Runtime_error (mismatch_text expected actual)), i)
      else (Inr (), i))"

text \<open>\<open>dbus_message_iter_get_basic\<close> into a variable, then \<open>dbus_message_iter_next\<close>.\<close>

definition get_basic_next ::
  "('m, 'i, 'w) libdbus \<Rightarrow> ('i \<Rightarrow> 'a) \<Rightarrow> ('i, 'a) eff" where
  "get_basic_next L get i = (Inr (get i), iter_next L i)"

definition pop_string_unchecked :: "('m, 'i, 'w) libdbus \<Rightarrow> ('i, string option) eff" where
  "pop_string_unchecked L = get_basic_next L (iter_get_basic_str L)"

definition pop_byte :: "('m, 'i, 'w) libdbus \<Rightarrow> ('i, 8 word) eff" where
  "pop_byte L = then_eff (ensure_argument_type_or_throw L At_byte)
     (get_basic_next L (iter_get_basic8 L))"

text \<open>\<open>!!result\<close> for a \<open>dbus_bool_t\<close>, which is 32 bits wide.\<close>

definition pop_boolean :: "('m, 'i, 'w) libdbus \<Rightarrow> ('i, bool) eff" where
  "pop_boolean L = then_eff (ensure_argument_type_or_throw L At_boolean)
     (get_basic_next L (\<lambda>i. iter_get_basic32 L i \<noteq> 0))"

definition pop_int16 :: "('m, 'i, 'w) libdbus \<Rightarrow> ('i, 16 word) eff" where
  "pop_int16 L = then_eff (ensure_argument_type_or_throw L At_int16)
     (get_basic_next L (iter_get_basic16 L))"

definition pop_uint16 :: "('m, 'i, 'w) libdbus \<Rightarrow> ('i, 16 word) eff" where
  "pop_uint16 L = then_eff (ensure_argument_type_or_throw L At_uint16)
     (get_basic_next L (iter_get_basic16 L))"

definition pop_int32 :: "('m, 'i, 'w) libdbus \<Rightarrow> ('i, 32 word) eff" where
  "pop_int32 L = then_eff (ensure_argument_type_or_throw L At_int32)
     (get_basic_next L (iter_get_basic32 L))"

definition pop_uint32 :: "('m, 'i, 'w) libdbus \<Rightarrow> ('i, 32 word) eff" where
  "pop_uint32 L = then_eff (ensure_argument_type_or_throw L At_uint32)
     (get_basic_next L (iter_get_basic32 L))"

definition pop_int64 :: "('m, 'i, 'w) libdbus \<Rightarrow> ('i, 64 word) eff" where
  "pop_int64 L = then_eff (ensure_argument_type_or_throw L At_int64)
     (get_basic_next L (iter_get_basic64 L))"

definition pop_uint64 :: "('m, 'i, 'w) libdbus \<Rightarrow> ('i, 64 word) eff" where
  "pop_uint64 L = then_eff (ensure_argument_type_or_throw L At_uint64)
     (get_basic_next L (iter_get_basic64 L))"

text \<open>A \<open>double\<close> is its 64 bits.\<close>

definition pop_floating_point :: "('m, 'i, 'w) libdbus \<Rightarrow> ('i, 64 word) eff" where
  "pop_floating_point L = then_eff (ensure_argument_type_or_throw L At_floating_point)
     (get_basic_next L (iter_get_basic64 L))"

definition pop_string :: "('m, 'i, 'w) libdbus \<Rightarrow> ('i, string option) eff" where
  "pop_string L = then_eff (ensure_argument_type_or_throw L At_string) (pop_string_unchecked L)"

definition pop_object_path :: "('m, 'i, 'w) libdbus \<Rightarrow> ('i, string) eff" where
  "pop_object_path L = then_eff (ensure_argument_type_or_throw L At_object_path)
     (bind_eff (pop_string_unchecked L)
       (\<lambda>s. bind_eff (lift_res (string_from_chars s)) (\<lambda>p. lift_res (make_object_path L p))))"

definition pop_signature :: "('m, 'i, 'w) libdbus \<Rightarrow> ('i, string) eff" where
  "pop_signature L = then_eff (ensure_argument_type_or_throw L At_signature)
     (bind_eff (pop_string_unchecked L) (\<lambda>s. lift_res (string_from_chars s)))"

definition pop_unix_fd :: "('m, 'i, 'w) libdbus \<Rightarrow> ('i, 32 word) eff" where
  "pop_unix_fd L = then_eff (ensure_argument_type_or_throw L At_unix_fd)
     (get_basic_next L (iter_get_basic32 L))"

text \<open>
  The four container operations recurse without looking at the type of the current argument; the
  result is the iterator of the new reader.
\<close>

definition pop_array :: "('m, 'i, 'w) libdbus \<Rightarrow> ('i, 'i) eff" where
  "pop_array L i = (Inr (iter_recurse L i), iter_next L i)"

definition pop_structure :: "('m, 'i, 'w) libdbus \<Rightarrow> ('i, 'i) eff" where
  "pop_structure L i = (Inr (iter_recurse L i), iter_next L i)"

definition pop_variant :: "('m, 'i, 'w) libdbus \<Rightarrow> ('i, 'i) eff" where
  "pop_variant L i = (Inr (iter_recurse L i), iter_next L i)"

definition pop_dict_entry :: "('m, 'i, 'w) libdbus \<Rightarrow> ('i, 'i) eff" where
  "pop_dict_entry L i = (Inr (iter_recurse L i), iter_next L i)"

section \<open>Writer\<close>

definition append_or_throw ::
  "('m, 'i, 'w) libdbus \<Rightarrow> argument_type \<Rightarrow> raw \<Rightarrow> ('w \<times> 'm, unit) eff" where
  "append_or_throw L ty r wm =
     (case iter_append_basic L (fst wm) (at_code ty) r (snd wm) of (success, w', m') \<Rightarrow>
        if \<not> success
        then (Inl (Runtime_error ''Not enough memory to append data to message.''), (w', m'))
        else (Inr (), (w', m')))"

definition push_byte :: "('m, 'i, 'w) libdbus \<Rightarrow> 8 word \<Rightarrow> ('w \<times> 'm, unit) eff" where
  "push_byte L v = append_or_throw L At_byte (Raw8 v)"

definition push_boolean :: "('m, 'i, 'w) libdbus \<Rightarrow> bool \<Rightarrow> ('w \<times> 'm, unit) eff" where
  "push_boolean L v = append_or_throw L At_boolean (Raw32 (if v then 1 else 0))"

definition push_int16 :: "('m, 'i, 'w) libdbus \<Rightarrow> 16 word \<Rightarrow> ('w \<times> 'm, unit) eff" where
  "push_int16 L v = append_or_throw L At_int16 (Raw16 v)"

definition push_uint16 :: "('m, 'i, 'w) libdbus \<Rightarrow> 16 word \<Rightarrow> ('w \<times> 'm, unit) eff" where
  "push_uint16 L v = append_or_throw L At_uint16 (Raw16 v)"

definition push_int32 :: "('m, 'i, 'w) libdbus \<Rightarrow> 32 word \<Rightarrow> ('w \<times> 'm, unit) eff" where
  "push_int32 L v = append_or_throw L At_int32 (Raw32 v)"

definition push_uint32 :: "('m, 'i, 'w) libdbus \<Rightarrow> 32 word \<Rightarrow> ('w \<times> 'm, unit) eff" where
  "push_uint32 L v = append_or_throw L At_uint32 (Raw32 v)"

definition push_int64 :: "('m, 'i, 'w) libdbus \<Rightarrow> 64 word \<Rightarrow> ('w \<times> 'm, unit) eff" where
  "push_int64 L v = append_or_throw L At_int64 (Raw64 v)"

definition push_uint64 :: "('m, 'i, 'w) libdbus \<Rightarrow> 64 word \<Rightarrow> ('w \<times> 'm, unit) eff" where
  "push_uint64 L v = append_or_throw L At_uint64 (Raw64 v)"

definition push_floating_point :: "('m, 'i, 'w) libdbus \<Rightarrow> 64 word \<Rightarrow> ('w \<times> 'm, unit) eff" where
  "push_floating_point L v = append_or_throw L At_floating_point (Raw64 v)"

text \<open>The size that is passed with the string is not used: libdbus reads up to the first zero.\<close>

definition push_stringn ::
  "('m, 'i, 'w) libdbus \<Rightarrow> string \<Rightarrow> nat \<Rightarrow> ('w \<times> 'm, unit) eff" where
  "push_stringn L v n = append_or_throw L At_string (Raw_str (c_str v))"

definition push_object_path :: "('m, 'i, 'w) libdbus \<Rightarrow> string \<Rightarrow> ('w \<times> 'm, unit) eff" where
  "push_object_path L v = append_or_throw L At_object_path (Raw_str (c_str v))"

definition push_signature :: "('m, 'i, 'w) libdbus \<Rightarrow> string \<Rightarrow> ('w \<times> 'm, unit) eff" where
  "push_signature L v = append_or_throw L At_signature (Raw_str (c_str v))"

definition push_unix_fd :: "('m, 'i, 'w) libdbus \<Rightarrow> 32 word \<Rightarrow> ('w \<times> 'm, unit) eff" where
  "push_unix_fd L v = append_or_throw L At_unix_fd (Raw32 v)"

text \<open>Opening a container yields the iterator of the sub-writer.\<close>

definition open_or_throw ::
  "('m, 'i, 'w) libdbus \<Rightarrow> argument_type \<Rightarrow> string option \<Rightarrow> ('w \<times> 'm, 'w) eff" where
  "open_or_throw L ty sg wm =
     (case iter_open_container L (fst wm) (at_code ty) sg (snd wm) of (success, w', s, m') \<Rightarrow>
        if \<not> success then (Inl (Runtime_error ''Problem opening container''), (w', m'))
        else (Inr s, (w', m')))"

definition open_array :: "('m, 'i, 'w) libdbus \<Rightarrow> string \<Rightarrow> ('w \<times> 'm, 'w) eff" where
  "open_array L sg = open_or_throw L At_array (Some (c_str sg))"

definition open_structure :: "('m, 'i, 'w) libdbus \<Rightarrow> ('w \<times> 'm, 'w) eff" where
  "open_structure L = open_or_throw L At_structure None"

definition open_variant :: "('m, 'i, 'w) libdbus \<Rightarrow> string \<Rightarrow> ('w \<times> 'm, 'w) eff" where
  "open_variant L sg = open_or_throw L At_variant (Some (c_str sg))"

definition open_dict_entry :: "('m, 'i, 'w) libdbus \<Rightarrow> ('w \<times> 'm, 'w) eff" where
  "open_dict_entry L = open_or_throw L At_dictionary_entry None"

text \<open>The result of \<open>dbus_message_iter_close_container\<close> is not looked at.\<close>

definition close_any :: "('m, 'i, 'w) libdbus \<Rightarrow> 'w \<Rightarrow> ('w \<times> 'm, unit) eff" where
  "close_any L s wm = (Inr (), iter_close_container L (fst wm) s (snd wm))"

definition close_array :: "('m, 'i, 'w) libdbus \<Rightarrow> 'w \<Rightarrow> ('w \<times> 'm, unit) eff" where
  "close_array L s = close_any L s"

definition close_structure :: "('m, 'i, 'w) libdbus \<Rightarrow> 'w \<Rightarrow> ('w \<times> 'm, unit) eff" where
  "close_structure L s = close_any L s"

definition close_variant :: "('m, 'i, 'w) libdbus \<Rightarrow> 'w \<Rightarrow> ('w \<times> 'm, unit) eff" where
  "close_variant L s = close_any L s"

definition close_dict_entry :: "('m, 'i, 'w) libdbus \<Rightarrow> 'w \<Rightarrow> ('w \<times> 'm, unit) eff" where
  "close_dict_entry L s = close_any L s"

text \<open>
  Working with a sub-writer: the code between \<open>open_...\<close> and \<open>close_...\<close> runs on the sub-writer's
  iterator and the shared message. The result is the sub-writer's last iterator, which is what is
  handed to \<open>close_...\<close>.
\<close>

definition on_sub :: "'w \<Rightarrow> ('w \<times> 'm, unit) eff \<Rightarrow> ('w \<times> 'm, 'w) eff" where
  "on_sub s body wm =
     (case body (s, snd wm) of
        (Inl e, (s', m')) \<Rightarrow> (Inl e, (fst wm, m'))
      | (Inr _, (s', m')) \<Rightarrow> (Inr s', (fst wm, m')))"

section \<open>Messages\<close>

text \<open>
  The constructor of \<open>Message\<close> takes what libdbus returned; a null pointer (no memory, or an
  argument that libdbus rejects) throws.
\<close>

definition construct_message :: "'m option \<Rightarrow> exn + 'm" where
  "construct_message m =
     (case m of
        None \<Rightarrow> Inl (Runtime_error
          ''Precondition violated, cannot construct Message from null DBusMessage.'')
      | Some x \<Rightarrow> Inr x)"

definition make_method_call ::
  "('m, 'i, 'w) libdbus \<Rightarrow> string \<Rightarrow> string \<Rightarrow> string \<Rightarrow> string \<Rightarrow> exn + 'm" where
  "make_method_call L destination path interface method =
     construct_message (message_new_method_call L
       (c_str destination) (c_str path) (c_str interface) (c_str method))"

definition make_method_return :: "('m, 'i, 'w) libdbus \<Rightarrow> 'm \<Rightarrow> exn + 'm" where
  "make_method_return L msg = construct_message (message_new_method_return L msg)"

definition make_signal :: "('m, 'i, 'w) libdbus \<Rightarrow> string \<Rightarrow> string \<Rightarrow> string \<Rightarrow> exn + 'm" where
  "make_signal L path interface name =
     construct_message (message_new_signal L (c_str path) (c_str interface) (c_str name))"

definition make_error :: "('m, 'i, 'w) libdbus \<Rightarrow> 'm \<Rightarrow> string \<Rightarrow> string \<Rightarrow> exn + 'm" where
  "make_error L in_reply_to name desc =
     construct_message (message_new_error L in_reply_to (c_str name) (c_str desc))"

definition from_raw_message :: "'m option \<Rightarrow> exn + 'm" where
  "from_raw_message m = construct_message m"

definition clone_message :: "('m, 'i, 'w) libdbus \<Rightarrow> 'm \<Rightarrow> exn + 'm" where
  "clone_message L m = construct_message (message_copy L m)"

text \<open>The factory hands every call on.\<close>

definition factory_make_method_call ::
  "('m, 'i, 'w) libdbus \<Rightarrow> string \<Rightarrow> string \<Rightarrow> string \<Rightarrow> string \<Rightarrow> exn + 'm" where
  "factory_make_method_call L destination path interface method =
     make_method_call L destination path interface method"

definition factory_make_method_return :: "('m, 'i, 'w) libdbus \<Rightarrow> 'm \<Rightarrow> exn + 'm" where
  "factory_make_method_return L msg = make_method_return L msg"

definition factory_make_signal ::
  "('m, 'i, 'w) libdbus \<Rightarrow> string \<Rightarrow> string \<Rightarrow> string \<Rightarrow> exn + 'm" where
  "factory_make_signal L path interface name = make_signal L path interface name"

definition factory_make_error ::
  "('m, 'i, 'w) libdbus \<Rightarrow> 'm \<Rightarrow> string \<Rightarrow> string \<Rightarrow> exn + 'm" where
  "factory_make_error L in_reply_to name desc = make_error L in_reply_to name desc"

text \<open>Accessors. All but \<open>type\<close> and \<open>expects_reply\<close> make a \<open>std::string\<close> from what libdbus
  returns, which is null for a field the message does not have.\<close>

definition msg_type :: "('m, 'i, 'w) libdbus \<Rightarrow> 'm \<Rightarrow> message_type" where
  "msg_type L m = message_type_of (message_get_type L m)"

definition msg_expects_reply :: "('m, 'i, 'w) libdbus \<Rightarrow> 'm \<Rightarrow> bool" where
  "msg_expects_reply L m = (\<not> message_get_no_reply L m)"

definition msg_path :: "('m, 'i, 'w) libdbus \<Rightarrow> 'm \<Rightarrow> exn + string" where
  "msg_path L m =
     (case string_from_chars (message_get_path L m) of
        Inl e \<Rightarrow> Inl e | Inr s \<Rightarrow> make_object_path L s)"

definition msg_member :: "('m, 'i, 'w) libdbus \<Rightarrow> 'm \<Rightarrow> exn + string" where
  "msg_member L m = string_from_chars (message_get_member L m)"

definition msg_signature :: "('m, 'i, 'w) libdbus \<Rightarrow> 'm \<Rightarrow> exn + string" where
  "msg_signature L m = string_from_chars (message_get_signature L m)"

definition msg_interface :: "('m, 'i, 'w) libdbus \<Rightarrow> 'm \<Rightarrow> exn + string" where
  "msg_interface L m = string_from_chars (message_get_interface L m)"

definition msg_destination :: "('m, 'i, 'w) libdbus \<Rightarrow> 'm \<Rightarrow> exn + string" where
  "msg_destination L m = string_from_chars (message_get_destination L m)"

definition msg_sender :: "('m, 'i, 'w) libdbus \<Rightarrow> 'm \<Rightarrow> exn + string" where
  "msg_sender L m = string_from_chars (message_get_sender L m)"

definition msg_error :: "('m, 'i, 'w) libdbus \<Rightarrow> 'm \<Rightarrow> exn + dbus_error" where
  "msg_error L m =
     (if msg_type L m \<noteq> Mt_error
      then Inl (Runtime_error ''Message does not contain error information'')
      else Inr (set_error_from_message L m))"

definition msg_reader :: "('m, 'i, 'w) libdbus \<Rightarrow> 'm \<Rightarrow> exn + 'i" where
  "msg_reader L m =
     (case iter_init L m of (success, i) \<Rightarrow>
        if \<not> success
        then Inl (Runtime_error ''Could not initialize reader, message does not have arguments'')
        else Inr i)"

definition msg_writer :: "('m, 'i, 'w) libdbus \<Rightarrow> 'm \<Rightarrow> 'w \<times> 'm" where
  "msg_writer L m = (iter_init_append L m, m)"

definition ensure_serial_larger_than_zero_for_testing :: "('m, 'i, 'w) libdbus \<Rightarrow> 'm \<Rightarrow> 'm" where
  "ensure_serial_larger_than_zero_for_testing L m = message_set_serial L 2 m"

section \<open>Running the operations\<close>

lemma ensure_then:
  "then_eff (ensure_argument_type_or_throw L t) m i =
     (if reader_type L i = t then m i
      else (Inl (Runtime_error (mismatch_text t (reader_type L i))), i))"
  by (simp add: then_eff_def bind_eff_def ensure_argument_type_or_throw_def reader_type_def Let_def)

lemmas pop_defs = pop_byte_def pop_boolean_def pop_int16_def pop_uint16_def pop_int32_def
  pop_uint32_def pop_int64_def pop_uint64_def pop_floating_point_def pop_string_def
  pop_object_path_def pop_signature_def pop_unix_fd_def

lemmas push_defs = push_byte_def push_boolean_def push_int16_def push_uint16_def push_int32_def
  push_uint32_def push_int64_def push_uint64_def push_floating_point_def push_stringn_def
  push_object_path_def push_signature_def push_unix_fd_def

lemmas pop_container_defs = pop_array_def pop_structure_def pop_variant_def pop_dict_entry_def

lemmas open_defs = open_array_def open_structure_def open_variant_def open_dict_entry_def

lemmas close_defs = close_array_def close_structure_def close_variant_def close_dict_entry_def
  close_any_def

lemma get_basic_next_run [eff_simps]: "get_basic_next L get i = (Inr (get i), iter_next L i)"
  by (simp add: get_basic_next_def)

lemma pop_string_unchecked_run [eff_simps]:
  "pop_string_unchecked L i = (Inr (iter_get_basic_str L i), iter_next L i)"
  by (simp add: pop_string_unchecked_def eff_simps)

lemma reader_type_den:
  "reads L den \<Longrightarrow> den i (d # ds) \<Longrightarrow> reader_type L i = argument_type_of (dtype d)"
  by (simp add: reader_type_def reads_type)

lemma reader_type_end: "reads L den \<Longrightarrow> den i [] \<Longrightarrow> reader_type L i = At_invalid"
  by (simp add: reader_type_def reads_end)

lemma reader_type_basic:
  "reads L den \<Longrightarrow> den i (D_basic (at_code t) r # ds) \<Longrightarrow> at_named t \<Longrightarrow> reader_type L i = t"
  by (simp add: reader_type_den)

text \<open>What each \<open>pop\<close> yields on a value of its own type.\<close>

lemma pop_basic_ok:
  assumes "reads L den" and "den i (D_basic (at_code t) r # ds)" and "at_named t"
    and "\<And>i. get_basic_is L i r \<Longrightarrow> get i = v"
  shows "then_eff (ensure_argument_type_or_throw L t) (get_basic_next L get) i
           = (Inr v, iter_next L i) \<and> den (iter_next L i) ds"
proof -
  have "get i = v"
    using assms(4) reads_basic [OF assms(1,2)] .
  then show ?thesis
    using reads_next [OF assms(1,2)] reader_type_basic [OF assms(1-3)]
    by (simp add: ensure_then eff_simps)
qed

lemma pop_string_ok:
  assumes "reads L den" and "den i (D_basic (at_code At_string) (Raw_str s) # ds)"
  shows "pop_string L i = (Inr (Some s), iter_next L i) \<and> den (iter_next L i) ds"
  unfolding pop_string_def pop_string_unchecked_def
  by (rule pop_basic_ok [OF assms]) simp_all

lemma pop_object_path_ok:
  assumes "reads L den" and "den i (D_basic (at_code At_object_path) (Raw_str s) # ds)"
    and "validate_path L (c_str s)"
  shows "pop_object_path L i = (Inr s, iter_next L i) \<and> den (iter_next L i) ds"
  using reads_next [OF assms(1,2)] reader_type_basic [OF assms(1,2)] reads_basic [OF assms(1,2)]
    assms(3)
  by (simp add: pop_object_path_def ensure_then eff_simps string_from_chars_def
      make_object_path_def)

lemma pop_signature_ok:
  assumes "reads L den" and "den i (D_basic (at_code At_signature) (Raw_str s) # ds)"
  shows "pop_signature L i = (Inr s, iter_next L i) \<and> den (iter_next L i) ds"
  using reads_next [OF assms(1,2)] reader_type_basic [OF assms(1,2)] reads_basic [OF assms(1,2)]
  by (simp add: pop_signature_def ensure_then eff_simps string_from_chars_def)

text \<open>What the writer operations do under the promises of libdbus.\<close>

lemma append_or_throw_ok:
  assumes "writes L ok wden" and "wden m ((w, h, vs) # st)"
    and "frame_accepts h vs (D_basic (at_code t) r)" and "ok (at_code t) r"
  obtains w' m' where "append_or_throw L t r (w, m) = (Inr (), (w', m'))"
    and "wden m' ((w', h, vs @ [D_basic (at_code t) r]) # st)"
proof -
  obtain w' m' where "iter_append_basic L w (at_code t) r m = (True, w', m')"
    and w: "wden m' ((w', h, vs @ [D_basic (at_code t) r]) # st)"
    by (rule writes_append [OF assms])
  then have "append_or_throw L t r (w, m) = (Inr (), (w', m'))"
    by (simp add: append_or_throw_def)
  then show thesis using w by (rule that)
qed

lemma open_or_throw_ok:
  assumes "writes L ok wden" and "wden m ((w, h, vs) # st)"
    and "frame_opens h vs (at_code t) sg"
  obtains w' s m' where "open_or_throw L t sg (w, m) = (Inr s, (w', m'))"
    and "wden m' ((s, Some (at_code t, sg), []) # (w', h, vs) # st)"
proof -
  obtain w' s m' where "iter_open_container L w (at_code t) sg m = (True, w', s, m')"
    and w: "wden m' ((s, Some (at_code t, sg), []) # (w', h, vs) # st)"
    by (rule writes_open [OF assms])
  then have "open_or_throw L t sg (w, m) = (Inr s, (w', m'))"
    by (simp add: open_or_throw_def)
  then show thesis using w by (rule that)
qed

lemma close_any_ok:
  assumes "writes L ok wden" and "wden m ((s, Some (c, sg), xs) # (w, h, vs) # st)"
    and "frame_complete c xs" and "frame_accepts h vs (D_container c sg xs)"
  obtains w' m' where "close_any L s (w, m) = (Inr (), (w', m'))"
    and "wden m' ((w', h, vs @ [D_container c sg xs]) # st)"
proof -
  obtain w' m' where "iter_close_container L w s m = (w', m')"
    and w: "wden m' ((w', h, vs @ [D_container c sg xs]) # st)"
    by (rule writes_close [OF assms])
  then have "close_any L s (w, m) = (Inr (), (w', m'))"
    by (simp add: close_any_def)
  then show thesis using w by (rule that)
qed

text \<open>
  C36. Every typed read checks before it touches the message: when the argument under the iterator
  is not of the type that is asked for, each of the thirteen \<open>pop\<close> operations throws the mismatch
  text with both type names and the iterator does not move, so the caller can still read the
  argument as what it is.
\<close>

theorem pop_mismatch:
  "(reader_type L i \<noteq> At_byte \<longrightarrow>
      pop_byte L i = (Inl (Runtime_error (mismatch_text At_byte (reader_type L i))), i))
   \<and> (reader_type L i \<noteq> At_boolean \<longrightarrow>
      pop_boolean L i = (Inl (Runtime_error (mismatch_text At_boolean (reader_type L i))), i))
   \<and> (reader_type L i \<noteq> At_int16 \<longrightarrow>
      pop_int16 L i = (Inl (Runtime_error (mismatch_text At_int16 (reader_type L i))), i))
   \<and> (reader_type L i \<noteq> At_uint16 \<longrightarrow>
      pop_uint16 L i = (Inl (Runtime_error (mismatch_text At_uint16 (reader_type L i))), i))
   \<and> (reader_type L i \<noteq> At_int32 \<longrightarrow>
      pop_int32 L i = (Inl (Runtime_error (mismatch_text At_int32 (reader_type L i))), i))
   \<and> (reader_type L i \<noteq> At_uint32 \<longrightarrow>
      pop_uint32 L i = (Inl (Runtime_error (mismatch_text At_uint32 (reader_type L i))), i))
   \<and> (reader_type L i \<noteq> At_int64 \<longrightarrow>
      pop_int64 L i = (Inl (Runtime_error (mismatch_text At_int64 (reader_type L i))), i))
   \<and> (reader_type L i \<noteq> At_uint64 \<longrightarrow>
      pop_uint64 L i = (Inl (Runtime_error (mismatch_text At_uint64 (reader_type L i))), i))
   \<and> (reader_type L i \<noteq> At_floating_point \<longrightarrow>
      pop_floating_point L i =
        (Inl (Runtime_error (mismatch_text At_floating_point (reader_type L i))), i))
   \<and> (reader_type L i \<noteq> At_string \<longrightarrow>
      pop_string L i = (Inl (Runtime_error (mismatch_text At_string (reader_type L i))), i))
   \<and> (reader_type L i \<noteq> At_object_path \<longrightarrow>
      pop_object_path L i =
        (Inl (Runtime_error (mismatch_text At_object_path (reader_type L i))), i))
   \<and> (reader_type L i \<noteq> At_signature \<longrightarrow>
      pop_signature L i = (Inl (Runtime_error (mismatch_text At_signature (reader_type L i))), i))
   \<and> (reader_type L i \<noteq> At_unix_fd \<longrightarrow>
      pop_unix_fd L i = (Inl (Runtime_error (mismatch_text At_unix_fd (reader_type L i))), i))"
  by (simp add: pop_defs ensure_then)

theorem pop_mismatch_witness:
  "reader_type list_libdbus [D_basic 115 (Raw_str ''x'')] = At_string
   \<and> pop_int32 list_libdbus [D_basic 115 (Raw_str ''x'')] =
       (Inl (Runtime_error (mismatch_text At_int32 At_string)), [D_basic 115 (Raw_str ''x'')])"
proof -
  let ?i = "[D_basic 115 (Raw_str ''x'')]"
  have t: "reader_type list_libdbus ?i = At_string"
    by (simp add: reader_type_def list_libdbus_def argument_type_of_eq_iff)
  then show ?thesis
    using pop_mismatch [of list_libdbus ?i] by simp
qed

end
