(* ===== verification/Type_Mapper.thy ===== *)
theory Type_Mapper
  imports Message
begin

text \<open>
  \<open>TypeMapper<T>\<close>: include/core/dbus/helper/type\_mapper.h and its specialisations in
  include/core/dbus/types/ (vectors, maps, pairs, tuples, strings, \<open>Struct\<close>).

  The argument of the template is a value of the datatype \<open>ctype\<close>, the C++ types that have a
  codec; choosing a specialisation is a case of \<open>type_mapper\<close>. Each specialisation is a
  definition that gives the four static members.
\<close>

section \<open>C++ types\<close>

datatype ctype =
    T_byte | T_boolean | T_int16 | T_uint16 | T_int32 | T_uint32 | T_int64 | T_uint64
  | T_float | T_double | T_string | T_object_path | T_signature | T_unix_fd
  | T_variant | T_any
  | T_vector ctype
  | T_map ctype ctype
  | T_pair ctype ctype
  | T_tuple "ctype list"
  | T_struct ctype
  | T_typed_variant ctype

section \<open>Specialisations\<close>

record mapper =
  type_value :: argument_type
  is_basic_type :: bool
  requires_signature :: bool
  signature_text :: string

text \<open>The primary template declares the members and defines none of them.\<close>

definition tm_primary :: mapper where
  "tm_primary = \<lparr>type_value = At_invalid, is_basic_type = False, requires_signature = False,
     signature_text = []\<rparr>"

definition tm_boolean :: mapper where
  "tm_boolean = \<lparr>type_value = At_boolean, is_basic_type = True, requires_signature = True,
     signature_text = ''b''\<rparr>"

definition tm_byte :: mapper where
  "tm_byte = \<lparr>type_value = At_byte, is_basic_type = True, requires_signature = True,
     signature_text = ''y''\<rparr>"

definition tm_int16 :: mapper where
  "tm_int16 = \<lparr>type_value = At_int16, is_basic_type = True, requires_signature = True,
     signature_text = ''n''\<rparr>"

definition tm_uint16 :: mapper where
  "tm_uint16 = \<lparr>type_value = At_uint16, is_basic_type = True, requires_signature = True,
     signature_text = ''q''\<rparr>"

definition tm_int32 :: mapper where
  "tm_int32 = \<lparr>type_value = At_int32, is_basic_type = True, requires_signature = True,
     signature_text = ''i''\<rparr>"

definition tm_uint32 :: mapper where
  "tm_uint32 = \<lparr>type_value = At_uint32, is_basic_type = True, requires_signature = True,
     signature_text = ''u''\<rparr>"

definition tm_int64 :: mapper where
  "tm_int64 = \<lparr>type_value = At_int64, is_basic_type = True, requires_signature = True,
     signature_text = ''x''\<rparr>"

definition tm_uint64 :: mapper where
  "tm_uint64 = \<lparr>type_value = At_uint64, is_basic_type = True, requires_signature = True,
     signature_text = ''t''\<rparr>"

definition tm_float :: mapper where
  "tm_float = \<lparr>type_value = At_floating_point, is_basic_type = True, requires_signature = True,
     signature_text = ''d''\<rparr>"

definition tm_double :: mapper where
  "tm_double = \<lparr>type_value = At_floating_point, is_basic_type = True, requires_signature = True,
     signature_text = ''d''\<rparr>"

definition tm_object_path :: mapper where
  "tm_object_path = \<lparr>type_value = At_object_path, is_basic_type = True, requires_signature = True,
     signature_text = ''o''\<rparr>"

definition tm_signature :: mapper where
  "tm_signature = \<lparr>type_value = At_signature, is_basic_type = True, requires_signature = True,
     signature_text = ''g''\<rparr>"

definition tm_unix_fd :: mapper where
  "tm_unix_fd = \<lparr>type_value = At_unix_fd, is_basic_type = True, requires_signature = True,
     signature_text = ''h''\<rparr>"

definition tm_variant :: mapper where
  "tm_variant = \<lparr>type_value = At_variant, is_basic_type = True, requires_signature = True,
     signature_text = ''v''\<rparr>"

definition tm_string :: mapper where
  "tm_string = \<lparr>type_value = At_string, is_basic_type = False, requires_signature = True,
     signature_text = ''s''\<rparr>"

definition tm_vector :: "mapper \<Rightarrow> mapper" where
  "tm_vector t = \<lparr>type_value = At_array, is_basic_type = False, requires_signature = True,
     signature_text = ''a'' @ signature_text t\<rparr>"

text \<open>types/stl/list.h; there is no codec that goes with it, see the header.\<close>

definition tm_list :: "mapper \<Rightarrow> mapper" where
  "tm_list t = \<lparr>type_value = At_array, is_basic_type = False, requires_signature = True,
     signature_text = ''a'' @ signature_text t\<rparr>"

definition tm_pair :: "mapper \<Rightarrow> mapper \<Rightarrow> mapper" where
  "tm_pair t u = \<lparr>type_value = At_dictionary_entry, is_basic_type = False,
     requires_signature = False,
     signature_text = ''{'' @ signature_text t @ signature_text u @ ''}''\<rparr>"

definition tm_map :: "mapper \<Rightarrow> mapper \<Rightarrow> mapper" where
  "tm_map t u = \<lparr>type_value = At_array, is_basic_type = False, requires_signature = True,
     signature_text = ''a'' @ signature_text (tm_pair t u)\<rparr>"

text \<open>\<open>StaticRecursiveSignature<Tuple, n, size>\<close> counts \<open>n\<close> down and takes element
  \<open>size - n - 1\<close>.\<close>

fun static_recursive_signature :: "mapper list \<Rightarrow> nat \<Rightarrow> nat \<Rightarrow> string" where
  "static_recursive_signature ts 0 sz = signature_text (ts ! (sz - 1))"
| "static_recursive_signature ts (Suc n) sz =
     signature_text (ts ! (sz - Suc n - 1)) @ static_recursive_signature ts n sz"

definition tm_tuple :: "mapper list \<Rightarrow> mapper" where
  "tm_tuple ts = \<lparr>type_value = At_structure, is_basic_type = False, requires_signature = False,
     signature_text = static_recursive_signature ts (length ts - 1) (length ts)\<rparr>"

definition tm_struct :: "mapper \<Rightarrow> mapper" where
  "tm_struct t = \<lparr>type_value = At_structure, is_basic_type = False, requires_signature = False,
     signature_text = ''('' @ signature_text t @ '')''\<rparr>"

text \<open>\<open>types::Any\<close> and \<open>TypedVariant<T>\<close> have no specialisation.\<close>

fun type_mapper :: "ctype \<Rightarrow> mapper" where
  "type_mapper T_byte = tm_byte"
| "type_mapper T_boolean = tm_boolean"
| "type_mapper T_int16 = tm_int16"
| "type_mapper T_uint16 = tm_uint16"
| "type_mapper T_int32 = tm_int32"
| "type_mapper T_uint32 = tm_uint32"
| "type_mapper T_int64 = tm_int64"
| "type_mapper T_uint64 = tm_uint64"
| "type_mapper T_float = tm_float"
| "type_mapper T_double = tm_double"
| "type_mapper T_string = tm_string"
| "type_mapper T_object_path = tm_object_path"
| "type_mapper T_signature = tm_signature"
| "type_mapper T_unix_fd = tm_unix_fd"
| "type_mapper T_variant = tm_variant"
| "type_mapper T_any = tm_primary"
| "type_mapper (T_vector t) = tm_vector (type_mapper t)"
| "type_mapper (T_map t u) = tm_map (type_mapper t) (type_mapper u)"
| "type_mapper (T_pair t u) = tm_pair (type_mapper t) (type_mapper u)"
| "type_mapper (T_tuple ts) = tm_tuple (map type_mapper ts)"
| "type_mapper (T_struct t) = tm_struct (type_mapper t)"
| "type_mapper (T_typed_variant t) = tm_primary"

definition signature :: "ctype \<Rightarrow> string" where
  "signature t = signature_text (type_mapper t)"

text \<open>\<open>helper::signature(args...)\<close> of include/core/dbus/helper/signature.h: the signatures of the
  arguments, one after the other.\<close>

fun helper_signature :: "ctype list \<Rightarrow> string" where
  "helper_signature [] = []"
| "helper_signature (t # ts) = signature t @ helper_signature ts"

section \<open>Signatures, equation by equation\<close>

lemma static_recursive_signature_drop:
  "n < length ts \<Longrightarrow>
     static_recursive_signature ts n (length ts)
       = concat (map signature_text (drop (length ts - n - 1) ts))"
proof (induction n)
  case 0
  then show ?case by (cases ts rule: rev_cases) simp_all
next
  case (Suc n)
  let ?k = "length ts - Suc n - 1"
  from Suc.prems have k: "?k < length ts" and next_k: "Suc ?k = length ts - n - 1"
    by simp_all
  have "drop ?k ts = ts ! ?k # drop (length ts - n - 1) ts"
    using Cons_nth_drop_Suc [OF k] next_k by simp
  then show ?case using Suc by simp
qed

lemma tm_tuple_signature:
  "ts \<noteq> [] \<Longrightarrow> signature_text (tm_tuple ts) = concat (map signature_text ts)"
  using static_recursive_signature_drop [of "length ts - 1" ts]
  by (cases ts) (simp_all add: tm_tuple_def)

lemmas tm_basic_defs = tm_primary_def tm_boolean_def tm_byte_def tm_int16_def tm_uint16_def
  tm_int32_def tm_uint32_def tm_int64_def tm_uint64_def tm_float_def tm_double_def
  tm_object_path_def tm_signature_def tm_unix_fd_def tm_variant_def tm_string_def

lemma signature_simps [simp]:
  "signature T_byte = ''y''" "signature T_boolean = ''b''" "signature T_int16 = ''n''"
  "signature T_uint16 = ''q''" "signature T_int32 = ''i''" "signature T_uint32 = ''u''"
  "signature T_int64 = ''x''" "signature T_uint64 = ''t''" "signature T_float = ''d''"
  "signature T_double = ''d''" "signature T_string = ''s''" "signature T_object_path = ''o''"
  "signature T_signature = ''g''" "signature T_unix_fd = ''h''" "signature T_variant = ''v''"
  "signature (T_vector t) = CHR ''a'' # signature t"
  "signature (T_map t u) = CHR ''a'' # signature (T_pair t u)"
  "signature (T_pair t u) = CHR ''{'' # signature t @ signature u @ ''}''"
  "signature (T_struct t) = CHR ''('' # signature t @ '')''"
  by (simp_all add: signature_def tm_basic_defs tm_vector_def tm_map_def tm_pair_def
      tm_struct_def)

lemma signature_tuple [simp]:
  "ts \<noteq> [] \<Longrightarrow> signature (T_tuple ts) = concat (map signature ts)"
  by (simp add: signature_def [abs_def] tm_tuple_signature o_def)

lemma helper_signature_concat: "helper_signature ts = concat (map signature ts)"
  by (induction ts) simp_all

section \<open>Which types are single complete types\<close>

text \<open>
  \<open>basic_type t\<close>: a type that may be the key of a dictionary. \<open>single_type t\<close>: the wire
  form of \<open>t\<close> is one value, and the codec writes what the signature announces. \<open>multi_type t\<close>:
  the wire form is a sequence of such values, which is what the arguments of a message and the
  members of a structure are. A tuple is written member by member without a structure around
  it, so it is a sequence; \<open>Struct<T>\<close> puts the structure around it.
\<close>

fun basic_type :: "ctype \<Rightarrow> bool" where
  "basic_type T_byte = True"
| "basic_type T_boolean = True"
| "basic_type T_int16 = True"
| "basic_type T_uint16 = True"
| "basic_type T_int32 = True"
| "basic_type T_uint32 = True"
| "basic_type T_int64 = True"
| "basic_type T_uint64 = True"
| "basic_type T_float = True"
| "basic_type T_double = True"
| "basic_type T_string = True"
| "basic_type T_object_path = True"
| "basic_type T_signature = True"
| "basic_type T_unix_fd = True"
| "basic_type _ = False"

text \<open>The key of a \<open>std::map\<close> needs an order: not for file descriptors, and not in general for
  floating point numbers.\<close>

fun key_type :: "ctype \<Rightarrow> bool" where
  "key_type t \<longleftrightarrow> basic_type t \<and> t \<noteq> T_unix_fd \<and> t \<noteq> T_float \<and> t \<noteq> T_double"

fun single_type :: "ctype \<Rightarrow> bool" and multi_type :: "ctype \<Rightarrow> bool" where
  "single_type T_variant = True"
| "single_type (T_vector t) = single_type t"
| "single_type (T_map k t) = (key_type k \<and> single_type t)"
| "single_type (T_struct t) = multi_type t"
| "single_type (T_typed_variant t) = False"
| "single_type T_any = False"
| "single_type (T_pair t u) = False"
| "single_type (T_tuple ts) = False"
| "single_type t = basic_type t"
| "multi_type (T_tuple ts) = (ts \<noteq> [] \<and> (\<forall>t \<in> set ts. multi_type t))"
| "multi_type (T_vector t) = single_type t"
| "multi_type (T_map k t) = (key_type k \<and> single_type t)"
| "multi_type (T_struct t) = multi_type t"
| "multi_type (T_typed_variant t) = False"
| "multi_type T_variant = True"
| "multi_type T_any = False"
| "multi_type (T_pair t u) = False"
| "multi_type t = basic_type t"

end
