(* ===== verification/Codec.thy ===== *)
theory Codec
  imports Type_Mapper
begin

text \<open>
  \<open>Codec<T>\<close>: include/core/dbus/codec.h, its specialisations in include/core/dbus/types/
  (struct.h, variant.h, any.h, stl/string.h, stl/vector.h, stl/map.h, stl/tuple.h) and the
  operators of include/core/dbus/message\_streaming\_operators.h.

  Each specialisation is a pair of definitions over HOL types, with the codecs of its
  template arguments as arguments. \<open>encode\<close> and \<open>decode\<close> choose the specialisation for a type
  of \<open>ctype\<close>, as template instantiation does, for values of the universe \<open>cval\<close>. C++ gives them
  only values of the type they are instantiated at; on others the choice is arbitrary.

  \<open>decode\<close> has the current contents of the variable it decodes into as an argument, because some
  specialisations keep part of it. A \<open>std::map\<close> is the list of its entries in key order. The
  conversions between \<open>float\<close> and \<open>double\<close> are those of the machine and an argument \<open>F\<close> of the
  model. When a decode throws, the model does not show the half-filled variable.
\<close>

section \<open>Basic types\<close>

definition codec_void_encode :: "('w \<times> 'm, unit) eff" where
  "codec_void_encode = return_eff ()"

definition codec_void_decode :: "('i, unit) eff" where
  "codec_void_decode = return_eff ()"

definition codec_byte_encode :: "('m, 'i, 'w) libdbus \<Rightarrow> 8 word \<Rightarrow> ('w \<times> 'm, unit) eff" where
  "codec_byte_encode L v = push_byte L v"

definition codec_byte_decode :: "('m, 'i, 'w) libdbus \<Rightarrow> ('i, 8 word) eff" where
  "codec_byte_decode L = pop_byte L"

definition codec_boolean_encode :: "('m, 'i, 'w) libdbus \<Rightarrow> bool \<Rightarrow> ('w \<times> 'm, unit) eff" where
  "codec_boolean_encode L v = push_boolean L v"

definition codec_boolean_decode :: "('m, 'i, 'w) libdbus \<Rightarrow> ('i, bool) eff" where
  "codec_boolean_decode L = pop_boolean L"

definition codec_int16_encode :: "('m, 'i, 'w) libdbus \<Rightarrow> 16 word \<Rightarrow> ('w \<times> 'm, unit) eff" where
  "codec_int16_encode L v = push_int16 L v"

definition codec_int16_decode :: "('m, 'i, 'w) libdbus \<Rightarrow> ('i, 16 word) eff" where
  "codec_int16_decode L = pop_int16 L"

definition codec_uint16_encode :: "('m, 'i, 'w) libdbus \<Rightarrow> 16 word \<Rightarrow> ('w \<times> 'm, unit) eff" where
  "codec_uint16_encode L v = push_uint16 L v"

definition codec_uint16_decode :: "('m, 'i, 'w) libdbus \<Rightarrow> ('i, 16 word) eff" where
  "codec_uint16_decode L = pop_uint16 L"

definition codec_int32_encode :: "('m, 'i, 'w) libdbus \<Rightarrow> 32 word \<Rightarrow> ('w \<times> 'm, unit) eff" where
  "codec_int32_encode L v = push_int32 L v"

definition codec_int32_decode :: "('m, 'i, 'w) libdbus \<Rightarrow> ('i, 32 word) eff" where
  "codec_int32_decode L = pop_int32 L"

definition codec_uint32_encode :: "('m, 'i, 'w) libdbus \<Rightarrow> 32 word \<Rightarrow> ('w \<times> 'm, unit) eff" where
  "codec_uint32_encode L v = push_uint32 L v"

definition codec_uint32_decode :: "('m, 'i, 'w) libdbus \<Rightarrow> ('i, 32 word) eff" where
  "codec_uint32_decode L = pop_uint32 L"

definition codec_int64_encode :: "('m, 'i, 'w) libdbus \<Rightarrow> 64 word \<Rightarrow> ('w \<times> 'm, unit) eff" where
  "codec_int64_encode L v = push_int64 L v"

definition codec_int64_decode :: "('m, 'i, 'w) libdbus \<Rightarrow> ('i, 64 word) eff" where
  "codec_int64_decode L = pop_int64 L"

definition codec_uint64_encode :: "('m, 'i, 'w) libdbus \<Rightarrow> 64 word \<Rightarrow> ('w \<times> 'm, unit) eff" where
  "codec_uint64_encode L v = push_uint64 L v"

definition codec_uint64_decode :: "('m, 'i, 'w) libdbus \<Rightarrow> ('i, 64 word) eff" where
  "codec_uint64_decode L = pop_uint64 L"

definition codec_double_encode :: "('m, 'i, 'w) libdbus \<Rightarrow> 64 word \<Rightarrow> ('w \<times> 'm, unit) eff" where
  "codec_double_encode L v = push_floating_point L v"

definition codec_double_decode :: "('m, 'i, 'w) libdbus \<Rightarrow> ('i, 64 word) eff" where
  "codec_double_decode L = pop_floating_point L"

record float_conversions =
  widen :: "32 word \<Rightarrow> 64 word"
  narrow :: "64 word \<Rightarrow> 32 word"

definition codec_float_encode ::
  "('m, 'i, 'w) libdbus \<Rightarrow> float_conversions \<Rightarrow> 32 word \<Rightarrow> ('w \<times> 'm, unit) eff" where
  "codec_float_encode L F v = push_floating_point L (widen F v)"

definition codec_float_decode ::
  "('m, 'i, 'w) libdbus \<Rightarrow> float_conversions \<Rightarrow> ('i, 32 word) eff" where
  "codec_float_decode L F = bind_eff (pop_floating_point L) (\<lambda>d. return_eff (narrow F d))"

definition codec_object_path_encode ::
  "('m, 'i, 'w) libdbus \<Rightarrow> string \<Rightarrow> ('w \<times> 'm, unit) eff" where
  "codec_object_path_encode L v = push_object_path L v"

definition codec_object_path_decode :: "('m, 'i, 'w) libdbus \<Rightarrow> ('i, string) eff" where
  "codec_object_path_decode L = pop_object_path L"

definition codec_signature_encode ::
  "('m, 'i, 'w) libdbus \<Rightarrow> string \<Rightarrow> ('w \<times> 'm, unit) eff" where
  "codec_signature_encode L v = push_signature L v"

definition codec_signature_decode :: "('m, 'i, 'w) libdbus \<Rightarrow> ('i, string) eff" where
  "codec_signature_decode L = pop_signature L"

definition codec_unix_fd_encode ::
  "('m, 'i, 'w) libdbus \<Rightarrow> 32 word \<Rightarrow> ('w \<times> 'm, unit) eff" where
  "codec_unix_fd_encode L v = push_unix_fd L v"

definition codec_unix_fd_decode :: "('m, 'i, 'w) libdbus \<Rightarrow> ('i, 32 word) eff" where
  "codec_unix_fd_decode L = pop_unix_fd L"

text \<open>A null string leaves the variable as it was.\<close>

definition codec_string_encode ::
  "('m, 'i, 'w) libdbus \<Rightarrow> string \<Rightarrow> ('w \<times> 'm, unit) eff" where
  "codec_string_encode L v = push_stringn L v (length v)"

definition codec_string_decode :: "('m, 'i, 'w) libdbus \<Rightarrow> string \<Rightarrow> ('i, string) eff" where
  "codec_string_decode L arg = bind_eff (pop_string L)
     (\<lambda>s. return_eff (case s of Some t \<Rightarrow> t | None \<Rightarrow> arg))"

text \<open>\<open>types::Any\<close> keeps the reader (\<open>None\<close>: the reader of a default-constructed \<open>Any\<close>), here as it is when
  the \<open>Any\<close> is read; the copies of an \<open>Any\<close> share it, see \<open>Variant_Objects\<close>. It is written as nothing at all.\<close>

definition codec_any_encode :: "'i option \<Rightarrow> ('w \<times> 'm, unit) eff" where
  "codec_any_encode a = return_eff ()"

definition codec_any_decode :: "('i, 'i option) eff" where
  "codec_any_decode i = (Inr (Some i), i)"

section \<open>Containers\<close>

definition codec_vector_encode ::
  "('m, 'i, 'w) libdbus \<Rightarrow> string \<Rightarrow> ('a \<Rightarrow> ('w \<times> 'm, unit) eff) \<Rightarrow> 'a list
     \<Rightarrow> ('w \<times> 'm, unit) eff" where
  "codec_vector_encode L sg enc arg =
     bind_eff (open_array L sg) (\<lambda>aw.
     bind_eff (on_sub aw (each_eff enc arg)) (\<lambda>aw.
     close_array L aw))"

text \<open>The code after \<open>pop_array\<close> and its like works on the sub-reader.\<close>

definition on_reader :: "'i \<Rightarrow> ('i, 'a) eff \<Rightarrow> ('i, 'a) eff" where
  "on_reader sub body i = (fst (body sub), i)"

definition codec_vector_decode ::
  "('m, 'i, 'w) libdbus \<Rightarrow> ('i, 'a) eff \<Rightarrow> 'a list \<Rightarrow> ('i, 'a list) eff" where
  "codec_vector_decode L dec out =
     bind_eff (pop_array L) (\<lambda>ar. on_reader ar
       (loop_eff (\<lambda>j. reader_type L j \<noteq> At_invalid)
         (\<lambda>out. bind_eff dec (\<lambda>value. return_eff (out @ [value]))) out))"

definition codec_pair_encode ::
  "('a \<Rightarrow> ('w \<times> 'm, unit) eff) \<Rightarrow> ('b \<Rightarrow> ('w \<times> 'm, unit) eff) \<Rightarrow> 'a \<times> 'b
     \<Rightarrow> ('w \<times> 'm, unit) eff" where
  "codec_pair_encode enc1 enc2 arg = then_eff (enc1 (fst arg)) (enc2 (snd arg))"

definition codec_pair_decode ::
  "('a \<Rightarrow> ('i, 'a) eff) \<Rightarrow> ('b \<Rightarrow> ('i, 'b) eff) \<Rightarrow> 'a \<times> 'b \<Rightarrow> ('i, 'a \<times> 'b) eff" where
  "codec_pair_decode dec1 dec2 arg =
     bind_eff (dec1 (fst arg)) (\<lambda>a. bind_eff (dec2 (snd arg)) (\<lambda>b. return_eff (a, b)))"

definition codec_map_encode ::
  "('m, 'i, 'w) libdbus \<Rightarrow> string \<Rightarrow> ('a \<times> 'b \<Rightarrow> ('w \<times> 'm, unit) eff) \<Rightarrow> ('a \<times> 'b) list
     \<Rightarrow> ('w \<times> 'm, unit) eff" where
  "codec_map_encode L sg enc arg =
     bind_eff (open_array L sg) (\<lambda>aw.
     bind_eff (on_sub aw (each_eff (\<lambda>element.
         bind_eff (open_dict_entry L) (\<lambda>de.
         bind_eff (on_sub de (enc element)) (\<lambda>de.
         close_dict_entry L de))) arg)) (\<lambda>aw.
     close_array L aw))"

text \<open>\<open>std::map::find\<close> with \<open>insert\<close> or assignment to \<open>it->second\<close>, for a strict order \<open>lt\<close>: two
  keys are the same when neither is less than the other.\<close>

fun map_put :: "('a \<Rightarrow> 'a \<Rightarrow> bool) \<Rightarrow> 'a \<Rightarrow> 'b \<Rightarrow> ('a \<times> 'b) list \<Rightarrow> ('a \<times> 'b) list" where
  "map_put lt k x [] = [(k, x)]"
| "map_put lt k x ((k', x') # m) =
     (if lt k' k then (k', x') # map_put lt k x m
      else if lt k k' then (k, x) # (k', x') # m
      else (k', x) # m)"

definition codec_map_decode ::
  "('m, 'i, 'w) libdbus \<Rightarrow> ('a \<Rightarrow> 'a \<Rightarrow> bool) \<Rightarrow> ('i, 'a \<times> 'b) eff
     \<Rightarrow> ('a \<times> 'b) list \<Rightarrow> ('i, ('a \<times> 'b) list) eff" where
  "codec_map_decode L lt dec out =
     (let out = [] in
      bind_eff (pop_array L) (\<lambda>array_reader. on_reader array_reader
        (loop_eff (\<lambda>j. reader_type L j \<noteq> At_invalid)
          (\<lambda>out. bind_eff (pop_dict_entry L) (\<lambda>de.
             bind_eff (on_reader de dec) (\<lambda>v. return_eff (map_put lt (fst v) (snd v) out))))
          out)))"

definition codec_struct_encode ::
  "('m, 'i, 'w) libdbus \<Rightarrow> ('a \<Rightarrow> ('w \<times> 'm, unit) eff) \<Rightarrow> 'a \<Rightarrow> ('w \<times> 'm, unit) eff" where
  "codec_struct_encode L enc arg =
     bind_eff (open_structure L) (\<lambda>sw.
     bind_eff (on_sub sw (enc arg)) (\<lambda>sw.
     close_structure L sw))"

definition codec_struct_decode ::
  "('m, 'i, 'w) libdbus \<Rightarrow> ('i, 'a) eff \<Rightarrow> ('i, 'a) eff" where
  "codec_struct_decode L dec = bind_eff (pop_structure L) (\<lambda>struct_reader. on_reader struct_reader dec)"

text \<open>\<open>CodecApply<Tuple, n, size>\<close> over the codecs of the members.\<close>

fun codec_apply_encode ::
  "('w \<times> 'm, unit) eff list \<Rightarrow> nat \<Rightarrow> nat \<Rightarrow> ('w \<times> 'm, unit) eff" where
  "codec_apply_encode encs 0 sz = encs ! (sz - 1)"
| "codec_apply_encode encs (Suc n) sz =
     then_eff (encs ! (sz - Suc n - 1)) (codec_apply_encode encs n sz)"

fun codec_apply_decode ::
  "('a \<Rightarrow> ('i, 'a) eff) list \<Rightarrow> nat \<Rightarrow> nat \<Rightarrow> 'a list \<Rightarrow> ('i, 'a list) eff" where
  "codec_apply_decode decs 0 sz t =
     bind_eff ((decs ! (sz - 1)) (t ! (sz - 1))) (\<lambda>x. return_eff (t[sz - 1 := x]))"
| "codec_apply_decode decs (Suc n) sz t =
     bind_eff ((decs ! (sz - Suc n - 1)) (t ! (sz - Suc n - 1)))
       (\<lambda>x. codec_apply_decode decs n sz (t[sz - Suc n - 1 := x]))"

definition codec_tuple_encode :: "('w \<times> 'm, unit) eff list \<Rightarrow> ('w \<times> 'm, unit) eff" where
  "codec_tuple_encode encs = codec_apply_encode encs (length encs - 1) (length encs)"

definition codec_tuple_decode ::
  "('a \<Rightarrow> ('i, 'a) eff) list \<Rightarrow> 'a list \<Rightarrow> ('i, 'a list) eff" where
  "codec_tuple_decode decs out = codec_apply_decode decs (length decs - 1) (length decs) out"

section \<open>Variants\<close>

text \<open>\<open>Variant::encode(writer)\<close> and \<open>Variant::decode(reader)\<close>: an empty \<open>std::function\<close> is
  \<open>None\<close>.\<close>

definition variant_encode :: "('w \<times> 'm, unit) eff option \<Rightarrow> ('w \<times> 'm, unit) eff" where
  "variant_encode encoder =
     (case encoder of
        None \<Rightarrow> throw_eff (Runtime_error ''Variant::encode: Missing an encoder specification.'')
      | Some e \<Rightarrow> e)"

definition variant_decode :: "('i, 'a) eff option \<Rightarrow> ('i, 'a) eff" where
  "variant_decode decoder =
     (case decoder of
        None \<Rightarrow> throw_eff (Runtime_error ''Variant::decode: Missing a decoder specification.'')
      | Some d \<Rightarrow> d)"

definition codec_variant_encode ::
  "('m, 'i, 'w) libdbus \<Rightarrow> string \<Rightarrow> ('w \<times> 'm, unit) eff option \<Rightarrow> ('w \<times> 'm, unit) eff" where
  "codec_variant_encode L sg encoder =
     bind_eff (open_variant L sg) (\<lambda>vw.
     bind_eff (on_sub vw (variant_encode encoder)) (\<lambda>vw.
     close_variant L vw))"

definition codec_variant_decode ::
  "('m, 'i, 'w) libdbus \<Rightarrow> ('i, 'a) eff option \<Rightarrow> ('i, 'a) eff" where
  "codec_variant_decode L decoder =
     bind_eff (pop_variant L) (\<lambda>vr. on_reader vr (variant_decode decoder))"

end
