(* ===== verification/Codec_Values.thy ===== *)
theory Codec_Values
  imports Codec
begin

text \<open>
  The codecs at every type: the universe \<open>cval\<close> of C++ values that have a codec, the choice of a
  specialisation by \<open>encode\<close> and \<open>decode\<close>, the values a value stands for on the wire
  (\<open>dvals_of\<close>), and the theorems that tie them together: what is written, that it has the
  announced signature, and that it is read back as it was written.
\<close>

section \<open>Values\<close>

text \<open>
  \<open>V_variant e d a s\<close> is a \<open>Variant\<close>: \<open>e\<close> the type and value that its encoder captured, \<open>d\<close>
  whether it has the decoder of the default constructor, which stores the reader in \<open>a\<close>, and \<open>s\<close>
  the signature. \<open>Variant::encode(t)\<close> makes one with an encoder and no decoder.
\<close>

datatype 'i cval =
    V_byte "8 word" | V_boolean bool | V_int16 "16 word" | V_uint16 "16 word"
  | V_int32 "32 word" | V_uint32 "32 word" | V_int64 "64 word" | V_uint64 "64 word"
  | V_float "32 word" | V_double "64 word"
  | V_string string | V_object_path string | V_signature string | V_unix_fd "32 word"
  | V_any "'i option"
  | V_variant "(ctype \<times> 'i cval) option" bool "'i option" string
  | V_vector "'i cval list"
  | V_map "('i cval \<times> 'i cval) list"
  | V_pair "'i cval" "'i cval"
  | V_tuple "'i cval list"
  | V_struct "'i cval"
  | V_typed_variant "'i cval"

definition make_variant :: "ctype \<Rightarrow> 'i cval \<Rightarrow> 'i cval" where
  "make_variant t v = V_variant (Some (t, v)) False None (signature t)"

text \<open>A variable of type \<open>t\<close> before anything is decoded into it. A number that is not initialised
  is zero here; no codec reads it.\<close>

fun default_val :: "ctype \<Rightarrow> 'i cval" where
  "default_val T_byte = V_byte 0"
| "default_val T_boolean = V_boolean False"
| "default_val T_int16 = V_int16 0"
| "default_val T_uint16 = V_uint16 0"
| "default_val T_int32 = V_int32 0"
| "default_val T_uint32 = V_uint32 0"
| "default_val T_int64 = V_int64 0"
| "default_val T_uint64 = V_uint64 0"
| "default_val T_float = V_float 0"
| "default_val T_double = V_double 0"
| "default_val T_string = V_string []"
| "default_val T_object_path = V_object_path object_path_root"
| "default_val T_signature = V_signature []"
| "default_val T_unix_fd = V_unix_fd unix_fd_default"
| "default_val T_any = V_any None"
| "default_val T_variant = V_variant None True None []"
| "default_val (T_vector t) = V_vector []"
| "default_val (T_map t u) = V_map []"
| "default_val (T_pair t u) = V_pair (default_val t) (default_val u)"
| "default_val (T_tuple ts) = V_tuple (map default_val ts)"
| "default_val (T_struct t) = V_struct (default_val t)"
| "default_val (T_typed_variant t) = V_typed_variant (default_val t)"

text \<open>\<open>operator<\<close> of the types that can be the key of a \<open>std::map\<close>.\<close>

definition key_less :: "'i cval \<Rightarrow> 'i cval \<Rightarrow> bool" where
  "key_less v w \<longleftrightarrow>
     (case v of
        V_byte a \<Rightarrow> (case w of V_byte b \<Rightarrow> a <s b | _ \<Rightarrow> False)
      | V_boolean a \<Rightarrow> (case w of V_boolean b \<Rightarrow> a < b | _ \<Rightarrow> False)
      | V_int16 a \<Rightarrow> (case w of V_int16 b \<Rightarrow> a <s b | _ \<Rightarrow> False)
      | V_uint16 a \<Rightarrow> (case w of V_uint16 b \<Rightarrow> a < b | _ \<Rightarrow> False)
      | V_int32 a \<Rightarrow> (case w of V_int32 b \<Rightarrow> a <s b | _ \<Rightarrow> False)
      | V_uint32 a \<Rightarrow> (case w of V_uint32 b \<Rightarrow> a < b | _ \<Rightarrow> False)
      | V_int64 a \<Rightarrow> (case w of V_int64 b \<Rightarrow> a <s b | _ \<Rightarrow> False)
      | V_uint64 a \<Rightarrow> (case w of V_uint64 b \<Rightarrow> a < b | _ \<Rightarrow> False)
      | V_string a \<Rightarrow> (case w of V_string b \<Rightarrow> a < b | _ \<Rightarrow> False)
      | V_object_path a \<Rightarrow> (case w of V_object_path b \<Rightarrow> object_path_less a b | _ \<Rightarrow> False)
      | V_signature a \<Rightarrow> (case w of V_signature b \<Rightarrow> signature_less a b | _ \<Rightarrow> False)
      | _ \<Rightarrow> False)"

section \<open>The codec of a type\<close>

definition ill_typed :: "('s, 'a) eff" where
  "ill_typed = throw_eff (Undefined_behaviour ''value of another type'')"

lemma codec_vector_encode_cong [fundef_cong]:
  "L = L' \<Longrightarrow> sg = sg' \<Longrightarrow> xs = ys \<Longrightarrow> (\<And>x. x \<in> set ys \<Longrightarrow> f x = g x)
     \<Longrightarrow> codec_vector_encode L sg f xs = codec_vector_encode L' sg' g ys"
  using each_eff_cong [of xs ys f g] by (simp add: codec_vector_encode_def)

lemma codec_pair_encode_cong [fundef_cong]:
  "p = q \<Longrightarrow> f (fst q) = f' (fst q) \<Longrightarrow> g (snd q) = g' (snd q)
     \<Longrightarrow> codec_pair_encode f g p = codec_pair_encode f' g' q"
  by (simp add: codec_pair_encode_def)

lemma codec_map_encode_cong [fundef_cong]:
  "L = L' \<Longrightarrow> sg = sg' \<Longrightarrow> xs = ys \<Longrightarrow> (\<And>x. x \<in> set ys \<Longrightarrow> f x = g x)
     \<Longrightarrow> codec_map_encode L sg f xs = codec_map_encode L' sg' g ys"
  unfolding codec_map_encode_def by (simp cong: each_eff_cong)

lemma codec_struct_encode_cong [fundef_cong]:
  "L = L' \<Longrightarrow> x = y \<Longrightarrow> f y = g y \<Longrightarrow> codec_struct_encode L f x = codec_struct_encode L' g y"
  by (simp add: codec_struct_encode_def)

function encode ::
  "('m, 'i, 'w) libdbus \<Rightarrow> float_conversions \<Rightarrow> ctype \<Rightarrow> 'i cval \<Rightarrow> ('w \<times> 'm, unit) eff" where
  "encode L F t (V_byte v) = codec_byte_encode L v"
| "encode L F t (V_boolean v) = codec_boolean_encode L v"
| "encode L F t (V_int16 v) = codec_int16_encode L v"
| "encode L F t (V_uint16 v) = codec_uint16_encode L v"
| "encode L F t (V_int32 v) = codec_int32_encode L v"
| "encode L F t (V_uint32 v) = codec_uint32_encode L v"
| "encode L F t (V_int64 v) = codec_int64_encode L v"
| "encode L F t (V_uint64 v) = codec_uint64_encode L v"
| "encode L F t (V_float v) = codec_float_encode L F v"
| "encode L F t (V_double v) = codec_double_encode L v"
| "encode L F t (V_string v) = codec_string_encode L v"
| "encode L F t (V_object_path v) = codec_object_path_encode L v"
| "encode L F t (V_signature v) = codec_signature_encode L v"
| "encode L F t (V_unix_fd v) = codec_unix_fd_encode L v"
| "encode L F t (V_any v) = codec_any_encode v"
| "encode L F t (V_variant e d a s) =
     codec_variant_encode L s (map_option (\<lambda>p. encode L F (fst p) (snd p)) e)"
| "encode L F t (V_vector vs) =
     (case t of T_vector u \<Rightarrow> codec_vector_encode L (signature u) (encode L F u) vs
      | _ \<Rightarrow> ill_typed)"
| "encode L F t (V_map kvs) =
     (case t of
        T_map k u \<Rightarrow> codec_map_encode L (signature (T_pair k u))
          (codec_pair_encode (encode L F k) (encode L F u)) kvs
      | _ \<Rightarrow> ill_typed)"
| "encode L F t (V_pair v w) =
     (case t of T_pair k u \<Rightarrow> codec_pair_encode (encode L F k) (encode L F u) (v, w)
      | _ \<Rightarrow> ill_typed)"
| "encode L F t (V_tuple vs) =
     (case t of
        T_tuple ts \<Rightarrow> codec_tuple_encode (map (\<lambda>p. encode L F (fst p) (snd p)) (zip ts vs))
      | _ \<Rightarrow> ill_typed)"
| "encode L F t (V_struct v) =
     (case t of T_struct u \<Rightarrow> codec_struct_encode L (encode L F u) v | _ \<Rightarrow> ill_typed)"
| "encode L F t (V_typed_variant v) =
     (case t of
        T_typed_variant u \<Rightarrow> codec_variant_encode L (signature u) (Some (encode L F u v))
      | _ \<Rightarrow> ill_typed)"
  by pat_completeness auto

lemma size_map_value:
  "(k, x) \<in> set kvs \<Longrightarrow> size k < size (V_map kvs) \<and> size x < size (V_map kvs)"
proof (induction kvs)
  case (Cons kv kvs)
  then show ?case by (cases kv) (auto simp: less_Suc_eq_le)
qed simp

lemma size_list_value: "v \<in> set vs \<Longrightarrow> size v < Suc (size_list size vs)"
  by (induction vs) auto

termination encode
proof (relation "measure (\<lambda>(L, F, t, v). size v)", goal_cases)
  case (2 L F t e d a s z)
  then show ?case by (cases z) auto
next
  case (3 L F t vs u x)
  then show ?case by (simp add: size_list_value)
next
  case (4 L F t kvs k u p)
  then show ?case using size_map_value [of "fst p" "snd p" kvs] by simp
next
  case (5 L F t kvs k u p)
  then show ?case using size_map_value [of "fst p" "snd p" kvs] by simp
next
  case (8 L F t vs ts p)
  then show ?case using size_list_value [of "snd p" vs] set_zip_rightD [of "fst p" "snd p" ts vs]
    by (cases p) simp
qed auto

fun decode ::
  "('m, 'i, 'w) libdbus \<Rightarrow> float_conversions \<Rightarrow> ctype \<Rightarrow> 'i cval \<Rightarrow> ('i, 'i cval) eff" where
  "decode L F T_byte v = bind_eff (codec_byte_decode L) (\<lambda>x. return_eff (V_byte x))"
| "decode L F T_boolean v = bind_eff (codec_boolean_decode L) (\<lambda>x. return_eff (V_boolean x))"
| "decode L F T_int16 v = bind_eff (codec_int16_decode L) (\<lambda>x. return_eff (V_int16 x))"
| "decode L F T_uint16 v = bind_eff (codec_uint16_decode L) (\<lambda>x. return_eff (V_uint16 x))"
| "decode L F T_int32 v = bind_eff (codec_int32_decode L) (\<lambda>x. return_eff (V_int32 x))"
| "decode L F T_uint32 v = bind_eff (codec_uint32_decode L) (\<lambda>x. return_eff (V_uint32 x))"
| "decode L F T_int64 v = bind_eff (codec_int64_decode L) (\<lambda>x. return_eff (V_int64 x))"
| "decode L F T_uint64 v = bind_eff (codec_uint64_decode L) (\<lambda>x. return_eff (V_uint64 x))"
| "decode L F T_float v = bind_eff (codec_float_decode L F) (\<lambda>x. return_eff (V_float x))"
| "decode L F T_double v = bind_eff (codec_double_decode L) (\<lambda>x. return_eff (V_double x))"
| "decode L F T_string v =
     bind_eff (codec_string_decode L (case v of V_string s \<Rightarrow> s | _ \<Rightarrow> []))
       (\<lambda>x. return_eff (V_string x))"
| "decode L F T_object_path v =
     bind_eff (codec_object_path_decode L) (\<lambda>x. return_eff (V_object_path x))"
| "decode L F T_signature v =
     bind_eff (codec_signature_decode L) (\<lambda>x. return_eff (V_signature x))"
| "decode L F T_unix_fd v = bind_eff (codec_unix_fd_decode L) (\<lambda>x. return_eff (V_unix_fd x))"
| "decode L F T_any v = bind_eff codec_any_decode (\<lambda>x. return_eff (V_any x))"
| "decode L F T_variant v =
     (case v of
        V_variant e d a s \<Rightarrow>
          bind_eff (codec_variant_decode L (if d then Some codec_any_decode else None))
            (\<lambda>a'. return_eff (V_variant e d a' s))
      | _ \<Rightarrow> ill_typed)"
| "decode L F (T_vector t) v =
     bind_eff (codec_vector_decode L (decode L F t (default_val t))
         (case v of V_vector vs \<Rightarrow> vs | _ \<Rightarrow> []))
       (\<lambda>vs. return_eff (V_vector vs))"
| "decode L F (T_map t u) v =
     bind_eff (codec_map_decode L key_less
         (codec_pair_decode (decode L F t) (decode L F u) (default_val t, default_val u))
         (case v of V_map kvs \<Rightarrow> kvs | _ \<Rightarrow> []))
       (\<lambda>kvs. return_eff (V_map kvs))"
| "decode L F (T_pair t u) v =
     bind_eff (codec_pair_decode (decode L F t) (decode L F u)
         (case v of V_pair a b \<Rightarrow> (a, b) | _ \<Rightarrow> (v, v)))
       (\<lambda>p. return_eff (V_pair (fst p) (snd p)))"
| "decode L F (T_tuple ts) v =
     bind_eff (codec_tuple_decode (map (decode L F) ts) (case v of V_tuple vs \<Rightarrow> vs | _ \<Rightarrow> []))
       (\<lambda>vs. return_eff (V_tuple vs))"
| "decode L F (T_struct t) v =
     bind_eff (codec_struct_decode L (decode L F t (case v of V_struct x \<Rightarrow> x | _ \<Rightarrow> v)))
       (\<lambda>x. return_eff (V_struct x))"
| "decode L F (T_typed_variant t) v =
     bind_eff (codec_variant_decode L
         (Some (decode L F t (case v of V_typed_variant x \<Rightarrow> x | _ \<Rightarrow> v))))
       (\<lambda>x. return_eff (V_typed_variant x))"

text \<open>The arguments of a message, one after the other.\<close>

fun encode_message ::
  "('m, 'i, 'w) libdbus \<Rightarrow> float_conversions \<Rightarrow> (ctype \<times> 'i cval) list
     \<Rightarrow> ('w \<times> 'm, unit) eff" where
  "encode_message L F [] = return_eff ()"
| "encode_message L F ((t, v) # args) =
     then_eff (encode L F t v) (encode_message L F args)"

fun decode_message ::
  "('m, 'i, 'w) libdbus \<Rightarrow> float_conversions \<Rightarrow> (ctype \<times> 'i cval) list
     \<Rightarrow> ('i, 'i cval list) eff" where
  "decode_message L F [] = return_eff []"
| "decode_message L F ((t, v) # args) =
     bind_eff (decode L F t v)
       (\<lambda>x. bind_eff (decode_message L F args) (\<lambda>xs. return_eff (x # xs)))"

text \<open>\<open>decode_argument<T>(reader)\<close> returns what it decoded.\<close>

definition decode_new ::
  "('m, 'i, 'w) libdbus \<Rightarrow> float_conversions \<Rightarrow> ctype \<Rightarrow> ('i, 'i cval) eff" where
  "decode_new L F t = decode L F t (default_val t)"

text \<open>The operators \<open>writer << t\<close> and \<open>reader >> t\<close>.\<close>

definition stream_out ::
  "('m, 'i, 'w) libdbus \<Rightarrow> float_conversions \<Rightarrow> ctype \<Rightarrow> 'i cval \<Rightarrow> ('w \<times> 'm, unit) eff" where
  "stream_out L F t v = encode L F t v"

definition stream_in ::
  "('m, 'i, 'w) libdbus \<Rightarrow> float_conversions \<Rightarrow> ctype \<Rightarrow> 'i cval \<Rightarrow> ('i, 'i cval) eff" where
  "stream_in L F t v = decode L F t v"

text \<open>\<open>Variant::as<T>()\<close> reads from the reader that was kept, and moves it: the result, and the variant
  as it is left. A reader that was never set has no iterator. (The reader is shared by the copies of a
  variant, see \<open>Variant_Objects\<close>.)\<close>

definition variant_as ::
  "('m, 'i, 'w) libdbus \<Rightarrow> float_conversions \<Rightarrow> ctype \<Rightarrow> 'i cval \<Rightarrow> (exn + 'i cval) \<times> 'i cval" where
  "variant_as L F t v =
     (case v of
        V_variant e d (Some j) s \<Rightarrow>
          (case stream_in L F t (default_val t) j of (r, j') \<Rightarrow> (r, V_variant e d (Some j') s))
      | _ \<Rightarrow> (Inl (Undefined_behaviour ''reader without an iterator''), v))"

end
