(* ===== verification/Codec_Correct.thy ===== *)
theory Codec_Correct
  imports Codec_Values
begin

text \<open>
  What the codecs write. \<open>emits wden e h vs ds\<close>: in a container with header \<open>h\<close> that already
  holds \<open>vs\<close>, the code \<open>e\<close> returns and has appended exactly \<open>ds\<close>. The lemmas about \<open>emits\<close> follow
  the structure of the code (sequence, loop, container), so that each specialisation is one
  application; \<open>dvals_of\<close> says what a value stands for on the wire.
\<close>

section \<open>Emitting values\<close>

definition emits ::
  "('m \<Rightarrow> 'w frame list \<Rightarrow> bool) \<Rightarrow> ('w \<times> 'm, unit) eff \<Rightarrow> hdr \<Rightarrow> dval list \<Rightarrow> dval list \<Rightarrow> bool"
  where
  "emits wden e h vs ds \<longleftrightarrow>
     (\<forall>m w st. wden m ((w, h, vs) # st) \<longrightarrow>
        (\<exists>w' m'. e (w, m) = (Inr (), (w', m')) \<and> wden m' ((w', h, vs @ ds) # st)))"

lemma emits_run:
  assumes "emits wden e h vs ds" and "wden m ((w, h, vs) # st)"
  obtains w' m' where "e (w, m) = (Inr (), (w', m'))" and "wden m' ((w', h, vs @ ds) # st)"
  using assms unfolding emits_def by blast

lemma emits_return: "emits wden (return_eff ()) h vs []"
  by (simp add: emits_def return_eff_def)

lemma emits_then:
  assumes "emits wden e h vs ds" and "emits wden e' h (vs @ ds) ds'"
  shows "emits wden (then_eff e e') h vs (ds @ ds')"
  unfolding emits_def
proof (intro allI impI)
  fix m w st
  assume "wden m ((w, h, vs) # st)"
  then obtain w1 m1 where 1: "e (w, m) = (Inr (), (w1, m1))"
    and "wden m1 ((w1, h, vs @ ds) # st)"
    by (rule emits_run [OF assms(1)])
  then obtain w2 m2 where "e' (w1, m1) = (Inr (), (w2, m2))"
    and "wden m2 ((w2, h, vs @ ds @ ds') # st)"
    using emits_run [OF assms(2)] by (metis append.assoc)
  then show "\<exists>w' m'. then_eff e e' (w, m) = (Inr (), (w', m'))
      \<and> wden m' ((w', h, vs @ ds @ ds') # st)"
    using 1 by (auto simp: then_eff_Inr)
qed

lemma emits_each:
  assumes "\<And>x vs. x \<in> set xs \<Longrightarrow> emits wden (f x) h vs (d x)"
  shows "emits wden (each_eff f xs) h vs (concat (map d xs))"
  using assms
proof (induction xs arbitrary: vs)
  case (Cons x xs)
  then show ?case by (simp add: emits_then)
qed (simp add: emits_return)

lemma emits_append:
  assumes "writes L ok wden" and "frame_accepts h vs (D_basic (at_code t) r)"
    and "ok (at_code t) r"
  shows "emits wden (append_or_throw L t r) h vs [D_basic (at_code t) r]"
  unfolding emits_def
proof (intro allI impI)
  fix m w st
  assume w: "wden m ((w, h, vs) # st)"
  obtain w' m' where "append_or_throw L t r (w, m) = (Inr (), (w', m'))"
    and "wden m' ((w', h, vs @ [D_basic (at_code t) r]) # st)"
    by (rule append_or_throw_ok [OF assms(1) w assms(2,3)])
  then show "\<exists>w' m'. append_or_throw L t r (w, m) = (Inr (), (w', m'))
      \<and> wden m' ((w', h, vs @ [D_basic (at_code t) r]) # st)"
    by blast
qed

lemma frame_accepts_opens:
  "frame_accepts h vs (D_container c sg xs) \<Longrightarrow> frame_opens h vs c sg"
  by (cases h) (auto split: if_splits)

lemma emits_container:
  assumes "writes L ok wden"
    and "frame_accepts h vs (D_container (at_code t) sg xs)" and "frame_complete (at_code t) xs"
    and body: "emits wden body (Some (at_code t, sg)) [] xs"
  shows "emits wden
     (bind_eff (open_or_throw L t sg) (\<lambda>s. bind_eff (on_sub s body) (\<lambda>s. close_any L s)))
     h vs [D_container (at_code t) sg xs]"
  unfolding emits_def
proof (intro allI impI)
  fix m w st
  assume w: "wden m ((w, h, vs) # st)"
  obtain w1 s m1 where o: "open_or_throw L t sg (w, m) = (Inr s, (w1, m1))"
    and w1: "wden m1 ((s, Some (at_code t, sg), []) # (w1, h, vs) # st)"
    by (rule open_or_throw_ok [OF assms(1) w frame_accepts_opens [OF assms(2)]])
  obtain s' m2 where b: "body (s, m1) = (Inr (), (s', m2))"
    and w2: "wden m2 ((s', Some (at_code t, sg), [] @ xs) # (w1, h, vs) # st)"
    by (rule emits_run [OF body w1])
  obtain w' m' where c: "close_any L s' (w1, m2) = (Inr (), (w', m'))"
    and w3: "wden m' ((w', h, vs @ [D_container (at_code t) sg xs]) # st)"
    using close_any_ok [OF assms(1) _ assms(3,2)] w2 by (metis append_Nil)
  have "bind_eff (open_or_throw L t sg) (\<lambda>s. bind_eff (on_sub s body) (\<lambda>s. close_any L s)) (w, m)
      = (Inr (), (w', m'))"
    using o b c by (simp add: bind_eff_def on_sub_def)
  then show "\<exists>w' m'. bind_eff (open_or_throw L t sg)
        (\<lambda>s. bind_eff (on_sub s body) (\<lambda>s. close_any L s)) (w, m) = (Inr (), (w', m'))
      \<and> wden m' ((w', h, vs @ [D_container (at_code t) sg xs]) # st)"
    using w3 by blast
qed

lemma codec_apply_encode_drop:
  "n < length encs \<Longrightarrow> codec_apply_encode encs n (length encs)
     = each_eff (\<lambda>e. e) (drop (length encs - n - 1) encs)"
proof (induction n)
  case 0
  then show ?case by (cases encs rule: rev_cases) (simp_all add: then_eff_def)
next
  case (Suc n)
  let ?k = "length encs - Suc n - 1"
  from Suc.prems have k: "?k < length encs" and next_k: "Suc ?k = length encs - n - 1"
    by simp_all
  have "drop ?k encs = encs ! ?k # drop (length encs - n - 1) encs"
    using Cons_nth_drop_Suc [OF k] next_k by simp
  then show ?case using Suc by simp
qed

text \<open>The index recursion of \<open>CodecApply\<close> visits the members in order.\<close>

lemma codec_tuple_encode_each:
  "encs \<noteq> [] \<Longrightarrow> codec_tuple_encode encs = each_eff (\<lambda>e. e) encs"
  using codec_apply_encode_drop [of "length encs - 1" encs]
  by (cases encs) (simp_all add: codec_tuple_encode_def)

section \<open>What a value stands for on the wire\<close>

function dvals_of :: "float_conversions \<Rightarrow> ctype \<Rightarrow> 'i cval \<Rightarrow> dval list" where
  "dvals_of F t (V_byte v) = [D_basic (at_code At_byte) (Raw8 v)]"
| "dvals_of F t (V_boolean v) = [D_basic (at_code At_boolean) (Raw32 (if v then 1 else 0))]"
| "dvals_of F t (V_int16 v) = [D_basic (at_code At_int16) (Raw16 v)]"
| "dvals_of F t (V_uint16 v) = [D_basic (at_code At_uint16) (Raw16 v)]"
| "dvals_of F t (V_int32 v) = [D_basic (at_code At_int32) (Raw32 v)]"
| "dvals_of F t (V_uint32 v) = [D_basic (at_code At_uint32) (Raw32 v)]"
| "dvals_of F t (V_int64 v) = [D_basic (at_code At_int64) (Raw64 v)]"
| "dvals_of F t (V_uint64 v) = [D_basic (at_code At_uint64) (Raw64 v)]"
| "dvals_of F t (V_float v) = [D_basic (at_code At_floating_point) (Raw64 (widen F v))]"
| "dvals_of F t (V_double v) = [D_basic (at_code At_floating_point) (Raw64 v)]"
| "dvals_of F t (V_string v) = [D_basic (at_code At_string) (Raw_str (c_str v))]"
| "dvals_of F t (V_object_path v) = [D_basic (at_code At_object_path) (Raw_str (c_str v))]"
| "dvals_of F t (V_signature v) = [D_basic (at_code At_signature) (Raw_str (c_str v))]"
| "dvals_of F t (V_unix_fd v) = [D_basic (at_code At_unix_fd) (Raw32 v)]"
| "dvals_of F t (V_any v) = []"
| "dvals_of F t (V_variant e d a s) =
     (case e of None \<Rightarrow> []
      | Some p \<Rightarrow> [D_container (at_code At_variant) (Some s) (dvals_of F (fst p) (snd p))])"
| "dvals_of F t (V_vector vs) =
     (case t of
        T_vector u \<Rightarrow>
          [D_container (at_code At_array) (Some (signature u)) (concat (map (dvals_of F u) vs))]
      | _ \<Rightarrow> [])"
| "dvals_of F t (V_map kvs) =
     (case t of
        T_map k u \<Rightarrow> [D_container (at_code At_array) (Some (signature (T_pair k u)))
          (map (\<lambda>p. D_container (at_code At_dictionary_entry) None
             (dvals_of F k (fst p) @ dvals_of F u (snd p))) kvs)]
      | _ \<Rightarrow> [])"
| "dvals_of F t (V_pair v w) =
     (case t of T_pair k u \<Rightarrow> dvals_of F k v @ dvals_of F u w | _ \<Rightarrow> [])"
| "dvals_of F t (V_tuple vs) =
     (case t of T_tuple ts \<Rightarrow> concat (map (\<lambda>p. dvals_of F (fst p) (snd p)) (zip ts vs))
      | _ \<Rightarrow> [])"
| "dvals_of F t (V_struct v) =
     (case t of T_struct u \<Rightarrow> [D_container (at_code At_structure) None (dvals_of F u v)]
      | _ \<Rightarrow> [])"
| "dvals_of F t (V_typed_variant v) =
     (case t of
        T_typed_variant u \<Rightarrow>
          [D_container (at_code At_variant) (Some (signature u)) (dvals_of F u v)]
      | _ \<Rightarrow> [])"
  by pat_completeness auto

lemma size_zip_value: "(t, v) \<in> set (zip ts vs) \<Longrightarrow> size v < Suc (size_list size vs)"
  using size_list_value set_zip_rightD by metis

termination dvals_of
proof (relation "measure (\<lambda>(F, t, v). size v)", goal_cases)
  case (2 F t e d a s p)
  then show ?case by (cases p) simp
next
  case (4 F t kvs k u p)
  then show ?case using size_map_value [of "fst p" "snd p" kvs] by simp
next
  case (5 F t kvs k u p)
  then show ?case using size_map_value [of "fst p" "snd p" kvs] by simp
next
  case (8 F t vs ts p)
  then show ?case by (cases p) (simp add: size_zip_value)
qed (simp_all add: size_list_value)

text \<open>
  The values of type \<open>t\<close> that can be sent: every variant has an encoder, made by
  \<open>Variant::encode\<close>; the entries of a map are in key order without duplicates.
\<close>

function sendable :: "ctype \<Rightarrow> 'i cval \<Rightarrow> bool" where
  "sendable t (V_byte v) = (t = T_byte)"
| "sendable t (V_boolean v) = (t = T_boolean)"
| "sendable t (V_int16 v) = (t = T_int16)"
| "sendable t (V_uint16 v) = (t = T_uint16)"
| "sendable t (V_int32 v) = (t = T_int32)"
| "sendable t (V_uint32 v) = (t = T_uint32)"
| "sendable t (V_int64 v) = (t = T_int64)"
| "sendable t (V_uint64 v) = (t = T_uint64)"
| "sendable t (V_float v) = (t = T_float)"
| "sendable t (V_double v) = (t = T_double)"
| "sendable t (V_string v) = (t = T_string)"
| "sendable t (V_object_path v) = (t = T_object_path)"
| "sendable t (V_signature v) = (t = T_signature)"
| "sendable t (V_unix_fd v) = (t = T_unix_fd)"
| "sendable t (V_any v) = False"
| "sendable t (V_variant e d a s) =
     (t = T_variant \<and> (case e of None \<Rightarrow> False
       | Some p \<Rightarrow> s = signature (fst p) \<and> single_type (fst p) \<and> sendable (fst p) (snd p)))"
| "sendable t (V_vector vs) = (case t of T_vector u \<Rightarrow> \<forall>v \<in> set vs. sendable u v | _ \<Rightarrow> False)"
| "sendable t (V_map kvs) =
     (case t of
        T_map k u \<Rightarrow> sorted_wrt key_less (map fst kvs)
          \<and> (\<forall>p \<in> set kvs. sendable k (fst p) \<and> sendable u (snd p))
      | _ \<Rightarrow> False)"
| "sendable t (V_pair v w) = (case t of T_pair k u \<Rightarrow> sendable k v \<and> sendable u w | _ \<Rightarrow> False)"
| "sendable t (V_tuple vs) =
     (case t of
        T_tuple ts \<Rightarrow> length vs = length ts \<and> (\<forall>p \<in> set (zip ts vs). sendable (fst p) (snd p))
      | _ \<Rightarrow> False)"
| "sendable t (V_struct v) = (case t of T_struct u \<Rightarrow> sendable u v | _ \<Rightarrow> False)"
| "sendable t (V_typed_variant v) =
     (case t of T_typed_variant u \<Rightarrow> sendable u v | _ \<Rightarrow> False)"
  by pat_completeness auto

termination sendable
proof (relation "measure (\<lambda>(t, v). size v)", goal_cases)
  case (2 t e d a s p)
  then show ?case by (cases p) simp
next
  case (4 t kvs k u p)
  then show ?case using size_map_value [of "fst p" "snd p" kvs] by simp
next
  case (5 t kvs k u p)
  then show ?case using size_map_value [of "fst p" "snd p" kvs] by simp
next
  case (8 t vs ts p)
  then show ?case by (cases p) (simp add: size_zip_value)
qed (simp_all add: size_list_value)

fun dval_ok :: "(int \<Rightarrow> raw \<Rightarrow> bool) \<Rightarrow> dval \<Rightarrow> bool" where
  "dval_ok ok (D_basic c r) = ok c r"
| "dval_ok ok (D_container c sg xs) = list_all (dval_ok ok) xs"

lemma single_multi: "single_type t \<Longrightarrow> multi_type t"
  by (cases t) simp_all

lemma key_multi: "key_type t \<Longrightarrow> multi_type t"
  by (cases t) simp_all

lemma key_single: "key_type t \<Longrightarrow> single_type t"
  by (cases t) simp_all

lemma single_one:
  assumes "single_type t" and "sendable t v"
  obtains d where "dvals_of F t v = [d]"
  using assms by (cases v) (auto split: ctype.splits option.splits)

lemma key_basic:
  assumes "key_type t" and "sendable t v"
  obtains c r where "dvals_of F t v = [D_basic c r]"
  using assms by (cases v) (auto split: ctype.splits option.splits)

lemma signature_no_nul: "multi_type t \<Longrightarrow> CHR 0x00 \<notin> set (signature t)"
proof (induction t)
  case (T_map k t)
  then show ?case using key_multi [of k] single_multi [of t] by simp
qed (auto dest: single_multi)

lemma c_str_signature [simp]: "multi_type t \<Longrightarrow> c_str (signature t) = signature t"
  by (rule c_str_id [OF signature_no_nul])

section \<open>The signature that is announced is the signature of what is written\<close>

lemma type_chars [simp]:
  "char_of (121::nat) = CHR ''y''" "char_of (98::nat) = CHR ''b''"
  "char_of (110::nat) = CHR ''n''" "char_of (113::nat) = CHR ''q''"
  "char_of (105::nat) = CHR ''i''" "char_of (117::nat) = CHR ''u''"
  "char_of (120::nat) = CHR ''x''" "char_of (116::nat) = CHR ''t''"
  "char_of (100::nat) = CHR ''d''" "char_of (115::nat) = CHR ''s''"
  "char_of (111::nat) = CHR ''o''" "char_of (103::nat) = CHR ''g''"
  "char_of (104::nat) = CHR ''h''"
  by code_simp+

lemma dsig_dvals:
  "multi_type t \<Longrightarrow> sendable t v \<Longrightarrow> concat (map dsig (dvals_of F t v)) = signature t"
proof (induction F t v rule: dvals_of.induct)
  case (20 F t vs)
  show ?case
  proof (cases t)
    case (T_tuple ts)
    have "concat (map dsig (dvals_of F (fst p) (snd p))) = signature (fst p)"
      if "p \<in> set (zip ts vs)" for p
    proof -
      have "fst p \<in> set ts"
        using that set_zip_leftD [of "fst p" "snd p" ts vs] by simp
      then show ?thesis using 20 T_tuple that by simp
    qed
    then have m: "map (\<lambda>p. concat (map dsig (dvals_of F (fst p) (snd p)))) (zip ts vs)
        = map (signature \<circ> fst) (zip ts vs)"
      by (simp del: map_map)
    have "concat (map dsig (dvals_of F t (V_tuple vs)))
        = concat (map (\<lambda>p. concat (map dsig (dvals_of F (fst p) (snd p)))) (zip ts vs))"
      using T_tuple by (simp add: concat_map_concat o_def)
    also have "\<dots> = concat (map signature (map fst (zip ts vs)))"
      by (simp only: m map_map)
    finally show ?thesis using 20 T_tuple by (auto simp del: map_map)
  qed (use 20 in auto)
qed (auto split: ctype.splits option.splits)

lemma dsig_single:
  "multi_type t \<Longrightarrow> sendable t v \<Longrightarrow> dvals_of F t v = [d] \<Longrightarrow> dsig d = signature t"
  using dsig_dvals [of t v F] by simp

section \<open>What each specialisation emits\<close>

lemmas codec_basic_encodes = codec_byte_encode_def codec_boolean_encode_def codec_int16_encode_def
  codec_uint16_encode_def codec_int32_encode_def codec_uint32_encode_def codec_int64_encode_def
  codec_uint64_encode_def codec_float_encode_def codec_double_encode_def codec_string_encode_def
  codec_object_path_encode_def codec_signature_encode_def codec_unix_fd_encode_def

lemma emits_vector:
  assumes "writes L ok wden" and "c_str sg = sg"
    and "frame_accepts h vs (D_container (at_code At_array) (Some sg) (concat (map d arg)))"
    and "\<And>x vs. x \<in> set arg \<Longrightarrow> emits wden (enc x) (Some (at_code At_array, Some sg)) vs (d x)"
  shows "emits wden (codec_vector_encode L sg enc arg) h vs
     [D_container (at_code At_array) (Some sg) (concat (map d arg))]"
  unfolding codec_vector_encode_def open_array_def close_array_def assms(2)
  by (rule emits_container [OF assms(1,3) _ emits_each [OF assms(4)]])
    (simp_all add: frame_complete_def)

lemma emits_struct:
  assumes "writes L ok wden" and "frame_accepts h vs (D_container (at_code At_structure) None xs)"
    and "xs \<noteq> []" and "emits wden (enc arg) (Some (at_code At_structure, None)) [] xs"
  shows "emits wden (codec_struct_encode L enc arg) h vs
     [D_container (at_code At_structure) None xs]"
  unfolding codec_struct_encode_def open_structure_def close_structure_def
  by (rule emits_container [OF assms(1,2) _ assms(4)]) (simp add: frame_complete_def assms(3))

lemma emits_variant:
  assumes "writes L ok wden" and "c_str sg = sg"
    and "frame_accepts h vs (D_container (at_code At_variant) (Some sg) [x])"
    and "emits wden e (Some (at_code At_variant, Some sg)) [] [x]"
  shows "emits wden (codec_variant_encode L sg (Some e)) h vs
     [D_container (at_code At_variant) (Some sg) [x]]"
  unfolding codec_variant_encode_def open_variant_def close_variant_def assms(2) variant_encode_def
    option.case
  by (rule emits_container [OF assms(1,3) _ assms(4)]) (simp add: frame_complete_def)

lemma emits_dict_entry:
  assumes "writes L ok wden" and "frame_accepts h vs (D_container (at_code At_dictionary_entry) None [k, x])"
    and "emits wden e (Some (at_code At_dictionary_entry, None)) [] [k, x]"
  shows "emits wden
     (bind_eff (open_dict_entry L) (\<lambda>de. bind_eff (on_sub de e) (\<lambda>de. close_dict_entry L de)))
     h vs [D_container (at_code At_dictionary_entry) None [k, x]]"
  unfolding open_dict_entry_def close_dict_entry_def
  by (rule emits_container [OF assms(1,2) _ assms(3)]) (simp add: frame_complete_def)

lemma emits_map:
  assumes "writes L ok wden" and "c_str sg = sg"
    and "frame_accepts h vs (D_container (at_code At_array) (Some sg)
           (map (\<lambda>p. D_container (at_code At_dictionary_entry) None [k p, x p]) arg))"
    and "\<And>p. p \<in> set arg \<Longrightarrow> sg = dsig (D_container (at_code At_dictionary_entry) None [k p, x p])"
    and "\<And>p. p \<in> set arg
           \<Longrightarrow> emits wden (enc p) (Some (at_code At_dictionary_entry, None)) [] [k p, x p]"
  shows "emits wden (codec_map_encode L sg enc arg) h vs
     [D_container (at_code At_array) (Some sg)
       (map (\<lambda>p. D_container (at_code At_dictionary_entry) None [k p, x p]) arg)]"
proof -
  let ?entry = "\<lambda>p. D_container (at_code At_dictionary_entry) None [k p, x p]"
  let ?put = "\<lambda>p. bind_eff (open_dict_entry L)
    (\<lambda>de. bind_eff (on_sub de (enc p)) (\<lambda>de. close_dict_entry L de))"
  have "emits wden (?put p) (Some (at_code At_array, Some sg)) vs [?entry p]"
    if "p \<in> set arg" for p vs
    using assms(4) [OF that] assms(5) [OF that]
    by (intro emits_dict_entry [OF assms(1)]) simp_all
  then have "emits wden (each_eff ?put arg) (Some (at_code At_array, Some sg)) []
      (concat (map (\<lambda>p. [?entry p]) arg))"
    by (rule emits_each)
  then have "emits wden (each_eff ?put arg) (Some (at_code At_array, Some sg)) []
      (map ?entry arg)"
    by simp
  then show ?thesis
    unfolding codec_map_encode_def open_array_def close_array_def assms(2)
    by (rule emits_container [OF assms(1,3), rotated]) (simp add: frame_complete_def)
qed

lemma emits_tuple:
  assumes "ps \<noteq> []" and "\<And>p vs. p \<in> set ps \<Longrightarrow> emits wden (enc p) h vs (d p)"
  shows "emits wden (codec_tuple_encode (map enc ps)) h vs (concat (map d ps))"
proof -
  have "emits wden (each_eff (\<lambda>e. e) (map enc ps)) h vs (concat (map d ps))"
    using assms(2)
  proof (induction ps arbitrary: vs)
    case (Cons p ps)
    then show ?case by (simp add: emits_then)
  qed (simp add: emits_return)
  then show ?thesis using assms(1) by (simp add: codec_tuple_encode_each)
qed

section \<open>Encoding\<close>

text \<open>The message itself and a structure take values of any type.\<close>

definition seq_frame :: "hdr \<Rightarrow> bool" where
  "seq_frame h \<longleftrightarrow> (case h of None \<Rightarrow> True | Some (k, s) \<Rightarrow> k = at_code At_structure)"

lemma seq_frame_accepts: "seq_frame h \<Longrightarrow> frame_accepts h vs d"
  by (auto simp: seq_frame_def split: option.splits)

lemma dvals_nonempty: "multi_type t \<Longrightarrow> sendable t v \<Longrightarrow> dvals_of F t v \<noteq> []"
proof (induction F t v rule: dvals_of.induct)
  case (20 F t vs)
  show ?case
  proof (cases t)
    case (T_tuple ts)
    with 20 have l: "length vs = length ts" and ne: "ts \<noteq> []" by auto
    then obtain u ts' x vs' where "ts = u # ts'" and "vs = x # vs'"
      by (cases ts; cases vs) auto
    then show ?thesis using 20(1) [of ts "(u, x)"] 20(2,3) T_tuple by simp
  qed (use 20 in auto)
qed (auto split: ctype.splits option.splits)

definition writes_well ::
  "('m, 'i, 'w) libdbus \<Rightarrow> float_conversions \<Rightarrow> ('m \<Rightarrow> 'w frame list \<Rightarrow> bool) \<Rightarrow> ctype
     \<Rightarrow> 'i cval \<Rightarrow> bool" where
  "writes_well L F wden t v \<longleftrightarrow>
     (\<forall>h vs. single_type t \<or> seq_frame h \<longrightarrow> list_all (frame_accepts h vs) (dvals_of F t v)
        \<longrightarrow> emits wden (encode L F t v) h vs (dvals_of F t v))"

lemma writes_wellI:
  assumes "\<And>h vs. single_type t \<or> seq_frame h \<Longrightarrow> list_all (frame_accepts h vs) (dvals_of F t v)
     \<Longrightarrow> emits wden (encode L F t v) h vs (dvals_of F t v)"
  shows "writes_well L F wden t v"
  using assms by (simp add: writes_well_def)

lemma writes_well_seq:
  "writes_well L F wden t v \<Longrightarrow> seq_frame h \<Longrightarrow> emits wden (encode L F t v) h vs (dvals_of F t v)"
  by (simp add: writes_well_def list_all_iff seq_frame_accepts)

lemma writes_well_single:
  "writes_well L F wden t v \<Longrightarrow> single_type t \<Longrightarrow> dvals_of F t v = [d] \<Longrightarrow> frame_accepts h vs d
     \<Longrightarrow> emits wden (encode L F t v) h vs [d]"
  by (simp add: writes_well_def)

lemma encode_writes_well:
  assumes "writes L ok wden"
  shows "multi_type t \<Longrightarrow> sendable t v \<Longrightarrow> list_all (dval_ok ok) (dvals_of F t v)
     \<Longrightarrow> writes_well L F wden t v"
proof (induction F t v rule: dvals_of.induct)
  case (16 F t e d a s)
  then obtain u x where e: "e = Some (u, x)" and t: "t = T_variant" and s: "s = signature u"
    and u: "single_type u" and x: "sendable u x"
    by (auto split: option.splits)
  obtain dv where dv: "dvals_of F u x = [dv]" using single_one [OF u x] .
  have "dsig dv = signature u"
    by (rule dsig_single [OF single_multi [OF u] x dv])
  moreover have w: "writes_well L F wden u x"
    using 16 e u x by (simp add: single_multi)
  ultimately have "emits wden (encode L F u x) (Some (at_code At_variant, Some s)) [] [dv]"
    using writes_well_single [OF w u dv] s by simp
  then show ?case
    using emits_variant [OF assms] s u e dv
    by (intro writes_wellI) (simp add: single_multi)
next
  case (17 F t vs)
  then obtain u where t: "t = T_vector u" and u: "single_type u"
    and vs: "\<forall>v \<in> set vs. sendable u v"
    by (auto split: ctype.splits)
  have elems: "emits wden (encode L F u v) (Some (at_code At_array, Some (signature u))) ws
      (dvals_of F u v)" if v: "v \<in> set vs" for v ws
  proof -
    obtain dv where dv: "dvals_of F u v = [dv]" using single_one [OF u] vs v by blast
    moreover have "dsig dv = signature u"
      using dsig_single [OF single_multi [OF u] _ dv] vs v by simp
    moreover have w: "writes_well L F wden u v"
      using 17 t u v vs by (simp add: single_multi list_all_iff)
    ultimately show ?thesis using writes_well_single [OF w u dv] dv by simp
  qed
  show ?case
  proof (rule writes_wellI)
    fix h ws
    assume "list_all (frame_accepts h ws) (dvals_of F t (V_vector vs))"
    then show "emits wden (encode L F t (V_vector vs)) h ws (dvals_of F t (V_vector vs))"
      using emits_vector [OF assms _ _ elems, of h ws] t u
      by (simp add: single_multi)
  qed
next
  case (18 F t kvs)
  then obtain k u where t: "t = T_map k u" and k: "key_type k" and u: "single_type u"
    and kvs: "\<forall>p \<in> set kvs. sendable k (fst p) \<and> sendable u (snd p)"
    by (auto split: ctype.splits)
  let ?k = "\<lambda>p. hd (dvals_of F k (fst p))" and ?x = "\<lambda>p. hd (dvals_of F u (snd p))"
  have ks: "dvals_of F k (fst p) = [?k p]" and kb: "is_dbasic (?k p)"
    and xs: "dvals_of F u (snd p) = [?x p]" if "p \<in> set kvs" for p
    using that kvs key_basic [OF k, of "fst p" F] single_one [OF u, of "snd p" F]
    by (metis is_dbasic.simps(1) list.sel(1))+
  have entry: "emits wden (codec_pair_encode (encode L F k) (encode L F u) p)
      (Some (at_code At_dictionary_entry, None)) [] [?k p, ?x p]" if p: "p \<in> set kvs" for p
  proof -
    have wk: "writes_well L F wden k (fst p)" and wu: "writes_well L F wden u (snd p)"
      using 18 t k u p kvs by (simp_all add: single_multi key_multi list_all_iff)
    have "emits wden (encode L F k (fst p)) (Some (at_code At_dictionary_entry, None)) [] [?k p]"
      using writes_well_single [OF wk key_single [OF k] ks [OF p]] kb [OF p] by simp
    moreover have "emits wden (encode L F u (snd p)) (Some (at_code At_dictionary_entry, None))
        ([] @ [?k p]) [?x p]"
      using writes_well_single [OF wu u xs [OF p]] by simp
    ultimately show ?thesis unfolding codec_pair_encode_def using emits_then by fastforce
  qed
  have sg: "signature (T_pair k u) = dsig (D_container (at_code At_dictionary_entry) None [?k p, ?x p])"
    if p: "p \<in> set kvs" for p
    using dsig_single [OF key_multi [OF k] _ ks [OF p]]
      dsig_single [OF single_multi [OF u] _ xs [OF p]] kvs p by simp
  have nul: "CHR 0x00 \<notin> set (signature (T_pair k u))"
    using signature_no_nul [OF key_multi [OF k]] signature_no_nul [OF single_multi [OF u]] by simp
  have dv: "dvals_of F t (V_map kvs) = [D_container (at_code At_array)
      (Some (signature (T_pair k u)))
      (map (\<lambda>p. D_container (at_code At_dictionary_entry) None [?k p, ?x p]) kvs)]"
    using t ks xs by (simp cong: map_cong)
  show ?case
  proof (rule writes_wellI)
    fix h ws
    assume a: "list_all (frame_accepts h ws) (dvals_of F t (V_map kvs))"
    have enc: "encode L F t (V_map kvs) = codec_map_encode L (signature (T_pair k u))
        (codec_pair_encode (encode L F k) (encode L F u)) kvs"
      using t by simp
    show "emits wden (encode L F t (V_map kvs)) h ws (dvals_of F t (V_map kvs))"
      unfolding enc dv
      by (rule emits_map [OF assms c_str_id [OF nul] _ sg entry])
        (use a dv in \<open>simp_all only: list.pred_inject\<close>)
  qed
next
  case (20 F t vs)
  then obtain ts where t: "t = T_tuple ts" and ts: "ts \<noteq> []" "\<forall>t \<in> set ts. multi_type t"
    and l: "length vs = length ts"
    by (auto split: ctype.splits)
  have w: "writes_well L F wden (fst p) (snd p)" if p: "p \<in> set (zip ts vs)" for p
  proof -
    have "fst p \<in> set ts" using p set_zip_leftD [of "fst p" "snd p" ts vs] by simp
    then show ?thesis using 20 t p ts by (simp add: list_all_iff)
  qed
  show ?case
  proof (rule writes_wellI)
    fix h ws
    assume "single_type t \<or> seq_frame h"
    with t have "seq_frame h" by simp
    then have m: "emits wden (encode L F (fst p) (snd p)) h vs' (dvals_of F (fst p) (snd p))"
      if "p \<in> set (zip ts vs)" for p vs'
      using writes_well_seq w that by blast
    have "zip ts vs \<noteq> []" using ts l by (cases ts; cases vs) auto
    then show "emits wden (encode L F t (V_tuple vs)) h ws (dvals_of F t (V_tuple vs))"
      unfolding t encode.simps dvals_of.simps ctype.case by (rule emits_tuple) (rule m)
  qed
next
  case (21 F t v)
  then obtain u where t: "t = T_struct u" and u: "multi_type u" and v: "sendable u v"
    by (auto split: ctype.splits)
  have "writes_well L F wden u v" using 21 t u v by simp
  then have "emits wden (encode L F u v) (Some (at_code At_structure, None)) [] (dvals_of F u v)"
    by (rule writes_well_seq) (simp add: seq_frame_def)
  then show ?case
    using emits_struct [OF assms _ dvals_nonempty [OF u v]] t
    by (intro writes_wellI) simp
qed (auto intro!: writes_wellI emits_append [OF assms]
    simp: codec_basic_encodes push_defs split: ctype.splits simp del: at_code.simps)

lemma encode_emits:
  assumes "writes L ok wden" and "multi_type t" and "sendable t v"
    and "list_all (dval_ok ok) (dvals_of F t v)"
  shows "emits wden (encode L F t v) None vs (dvals_of F t v)"
  by (rule writes_well_seq [OF encode_writes_well [OF assms]]) (simp add: seq_frame_def)

text \<open>
  C8. \<open>Codec<T>::encode_argument\<close> writes what \<open>TypeMapper<T>::signature()\<close> announces. For every
  type with a signature and every value of it that libdbus can take, encoding returns, appends
  exactly the values \<open>dvals_of\<close> to the arguments already in the message, leaves no container
  open, and the types of the appended values are the announced signature.
\<close>

theorem encode_appends_signature:
  assumes "writes L ok wden" and "multi_type t" and "sendable t v"
    and "list_all (dval_ok ok) (dvals_of F t v)" and "wden m [(w, None, vs)]"
  shows "(\<exists>w' m'. encode L F t v (w, m) = (Inr (), (w', m'))
       \<and> wden m' [(w', None, vs @ dvals_of F t v)])
     \<and> concat (map dsig (dvals_of F t v)) = signature t"
  using emits_run [OF encode_emits [OF assms(1-4)] assms(5)] dsig_dvals [OF assms(2,3)] by metis

text \<open>A dictionary with a variant that holds an array, for the witnesses.\<close>

definition sample_conversions :: float_conversions where
  "sample_conversions = \<lparr>widen = ucast, narrow = ucast\<rparr>"

definition sample_value :: "dval list cval" where
  "sample_value = V_map [(V_string ''k'', make_variant (T_vector T_int32) (V_vector [V_int32 7]))]"

definition sample_dvals :: "dval list" where
  "sample_dvals =
     [D_container 97 (Some ''{sv}'')
        [D_container 101 None
          [D_basic 115 (Raw_str ''k''),
           D_container 118 (Some ''ai'') [D_container 97 (Some ''i'') [D_basic 105 (Raw32 7)]]]]]"

lemma sample_ok:
  "multi_type (T_map T_string T_variant)" "sendable (T_map T_string T_variant) sample_value"
  "dvals_of F (T_map T_string T_variant) sample_value = sample_dvals"
  by (simp_all add: sample_value_def sample_dvals_def make_variant_def)

theorem encode_appends_signature_witness:
  "(\<exists>w' m'. encode list_libdbus sample_conversions (T_map T_string T_variant) sample_value
        ((), new_list_message 1) = (Inr (), (w', m'))
      \<and> list_wden m' [(w', None, sample_dvals)])
    \<and> concat (map dsig sample_dvals) = ''a{sv}''"
  using encode_appends_signature [OF list_writes sample_ok(1,2), of sample_conversions
      "new_list_message 1" "()" "[]"]
  by (simp add: sample_ok(3) sample_dvals_def list_wden_def new_list_message_def)

end
