(* ===== verification/Signature_Grammar.thy ===== *)
theory Signature_Grammar
  imports Codec_Correct
begin

text \<open>
  The signatures that \<open>TypeMapper<T>\<close> gives, against the grammar of D-Bus signatures: a single
  complete type is a basic type, a variant, an array of one complete type, an array of dictionary
  entries with a basic key, or a structure with at least one member. The specification limits how deep they nest,
  32 arrays and 32 structures, and the length of a signature, 255 bytes.
\<close>

section \<open>The grammar\<close>

definition basic_codes :: "char set" where
  "basic_codes = set ''ybnqiuxtdsogh''"

text \<open>\<open>complete_type a b s\<close>: \<open>s\<close> is one complete type that nests at most \<open>a\<close> arrays and at most \<open>b\<close> structures.\<close>

inductive complete_type :: "nat \<Rightarrow> nat \<Rightarrow> string \<Rightarrow> bool" where
  complete_basic: "c \<in> basic_codes \<Longrightarrow> complete_type a b [c]"
| complete_variant: "complete_type a b ''v''"
| complete_array: "complete_type a b s \<Longrightarrow> complete_type (Suc a) b (CHR ''a'' # s)"
| complete_dict: "c \<in> basic_codes \<Longrightarrow> complete_type a b s
    \<Longrightarrow> complete_type (Suc a) b (''a{'' @ c # s @ ''}'')"
| complete_struct: "ss \<noteq> [] \<Longrightarrow> (\<And>s. s \<in> set ss \<Longrightarrow> complete_type a b s)
    \<Longrightarrow> complete_type a (Suc b) (CHR ''('' # concat ss @ '')'')"

inductive_cases complete_arrayE: "complete_type a b (CHR ''a'' # s)"

definition complete_types :: "nat \<Rightarrow> nat \<Rightarrow> string \<Rightarrow> bool" where
  "complete_types a b s \<longleftrightarrow> (\<exists>ss. ss \<noteq> [] \<and> s = concat ss \<and> (\<forall>u \<in> set ss. complete_type a b u))"

definition single_signature :: "string \<Rightarrow> bool" where
  "single_signature s \<longleftrightarrow> length s \<le> 255 \<and> complete_type 32 32 s"

definition valid_signature :: "string \<Rightarrow> bool" where
  "valid_signature s \<longleftrightarrow> length s \<le> 255 \<and> complete_types 32 32 s"

section \<open>How deep a type nests\<close>

fun array_nesting :: "ctype \<Rightarrow> nat" where
  "array_nesting (T_vector t) = Suc (array_nesting t)"
| "array_nesting (T_map k t) = Suc (array_nesting t)"
| "array_nesting (T_struct t) = array_nesting t"
| "array_nesting (T_tuple ts) = fold max (map array_nesting ts) 0"
| "array_nesting _ = 0"

fun struct_nesting :: "ctype \<Rightarrow> nat" where
  "struct_nesting (T_vector t) = struct_nesting t"
| "struct_nesting (T_map k t) = struct_nesting t"
| "struct_nesting (T_struct t) = Suc (struct_nesting t)"
| "struct_nesting (T_tuple ts) = fold max (map struct_nesting ts) 0"
| "struct_nesting _ = 0"

definition nests_within :: "nat \<Rightarrow> nat \<Rightarrow> ctype \<Rightarrow> bool" where
  "nests_within a b t \<longleftrightarrow> array_nesting t \<le> a \<and> struct_nesting t \<le> b"

lemma fold_max_le: "fold max xs m \<le> (n :: nat) \<longleftrightarrow> m \<le> n \<and> (\<forall>x \<in> set xs. x \<le> n)"
  by (induction xs arbitrary: m) auto

lemma nests_within_container [simp]:
  "nests_within a b (T_vector t) \<longleftrightarrow> (\<exists>a'. a = Suc a' \<and> nests_within a' b t)"
  "nests_within a b (T_map k t) \<longleftrightarrow> (\<exists>a'. a = Suc a' \<and> nests_within a' b t)"
  by (cases a; simp add: nests_within_def)+

lemma nests_within_struct [simp]: "nests_within a b (T_struct t) \<longleftrightarrow> (\<exists>b'. b = Suc b' \<and> nests_within a b' t)"
  by (cases b) (simp_all add: nests_within_def)

lemma nests_within_tuple [simp]: "nests_within a b (T_tuple ts) \<longleftrightarrow> (\<forall>t \<in> set ts. nests_within a b t)"
  unfolding nests_within_def by (auto simp: fold_max_le)

lemma nests_within_basic: "basic_type t \<Longrightarrow> nests_within a b t"
  by (cases t) (simp_all add: nests_within_def)

text \<open>The single types of which a type is the sequence.\<close>

fun members_of :: "ctype \<Rightarrow> ctype list" where
  "members_of (T_tuple ts) = concat (map members_of ts)"
| "members_of t = [t]"

lemma concat_each_concat: "concat (map (\<lambda>x. concat (f x)) xs) = concat (concat (map f xs))"
  by (induction xs) simp_all

lemma members_of_multi:
  "multi_type t \<Longrightarrow> members_of t \<noteq> [] \<and> (\<forall>m \<in> set (members_of t). single_type m)
     \<and> signature t = concat (map signature (members_of t))
     \<and> (nests_within a b t \<longleftrightarrow> (\<forall>m \<in> set (members_of t). nests_within a b m))"
proof (induction t)
  case (T_tuple ts)
  then have IH: "members_of t \<noteq> [] \<and> (\<forall>m \<in> set (members_of t). single_type m)
      \<and> signature t = concat (map signature (members_of t))
      \<and> (nests_within a b t \<longleftrightarrow> (\<forall>m \<in> set (members_of t). nests_within a b m))" if "t \<in> set ts" for t
    using that by simp
  have "concat (map signature ts) = concat (map (\<lambda>t. concat (map signature (members_of t))) ts)"
    using IH by (intro arg_cong [where f = concat] map_cong) auto
  moreover have "ts \<noteq> []" using T_tuple.prems by simp
  ultimately show ?case using IH by (auto simp: map_concat o_def concat_each_concat)
qed auto

section \<open>The signature of a type is in the grammar when the type nests within the limits\<close>

lemma basic_signature: "basic_type t \<Longrightarrow> \<exists>c \<in> basic_codes. signature t = [c]"
  by (cases t) (simp_all add: basic_codes_def)

lemma complete_types_struct: "complete_types a b s \<Longrightarrow> complete_type a (Suc b) (CHR ''('' # s @ '')'')"
  unfolding complete_types_def by (auto intro: complete_struct)

lemma complete_types_single: "complete_type a b s \<Longrightarrow> complete_types a b s"
  unfolding complete_types_def by (rule exI [of _ "[s]"]) simp

lemma complete_types_append: "complete_types a b s \<Longrightarrow> complete_types a b s' \<Longrightarrow> complete_types a b (s @ s')"
  unfolding complete_types_def by (elim exE conjE, rule_tac x = "ss @ ssa" in exI) auto

lemma complete_types_concat:
  "ss \<noteq> [] \<Longrightarrow> (\<And>s. s \<in> set ss \<Longrightarrow> complete_types a b s) \<Longrightarrow> complete_types a b (concat ss)"
proof (induction ss)
  case (Cons s ss)
  then show ?case by (cases "ss = []") (auto intro: complete_types_append)
qed simp

lemma nested_is_complete:
  "(single_type t \<and> nests_within a b t \<longrightarrow> complete_type a b (signature t))
   \<and> (multi_type t \<and> nests_within a b t \<longrightarrow> complete_types a b (signature t))"
proof (induction t arbitrary: a b)
  case (T_tuple ts)
  have "complete_types a b (concat (map signature ts))" if "multi_type (T_tuple ts)" "nests_within a b (T_tuple ts)"
    using that T_tuple by (intro complete_types_concat) auto
  then show ?case by auto
next
  case (T_struct t)
  then show ?case using complete_types_struct complete_types_single by fastforce
next
  case (T_vector t)
  then show ?case using complete_array complete_types_single by fastforce
next
  case (T_map k t)
  have "complete_type a b (signature (T_map k t))" if h: "single_type (T_map k t)" "nests_within a b (T_map k t)"
  proof -
    obtain c where "c \<in> basic_codes" "signature k = [c]" using h(1) basic_signature [of k] by auto
    then show ?thesis using h T_map.IH(2) complete_dict by fastforce
  qed
  then show ?case using complete_types_single by auto
qed (auto intro: complete_variant complete_types_single [OF complete_variant] complete_basic
    complete_types_single [OF complete_basic] simp: basic_codes_def)

section \<open>The grammar is unambiguous\<close>

text \<open>What may begin a complete type; nothing that may follow one inside a structure does.\<close>

lemma complete_type_begins: "complete_type a b s \<Longrightarrow> \<exists>c u. s = c # u \<and> c \<noteq> CHR ''{'' \<and> c \<noteq> CHR '')''"
  by (cases rule: complete_type.cases) (auto simp: basic_codes_def)

lemma single_begins: "single_type t \<Longrightarrow> \<exists>c u. signature t = c # u \<and> c \<noteq> CHR ''{'' \<and> c \<noteq> CHR '')''"
  by (cases t) auto

definition ends_struct :: "string \<Rightarrow> bool" where
  "ends_struct x \<longleftrightarrow> x = [] \<or> hd x = CHR '')''"

text \<open>A complete type that begins where the signature of a type begins is that signature, so the type nests no
  deeper.\<close>

definition only_signature :: "nat \<Rightarrow> nat \<Rightarrow> string \<Rightarrow> bool" where
  "only_signature a b s \<longleftrightarrow> (\<forall>t x y. single_type t \<and> s @ x = signature t @ y
     \<longrightarrow> s = signature t \<and> nests_within a b t)"

lemma only_signatures:
  assumes "\<forall>s \<in> set ss. only_signature a b s" and "\<forall>s \<in> set ss. complete_type a b s" and "\<forall>m \<in> set ms. single_type m"
    and "concat ss @ x = concat (map signature ms) @ y" and "ends_struct x" and "ends_struct y"
  shows "ss = map signature ms \<and> (\<forall>m \<in> set ms. nests_within a b m)"
  using assms
proof (induction ss arbitrary: ms)
  case Nil
  have "ms = []"
  proof (rule ccontr)
    assume "ms \<noteq> []"
    then obtain m ms' where m: "ms = m # ms'" by (cases ms) auto
    then obtain c u where "signature m = c # u" "c \<noteq> CHR '')''" using Nil.prems(3) single_begins by force
    then show False using Nil.prems(4,5) m by (simp add: ends_struct_def)
  qed
  then show ?case by simp
next
  case (Cons s ss)
  obtain c u where s: "s = c # u" "c \<noteq> CHR '')''" using complete_type_begins [of a b s] Cons.prems(2) by auto
  then obtain m ms' where ms: "ms = m # ms'" using Cons.prems(4,6) by (cases ms) (auto simp: ends_struct_def)
  then have m: "s = signature m" "nests_within a b m"
    using Cons.prems(1,3,4) unfolding only_signature_def by auto
  then show ?case using Cons.IH [of ms'] Cons.prems ms by simp
qed

lemma complete_is_signature: "complete_type a b s \<Longrightarrow> only_signature a b s"
proof (induction rule: complete_type.induct)
  case (complete_basic c a b)
  have "[c] = signature t \<and> nests_within a b t" if "single_type t" "[c] @ x = signature t @ y" for t x y
    using that complete_basic by (cases t) (auto simp: basic_codes_def nests_within_def)
  then show ?case unfolding only_signature_def by blast
next
  case (complete_variant a b)
  have "''v'' = signature t \<and> nests_within a b t" if "single_type t" "''v'' @ x = signature t @ y" for t x y
    using that by (cases t) (auto simp: nests_within_def)
  then show ?case unfolding only_signature_def by blast
next
  case (complete_array a b s)
  have "CHR ''a'' # s = signature t \<and> nests_within (Suc a) b t"
    if "single_type t" "(CHR ''a'' # s) @ x = signature t @ y" for t x y
    using that complete_array.IH complete_type_begins [OF complete_array.hyps]
    by (cases t) (auto simp: only_signature_def)
  then show ?case unfolding only_signature_def by blast
next
  case (complete_dict c a b s)
  have "''a{'' @ c # s @ ''}'' = signature t \<and> nests_within (Suc a) b t"
    if t: "single_type t" "(''a{'' @ c # s @ ''}'') @ x = signature t @ y" for t x y
  proof -
    have no: "\<not> single_type u" if "''{'' @ z = signature u @ y" for u z using that single_begins [of u] by auto
    obtain k u where k: "t = T_map k u"
      using t no by (cases t) auto
    then obtain d where "signature k = [d]" using t(1) basic_signature [of k] by auto
    then have "c = d" "s @ ''}'' @ x = signature u @ ''}'' @ y" and "single_type u" using t k by auto
    then show ?thesis using complete_dict.IH k \<open>signature k = [d]\<close> unfolding only_signature_def by auto
  qed
  then show ?case unfolding only_signature_def by blast
next
  case (complete_struct ss a b)
  have "CHR ''('' # concat ss @ '')'' = signature t \<and> nests_within a (Suc b) t"
    if t: "single_type t" "(CHR ''('' # concat ss @ '')'') @ x = signature t @ y" for t x y
  proof -
    obtain u where u: "t = T_struct u" "multi_type u" using t by (cases t) auto
    note m = members_of_multi [OF u(2), of a b]
    have "concat ss @ '')'' @ x = concat (map signature (members_of u)) @ '')'' @ y" using t(2) u m by simp
    from only_signatures [OF _ _ _ this] have "ss = map signature (members_of u)"
        "\<forall>m \<in> set (members_of u). nests_within a b m"
      using complete_struct.IH complete_struct.hyps m by (auto simp: ends_struct_def)
    then show ?thesis using m u by simp
  qed
  then show ?case unfolding only_signature_def by blast
qed

lemma complete_nests: "single_type t \<Longrightarrow> complete_type a b (signature t) \<Longrightarrow> nests_within a b t"
  using complete_is_signature unfolding only_signature_def by blast

lemma completes_nest:
  assumes "multi_type t" and "complete_types a b (signature t)"
  shows "nests_within a b t"
proof -
  obtain ss where ss: "signature t = concat ss" "\<forall>s \<in> set ss. complete_type a b s"
    using assms(2) unfolding complete_types_def by blast
  note m = members_of_multi [OF assms(1), of a b]
  have "concat ss @ [] = concat (map signature (members_of t)) @ []" using ss(1) m by simp
  from only_signatures [OF _ ss(2) _ this] show ?thesis
    using complete_is_signature ss(2) m by (auto simp: ends_struct_def)
qed

text \<open>An array whose element is a tuple of two or more members: what follows its code is not one complete type.\<close>

lemma vector_of_tuples_incomplete:
  assumes "2 \<le> length ts" and "multi_type (T_tuple ts)"
  shows "\<not> complete_type a b (signature (T_vector (T_tuple ts)))"
proof
  assume "complete_type a b (signature (T_vector (T_tuple ts)))"
  then have c: "complete_type a b (CHR ''a'' # signature (T_tuple ts))" by simp
  obtain t1 t2 ts' where ts: "ts = t1 # t2 # ts'" using assms(1) by (cases ts; cases "tl ts") auto
  have m: "multi_type t1" "multi_type t2" using assms(2) ts by simp_all
  note m1 = members_of_multi [OF m(1), of 0 0] and m2 = members_of_multi [OF m(2), of 0 0]
  obtain u us where u: "members_of t1 = u # us" "single_type u" using m1 by (cases "members_of t1") auto
  obtain w ws where w: "members_of t2 = w # ws" "single_type w" using m2 by (cases "members_of t2") auto
  let ?rest = "concat (map signature us) @ signature t2 @ concat (map signature ts')"
  have sig: "signature (T_tuple ts) = signature u @ ?rest" and r: "?rest \<noteq> []"
    using ts m1 m2 u w single_begins [OF w(2)] by auto
  show False
    using c
  proof (rule complete_arrayE)
    fix a' assume "complete_type a' b (signature (T_tuple ts))"
    then have "only_signature a' b (signature (T_tuple ts))" by (rule complete_is_signature)
    then have "signature (T_tuple ts) = signature u" using sig u(2) unfolding only_signature_def by (metis append_Nil2)
    then show False using sig r by simp
  next
    fix c s assume "signature (T_tuple ts) = CHR ''{'' # c # s @ ''}''"
    then show False using sig single_begins [OF u(2)] by auto
  qed (auto simp: basic_codes_def)
qed

text \<open>
  C35. The signatures that the type mappers announce, against the grammar and its limits. For a type that is one
  value on the wire (a basic type, a variant, a vector, map or \<open>Struct\<close> of such types) it is one complete
  type of the grammar, and libdbus takes it exactly when the type nests at most 32 arrays and 32 structures and the
  text has at most 255 bytes. For a type that is a sequence of values (tuples of those) it is a sequence of complete
  types, under the same condition. A vector of tuples with two or more members compiles as well, but what
  it announces is not one complete type.
\<close>

theorem signature_is_complete:
  "(single_type t \<longrightarrow> (\<exists>a b. complete_type a b (signature t)) \<and>
      (single_signature (signature t) \<longleftrightarrow> array_nesting t \<le> 32 \<and> struct_nesting t \<le> 32 \<and> length (signature t) \<le> 255))
   \<and> (multi_type t \<longrightarrow> (\<exists>a b. complete_types a b (signature t)) \<and>
      (valid_signature (signature t) \<longleftrightarrow> array_nesting t \<le> 32 \<and> struct_nesting t \<le> 32 \<and> length (signature t) \<le> 255))
   \<and> (t = T_tuple ts \<and> 2 \<le> length ts \<and> multi_type t \<longrightarrow> \<not> complete_type a b (signature (T_vector t)))"
proof -
  have n: "nests_within (array_nesting t) (struct_nesting t) t" by (simp add: nests_within_def)
  have "single_type t \<Longrightarrow> complete_type a b (signature t) \<longleftrightarrow> nests_within a b t"
    and "multi_type t \<Longrightarrow> complete_types a b (signature t) \<longleftrightarrow> nests_within a b t" for a b
    using nested_is_complete [of t a b] complete_nests [of t a b] completes_nest [of t a b] by blast+
  then show ?thesis
    using n vector_of_tuples_incomplete unfolding single_signature_def valid_signature_def nests_within_def by blast
qed

theorem signature_is_complete_witness:
  "single_signature ''a{s(iav)}'' \<and> valid_signature ''sa{ss}'' \<and> \<not> complete_type 5 5 ''ais''
   \<and> \<not> single_signature (replicate 33 CHR ''a'' @ ''i'')"
proof -
  have deep: "signature ((T_vector ^^ n) T_int32) = replicate n CHR ''a'' @ ''i''"
    "single_type ((T_vector ^^ n) T_int32)" "array_nesting ((T_vector ^^ n) T_int32) = n" for n
    by (induction n) simp_all
  show ?thesis
    using signature_is_complete [of "T_map T_string (T_struct (T_tuple [T_int32, T_vector T_variant]))"]
      signature_is_complete [of "T_tuple [T_string, T_map T_string T_string]"]
      signature_is_complete [of "T_tuple [T_int32, T_string]" "[T_int32, T_string]" 5 5]
      signature_is_complete [of "(T_vector ^^ 33) T_int32"] deep [of 33]
    by simp
qed

text \<open>
  A vector of tuples does not work: \<open>Codec<std::vector<std::tuple<...>>>\<close> opens its array with
  the signatures of the members one after the other, which is not a complete type, and writes the
  members of each tuple without a structure around them. For a tuple of two or more members no
  value that is written has the element signature that was announced, so libdbus accepts none
  of them. (\<open>Struct<std::tuple<...>>\<close> is the type that works.)
\<close>

lemma vector_of_tuples_rejected:
  assumes "2 \<le> length ts" and "multi_type (T_tuple ts)" and "sendable (T_tuple ts) v"
    and "d \<in> set (dvals_of F (T_tuple ts) v)"
  shows "\<not> frame_accepts (Some (at_code At_array, Some (signature (T_tuple ts)))) vs d"
proof -
  obtain xs where v: "v = V_tuple xs" and l: "length xs = length ts"
    and xs: "\<forall>p \<in> set (zip ts xs). sendable (fst p) (snd p)"
    using assms(3) by (cases v) (auto split: option.splits)
  obtain t1 t2 ts' where ts: "ts = t1 # t2 # ts'"
    using assms(1) by (cases ts; cases "tl ts") auto
  obtain x1 x2 xs' where x: "xs = x1 # x2 # xs'"
    using l ts by (cases xs; cases "tl xs") auto
  have m: "multi_type t1" "multi_type t2" using assms(2) ts by simp_all
  have s: "sendable t1 x1" "sendable t2 x2" using xs ts x by simp_all
  obtain a as b bs cs where dv: "dvals_of F (T_tuple ts) v = (a # as) @ (b # bs) @ cs"
    using dvals_nonempty [OF m(1) s(1), of F] dvals_nonempty [OF m(2) s(2), of F] v ts x
    by (auto simp: neq_Nil_conv)
  have total: "concat (map dsig (dvals_of F (T_tuple ts) v)) = signature (T_tuple ts)"
    using dsig_dvals [OF assms(2,3)] .
  have pos: "0 < length (dsig e)" for e by (cases e) auto
  obtain ps qs where split: "dvals_of F (T_tuple ts) v = ps @ d # qs"
    using split_list [OF assms(4)] by blast
  have "ps \<noteq> [] \<or> qs \<noteq> []"
    using split dv by (cases ps) auto
  then have "0 < length (concat (map dsig ps)) + length (concat (map dsig qs))"
    using pos by (cases ps; cases qs) auto
  moreover have "length (signature (T_tuple ts))
      = length (concat (map dsig ps)) + length (dsig d) + length (concat (map dsig qs))"
    unfolding total [symmetric] split by simp
  ultimately have "dsig d \<noteq> signature (T_tuple ts)" by auto
  then show ?thesis by auto
qed

lemma vector_of_tuples_rejected_witness:
  "signature (T_vector (T_tuple [T_int32, T_string])) = ''ais''
   \<and> \<not> frame_accepts (Some (at_code At_array, Some ''is'')) [] (D_basic 105 (Raw32 1))"
  using vector_of_tuples_rejected [of "[T_int32, T_string]"
      "V_tuple [V_int32 1, V_string ''x'']" "D_basic 105 (Raw32 1)" sample_conversions "[]"]
  by simp

end
