(* ===== verification/Type_Mangler.thy ===== *)
theory Type_Mangler
  imports Type_Mapper
begin

text \<open>
  \<open>TypeMangler\<close> of src/core/dbus/generator.cpp: it reads a D-Bus signature character by character
  into a tree and prints the tree as a C++ type.

  The tree of \<open>Element\<close>s with pointers to the parents is a tree \<open>elem\<close> and a path: \<open>mg_current\<close> is
  the path of the element that \<open>current\<close> points to, from the root, and \<open>None\<close> when \<open>current\<close> is
  null (the parent of the root).
\<close>

section \<open>The tree\<close>

datatype elem = Elem argument_type "elem list"

fun argument_of :: "elem \<Rightarrow> argument_type" where
  "argument_of (Elem a cs) = a"

fun children_of :: "elem \<Rightarrow> elem list" where
  "children_of (Elem a cs) = cs"

fun at_path :: "nat list \<Rightarrow> elem \<Rightarrow> elem" where
  "at_path [] e = e"
| "at_path (i # p) e = at_path p (children_of e ! i)"

text \<open>\<open>children.push_back\<close> on the element at a path.\<close>

fun add_child :: "nat list \<Rightarrow> elem \<Rightarrow> elem \<Rightarrow> elem" where
  "add_child [] x (Elem a cs) = Elem a (cs @ [x])"
| "add_child (i # p) x (Elem a cs) = Elem a (cs[i := add_child p x (cs ! i)])"

record mangler =
  mg_is_void :: bool
  mg_root :: elem
  mg_current :: "nat list option"

definition new_mangler :: mangler where
  "new_mangler = \<lparr>mg_is_void = True, mg_root = Elem At_invalid [], mg_current = Some []\<rparr>"

text \<open>What dereferences \<open>current\<close>.\<close>

definition with_current :: "(nat list \<Rightarrow> (mangler, 'a) eff) \<Rightarrow> (mangler, 'a) eff" where
  "with_current f s =
     (case mg_current s of
        None \<Rightarrow> (Inl (Undefined_behaviour ''null pointer dereferenced''), s)
      | Some p \<Rightarrow> f p s)"

definition update_for_type :: "argument_type \<Rightarrow> (mangler, bool) eff" where
  "update_for_type arg s =
     (if arg = At_invalid then (Inr False, s)
      else with_current (\<lambda>p s. (Inr True, s\<lparr>mg_root := add_child p (Elem arg []) (mg_root s)\<rparr>))
             (s\<lparr>mg_is_void := False\<rparr>))"

text \<open>\<open>current = current->children.back()\<close>; the vector must not be empty.\<close>

definition descend :: "(mangler, bool) eff" where
  "descend = with_current (\<lambda>p s.
     let n = length (children_of (at_path p (mg_root s))) in
     if n = 0 then (Inl (Undefined_behaviour ''back of an empty vector''), s)
     else (Inr True, s\<lparr>mg_current := Some (p @ [n - 1])\<rparr>))"

text \<open>\<open>current = current->parent\<close>.\<close>

definition ascend :: "(mangler, bool) eff" where
  "ascend = with_current (\<lambda>p s.
     (Inr True, s\<lparr>mg_current := (if p = [] then None else Some (butlast p))\<rparr>))"

definition update_for_array_start :: "(mangler, bool) eff" where
  "update_for_array_start = descend"

definition update_for_struct_start :: "(mangler, bool) eff" where
  "update_for_struct_start = descend"

definition update_for_struct_end :: "(mangler, bool) eff" where
  "update_for_struct_end = ascend"

definition update_for_dict_entry_start :: "(mangler, bool) eff" where
  "update_for_dict_entry_start = descend"

definition update_for_dict_entry_end :: "(mangler, bool) eff" where
  "update_for_dict_entry_end = ascend"

text \<open>The argument type a character stands for when it is cast.\<close>

definition char_argument :: "char \<Rightarrow> argument_type" where
  "char_argument c = argument_type_of (int (of_char c))"

definition mangler_update :: "char \<Rightarrow> (mangler, bool) eff" where
  "mangler_update c =
     (if c = CHR ''('' then then_eff (update_for_type At_structure) update_for_struct_start
      else if c = CHR '')'' then update_for_struct_end
      else if c = CHR ''{'' then then_eff (update_for_type At_dictionary_entry) update_for_dict_entry_start
      else if c = CHR ''}'' then update_for_dict_entry_end
      else if c = CHR ''a'' then then_eff (update_for_type (char_argument c)) update_for_array_start
      else update_for_type (char_argument c))"

fun update_from_signature :: "string \<Rightarrow> (mangler, bool) eff" where
  "update_from_signature [] = return_eff True"
| "update_from_signature (c # cs) =
     bind_eff (mangler_update c)
       (\<lambda>result. if \<not> result then return_eff False else update_from_signature cs)"

section \<open>Printing\<close>

datatype comma_state = Not_required | Not_armed | Armed

definition write_comma :: "comma_state \<Rightarrow> string \<times> comma_state" where
  "write_comma c =
     (case c of
        Not_required \<Rightarrow> ([], Not_armed)
      | Not_armed \<Rightarrow> ([], Armed)
      | Armed \<Rightarrow> ('','', Not_armed))"

text \<open>\<open>ss << comma << text << comma\<close>.\<close>

definition between_commas :: "string \<Rightarrow> comma_state \<Rightarrow> string \<times> comma_state" where
  "between_commas txt c =
     (case write_comma c of (before, c) \<Rightarrow>
      case write_comma c of (after, c) \<Rightarrow> (before @ txt @ after, c))"

fun type_name :: "argument_type \<Rightarrow> string option" where
  "type_name At_byte = Some ''std::uint8_t''"
| "type_name At_boolean = Some ''bool''"
| "type_name At_int16 = Some ''std::int16_t''"
| "type_name At_uint16 = Some ''std::uint16_t''"
| "type_name At_int32 = Some ''std::int32_t''"
| "type_name At_uint32 = Some ''std::uint32_t''"
| "type_name At_int64 = Some ''std::int64_t''"
| "type_name At_uint64 = Some ''std::uint64_t''"
| "type_name At_floating_point = Some ''double''"
| "type_name At_string = Some ''std::string''"
| "type_name At_object_path = Some ''core::dbus::types::ObjectPath''"
| "type_name At_signature = Some ''core::dbus::types::Signature''"
| "type_name At_unix_fd = Some ''core::dbus::types::UnixFd''"
| "type_name At_variant = Some ''core::dbus::types::Variant<>''"
| "type_name _ = None"

lemma size_member: "e \<in> set cs \<Longrightarrow> size e \<le> size_list size cs"
  by (induction cs) auto

text \<open>\<open>print(element, comma)\<close> and the loop over children with a comma of its own; the comma is
  the state.\<close>

function print_elem :: "elem \<Rightarrow> (comma_state, string) eff"
  and print_children :: "elem list \<Rightarrow> (comma_state, string) eff" where
  "print_elem (Elem a cs) c =
     (if a = At_invalid then
        (let (before, c) = (if length cs > 1 then write_comma c else ([], c)) in
         case fst (print_children cs Not_required) of
           Inl e \<Rightarrow> (Inl e, c)
         | Inr txt \<Rightarrow>
             (case write_comma c of (after, c) \<Rightarrow>
                (Inr (if length cs > 1 then before @ ''std::tuple<'' @ txt @ ''>'' @ after
                      else txt @ after), c)))
      else if a = At_array then
        (case fst (print_children cs Not_required) of
           Inl e \<Rightarrow> (Inl e, c)
         | Inr txt \<Rightarrow> (case between_commas (''std::vector<'' @ txt @ ''>'') c of
                          (out, c) \<Rightarrow> (Inr out, c)))
      else if a = At_structure then
        (case fst (print_children cs Not_required) of
           Inl e \<Rightarrow> (Inl e, c)
         | Inr txt \<Rightarrow> (case between_commas (''std::tuple<'' @ txt @ ''>'') c of
                          (out, c) \<Rightarrow> (Inr out, c)))
      else if a = At_dictionary_entry then
        (if cs = [] then (Inl (Undefined_behaviour ''front of an empty vector''), c)
         else case fst (print_elem (hd cs) Not_required) of
                Inl e \<Rightarrow> (Inl e, c)
              | Inr front \<Rightarrow>
                  (case fst (print_elem (last cs) Not_required) of
                     Inl e \<Rightarrow> (Inl e, c)
                   | Inr back \<Rightarrow>
                       (case between_commas (''std::pair<'' @ front @ '', '' @ back @ ''>'') c of
                          (out, c) \<Rightarrow> (Inr out, c))))
      else (case type_name a of
              None \<Rightarrow> (Inr [], c)
            | Some n \<Rightarrow> (case between_commas n c of (out, c) \<Rightarrow> (Inr out, c))))"
| "print_children [] c = (Inr [], c)"
| "print_children (e # es) c =
     (case print_elem e c of
        (Inl x, c) \<Rightarrow> (Inl x, c)
      | (Inr s, c) \<Rightarrow>
          (case print_children es c of
             (Inl x, c) \<Rightarrow> (Inl x, c)
           | (Inr t, c) \<Rightarrow> (Inr (s @ t), c)))"
  by pat_completeness auto

termination
proof (relation "measure (case_sum (\<lambda>(e, c). size e) (\<lambda>(es, c). size_list size es))", goal_cases)
  case (5 a cs c)
  then show ?case using size_member [of "hd cs" cs] by simp
next
  case (6 a cs c x)
  then show ?case using size_member [of "last cs" cs] by simp
qed auto

definition print_type :: "mangler \<Rightarrow> exn + string" where
  "print_type s = (if mg_is_void s then Inr ''void'' else fst (print_elem (mg_root s) Not_required))"

section \<open>Trees at paths\<close>

fun valid_path :: "nat list \<Rightarrow> elem \<Rightarrow> bool" where
  "valid_path [] e = True"
| "valid_path (i # p) e = (i < length (children_of e) \<and> valid_path p (children_of e ! i))"

definition width_at :: "nat list \<Rightarrow> elem \<Rightarrow> nat" where
  "width_at p e = length (children_of (at_path p e))"

lemma at_add_child:
  "valid_path p e \<Longrightarrow>
     at_path p (add_child p x e) = Elem (argument_of (at_path p e)) (children_of (at_path p e) @ [x])"
proof (induction p x e rule: add_child.induct)
  case (2 i p x a cs)
  then show ?case by simp
qed simp

lemma valid_add_child: "valid_path p e \<Longrightarrow> valid_path p (add_child p x e)"
  by (induction p x e rule: add_child.induct) simp_all

lemma width_add_child: "valid_path p e \<Longrightarrow> width_at p (add_child p x e) = Suc (width_at p e)"
  by (simp add: width_at_def at_add_child)

lemma valid_new_child:
  "valid_path p e \<Longrightarrow> valid_path (p @ [width_at p e]) (add_child p x e)"
  unfolding width_at_def by (induction p x e rule: add_child.induct) simp_all

lemma width_new_child:
  "valid_path p e \<Longrightarrow> width_at (p @ [width_at p e]) (add_child p (Elem a cs) e) = length cs"
  unfolding width_at_def
proof (induction p "Elem a cs" e rule: add_child.induct)
  case (2 i p a' cs')
  then show ?case by simp
qed simp

lemma add_grandchild:
  "valid_path p e \<Longrightarrow> add_child (p @ [width_at p e]) y (add_child p (Elem a cs) e)
     = add_child p (Elem a (cs @ [y])) e"
  unfolding width_at_def
proof (induction p "Elem a cs" e rule: add_child.induct)
  case (2 i p a' cs')
  then show ?case by simp
qed simp

lemma add_grandchildren:
  "valid_path p e \<Longrightarrow> fold (add_child (p @ [width_at p e])) ys (add_child p (Elem a cs) e)
     = add_child p (Elem a (cs @ ys)) e"
  by (induction ys arbitrary: cs) (simp_all add: add_grandchild)

section \<open>Which types, which trees\<close>

text \<open>The types an introspection file can name, as trees. \<open>T_vector (T_pair k u)\<close> is the dictionary
  \<open>a{ku}\<close>.\<close>

fun idl :: "ctype \<Rightarrow> bool" where
  "idl T_variant = True"
| "idl (T_vector t) = (case t of T_pair k u \<Rightarrow> basic_type k \<and> idl u | _ \<Rightarrow> idl t)"
| "idl (T_struct t) = (case t of T_tuple ts \<Rightarrow> ts \<noteq> [] \<and> (\<forall>t \<in> set ts. idl t) | _ \<Rightarrow> idl t)"
| "idl t = basic_type t"

fun no_array :: "ctype \<Rightarrow> bool" where
  "no_array (T_vector t) = False"
| "no_array (T_pair k u) = no_array u"
| "no_array (T_struct t) = no_array t"
| "no_array (T_tuple ts) = (\<forall>t \<in> set ts. no_array t)"
| "no_array t = True"

text \<open>Arrays in last position only: nothing follows an array inside the same structure, and so
  on inside each member.\<close>

definition arrays_last :: "ctype list \<Rightarrow> bool" where
  "arrays_last ts \<longleftrightarrow> (\<forall>t \<in> set (butlast ts). no_array t)"

fun tidy :: "ctype \<Rightarrow> bool" where
  "tidy (T_vector t) = tidy t"
| "tidy (T_pair k u) = tidy u"
| "tidy (T_struct t) = tidy t"
| "tidy (T_tuple ts) = (arrays_last ts \<and> (\<forall>t \<in> set ts. tidy t))"
| "tidy t = True"

fun tree :: "ctype \<Rightarrow> elem" where
  "tree (T_vector t) = Elem At_array [tree t]"
| "tree (T_pair k u) = Elem At_dictionary_entry [tree k, tree u]"
| "tree (T_struct t) =
     Elem At_structure (case t of T_tuple ts \<Rightarrow> children_of (tree t) | _ \<Rightarrow> [tree t])"
| "tree (T_tuple ts) = Elem At_invalid (map tree ts)"
| "tree t = Elem (type_value (type_mapper t)) []"

text \<open>The C++ type that is meant.\<close>

fun cpp_type :: "ctype \<Rightarrow> string" where
  "cpp_type (T_vector t) = ''std::vector<'' @ cpp_type t @ ''>''"
| "cpp_type (T_pair k u) = ''std::pair<'' @ cpp_type k @ '', '' @ cpp_type u @ ''>''"
| "cpp_type (T_struct t) =
     (case t of T_tuple ts \<Rightarrow> cpp_type t | _ \<Rightarrow> ''std::tuple<'' @ cpp_type t @ ''>'')"
| "cpp_type (T_tuple ts) = ''std::tuple<'' @ intercalate '','' (map cpp_type ts) @ ''>''"
| "cpp_type t = (case type_name (type_value (type_mapper t)) of Some n \<Rightarrow> n | None \<Rightarrow> [])"

section \<open>Reading a signature\<close>

lemma update_from_signature_append:
  "update_from_signature (xs @ ys) =
     bind_eff (update_from_signature xs)
       (\<lambda>r. if \<not> r then return_eff False else update_from_signature ys)"
proof (induction xs)
  case (Cons c xs)
  show ?case
    by (rule ext) (simp add: Cons bind_eff_def return_eff_def split: prod.split sum.split)
qed simp

lemma update_signature_step:
  "update_from_signature xs s = (Inr True, s') \<Longrightarrow>
     update_from_signature (xs @ ys) s = update_from_signature ys s'"
  by (simp add: update_from_signature_append bind_eff_def)

definition grown :: "nat list \<Rightarrow> elem list \<Rightarrow> nat list \<Rightarrow> mangler \<Rightarrow> mangler" where
  "grown p es q s = s\<lparr>mg_is_void := False, mg_root := fold (add_child p) es (mg_root s),
     mg_current := Some (p @ q)\<rparr>"

definition reads_type :: "ctype \<Rightarrow> bool" where
  "reads_type t \<longleftrightarrow>
     (\<forall>s p. mg_current s = Some p \<longrightarrow> valid_path p (mg_root s) \<longrightarrow>
        (\<exists>q. update_from_signature (signature t) s = (Inr True, grown p [tree t] q s)
           \<and> (no_array t \<longrightarrow> q = [])))"

lemma reads_typeE:
  assumes "reads_type t" and "mg_current s = Some p" and "valid_path p (mg_root s)"
  obtains q where "update_from_signature (signature t) s = (Inr True, grown p [tree t] q s)"
    and "no_array t \<longrightarrow> q = []"
  using assms unfolding reads_type_def by blast

lemma reads_seq:
  assumes "\<forall>t \<in> set ts. reads_type t" and "arrays_last ts" and "ts \<noteq> []"
    and "mg_current s = Some p" and "valid_path p (mg_root s)"
  shows "\<exists>q. update_from_signature (concat (map signature ts)) s
       = (Inr True, grown p (map tree ts) q s)
     \<and> ((\<forall>t \<in> set ts. no_array t) \<longrightarrow> q = [])"
  using assms
proof (induction ts arbitrary: s)
  case (Cons t ts)
  obtain q where u: "update_from_signature (signature t) s = (Inr True, grown p [tree t] q s)"
    and q: "no_array t \<longrightarrow> q = []"
    using reads_typeE Cons.prems by (metis list.set_intros(1))
  show ?case
  proof (cases "ts = []")
    case True
    then show ?thesis using u q by auto
  next
    case False
    then have "q = []" using q Cons.prems(2) by (simp add: arrays_last_def)
    let ?s1 = "grown p [tree t] [] s"
    have "mg_current ?s1 = Some p" and "valid_path p (mg_root ?s1)"
      using Cons.prems(5) by (simp_all add: grown_def valid_add_child)
    moreover have "\<forall>t \<in> set ts. reads_type t" and "arrays_last ts"
      using Cons.prems False by (simp_all add: arrays_last_def)
    ultimately obtain q' where
      "update_from_signature (concat (map signature ts)) ?s1 = (Inr True, grown p (map tree ts) q' ?s1)"
      and "(\<forall>t \<in> set ts. no_array t) \<longrightarrow> q' = []"
      using Cons.IH False by blast
    moreover have "grown p (map tree ts) q' ?s1 = grown p (map tree (t # ts)) q' s"
      by (simp add: grown_def)
    ultimately show ?thesis
      using update_signature_step [OF u] \<open>q = []\<close> by auto
  qed
qed simp

lemma basic_char:
  assumes "basic_type t \<or> t = T_variant"
  obtains c where "signature t = [c]" and "c \<noteq> CHR ''(''" and "c \<noteq> CHR '')''" and "c \<noteq> CHR ''{''"
    and "c \<noteq> CHR ''}''" and "c \<noteq> CHR ''a''" and "char_argument c = type_value (type_mapper t)"
    and "type_value (type_mapper t) \<noteq> At_invalid" and "tree t = Elem (type_value (type_mapper t)) []"
    and "no_array t"
  using assms by (cases t) (simp_all add: tm_basic_defs char_argument_def argument_type_of_eq_iff)

lemma reads_basic_type:
  assumes "basic_type t \<or> t = T_variant"
  shows "reads_type t"
proof -
  obtain c where "signature t = [c]" "c \<noteq> CHR ''(''" "c \<noteq> CHR '')''" "c \<noteq> CHR ''{''"
    "c \<noteq> CHR ''}''" "c \<noteq> CHR ''a''" "char_argument c = type_value (type_mapper t)"
    "type_value (type_mapper t) \<noteq> At_invalid" "tree t = Elem (type_value (type_mapper t)) []"
    "no_array t"
    by (rule basic_char [OF assms])
  then show ?thesis
    by (simp add: reads_type_def mangler_update_def update_for_type_def with_current_def
        bind_eff_def grown_def return_eff_def)
qed

text \<open>Entering a container and leaving it.\<close>

lemma enter_container:
  assumes "mg_current s = Some p" and "valid_path p (mg_root s)" and "a \<noteq> At_invalid"
  shows "then_eff (update_for_type a) descend s =
     (Inr True, s\<lparr>mg_is_void := False, mg_root := add_child p (Elem a []) (mg_root s),
        mg_current := Some (p @ [width_at p (mg_root s)])\<rparr>)"
  using assms at_add_child [OF assms(2)]
  by (simp add: then_eff_def bind_eff_def update_for_type_def with_current_def descend_def
      width_at_def)

lemma leave_container:
  "ascend (s\<lparr>mg_current := Some (p @ n # q)\<rparr>) =
     (Inr True, s\<lparr>mg_current := Some (p @ butlast (n # q))\<rparr>)"
  by (simp add: ascend_def with_current_def butlast_append)

lemma container_body:
  assumes "mg_current s = Some p" and "valid_path p (mg_root s)"
    and "\<forall>t \<in> set ts. reads_type t" and "arrays_last ts" and "ts \<noteq> []"
  obtains q where "update_from_signature (concat (map signature ts))
       (s\<lparr>mg_is_void := False, mg_root := add_child p (Elem a []) (mg_root s),
          mg_current := Some (p @ [width_at p (mg_root s)])\<rparr>)
     = (Inr True, grown p [Elem a (map tree ts)] (width_at p (mg_root s) # q) s)"
    and "(\<forall>t \<in> set ts. no_array t) \<longrightarrow> q = []"
proof -
  let ?n = "width_at p (mg_root s)"
  let ?s1 = "s\<lparr>mg_is_void := False, mg_root := add_child p (Elem a []) (mg_root s),
     mg_current := Some (p @ [?n])\<rparr>"
  obtain q where "update_from_signature (concat (map signature ts)) ?s1
      = (Inr True, grown (p @ [?n]) (map tree ts) q ?s1)"
    and q: "(\<forall>t \<in> set ts. no_array t) \<longrightarrow> q = []"
    using reads_seq [OF assms(3-5), of ?s1 "p @ [?n]"] valid_new_child [OF assms(2)] by auto
  moreover have "grown (p @ [?n]) (map tree ts) q ?s1 = grown p [Elem a (map tree ts)] (?n # q) s"
    using add_grandchildren [OF assms(2), of "map tree ts" a "[]"] by (simp add: grown_def)
  ultimately show thesis using that by simp
qed

lemma update_bracketed:
  assumes "mangler_update b = then_eff (update_for_type a) descend" and "a \<noteq> At_invalid"
    and "mangler_update b' = ascend"
    and "mg_current s = Some p" and "valid_path p (mg_root s)"
    and "\<forall>t \<in> set ts. reads_type t" and "arrays_last ts" and "ts \<noteq> []"
  shows "\<exists>q. update_from_signature (b # concat (map signature ts) @ [b']) s
       = (Inr True, grown p [Elem a (map tree ts)] q s)
     \<and> ((\<forall>t \<in> set ts. no_array t) \<longrightarrow> q = [])"
proof -
  let ?n = "width_at p (mg_root s)"
  let ?s1 = "s\<lparr>mg_is_void := False, mg_root := add_child p (Elem a []) (mg_root s),
     mg_current := Some (p @ [?n])\<rparr>"
  obtain q where body: "update_from_signature (concat (map signature ts)) ?s1
      = (Inr True, grown p [Elem a (map tree ts)] (?n # q) s)"
    and q: "(\<forall>t \<in> set ts. no_array t) \<longrightarrow> q = []"
    by (rule container_body [OF assms(4-8)])
  have "ascend (grown p [Elem a (map tree ts)] (?n # q) s)
      = (Inr True, grown p [Elem a (map tree ts)] (butlast (?n # q)) s)"
    using leave_container [where s = "grown p [Elem a (map tree ts)] (?n # q) s" and p = p
        and n = ?n and q = q]
    by (simp add: grown_def)
  then have "update_from_signature (b # concat (map signature ts) @ [b']) s
      = (Inr True, grown p [Elem a (map tree ts)] (butlast (?n # q)) s)"
    using update_signature_step [OF body, of "[b']"] assms(1,3) enter_container [OF assms(4,5,2)]
    by (simp add: bind_eff_def return_eff_def)
  then show ?thesis using q by auto
qed

lemma update_array:
  assumes "mg_current s = Some p" and "valid_path p (mg_root s)" and "reads_type t"
  shows "\<exists>q. update_from_signature (CHR ''a'' # signature t) s
     = (Inr True, grown p [Elem At_array [tree t]] (width_at p (mg_root s) # q) s)"
proof -
  have "char_argument CHR ''a'' = At_array"
    by (simp add: char_argument_def argument_type_of_eq_iff)
  then have "mangler_update CHR ''a'' = then_eff (update_for_type At_array) descend"
    by (simp add: mangler_update_def update_for_array_start_def)
  moreover have "arrays_last [t]" by (simp add: arrays_last_def)
  ultimately show ?thesis
    using container_body [OF assms(1,2), of "[t]" At_array] assms(3) enter_container [OF assms(1,2), of At_array]
    by (simp add: bind_eff_def) metis
qed

lemma reads_vector:
  assumes "reads_type t"
  shows "reads_type (T_vector t)"
  unfolding reads_type_def
proof (intro allI impI)
  fix s :: mangler and p
  assume "mg_current s = Some p" "valid_path p (mg_root s)"
  then obtain q where "update_from_signature (CHR ''a'' # signature t) s
      = (Inr True, grown p [Elem At_array [tree t]] (width_at p (mg_root s) # q) s)"
    using update_array assms by blast
  then show "\<exists>q. update_from_signature (signature (T_vector t)) s
      = (Inr True, grown p [tree (T_vector t)] q s) \<and> (no_array (T_vector t) \<longrightarrow> q = [])"
    by auto
qed

lemma reads_pair:
  assumes "basic_type k" and "reads_type u"
  shows "reads_type (T_pair k u)"
  unfolding reads_type_def
proof (intro allI impI)
  fix s :: mangler and p
  assume s: "mg_current s = Some p" "valid_path p (mg_root s)"
  have k: "reads_type k" "no_array k"
    using assms(1) reads_basic_type [of k] by (cases k; simp)+
  have b: "mangler_update CHR ''{'' = then_eff (update_for_type At_dictionary_entry) descend"
    "mangler_update CHR ''}'' = ascend"
    by (simp_all add: mangler_update_def update_for_dict_entry_start_def update_for_dict_entry_end_def)
  have "\<exists>q. update_from_signature (CHR ''{'' # concat (map signature [k, u]) @ [CHR ''}'']) s
       = (Inr True, grown p [Elem At_dictionary_entry (map tree [k, u])] q s)
     \<and> ((\<forall>t \<in> set [k, u]. no_array t) \<longrightarrow> q = [])"
    by (rule update_bracketed [OF b(1) _ b(2) s]) (use k assms(2) in \<open>simp_all add: arrays_last_def\<close>)
  then show "\<exists>q. update_from_signature (signature (T_pair k u)) s
      = (Inr True, grown p [tree (T_pair k u)] q s) \<and> (no_array (T_pair k u) \<longrightarrow> q = [])"
    using k(2) by simp
qed

lemma reads_struct:
  assumes "\<forall>t \<in> set ts. reads_type t" and "arrays_last ts" and "ts \<noteq> []"
    and "signature t = CHR ''('' # concat (map signature ts) @ [CHR '')'']"
    and "tree t = Elem At_structure (map tree ts)" and "no_array t = (\<forall>u \<in> set ts. no_array u)"
  shows "reads_type t"
  unfolding reads_type_def assms(4-6)
proof (intro allI impI)
  fix s :: mangler and p
  assume s: "mg_current s = Some p" "valid_path p (mg_root s)"
  have b: "mangler_update CHR ''('' = then_eff (update_for_type At_structure) descend"
    "mangler_update CHR '')'' = ascend"
    by (simp_all add: mangler_update_def update_for_struct_start_def update_for_struct_end_def)
  show "\<exists>q. update_from_signature (CHR ''('' # concat (map signature ts) @ [CHR '')'']) s
       = (Inr True, grown p [Elem At_structure (map tree ts)] q s)
     \<and> ((\<forall>u \<in> set ts. no_array u) \<longrightarrow> q = [])"
    by (rule update_bracketed [OF b(1) _ b(2) s assms(1-3)]) simp
qed

lemma size_tuple_member: "t \<in> set ts \<Longrightarrow> size t < Suc (size_list size ts)"
  by (induction ts) auto

lemma idl_reads: "idl t \<Longrightarrow> tidy t \<Longrightarrow> reads_type t"
proof (induction "size t" arbitrary: t rule: less_induct)
  case less
  show ?case
  proof (cases t)
    case (T_vector u)
    have "reads_type u"
    proof (cases "\<exists>k v. u = T_pair k v")
      case True
      then obtain k v where u: "u = T_pair k v" by blast
      then have "reads_type v" using less T_vector by simp
      then show ?thesis using less T_vector u by (simp add: reads_pair)
    next
      case False
      then show ?thesis using less T_vector by (cases u) auto
    qed
    then show ?thesis using T_vector by (simp add: reads_vector)
  next
    case (T_struct u)
    show ?thesis
    proof (cases "\<exists>ts. u = T_tuple ts")
      case True
      then obtain ts where u: "u = T_tuple ts" by blast
      have ts: "ts \<noteq> []" "\<forall>t \<in> set ts. idl t" "arrays_last ts" "\<forall>t \<in> set ts. tidy t"
        using less T_struct u by simp_all
      have "reads_type v" if "v \<in> set ts" for v
        using less(1) [of v] ts that T_struct u size_tuple_member [OF that] by simp
      then show ?thesis
        using ts T_struct u by (intro reads_struct [of ts]) simp_all
    next
      case False
      then have u: "idl u" "tidy u" "tree t = Elem At_structure (map tree [u])"
        using less T_struct by (cases u; simp)+
      then have "reads_type u" using less T_struct by simp
      then show ?thesis
        using u T_struct by (intro reads_struct [of "[u]"]) (simp_all add: arrays_last_def)
    qed
  qed (use less in \<open>auto intro: reads_basic_type\<close>)
qed

section \<open>Printing a tree\<close>

definition lead :: "comma_state \<Rightarrow> string" where
  "lead c = (if c = Armed then '','' else [])"

lemma between_commas_run: "c \<noteq> Not_armed \<Longrightarrow> between_commas txt c = (lead c @ txt, Armed)"
  by (cases c) (simp_all add: between_commas_def write_comma_def lead_def)

definition prints :: "ctype \<Rightarrow> bool" where
  "prints t \<longleftrightarrow>
     (\<forall>c. c \<noteq> Not_armed \<longrightarrow> print_elem (tree t) c = (Inr (lead c @ cpp_type t), Armed))"

lemma print_children_armed:
  "\<forall>t \<in> set ts. prints t \<Longrightarrow>
     print_children (map tree ts) Armed = (Inr (concat (map (\<lambda>t. '','' @ cpp_type t) ts)), Armed)"
  by (induction ts) (simp_all add: prints_def lead_def)

lemma print_children_all:
  assumes "\<forall>t \<in> set ts. prints t" and "ts \<noteq> []"
  shows "print_children (map tree ts) Not_required
     = (Inr (intercalate '','' (map cpp_type ts)), Armed)"
  using assms print_children_armed [of "tl ts"]
  by (cases ts) (simp_all add: prints_def lead_def intercalate_Cons o_def)

lemma prints_basic: "basic_type t \<or> t = T_variant \<Longrightarrow> prints t"
  by (cases t) (simp_all add: prints_def tm_basic_defs between_commas_run)

lemma prints_pair: "prints k \<Longrightarrow> prints u \<Longrightarrow> prints (T_pair k u)"
  by (simp add: prints_def lead_def between_commas_run)

lemma prints_vector: "prints t \<Longrightarrow> prints (T_vector t)"
  by (simp add: prints_def lead_def between_commas_run)

lemma prints_struct:
  assumes "\<forall>t \<in> set ts. prints t" and "ts \<noteq> []"
    and "tree t = Elem At_structure (map tree ts)"
    and "cpp_type t = ''std::tuple<'' @ intercalate '','' (map cpp_type ts) @ ''>''"
  shows "prints t"
  unfolding prints_def assms(3,4) using print_children_all [OF assms(1,2)]
  by (simp add: between_commas_run)

lemma idl_prints: "idl t \<Longrightarrow> prints t"
proof (induction "size t" arbitrary: t rule: less_induct)
  case less
  show ?case
  proof (cases t)
    case (T_vector u)
    have "prints u"
    proof (cases "\<exists>k v. u = T_pair k v")
      case True
      then obtain k v where u: "u = T_pair k v" by blast
      then have "prints v" "prints k" using less T_vector prints_basic by simp_all
      then show ?thesis using u by (simp add: prints_pair)
    next
      case False
      then show ?thesis using less T_vector by (cases u) auto
    qed
    then show ?thesis using T_vector by (simp add: prints_vector)
  next
    case (T_struct u)
    show ?thesis
    proof (cases "\<exists>ts. u = T_tuple ts")
      case True
      then obtain ts where u: "u = T_tuple ts" by blast
      have ts: "ts \<noteq> []" "\<forall>t \<in> set ts. idl t"
        using less T_struct u by simp_all
      have "prints v" if "v \<in> set ts" for v
        using less(1) [of v] ts that T_struct u size_tuple_member [OF that] by simp
      then show ?thesis
        using ts T_struct u by (intro prints_struct [of ts]) simp_all
    next
      case False
      then have u: "idl u" "tree t = Elem At_structure (map tree [u])"
        "cpp_type t = ''std::tuple<'' @ intercalate '','' (map cpp_type [u]) @ ''>''"
        using less T_struct by (cases u; simp)+
      then have "prints u" using less T_struct by simp
      then show ?thesis using u by (intro prints_struct [of "[u]"]) simp_all
    qed
  qed (use less in \<open>auto intro: prints_basic\<close>)
qed

section \<open>What the generator prints for a list of arguments\<close>

text \<open>No argument is \<open>void\<close>, one is its own type, several are a tuple.\<close>

definition cpp_arguments :: "ctype list \<Rightarrow> string" where
  "cpp_arguments ts =
     (if ts = [] then ''void'' else if length ts = 1 then cpp_type (hd ts)
      else ''std::tuple<'' @ intercalate '','' (map cpp_type ts) @ ''>'')"

lemma print_root:
  assumes "\<forall>t \<in> set ts. prints t" and "ts \<noteq> []"
  shows "fst (print_elem (Elem At_invalid (map tree ts)) Not_required) = Inr (cpp_arguments ts)"
proof (cases "length ts = 1")
  case True
  then have "intercalate '','' (map cpp_type ts) = cpp_type (hd ts)"
    by (cases ts) auto
  then show ?thesis
    using True print_children_all [OF assms] assms(2)
    by (simp add: write_comma_def cpp_arguments_def)
next
  case False
  then have "1 < length ts" using assms(2) by (cases ts) auto
  then show ?thesis
    using print_children_all [OF assms] assms(2)
    by (simp add: write_comma_def cpp_arguments_def)
qed

lemma mangler_reads_arguments:
  assumes "\<forall>t \<in> set ts. idl t \<and> tidy t" and "arrays_last ts"
  shows "\<exists>s. update_from_signature (helper_signature ts) new_mangler = (Inr True, s)
     \<and> print_type s = Inr (cpp_arguments ts)"
proof (cases "ts = []")
  case True
  then show ?thesis
    by (simp add: return_eff_def print_type_def new_mangler_def cpp_arguments_def)
next
  case False
  have r: "\<forall>t \<in> set ts. reads_type t" and p: "\<forall>t \<in> set ts. prints t"
    using assms(1) idl_reads idl_prints by blast+
  have "mg_current new_mangler = Some []" and "valid_path [] (mg_root new_mangler)"
    by (simp_all add: new_mangler_def)
  then obtain q where "update_from_signature (concat (map signature ts)) new_mangler
      = (Inr True, grown [] (map tree ts) q new_mangler)"
    using reads_seq [OF r assms(2) False] by blast
  moreover have "fold (add_child []) es (Elem At_invalid cs) = Elem At_invalid (cs @ es)" for es cs
    by (induction es arbitrary: cs) simp_all
  ultimately show ?thesis
    using print_root [OF p False]
    by (simp add: helper_signature_concat grown_def print_type_def new_mangler_def)
qed

text \<open>
  C23. The type mangler is the inverse of the type mapper. Reading the signatures of a list of
  arguments into a new mangler, in one go, and printing it gives \<open>void\<close> for none, the C++ type
  for one and the tuple of the C++ types for several, for all types an introspection file can name
  (structures, arrays and dictionaries nested to any depth), provided that arrays come last.
\<close>

theorem mangler_inverts_type_mapper:
  assumes "\<forall>t \<in> set ts. idl t \<and> tidy t" and "arrays_last ts"
  shows "\<exists>s. update_from_signature (helper_signature ts) new_mangler = (Inr True, s)
     \<and> print_type s = Inr (cpp_arguments ts)"
  using mangler_reads_arguments [OF assms] .

theorem mangler_inverts_type_mapper_witness:
  "\<exists>s. update_from_signature ''s(ib)a{sv}'' new_mangler = (Inr True, s)
     \<and> print_type s = Inr (''std::tuple<std::string,std::tuple<std::int32_t,bool>,''
         @ ''std::vector<std::pair<std::string, core::dbus::types::Variant<>>>>'')"
  using mangler_inverts_type_mapper [of "[T_string, T_struct (T_tuple [T_int32, T_boolean]),
      T_vector (T_pair T_string T_variant)]"]
  by (simp add: arrays_last_def cpp_arguments_def tm_basic_defs)

text \<open>
  The current element is never moved out of an array again, so what follows an array is read
  into it: for an array of \<open>t\<close> followed by an argument \<open>u\<close>, the mangler prints a vector with
  two template arguments instead of a tuple of two types.
\<close>

lemma array_swallows_next_argument:
  assumes "idl t" and "tidy t" and "no_array t" and "idl u" and "tidy u"
  shows "\<exists>s. update_from_signature (signature (T_vector t) @ signature u) new_mangler = (Inr True, s)
     \<and> print_type s = Inr (''std::vector<'' @ cpp_type t @ '','' @ cpp_type u @ ''>'')"
proof -
  have a: "char_argument CHR ''a'' = At_array"
    by (simp add: char_argument_def argument_type_of_eq_iff)
  have 0: "mg_current new_mangler = Some []" "valid_path [] (mg_root new_mangler)"
    by (simp_all add: new_mangler_def)
  have r: "\<forall>t \<in> set [t, u]. reads_type t" and p: "\<forall>t \<in> set [t, u]. prints t"
    and l: "arrays_last [t, u]"
    using assms by (simp_all add: idl_reads idl_prints arrays_last_def)
  obtain q where "update_from_signature (concat (map signature [t, u]))
       (new_mangler\<lparr>mg_is_void := False, mg_root := add_child [] (Elem At_array []) (mg_root new_mangler),
          mg_current := Some ([] @ [width_at [] (mg_root new_mangler)])\<rparr>)
     = (Inr True, grown [] [Elem At_array (map tree [t, u])]
          (width_at [] (mg_root new_mangler) # q) new_mangler)"
    using container_body [OF 0 r l] by blast
  moreover have "update_from_signature (signature (T_vector t) @ signature u) new_mangler
     = update_from_signature (concat (map signature [t, u]))
       (new_mangler\<lparr>mg_is_void := False, mg_root := add_child [] (Elem At_array []) (mg_root new_mangler),
          mg_current := Some ([] @ [width_at [] (mg_root new_mangler)])\<rparr>)"
    using enter_container [OF 0, of At_array] a
    by (simp add: mangler_update_def update_for_array_start_def bind_eff_def)
  moreover have "fst (print_children (map tree [t, u]) Not_required)
      = Inr (cpp_type t @ '','' @ cpp_type u)"
    using print_children_all [OF p] by simp
  then have "fst (print_elem (Elem At_invalid [Elem At_array (map tree [t, u])]) Not_required)
      = Inr (''std::vector<'' @ cpp_type t @ '','' @ cpp_type u @ ''>'')"
    by (simp add: between_commas_run lead_def write_comma_def split: sum.splits)
  ultimately show ?thesis
    by (simp add: grown_def print_type_def new_mangler_def)
qed

lemma array_swallows_next_argument_witness:
  "\<exists>s. update_from_signature ''ais'' new_mangler = (Inr True, s)
     \<and> print_type s = Inr ''std::vector<std::int32_t,std::string>''"
  using array_swallows_next_argument [of T_int32 T_string] by (simp add: tm_basic_defs)

end
