(* ===== verification/Introspection.thy ===== *)
theory Introspection
  imports Dbus_Types
begin

text \<open>
  From introspection XML to the model of an interface: \<open>IntrospectionParser\<close>
  (include/core/dbus/introspection\_parser.h, src/core/dbus/introspection\_parser.cpp) and the
  elements and the context of \<open>Compiler\<close> (include/core/dbus/compiler.h,
  src/core/dbus/compiler.cpp).

  The XML reader is libxml2, which is not part of the repository: opening a file yields (or not) the
  nodes that \<open>xmlTextReaderRead\<close> visits, and the status with which it stops.
\<close>

section \<open>What the parser reports\<close>

record parser_annotation =
  annotation_name :: string
  annotation_value :: string

record parser_node =
  node_name :: string

record parser_interface =
  interface_name :: string

datatype direction = Dir_context | Dir_in | Dir_out

record parser_argument =
  argument_name :: string
  argument_signature :: string
  argument_direction :: direction

record parser_method =
  method_name :: string

record parser_signal =
  signal_name :: string

datatype access = Access_read | Access_write | Access_read_write

record parser_property =
  property_name :: string
  property_signature :: string
  property_access :: access

text \<open>The callbacks; a \<open>std::function\<close> that was not set is \<open>None\<close>.\<close>

record 's parser =
  cb_node :: "(parser_node \<Rightarrow> ('s, unit) eff) option"
  cb_node_done :: "('s, unit) eff option"
  cb_interface :: "(parser_interface \<Rightarrow> ('s, unit) eff) option"
  cb_interface_done :: "('s, unit) eff option"
  cb_method :: "(parser_method \<Rightarrow> ('s, unit) eff) option"
  cb_method_done :: "('s, unit) eff option"
  cb_property :: "(parser_property \<Rightarrow> ('s, unit) eff) option"
  cb_signal :: "(parser_signal \<Rightarrow> ('s, unit) eff) option"
  cb_signal_done :: "('s, unit) eff option"
  cb_argument :: "(parser_argument \<Rightarrow> ('s, unit) eff) option"
  cb_argument_done :: "('s, unit) eff option"
  cb_annotation :: "(parser_annotation \<Rightarrow> ('s, unit) eff) option"
  cb_annotation_done :: "('s, unit) eff option"

definition new_parser :: "'s parser" where
  "new_parser = \<lparr>cb_node = None, cb_node_done = None, cb_interface = None,
     cb_interface_done = None, cb_method = None, cb_method_done = None, cb_property = None,
     cb_signal = None, cb_signal_done = None, cb_argument = None, cb_argument_done = None,
     cb_annotation = None, cb_annotation_done = None\<rparr>"

definition on_node :: "(parser_node \<Rightarrow> ('s, unit) eff) option \<Rightarrow> 's parser \<Rightarrow> 's parser" where
  "on_node f d = d\<lparr>cb_node := f\<rparr>"

definition on_node_done :: "('s, unit) eff option \<Rightarrow> 's parser \<Rightarrow> 's parser" where
  "on_node_done f d = d\<lparr>cb_node_done := f\<rparr>"

definition on_interface ::
  "(parser_interface \<Rightarrow> ('s, unit) eff) option \<Rightarrow> 's parser \<Rightarrow> 's parser" where
  "on_interface f d = d\<lparr>cb_interface := f\<rparr>"

definition on_interface_done :: "('s, unit) eff option \<Rightarrow> 's parser \<Rightarrow> 's parser" where
  "on_interface_done f d = d\<lparr>cb_interface_done := f\<rparr>"

definition on_method :: "(parser_method \<Rightarrow> ('s, unit) eff) option \<Rightarrow> 's parser \<Rightarrow> 's parser" where
  "on_method f d = d\<lparr>cb_method := f\<rparr>"

definition on_method_done :: "('s, unit) eff option \<Rightarrow> 's parser \<Rightarrow> 's parser" where
  "on_method_done f d = d\<lparr>cb_method_done := f\<rparr>"

definition on_property ::
  "(parser_property \<Rightarrow> ('s, unit) eff) option \<Rightarrow> 's parser \<Rightarrow> 's parser" where
  "on_property f d = d\<lparr>cb_property := f\<rparr>"

definition on_signal :: "(parser_signal \<Rightarrow> ('s, unit) eff) option \<Rightarrow> 's parser \<Rightarrow> 's parser" where
  "on_signal f d = d\<lparr>cb_signal := f\<rparr>"

definition on_signal_done :: "('s, unit) eff option \<Rightarrow> 's parser \<Rightarrow> 's parser" where
  "on_signal_done f d = d\<lparr>cb_signal_done := f\<rparr>"

definition on_argument ::
  "(parser_argument \<Rightarrow> ('s, unit) eff) option \<Rightarrow> 's parser \<Rightarrow> 's parser" where
  "on_argument f d = d\<lparr>cb_argument := f\<rparr>"

definition on_argument_done :: "('s, unit) eff option \<Rightarrow> 's parser \<Rightarrow> 's parser" where
  "on_argument_done f d = d\<lparr>cb_argument_done := f\<rparr>"

definition on_annotation ::
  "(parser_annotation \<Rightarrow> ('s, unit) eff) option \<Rightarrow> 's parser \<Rightarrow> 's parser" where
  "on_annotation f d = d\<lparr>cb_annotation := f\<rparr>"

definition on_annotation_done :: "('s, unit) eff option \<Rightarrow> 's parser \<Rightarrow> 's parser" where
  "on_annotation_done f d = d\<lparr>cb_annotation_done := f\<rparr>"

section \<open>Parsing\<close>

record xml_node =
  xml_type :: int
  xml_name :: "string option"
  xml_attribute :: "string \<Rightarrow> string option"
  xml_empty :: bool

definition safe_string_construct :: "string option \<Rightarrow> string" where
  "safe_string_construct c = (case c of Some s \<Rightarrow> s | None \<Rightarrow> [])"

definition attribute_or_empty :: "xml_node \<Rightarrow> string \<Rightarrow> string" where
  "attribute_or_empty x name = safe_string_construct (xml_attribute x name)"

definition call_if_set :: "('a \<Rightarrow> ('s, unit) eff) option \<Rightarrow> (exn + 'a) \<Rightarrow> ('s, unit) eff" where
  "call_if_set f arg =
     (case f of None \<Rightarrow> return_eff () | Some g \<Rightarrow> bind_eff (lift_res arg) g)"

definition direction_of :: "string \<Rightarrow> direction option" where
  "direction_of s =
     (if s = [] then Some Dir_context else if s = ''in'' then Some Dir_in
      else if s = ''out'' then Some Dir_out else None)"

definition access_of :: "string \<Rightarrow> access option" where
  "access_of s =
     (if s = ''read'' then Some Access_read else if s = ''write'' then Some Access_write
      else if s = ''readwrite'' then Some Access_read_write else None)"

definition read_argument :: "xml_node \<Rightarrow> exn + parser_argument" where
  "read_argument x =
     (case direction_of (attribute_or_empty x ''direction'') of
        None \<Rightarrow> Inl (Runtime_error (''Could not interpret direction for argument with name: ''
                  @ attribute_or_empty x ''name''))
      | Some dir \<Rightarrow> Inr \<lparr>argument_name = attribute_or_empty x ''name'',
          argument_signature = attribute_or_empty x ''type'', argument_direction = dir\<rparr>)"

text \<open>The error message appends the name as a C string, which may be null.\<close>

definition read_property :: "xml_node \<Rightarrow> exn + parser_property" where
  "read_property x =
     (case access_of (attribute_or_empty x ''access'') of
        None \<Rightarrow> Inl (case xml_attribute x ''name'' of
            None \<Rightarrow> Undefined_behaviour ''std::string from a null pointer''
          | Some n \<Rightarrow> Runtime_error (''Could not determine read/write setup of property '' @ n))
      | Some a \<Rightarrow> Inr \<lparr>property_name = attribute_or_empty x ''name'',
          property_signature = attribute_or_empty x ''type'', property_access = a\<rparr>)"

text \<open>\<open>vtable\<close>: what happens at the start of an element.\<close>

definition element_start :: "'s parser \<Rightarrow> string \<Rightarrow> xml_node \<Rightarrow> ('s, unit) eff" where
  "element_start d name x =
     (if name = ''annotation'' then
        call_if_set (cb_annotation d) (Inr \<lparr>annotation_name = attribute_or_empty x ''name'',
          annotation_value = attribute_or_empty x ''value''\<rparr>)
      else if name = ''node'' then
        call_if_set (cb_node d) (Inr \<lparr>node_name = attribute_or_empty x ''name''\<rparr>)
      else if name = ''interface'' then
        call_if_set (cb_interface d) (Inr \<lparr>interface_name = attribute_or_empty x ''name''\<rparr>)
      else if name = ''arg'' then call_if_set (cb_argument d) (read_argument x)
      else if name = ''method'' then
        call_if_set (cb_method d) (Inr \<lparr>method_name = attribute_or_empty x ''name''\<rparr>)
      else if name = ''signal'' then
        call_if_set (cb_signal d) (Inr \<lparr>signal_name = attribute_or_empty x ''name''\<rparr>)
      else if name = ''property'' then call_if_set (cb_property d) (read_property x)
      else return_eff ())"

text \<open>\<open>vtable_done\<close>: what happens at the end of an element; calling a function that was not set
  throws \<open>std::bad_function_call\<close>.\<close>

definition call_done :: "('s, unit) eff option \<Rightarrow> ('s, unit) eff" where
  "call_done f = (case f of None \<Rightarrow> throw_eff Bad_function_call | Some g \<Rightarrow> g)"

definition element_done :: "'s parser \<Rightarrow> string \<Rightarrow> ('s, unit) eff" where
  "element_done d name =
     (if name = ''node'' then call_done (cb_node_done d)
      else if name = ''interface'' then call_done (cb_interface_done d)
      else if name = ''method'' then call_done (cb_method_done d)
      else if name = ''arg'' then call_done (cb_argument_done d)
      else if name = ''annotation'' then call_done (cb_annotation_done d)
      else if name = ''signal'' then call_done (cb_signal_done d)
      else return_eff ())"

text \<open>The types of nodes of libxml2's reader.\<close>

datatype node_type =
    Nt_attribute | Nt_cdata | Nt_comment | Nt_document | Nt_document_fragment | Nt_document_type
  | Nt_element | Nt_end_element | Nt_entity | Nt_end_entity | Nt_entity_reference | Nt_none | Nt_notation
  | Nt_processing_instruction | Nt_significant_whitespace | Nt_text | Nt_whitespace | Nt_xml_declaration

fun node_type_code :: "node_type \<Rightarrow> int" where
  "node_type_code Nt_attribute = 2"
| "node_type_code Nt_cdata = 4"
| "node_type_code Nt_comment = 8"
| "node_type_code Nt_document = 9"
| "node_type_code Nt_document_fragment = 11"
| "node_type_code Nt_document_type = 10"
| "node_type_code Nt_element = 1"
| "node_type_code Nt_end_element = 15"
| "node_type_code Nt_entity = 6"
| "node_type_code Nt_end_entity = 16"
| "node_type_code Nt_entity_reference = 5"
| "node_type_code Nt_none = 0"
| "node_type_code Nt_notation = 12"
| "node_type_code Nt_processing_instruction = 7"
| "node_type_code Nt_significant_whitespace = 14"
| "node_type_code Nt_text = 3"
| "node_type_code Nt_whitespace = 13"
| "node_type_code Nt_xml_declaration = 17"

definition visit_xml_node :: "'s parser \<Rightarrow> xml_node \<Rightarrow> ('s, unit) eff" where
  "visit_xml_node d x =
     (let name = safe_string_construct (xml_name x) in
      if xml_type x = node_type_code Nt_element then
        then_eff (element_start d name x)
          (if xml_empty x then element_done d name else return_eff ())
      else if xml_type x = node_type_code Nt_end_element then element_done d name
      else return_eff ())"

text \<open>The whole document at once: its nodes, and the status with which the reader ends.\<close>

definition invoke_for ::
  "(string \<Rightarrow> (xml_node list \<times> int) option) \<Rightarrow> 's parser \<Rightarrow> string \<Rightarrow> ('s, bool) eff" where
  "invoke_for open_xml d filename =
     (case open_xml (c_str filename) of
        None \<Rightarrow> return_eff False
      | Some (nodes, status) \<Rightarrow>
          then_eff (each_eff (visit_xml_node d) nodes) (return_eff (status = 0)))"

section \<open>Elements of the model\<close>

datatype payload =
    P_node parser_node
  | P_interface parser_interface
  | P_method parser_method
  | P_signal parser_signal
  | P_property parser_property
  | P_argument parser_argument
  | P_annotation parser_annotation

datatype element = Element payload "element list"

fun payload_of :: "element \<Rightarrow> payload" where
  "payload_of (Element p cs) = p"

fun kids :: "element \<Rightarrow> element list" where
  "kids (Element p cs) = cs"

text \<open>The number of \<open>Element::Type\<close>.\<close>

fun element_rank :: "payload \<Rightarrow> nat" where
  "element_rank (P_node x) = 0"
| "element_rank (P_interface x) = 1"
| "element_rank (P_method x) = 2"
| "element_rank (P_signal x) = 3"
| "element_rank (P_property x) = 4"
| "element_rank (P_argument x) = 5"
| "element_rank (P_annotation x) = 6"

definition element_less :: "element \<Rightarrow> element \<Rightarrow> bool" where
  "element_less x y \<longleftrightarrow> element_rank (payload_of x) < element_rank (payload_of y)"

text \<open>\<open>std::multiset::insert\<close>: behind all that are not greater. \<open>insert_index\<close> is the position it
  gets.\<close>

definition insert_index :: "element \<Rightarrow> element list \<Rightarrow> nat" where
  "insert_index x cs = length (takeWhile (\<lambda>c. \<not> element_less x c) cs)"

definition insert_child :: "element \<Rightarrow> element list \<Rightarrow> element list" where
  "insert_child x cs = take (insert_index x cs) cs @ x # drop (insert_index x cs) cs"

text \<open>\<open>apply(before, visitor, after)\<close>; \<open>before\<close> and \<open>after\<close> may be empty functions. The root
  is visited, but neither \<open>before\<close> nor \<open>after\<close> is called for it.\<close>

definition call_visitor :: "(element \<Rightarrow> ('s, unit) eff) option \<Rightarrow> element \<Rightarrow> ('s, unit) eff" where
  "call_visitor f e = (case f of None \<Rightarrow> return_eff () | Some g \<Rightarrow> g e)"

fun apply_element ::
  "(element \<Rightarrow> ('s, unit) eff) option \<Rightarrow> (element \<Rightarrow> ('s, unit) eff)
     \<Rightarrow> (element \<Rightarrow> ('s, unit) eff) option \<Rightarrow> element \<Rightarrow> ('s, unit) eff" where
  "apply_element before visitor after (Element p cs) =
     then_eff (visitor (Element p cs))
       (each_eff (\<lambda>child.
          then_eff (call_visitor before child)
            (then_eff (apply_element before visitor after child) (call_visitor after child))) cs)"

text \<open>The accessors check the type.\<close>

definition type_mismatch :: "exn + 'a" where
  "type_mismatch = Inl (Runtime_error ''Type mismatch'')"

fun as_node :: "element \<Rightarrow> exn + parser_node" where
  "as_node (Element (P_node x) cs) = Inr x"
| "as_node e = type_mismatch"

fun as_interface :: "element \<Rightarrow> exn + parser_interface" where
  "as_interface (Element (P_interface x) cs) = Inr x"
| "as_interface e = type_mismatch"

fun as_method :: "element \<Rightarrow> exn + parser_method" where
  "as_method (Element (P_method x) cs) = Inr x"
| "as_method e = type_mismatch"

fun as_signal :: "element \<Rightarrow> exn + parser_signal" where
  "as_signal (Element (P_signal x) cs) = Inr x"
| "as_signal e = type_mismatch"

fun as_property :: "element \<Rightarrow> exn + parser_property" where
  "as_property (Element (P_property x) cs) = Inr x"
| "as_property e = type_mismatch"

fun as_argument :: "element \<Rightarrow> exn + parser_argument" where
  "as_argument (Element (P_argument x) cs) = Inr x"
| "as_argument e = type_mismatch"

fun as_annotation :: "element \<Rightarrow> exn + parser_annotation" where
  "as_annotation (Element (P_annotation x) cs) = Inr x"
| "as_annotation e = type_mismatch"

section \<open>Building the model\<close>

text \<open>The context of the compiler: the root, and the path of the current element; no path when the
  pointer is null.\<close>

record context_state =
  ctx_root :: "element option"
  ctx_current :: "nat list option"

definition reset :: "(context_state, unit) eff" where
  "reset s = (Inr (), s\<lparr>ctx_root := None, ctx_current := None\<rparr>)"

fun element_at :: "nat list \<Rightarrow> element \<Rightarrow> element" where
  "element_at [] e = e"
| "element_at (i # p) e = element_at p (kids e ! i)"

fun add_element :: "nat list \<Rightarrow> element \<Rightarrow> element \<Rightarrow> element" where
  "add_element [] x (Element p cs) = Element p (insert_child x cs)"
| "add_element (i # q) x (Element p cs) = Element p (cs[i := add_element q x (cs ! i)])"

definition adjust_up :: "(context_state, unit) eff" where
  "adjust_up s =
     (case ctx_current s of
        None \<Rightarrow> (Inl (Undefined_behaviour ''null pointer dereferenced''), s)
      | Some p \<Rightarrow> (Inr (), s\<lparr>ctx_current := (if p = [] then None else Some (butlast p))\<rparr>))"

definition adjust_down :: "payload \<Rightarrow> (context_state, unit) eff" where
  "adjust_down t s =
     (case ctx_root s of
        None \<Rightarrow> (Inr (), s\<lparr>ctx_root := Some (Element t []), ctx_current := Some []\<rparr>)
      | Some root \<Rightarrow>
          (case ctx_current s of
             None \<Rightarrow> (Inl (Undefined_behaviour ''null pointer dereferenced''), s)
           | Some p \<Rightarrow>
               let x = Element t [] in
               (Inr (), s\<lparr>ctx_root := Some (add_element p x root),
                  ctx_current := Some (p @ [insert_index x (kids (element_at p root))])\<rparr>)))"

text \<open>The compiler's callbacks. There is none for the end of a property.\<close>

definition compiler_parser :: "context_state parser" where
  "compiler_parser =
     on_annotation_done (Some adjust_up) (on_annotation (Some (adjust_down \<circ> P_annotation))
     (on_argument_done (Some adjust_up) (on_argument (Some (adjust_down \<circ> P_argument))
     (on_signal_done (Some adjust_up) (on_signal (Some (adjust_down \<circ> P_signal))
     (on_property (Some (adjust_down \<circ> P_property))
     (on_method_done (Some adjust_up) (on_method (Some (adjust_down \<circ> P_method))
     (on_interface_done (Some adjust_up) (on_interface (Some (adjust_down \<circ> P_interface))
     (on_node_done (Some adjust_up) (on_node (Some (adjust_down \<circ> P_node)) new_parser))))))))))))"

end
