(* ===== verification/Generator.thy ===== *)
theory Generator
  imports Type_Mangler Introspection
begin

text \<open>
  The protocol generator of src/core/dbus/generator.cpp: from the model of an introspection file to
  the text of a C++ header.

  The handles \<open>detail::Interface\<close>, \<open>Method\<close>, \<open>Property\<close> and \<open>Signal\<close> hold a pointer; the empty
  one (\<open>None\<close>) has a null pointer, and two handles are compared by it, so \<open>== empty()\<close> asks for
  \<open>None\<close>. The directory the generator writes to is a map from file names to contents.
\<close>

section \<open>Handles\<close>

record gen_interface =
  gi_name :: string

record gen_method =
  gm_name :: string
  gm_in_type_mangler :: mangler
  gm_out_type_mangler :: mangler

record gen_property =
  gp_name :: string
  gp_type_mangler :: mangler

record gen_signal =
  gs_name :: string
  gs_type_mangler :: mangler

definition new_method :: "string \<Rightarrow> gen_method" where
  "new_method n = \<lparr>gm_name = n, gm_in_type_mangler = new_mangler, gm_out_type_mangler = new_mangler\<rparr>"

definition new_property :: "string \<Rightarrow> gen_property" where
  "new_property n = \<lparr>gp_name = n, gp_type_mangler = new_mangler\<rparr>"

definition new_signal :: "string \<Rightarrow> gen_signal" where
  "new_signal n = \<lparr>gs_name = n, gs_type_mangler = new_mangler\<rparr>"

section \<open>Names of interfaces\<close>

text \<open>\<open>split\<close> stands for boost's split iterator over the characters \<open>is_any_of\<close> accepts; the loop
  moves two iterators, one token apart, until the second is at the end.\<close>

fun namespaces_loop :: "string list \<Rightarrow> string list \<times> string" where
  "namespaces_loop [] = ([], [])"
| "namespaces_loop [t] = ([], t)"
| "namespaces_loop (t # u # ts) = (case namespaces_loop (u # ts) of (ns, i) \<Rightarrow> (t # ns, i))"

definition parse_namespaces_and_interface ::
  "(string \<Rightarrow> string \<Rightarrow> string list) \<Rightarrow> string \<Rightarrow> string list \<times> string" where
  "parse_namespaces_and_interface split name = namespaces_loop (split ''.'' name)"

section \<open>Configuration\<close>

text \<open>The two functions of a configuration; what they return may differ from call to call.\<close>

record generator_configuration =
  include_guard_generator :: "nat \<Rightarrow> string"
  build_time_stamp_generator :: "nat \<Rightarrow> string"

definition to_upper :: "char \<Rightarrow> char" where
  "to_upper c = (if 97 \<le> (of_char c :: nat) \<and> (of_char c :: nat) \<le> 122
     then char_of ((of_char c :: nat) - 32) else c)"

text \<open>The default include guard, from the text of a UUID.\<close>

definition default_include_guard :: "string \<Rightarrow> string" where
  "default_include_guard tag =
     ''AUTO_'' @ map (\<lambda>c. if c = CHR ''-'' then CHR ''_'' else c) (map to_upper tag)"

section \<open>The text of the introspection file as a C++ string literal\<close>

definition iscntrl :: "char \<Rightarrow> bool" where
  "iscntrl c \<longleftrightarrow> (of_char c :: nat) < 32 \<or> (of_char c :: nat) = 127"

definition isspace :: "char \<Rightarrow> bool" where
  "isspace c \<longleftrightarrow> c = CHR '' '' \<or> 9 \<le> (of_char c :: nat) \<and> (of_char c :: nat) \<le> 13"

fun raw_text :: "bool \<Rightarrow> string \<Rightarrow> string" where
  "raw_text tag_open [] = []"
| "raw_text tag_open (c # cs) =
     (if c = CHR ''<'' then c # raw_text True cs
      else if c = CHR ''>'' then c # raw_text False cs
      else if c = CHR 0x22 then CHR 0x5C # CHR 0x22 # raw_text tag_open cs
      else if iscntrl c then raw_text tag_open cs
      else if \<not> tag_open \<and> isspace c then raw_text tag_open cs
      else c # raw_text tag_open cs)"

section \<open>The generator's context\<close>

text \<open>A \<open>std::fstream\<close>: the file it is open on, and its failure bits.\<close>

record fstream =
  open_on :: "string option"
  failed :: bool

record gen_context =
  namespaces_count :: nat
  node_path :: string
  protocol_file :: fstream
  gen_buffer :: string
  interface_current :: "gen_interface option"
  method_current :: "gen_method option"
  properties_count :: nat
  property_current :: "gen_property option"
  signals_count :: nat
  signal_current :: "gen_signal option"
  raw_file_buffer :: string
  stamps_made :: nat
  guards_made :: nat
  disk :: "string \<Rightarrow> string option"

definition new_context :: "string \<Rightarrow> (string \<Rightarrow> string option) \<Rightarrow> gen_context" where
  "new_context raw fs = \<lparr>namespaces_count = 0, node_path = [],
     protocol_file = \<lparr>open_on = None, failed = False\<rparr>, gen_buffer = [],
     interface_current = None, method_current = None, properties_count = 0,
     property_current = None, signals_count = 0, signal_current = None,
     raw_file_buffer = raw_text False raw, stamps_made = 0, guards_made = 0, disk = fs\<rparr>"

text \<open>\<open>open(path, out | trunc)\<close>: it fails for a stream that is already open, and for a file that
  the system does not let it open.\<close>

definition open_trunc :: "(string \<Rightarrow> bool) \<Rightarrow> string \<Rightarrow> (gen_context, unit) eff" where
  "open_trunc can_open path s =
     (Inr (), if open_on (protocol_file s) = None \<and> can_open path
      then s\<lparr>protocol_file := \<lparr>open_on = Some path, failed = False\<rparr>, disk := (disk s)(path \<mapsto> [])\<rparr>
      else s\<lparr>protocol_file := (protocol_file s)\<lparr>failed := True\<rparr>\<rparr>)"

text \<open>Writing to the stream does nothing once it failed; a stream that is not open fails. Nothing
  but the final text is written to it, right behind the truncation.\<close>

definition write_file :: "string \<Rightarrow> (gen_context, unit) eff" where
  "write_file txt s =
     (Inr (), if failed (protocol_file s) then s
      else (case open_on (protocol_file s) of
              None \<Rightarrow> s\<lparr>protocol_file := (protocol_file s)\<lparr>failed := True\<rparr>\<rparr>
            | Some path \<Rightarrow> s\<lparr>disk := (disk s)(path \<mapsto> txt)\<rparr>))"

definition emit :: "string \<Rightarrow> (gen_context, unit) eff" where
  "emit txt s = (Inr (), s\<lparr>gen_buffer := gen_buffer s @ txt\<rparr>)"

text \<open>A line of text, and lines.\<close>

definition endl :: string where
  "endl = [CHR 0x0A]"

definition text_of_lines :: "string list \<Rightarrow> string" where
  "text_of_lines ls = concat (map (\<lambda>l. l @ endl) ls)"

definition in_quotes :: "string \<Rightarrow> string" where
  "in_quotes s = [CHR 0x22] @ s @ [CHR 0x22]"

text \<open>The accessor functions that are written for a constant.\<close>

definition name_function :: "string \<Rightarrow> string" where
  "name_function n = ''static const std::string& name() { static const std::string s{''
     @ in_quotes n @ ''}; return s; }''"

definition default_path_function :: "string \<Rightarrow> string" where
  "default_path_function p = ''static const std::string& default_path() { static const std::string s{''
     @ in_quotes p @ ''}; return s; }''"

definition introspect_function :: "string \<Rightarrow> string" where
  "introspect_function t = ''static const std::string& introspect() { static const std::string s{''
     @ in_quotes t @ ''}; return s; }''"

definition timeout_function :: string where
  "timeout_function = ''static const std::chrono::milliseconds& default_timeout() { ''
     @ ''static const std::chrono::seconds s{10}; return s; }''"

definition typedef_line :: "string \<Rightarrow> string \<Rightarrow> string" where
  "typedef_line t n = ''typedef '' @ t @ '' '' @ n @ '';''"

section \<open>Visiting an element before its children\<close>

definition visit_node :: "parser_node \<Rightarrow> (gen_context, unit) eff" where
  "visit_node x s = (Inr (), s\<lparr>node_path := node_name x\<rparr>)"

definition header_lines :: "string \<Rightarrow> string \<Rightarrow> string list" where
  "header_lines stamp guard =
     [''/*'', '' * Auto-generated header file.'', '' * Build timestamp: '' @ stamp, ''*/'',
      ''#ifndef '' @ guard @ ''_H_'', ''#define '' @ guard @ ''_H_'', [],
      ''#include <core/dbus/types/variant.h>'', [], ''#include <chrono>'', ''#include <string>'',
      ''#include <tuple>'', ''#include <vector>'', [], ''#include <cstdint>'', []]"

definition interface_lines :: "string list \<Rightarrow> string \<Rightarrow> string \<Rightarrow> string \<Rightarrow> string \<Rightarrow> string list" where
  "interface_lines namespaces interface path name raw =
     concat (map (\<lambda>ns. [''namespace '' @ ns, ''{'']) namespaces)
       @ [''struct '' @ interface, ''{'', default_path_function path, name_function name,
          introspect_function raw]"

definition visit_interface ::
  "(string \<Rightarrow> string \<Rightarrow> string list) \<Rightarrow> (string \<Rightarrow> bool) \<Rightarrow> generator_configuration \<Rightarrow> parser_interface
     \<Rightarrow> (gen_context, unit) eff" where
  "visit_interface split can_open config x =
     (case parse_namespaces_and_interface split (interface_name x) of
        (namespaces, interface) \<Rightarrow>
          then_eff (open_trunc can_open (interface @ ''.h''))
            (\<lambda>s. emit (text_of_lines
                  (header_lines (build_time_stamp_generator config (stamps_made s))
                     (include_guard_generator config (guards_made s))
                   @ interface_lines namespaces interface (node_path s) (interface_name x)
                       (raw_file_buffer s)))
               (s\<lparr>stamps_made := stamps_made s + 1, guards_made := guards_made s + 1,
                  namespaces_count := namespaces_count s + length namespaces,
                  interface_current := Some \<lparr>gi_name = interface\<rparr>\<rparr>)))"

text \<open>\<open>interface.current.name()\<close>, and the typedef that every member begins with.\<close>

definition current_interface_name :: "gen_context \<Rightarrow> exn + string" where
  "current_interface_name s =
     (case interface_current s of
        None \<Rightarrow> Inl (Undefined_behaviour ''null pointer dereferenced'')
      | Some i \<Rightarrow> Inr (gi_name i))"

definition emit_member_head :: "string \<Rightarrow> (gen_context, unit) eff" where
  "emit_member_head n s =
     (case current_interface_name s of
        Inl e \<Rightarrow> (Inl e, s)
      | Inr i \<Rightarrow> emit (text_of_lines [''struct '' @ n, ''{'', typedef_line i ''Interface'',
                   name_function n]) s)"

text \<open>\<open>update_from_signature\<close> on a mangler; its result is not looked at.\<close>

definition feed :: "string \<Rightarrow> mangler \<Rightarrow> exn + mangler" where
  "feed s m = (case update_from_signature s m of (Inl e, m) \<Rightarrow> Inl e | (Inr b, m) \<Rightarrow> Inr m)"

definition emit_result :: "(exn + string) \<Rightarrow> (gen_context, unit) eff" where
  "emit_result r s = (case r of Inl e \<Rightarrow> (Inl e, s) | Inr txt \<Rightarrow> emit txt s)"

fun access_lines :: "access \<Rightarrow> string list" where
  "access_lines Access_read =
     [''static const bool readable = true;'', ''static const bool writable = false;'']"
| "access_lines Access_write =
     [''static const bool readable = false;'', ''static const bool writable = true;'']"
| "access_lines Access_read_write =
     [''static const bool readable = true;'', ''static const bool writable = true;'']"

definition visit_property :: "parser_property \<Rightarrow> (gen_context, unit) eff" where
  "visit_property x =
     then_eff (\<lambda>s. emit (if signals_count s > 0 then text_of_lines [''};''] else []) s)
    (then_eff (\<lambda>s. emit (if properties_count s = 0 then text_of_lines [''struct Properties'', ''{''] else []) s)
    (then_eff (\<lambda>s. (Inr (), s\<lparr>properties_count := properties_count s + 1,
                       property_current := Some (new_property (property_name x))\<rparr>))
    (then_eff (emit_member_head (property_name x))
    (then_eff (emit (text_of_lines (access_lines (property_access x))))
       (\<lambda>s. case property_current s of
          None \<Rightarrow> (Inl (Undefined_behaviour ''null pointer dereferenced''), s)
        | Some p \<Rightarrow>
            (case feed (property_signature x) (gp_type_mangler p) of
               Inl e \<Rightarrow> (Inl e, s)
             | Inr m \<Rightarrow>
                 (case print_type m of
                    Inl e \<Rightarrow> (Inl e, s)
                  | Inr t \<Rightarrow> emit (text_of_lines [typedef_line t ''ArgumentType''])
                      (s\<lparr>property_current := Some (p\<lparr>gp_type_mangler := m\<rparr>)\<rparr>))))))))"

definition visit_method :: "parser_method \<Rightarrow> (gen_context, unit) eff" where
  "visit_method x =
     then_eff (emit_member_head (method_name x))
    (then_eff (emit (text_of_lines [timeout_function]))
       (\<lambda>s. (Inr (), s\<lparr>method_current := Some (new_method (method_name x))\<rparr>)))"

definition visit_signal :: "parser_signal \<Rightarrow> (gen_context, unit) eff" where
  "visit_signal x =
     then_eff (\<lambda>s. emit (if signals_count s = 0 then text_of_lines [''struct Signals'', ''{''] else []) s)
    (then_eff (\<lambda>s. (Inr (), s\<lparr>signals_count := signals_count s + 1,
                       signal_current := Some (new_signal (signal_name x))\<rparr>))
       (emit_member_head (signal_name x)))"

text \<open>An argument of a method is read into one or both manglers; of a signal, into its only one.\<close>

definition feed_in :: "string \<Rightarrow> gen_method \<Rightarrow> exn + gen_method" where
  "feed_in t m = map_sum id (\<lambda>g. m\<lparr>gm_in_type_mangler := g\<rparr>) (feed t (gm_in_type_mangler m))"

definition feed_out :: "string \<Rightarrow> gen_method \<Rightarrow> exn + gen_method" where
  "feed_out t m = map_sum id (\<lambda>g. m\<lparr>gm_out_type_mangler := g\<rparr>) (feed t (gm_out_type_mangler m))"

fun feed_method :: "direction \<Rightarrow> string \<Rightarrow> gen_method \<Rightarrow> exn + gen_method" where
  "feed_method Dir_in t m = feed_in t m"
| "feed_method Dir_out t m = feed_out t m"
| "feed_method Dir_context t m = (case feed_in t m of Inl e \<Rightarrow> Inl e | Inr m \<Rightarrow> feed_out t m)"

definition visit_argument :: "parser_argument \<Rightarrow> (gen_context, unit) eff" where
  "visit_argument x s =
     (case method_current s of
        Some m \<Rightarrow>
          (case feed_method (argument_direction x) (argument_signature x) m of
             Inl e \<Rightarrow> (Inl e, s)
           | Inr m \<Rightarrow> (Inr (), s\<lparr>method_current := Some m\<rparr>))
      | None \<Rightarrow>
          (case signal_current s of
             None \<Rightarrow> (Inr (), s)
           | Some g \<Rightarrow>
               (case feed (argument_signature x) (gs_type_mangler g) of
                  Inl e \<Rightarrow> (Inl e, s)
                | Inr m \<Rightarrow> (Inr (), s\<lparr>signal_current := Some (g\<lparr>gs_type_mangler := m\<rparr>)\<rparr>))))"

definition gen_visitor ::
  "(string \<Rightarrow> string \<Rightarrow> string list) \<Rightarrow> (string \<Rightarrow> bool) \<Rightarrow> generator_configuration \<Rightarrow> element
     \<Rightarrow> (gen_context, unit) eff" where
  "gen_visitor split can_open config e =
     (case payload_of e of
        P_node x \<Rightarrow> visit_node x
      | P_interface x \<Rightarrow> visit_interface split can_open config x
      | P_property x \<Rightarrow> visit_property x
      | P_method x \<Rightarrow> visit_method x
      | P_signal x \<Rightarrow> visit_signal x
      | P_argument x \<Rightarrow> visit_argument x
      | P_annotation x \<Rightarrow> return_eff ())"

section \<open>Visiting an element after its children\<close>

definition post_interface :: "(gen_context, unit) eff" where
  "post_interface s =
     emit (text_of_lines ((if properties_count s > 0 then [''};''] else []) @ [''};'']
       @ replicate (namespaces_count s) ''}'' @ [''#endif''])) s"

definition post_property :: "(gen_context, unit) eff" where
  "post_property = then_eff (emit (text_of_lines [''};''])) (\<lambda>s. (Inr (), s\<lparr>property_current := None\<rparr>))"

text \<open>\<open>print_type()\<close> of the mangler of a current handle.\<close>

definition print_current :: "('a \<Rightarrow> mangler) \<Rightarrow> 'a option \<Rightarrow> exn + string" where
  "print_current get h =
     (case h of
        None \<Rightarrow> Inl (Undefined_behaviour ''null pointer dereferenced'')
      | Some m \<Rightarrow> print_type (get m))"

definition post_method :: "(gen_context, unit) eff" where
  "post_method =
     then_eff (\<lambda>s. emit_result (map_sum id (\<lambda>t. text_of_lines [typedef_line t ''ArgumentType''])
                (print_current gm_in_type_mangler (method_current s))) s)
    (then_eff (\<lambda>s. emit_result (map_sum id (\<lambda>t. text_of_lines [typedef_line t ''ResultType''])
                (print_current gm_out_type_mangler (method_current s))) s)
    (then_eff (emit (text_of_lines [''};'']))
       (\<lambda>s. (Inr (), s\<lparr>method_current := None\<rparr>))))"

definition post_signal :: "(gen_context, unit) eff" where
  "post_signal =
     then_eff (\<lambda>s. emit_result (map_sum id (\<lambda>t. text_of_lines [typedef_line t ''ArgumentType''])
                (print_current gs_type_mangler (signal_current s))) s)
    (then_eff (emit (text_of_lines [''};'']))
       (\<lambda>s. (Inr (), s\<lparr>signal_current := None\<rparr>)))"

definition gen_post_visitor :: "element \<Rightarrow> (gen_context, unit) eff" where
  "gen_post_visitor e =
     (case payload_of e of
        P_interface x \<Rightarrow> post_interface
      | P_property x \<Rightarrow> post_property
      | P_method x \<Rightarrow> post_method
      | P_signal x \<Rightarrow> post_signal
      | _ \<Rightarrow> return_eff ())"

section \<open>Generating a file\<close>

text \<open>What the directory holds afterwards, and the result.\<close>

definition invoke_for_model ::
  "(string \<Rightarrow> string \<Rightarrow> string list) \<Rightarrow> (string \<Rightarrow> bool) \<Rightarrow> generator_configuration \<Rightarrow> element
     \<Rightarrow> string \<Rightarrow> (string \<Rightarrow> string option) \<Rightarrow> (exn + bool) \<times> (string \<Rightarrow> string option)" where
  "invoke_for_model split can_open config e raw fs =
     (case then_eff (apply_element None (gen_visitor split can_open config) (Some gen_post_visitor) e)
        (\<lambda>s. then_eff (write_file (gen_buffer s)) (return_eff True) s) (new_context raw fs) of
        (r, s) \<Rightarrow> (r, disk s))"

text \<open>\<open>process_introspection_file_with_generator_config\<close>: the parser reads the file into the
  compiler's context, the generator gets its root and the text of the file.\<close>

definition process_introspection_file ::
  "(string \<Rightarrow> (xml_node list \<times> int) option) \<Rightarrow> (string \<Rightarrow> string \<Rightarrow> string list) \<Rightarrow> (string \<Rightarrow> bool)
     \<Rightarrow> generator_configuration \<Rightarrow> string \<Rightarrow> context_state \<Rightarrow> (string \<Rightarrow> string option)
     \<Rightarrow> (exn + bool) \<times> context_state \<times> (string \<Rightarrow> string option)" where
  "process_introspection_file open_xml split can_open config fn ctx fs =
     (case then_eff reset (invoke_for open_xml compiler_parser fn) ctx of
        (Inl e, ctx) \<Rightarrow> (Inl e, ctx, fs)
      | (Inr False, ctx) \<Rightarrow> (Inr False, ctx, fs)
      | (Inr True, ctx) \<Rightarrow>
          (case fs (c_str fn) of
             None \<Rightarrow> (Inr False, ctx, fs)
           | Some raw \<Rightarrow>
               (case ctx_root ctx of
                  None \<Rightarrow> (Inl (Undefined_behaviour ''null pointer dereferenced''), ctx, fs)
                | Some root \<Rightarrow>
                    (case invoke_for_model split can_open config root raw fs of
                       (r, fs) \<Rightarrow> (r, ctx, fs)))))"

section \<open>The command line\<close>

text \<open>\<open>Compiler::main\<close>. The parser of the command line is boost's: \<open>parse_options\<close> yields the input files,
  or nothing when it throws. Each file has a default configuration of its own, \<open>configs k\<close>. The result is the
  status of the process, with the text on standard output.\<close>

definition bold :: string where "bold = CHR 0x1B # ''[1m''"

definition normal :: string where "normal = CHR 0x1B # ''[0m''"

definition default_foreground :: string where "default_foreground = CHR 0x1B # ''[39m''"

definition green :: string where "green = CHR 0x1B # ''[32m''"

definition red :: string where "red = CHR 0x1B # ''[91m''"

definition print_ok :: string where
  "print_ok = bold @ green @ ''[OK  ]'' @ default_foreground @ normal"

definition print_fail :: string where
  "print_fail = bold @ red @ ''[FAIL]'' @ default_foreground @ normal"

fun compile_files ::
  "(generator_configuration \<Rightarrow> string \<Rightarrow> context_state \<Rightarrow> (string \<Rightarrow> string option)
     \<Rightarrow> (exn + bool) \<times> context_state \<times> (string \<Rightarrow> string option))
     \<Rightarrow> (nat \<Rightarrow> generator_configuration) \<Rightarrow> string list \<Rightarrow> context_state \<Rightarrow> (string \<Rightarrow> string option) \<Rightarrow> string
     \<Rightarrow> (exn + int) \<times> (string \<Rightarrow> string option) \<times> string" where
  "compile_files process configs [] ctx fs out = (Inr 0, fs, out)"
| "compile_files process configs (file # files) ctx fs out =
     (case process (configs 0) file ctx fs of
        (Inl e, ctx, fs) \<Rightarrow> (Inl e, fs, out)
      | (Inr result, ctx, fs) \<Rightarrow>
          (let out = out @ (if result then print_ok else print_fail) @ '' '' @ file @ endl in
           if \<not> result then (Inr 1, fs, out) else compile_files process (\<lambda>k. configs (Suc k)) files ctx fs out))"

text \<open>\<open>CommandLineOptions::parse\<close>: boost throws, or stores the files if there are any; asking for the value of a
  key that is not there throws as well, and everything is caught.\<close>

definition parse_command_line :: "(string list \<Rightarrow> exn + string list option) \<Rightarrow> string list \<Rightarrow> string list option" where
  "parse_command_line store argv = (case store argv of Inl e \<Rightarrow> None | Inr stored \<Rightarrow> stored)"

definition compiler_main ::
  "(string list \<Rightarrow> exn + string list option) \<Rightarrow> string \<Rightarrow> (string \<Rightarrow> (xml_node list \<times> int) option)
     \<Rightarrow> (string \<Rightarrow> string \<Rightarrow> string list) \<Rightarrow> (string \<Rightarrow> bool) \<Rightarrow> (nat \<Rightarrow> generator_configuration) \<Rightarrow> string list
     \<Rightarrow> (string \<Rightarrow> string option) \<Rightarrow> (exn + int) \<times> (string \<Rightarrow> string option) \<times> string" where
  "compiler_main store usage open_xml split can_open configs argv fs =
     (case parse_command_line store argv of
        None \<Rightarrow> (Inr 1, fs, ''Could not parse command line arguments, aborting now.'' @ endl @ usage @ endl)
      | Some files \<Rightarrow> compile_files (process_introspection_file open_xml split can_open) configs files
          \<lparr>ctx_root = None, ctx_current = None\<rparr> fs [])"

text \<open>The first file that fails ends the run: the files behind it are not touched.\<close>

lemma compile_stops_at_failure:
  assumes "compile_files process configs (xs @ [f]) ctx fs out = (Inr 1, fs', out')"
  shows "compile_files process configs (xs @ f # ys) ctx fs out = (Inr 1, fs', out')"
  using assms
  by (induction xs arbitrary: configs ctx fs out) (auto simp: Let_def split: sum.splits prod.splits if_splits)

end
