(* ===== verification/Introspection_Model.thy ===== *)
theory Introspection_Model
  imports Introspection "HOL-Library.Multiset"
begin

text \<open>
  What the parser and the compiler's context make of a document: an abstract document (\<open>doc\<close>), how
  it is written as XML nodes (\<open>render\<close>), and the model it stands for (\<open>build\<close>).
\<close>

section \<open>The multiset of children is a stable sort\<close>

abbreviation rank :: "element \<Rightarrow> nat" where
  "rank e \<equiv> element_rank (payload_of e)"

lemma insert_child_split:
  "insert_child x cs = takeWhile (\<lambda>c. rank c \<le> rank x) cs @ x # dropWhile (\<lambda>c. rank c \<le> rank x) cs"
  by (simp add: insert_child_def insert_index_def element_less_def not_less takeWhile_eq_take
      [symmetric] dropWhile_eq_drop [symmetric])

lemma sorted_dropWhile_greater:
  "sorted (map f cs) \<Longrightarrow> d \<in> set (dropWhile (\<lambda>c. f c \<le> (k::nat)) cs) \<Longrightarrow> k < f d"
  by (induction cs) (auto split: if_splits dest: order.strict_trans2)

lemma insert_child_sort:
  "insert_child x (sort_key rank xs) = sort_key rank (xs @ [x])"
proof (rule properties_for_sort_key [symmetric])
  let ?cs = "sort_key rank xs"
  let ?a = "takeWhile (\<lambda>c. rank c \<le> rank x) ?cs" and ?b = "dropWhile (\<lambda>c. rank c \<le> rank x) ?cs"
  have split: "?cs = ?a @ ?b" by simp
  have sorted: "sorted (map rank ?cs)" by simp
  have a: "rank c \<le> rank x" if "c \<in> set ?a" for c
    using set_takeWhileD [OF that] by simp
  have b: "rank x < rank c" if "c \<in> set ?b" for c
    by (rule sorted_dropWhile_greater [OF sorted that])
  have "mset (insert_child x ?cs) = mset ?cs + {#x#}"
    unfolding insert_child_split by (subst (3) split) (simp del: takeWhile_dropWhile_id)
  then show "mset (insert_child x ?cs) = mset (xs @ [x])" by simp
  have "sorted (map rank (?a @ ?b))" using sorted split by simp
  then have "sorted (map rank ?a)" and "sorted (map rank ?b)"
    by (simp_all add: sorted_append del: takeWhile_dropWhile_id)
  then show "sorted (map rank (insert_child x ?cs))"
    unfolding insert_child_split using a b
    by (fastforce simp: sorted_append simp del: takeWhile_dropWhile_id)
  fix k
  have "filter (\<lambda>y. rank k = rank y) xs = filter (\<lambda>y. rank k = rank y) ?cs"
    using sort_key_stable [of rank "rank k" xs] by (simp only: eq_commute [of "rank k"])
  also have "\<dots> = filter (\<lambda>y. rank k = rank y) ?a @ filter (\<lambda>y. rank k = rank y) ?b"
    by (subst split) (simp del: takeWhile_dropWhile_id)
  finally have "filter (\<lambda>y. rank k = rank y) xs
      = filter (\<lambda>y. rank k = rank y) ?a @ filter (\<lambda>y. rank k = rank y) ?b" .
  moreover have "filter (\<lambda>y. rank k = rank y) ?b = []" if "rank k = rank x"
    using b that by (fastforce simp: filter_empty_conv)
  ultimately show "filter (\<lambda>y. rank k = rank y) (insert_child x ?cs)
      = filter (\<lambda>y. rank k = rank y) (xs @ [x])"
    unfolding insert_child_split by (simp del: takeWhile_dropWhile_id)
qed

lemma fold_insert_child_sort:
  "fold insert_child ys (sort_key rank xs) = sort_key rank (xs @ ys)"
  by (induction ys arbitrary: xs) (simp_all add: insert_child_sort)

text \<open>The comparison is a strict weak ordering, which is what \<open>std::multiset\<close> asks for, and the multiset is always
  in order.\<close>

instantiation element :: preorder
begin

definition less_element :: "element \<Rightarrow> element \<Rightarrow> bool" where
  "less_element x y \<longleftrightarrow> element_less x y"

definition less_eq_element :: "element \<Rightarrow> element \<Rightarrow> bool" where
  "less_eq_element x y \<longleftrightarrow> \<not> element_less y x"

instance
  by standard (auto simp: less_element_def less_eq_element_def element_less_def)

end

lemma element_le_rank: "((\<le>) :: element \<Rightarrow> element \<Rightarrow> bool) = (\<lambda>x y. rank x \<le> rank y)"
  by (auto simp: fun_eq_iff less_eq_element_def element_less_def)

lemma in_order_rank: "sorted_wrt (\<le>) cs \<longleftrightarrow> sorted (map rank (cs :: element list))"
  by (simp add: element_le_rank sorted_wrt_map)

lemma insert_child_in_order:
  assumes "sorted_wrt (\<le>) cs"
  shows "sorted_wrt (\<le>) (insert_child x cs)"
proof -
  have "sort_key rank cs = cs"
    using assms by (intro sort_key_id_if_sorted) (simp add: in_order_rank)
  then have "insert_child x cs = sort_key rank (cs @ [x])" by (metis insert_child_sort)
  then show ?thesis by (simp add: in_order_rank)
qed

section \<open>Documents\<close>

text \<open>An element of a document: its contents, whether it is written as an empty-element tag when it
  has no children, and its children.\<close>

datatype doc = Doc payload bool "doc list"

fun doc_payload :: "doc \<Rightarrow> payload" where
  "doc_payload (Doc t b ds) = t"

fun tag :: "payload \<Rightarrow> string" where
  "tag (P_node x) = ''node''"
| "tag (P_interface x) = ''interface''"
| "tag (P_method x) = ''method''"
| "tag (P_signal x) = ''signal''"
| "tag (P_property x) = ''property''"
| "tag (P_argument x) = ''arg''"
| "tag (P_annotation x) = ''annotation''"

fun direction_text :: "direction \<Rightarrow> string option" where
  "direction_text Dir_context = None"
| "direction_text Dir_in = Some ''in''"
| "direction_text Dir_out = Some ''out''"

fun access_text :: "access \<Rightarrow> string" where
  "access_text Access_read = ''read''"
| "access_text Access_write = ''write''"
| "access_text Access_read_write = ''readwrite''"

fun attributes :: "payload \<Rightarrow> string \<Rightarrow> string option" where
  "attributes (P_node x) = [''name'' \<mapsto> node_name x]"
| "attributes (P_interface x) = [''name'' \<mapsto> interface_name x]"
| "attributes (P_method x) = [''name'' \<mapsto> method_name x]"
| "attributes (P_signal x) = [''name'' \<mapsto> signal_name x]"
| "attributes (P_property x) = [''name'' \<mapsto> property_name x, ''type'' \<mapsto> property_signature x,
     ''access'' \<mapsto> access_text (property_access x)]"
| "attributes (P_argument x) = [''name'' \<mapsto> argument_name x, ''type'' \<mapsto> argument_signature x]
     (''direction'' := direction_text (argument_direction x))"
| "attributes (P_annotation x) = [''name'' \<mapsto> annotation_name x, ''value'' \<mapsto> annotation_value x]"

definition start_node :: "payload \<Rightarrow> bool \<Rightarrow> xml_node" where
  "start_node t b = \<lparr>xml_type = 1, xml_name = Some (tag t), xml_attribute = attributes t, xml_empty = b\<rparr>"

definition end_node :: "payload \<Rightarrow> xml_node" where
  "end_node t = \<lparr>xml_type = 15, xml_name = Some (tag t), xml_attribute = (\<lambda>a. None), xml_empty = False\<rparr>"

fun render :: "doc \<Rightarrow> xml_node list" where
  "render (Doc t b ds) =
     (if ds = [] \<and> b then [start_node t True]
      else start_node t False # concat (map render ds) @ [end_node t])"

text \<open>The model: children sorted by the type of element, those of one type in the order of the
  document.\<close>

fun build :: "doc \<Rightarrow> element" where
  "build (Doc t b ds) = Element t (sort_key rank (map build ds))"

fun is_property :: "payload \<Rightarrow> bool" where
  "is_property (P_property x) = True"
| "is_property t = False"

fun no_property :: "doc \<Rightarrow> bool" where
  "no_property (Doc t b ds) = (\<not> is_property t \<and> (\<forall>d \<in> set ds. no_property d))"

lemma rank_build [simp]: "rank (build d) = element_rank (doc_payload d)"
  by (cases d) simp

section \<open>Paths in the model\<close>

fun valid_at :: "nat list \<Rightarrow> element \<Rightarrow> bool" where
  "valid_at [] e = True"
| "valid_at (i # p) e = (i < length (kids e) \<and> valid_at p (kids e ! i))"

lemma insert_index_le: "insert_index x cs \<le> length cs"
  by (simp add: insert_index_def length_takeWhile_le)

lemma insert_index_rank: "rank x = rank y \<Longrightarrow> insert_index x cs = insert_index y cs"
  by (simp add: insert_index_def element_less_def)

lemma insert_child_nth: "insert_child x cs ! insert_index x cs = x"
  using insert_index_le [of x cs] by (simp add: insert_child_def nth_append)

lemma insert_child_update:
  "rank x = rank y \<Longrightarrow> (insert_child x cs)[insert_index x cs := y] = insert_child y cs"
  using insert_index_le [of x cs] insert_index_rank [of x y cs]
  by (simp add: insert_child_def list_update_append)

lemma length_insert_child: "length (insert_child x cs) = Suc (length cs)"
  using insert_index_le [of x cs] by (simp add: insert_child_def)

lemma valid_add_element: "valid_at p e \<Longrightarrow> valid_at p (add_element p x e)"
  by (induction p x e rule: add_element.induct) simp_all

lemma valid_new_element:
  "valid_at p e \<Longrightarrow> valid_at (p @ [insert_index x (kids (element_at p e))]) (add_element p x e)"
proof (induction p x e rule: add_element.induct)
  case (1 x t cs)
  then show ?case using insert_index_le [of x cs] by (simp add: length_insert_child le_imp_less_Suc)
qed simp

lemma element_at_new:
  "valid_at p e \<Longrightarrow> element_at (p @ [insert_index x (kids (element_at p e))]) (add_element p x e) = x"
  by (induction p x e rule: add_element.induct) (simp_all add: insert_child_nth)

lemma add_grand_element:
  "valid_at p e \<Longrightarrow>
     add_element (p @ [insert_index (Element t cs) (kids (element_at p e))]) y (add_element p (Element t cs) e)
       = add_element p (Element t (insert_child y cs)) e"
proof (induction p "Element t cs" e rule: add_element.induct)
  case (1 u ds)
  have "insert_child (Element t cs) ds ! insert_index (Element t cs) ds = Element t cs"
    by (rule insert_child_nth)
  moreover have "(insert_child (Element t cs) ds)[insert_index (Element t cs) ds := Element t (insert_child y cs)]
      = insert_child (Element t (insert_child y cs)) ds"
    by (rule insert_child_update) simp
  ultimately show ?case by simp
qed simp

lemma add_grand_elements:
  "valid_at p e \<Longrightarrow>
     fold (add_element (p @ [insert_index (Element t []) (kids (element_at p e))])) ys (add_element p (Element t cs) e)
       = add_element p (Element t (fold insert_child ys cs)) e"
proof (induction ys arbitrary: cs)
  case (Cons y ys)
  have "insert_index (Element t []) ds = insert_index (Element t cs) ds" for ds
    by (rule insert_index_rank) simp
  then show ?case
    using Cons add_grand_element [OF Cons.prems, of t cs y] by simp
qed simp

section \<open>Visiting the nodes of a document\<close>

lemmas compiler_parser_defs = compiler_parser_def new_parser_def on_node_def on_node_done_def
  on_interface_def on_interface_done_def on_method_def on_method_done_def on_property_def
  on_signal_def on_signal_done_def on_argument_def on_argument_done_def on_annotation_def
  on_annotation_done_def

lemma call_if_set_Some [simp]: "call_if_set (Some g) (Inr a) = g a"
  by (rule ext) (simp add: call_if_set_def bind_eff_def lift_res_def)

lemmas visit_node_defs = visit_xml_node_def start_node_def end_node_def Let_def
  safe_string_construct_def element_start_def element_done_def compiler_parser_defs call_done_def
  attribute_or_empty_def

lemma record_eta [simp]:
  "\<lparr>node_name = node_name n\<rparr> = n" "\<lparr>interface_name = interface_name i\<rparr> = i"
  "\<lparr>method_name = method_name m\<rparr> = m" "\<lparr>signal_name = signal_name g\<rparr> = g"
  "\<lparr>annotation_name = annotation_name a, annotation_value = annotation_value a\<rparr> = a"
  by simp_all

lemma visit_start:
  "visit_xml_node compiler_parser (start_node t b) =
     then_eff (adjust_down t) (if b \<and> \<not> is_property t then adjust_up else return_eff ())"
proof (cases t)
  case (P_argument x)
  have "direction_of (case direction_text (argument_direction x) of Some s \<Rightarrow> s | None \<Rightarrow> [])
      = Some (argument_direction x)"
    by (cases "argument_direction x") (simp_all add: direction_of_def)
  then show ?thesis using P_argument
    by (cases x) (simp add: visit_node_defs read_argument_def)
next
  case (P_property x)
  have "access_of (access_text (property_access x)) = Some (property_access x)"
    by (cases "property_access x") (simp_all add: access_of_def)
  then show ?thesis using P_property
    by (cases x) (simp add: visit_node_defs read_property_def)
qed (simp_all add: visit_node_defs)

lemma visit_end:
  "visit_xml_node compiler_parser (end_node t) =
     (if is_property t then return_eff () else adjust_up)"
  by (cases t) (simp_all add: visit_node_defs)

definition moved :: "element \<Rightarrow> nat list option \<Rightarrow> context_state \<Rightarrow> context_state" where
  "moved root p s = s\<lparr>ctx_root := Some root, ctx_current := p\<rparr>"

lemma moved_simps [simp]:
  "ctx_root (moved r p s) = Some r" "ctx_current (moved r p s) = p"
  "moved r p (moved r' p' s) = moved r p s"
  by (simp_all add: moved_def)

lemma adjust_down_run:
  "ctx_root s = Some root \<Longrightarrow> ctx_current s = Some p \<Longrightarrow>
     adjust_down t s = (Inr (), moved (add_element p (Element t []) root)
       (Some (p @ [insert_index (Element t []) (kids (element_at p root))])) s)"
  by (simp add: adjust_down_def moved_def Let_def)

lemma adjust_up_run:
  "ctx_root s = Some root \<Longrightarrow> ctx_current s = Some (p @ [i]) \<Longrightarrow>
     adjust_up s = (Inr (), moved root (Some p) s)"
  by (simp add: adjust_up_def moved_def)

text \<open>A document without properties is added to the current element, which stays current.\<close>

definition adds :: "doc \<Rightarrow> bool" where
  "adds d \<longleftrightarrow>
     (\<forall>s p root. ctx_root s = Some root \<longrightarrow> ctx_current s = Some p \<longrightarrow> valid_at p root \<longrightarrow>
        each_eff (visit_xml_node compiler_parser) (render d) s
          = (Inr (), moved (add_element p (build d) root) (Some p) s))"

lemma adds_all:
  assumes "\<forall>d \<in> set ds. adds d"
  shows "ctx_root s = Some root \<Longrightarrow> ctx_current s = Some p \<Longrightarrow> valid_at p root \<Longrightarrow>
     each_eff (visit_xml_node compiler_parser) (concat (map render ds)) s
       = (Inr (), moved (fold (add_element p) (map build ds) root) (Some p) s)"
  using assms
proof (induction ds arbitrary: s root)
  case Nil
  then show ?case by (simp add: return_eff_def moved_def)
next
  case (Cons d ds)
  have "each_eff (visit_xml_node compiler_parser) (render d) s
      = (Inr (), moved (add_element p (build d) root) (Some p) s)"
    using Cons.prems by (simp add: adds_def)
  then show ?case
    using Cons.IH [of "moved (add_element p (build d) root) (Some p) s" "add_element p (build d) root"]
      Cons.prems valid_add_element
    by (simp add: each_eff_append then_eff_Inr)
qed

lemma adds_doc: "no_property d \<Longrightarrow> adds d"
proof (induction d)
  case (Doc t b ds)
  have t: "\<not> is_property t" and kids: "\<forall>d \<in> set ds. adds d"
    using Doc by simp_all
  show ?case
    unfolding adds_def
  proof (intro allI impI)
    fix s :: context_state and p root
    assume s: "ctx_root s = Some root" "ctx_current s = Some p" and p: "valid_at p root"
    let ?i = "insert_index (Element t []) (kids (element_at p root))"
    let ?s1 = "moved (add_element p (Element t []) root) (Some (p @ [?i])) s"
    have down: "adjust_down t s = (Inr (), ?s1)"
      by (rule adjust_down_run [OF s])
    have body: "each_eff (visit_xml_node compiler_parser) (concat (map render ds)) ?s1
        = (Inr (), moved (add_element p (build (Doc t b ds)) root) (Some (p @ [?i])) s)"
      using adds_all [OF kids, of ?s1 _ "p @ [?i]"] valid_new_element [OF p]
        add_grand_elements [OF p, of t "map build ds" "[]"] fold_insert_child_sort [of "map build ds" "[]"]
      by simp
    have up: "adjust_up (moved (add_element p (build (Doc t b ds)) root) (Some (p @ [?i])) s)
        = (Inr (), moved (add_element p (build (Doc t b ds)) root) (Some p) s)"
      using adjust_up_run [of "moved (add_element p (build (Doc t b ds)) root) (Some (p @ [?i])) s"]
      by simp
    show "each_eff (visit_xml_node compiler_parser) (render (Doc t b ds)) s
        = (Inr (), moved (add_element p (build (Doc t b ds)) root) (Some p) s)"
    proof (cases "ds = [] \<and> b")
      case True
      then show ?thesis using down body up t
        by (simp add: visit_start then_eff_Inr return_eff_def)
    next
      case False
      have "each_eff (visit_xml_node compiler_parser) (concat (map render ds) @ [end_node t]) ?s1
          = (Inr (), moved (add_element p (build (Doc t b ds)) root) (Some p) s)"
        using body up t by (simp add: each_eff_append then_eff_Inr visit_end return_eff_def)
      moreover have "visit_xml_node compiler_parser (start_node t False) s = (Inr (), ?s1)"
        using down by (simp add: visit_start then_eff_Inr return_eff_def)
      moreover have "render (Doc t b ds) = start_node t False # concat (map render ds) @ [end_node t]"
        using False by auto
      ultimately show ?thesis by (simp add: then_eff_Inr del: build.simps)
    qed
  qed
qed

section \<open>Whole files\<close>

definition is_element_node :: "xml_node \<Rightarrow> bool" where
  "is_element_node x \<longleftrightarrow> xml_type x = 1 \<or> xml_type x = 15"

text \<open>Text, comments and the like are passed over.\<close>

lemma each_visit_filter:
  "each_eff (visit_xml_node d) (filter is_element_node xs) = each_eff (visit_xml_node d) xs"
proof (induction xs)
  case (Cons x xs)
  have "visit_xml_node d x = return_eff ()" if "\<not> is_element_node x"
    using that by (simp add: visit_xml_node_def is_element_node_def Let_def)
  then show ?case using Cons by simp
qed simp

lemma reset_run: "reset s = (Inr (), s\<lparr>ctx_root := None, ctx_current := None\<rparr>)"
  by (simp add: reset_def)

lemma root_down:
  "ctx_root s = None \<Longrightarrow> adjust_down t s = (Inr (), moved (Element t []) (Some []) s)"
  by (simp add: adjust_down_def moved_def)

lemma root_up: "ctx_current s = Some [] \<Longrightarrow> ctx_root s = Some r \<Longrightarrow> adjust_up s = (Inr (), moved r None s)"
  by (simp add: adjust_up_def moved_def)

lemma fold_add_root: "fold (add_element []) ys (Element t cs) = Element t (fold insert_child ys cs)"
  by (induction ys arbitrary: cs) simp_all

lemma render_root:
  assumes "no_property d" and "ctx_root s = None"
  shows "each_eff (visit_xml_node compiler_parser) (render d) s = (Inr (), moved (build d) None s)"
proof (cases d)
  case (Doc t b ds)
  let ?s1 = "moved (Element t []) (Some []) s"
  have t: "\<not> is_property t" and kids: "\<forall>d \<in> set ds. adds d"
    using assms(1) Doc adds_doc by simp_all
  have body: "each_eff (visit_xml_node compiler_parser) (concat (map render ds)) ?s1
      = (Inr (), moved (build d) (Some []) s)"
    using adds_all [OF kids, of ?s1 _ "[]"] fold_insert_child_sort [of "map build ds" "[]"] Doc
    by (simp add: fold_add_root)
  have up: "adjust_up (moved (build d) (Some []) s) = (Inr (), moved (build d) None s)"
    using root_up [of "moved (build d) (Some []) s"] by simp
  show ?thesis
  proof (cases "ds = [] \<and> b")
    case True
    then show ?thesis using body up t Doc root_down [OF assms(2)]
      by (simp add: visit_start then_eff_Inr return_eff_def)
  next
    case False
    have "each_eff (visit_xml_node compiler_parser) (concat (map render ds) @ [end_node t]) ?s1
        = (Inr (), moved (build d) None s)"
      using body up t by (simp add: each_eff_append then_eff_Inr visit_end return_eff_def)
    moreover have "visit_xml_node compiler_parser (start_node t False) s = (Inr (), ?s1)"
      using root_down [OF assms(2)] by (simp add: visit_start then_eff_Inr return_eff_def)
    moreover have "render d = start_node t False # concat (map render ds) @ [end_node t]"
      using False Doc by auto
    ultimately show ?thesis by (simp add: then_eff_Inr)
  qed
qed

lemma parsed_document:
  assumes "open_xml (c_str file) = Some (nodes, 0)" and "filter is_element_node nodes = render d"
    and "no_property d"
  shows "then_eff reset (invoke_for open_xml compiler_parser file) s
     = (Inr True, \<lparr>ctx_root = Some (build d), ctx_current = None\<rparr>)"
proof -
  let ?s0 = "s\<lparr>ctx_root := None, ctx_current := None\<rparr>"
  have "each_eff (visit_xml_node compiler_parser) nodes ?s0 = (Inr (), moved (build d) None ?s0)"
    using render_root [OF assms(3), of ?s0] assms(2) each_visit_filter [of compiler_parser nodes]
    by simp
  then show ?thesis
    using assms(1) by (simp add: reset_run then_eff_Inr invoke_for_def return_eff_def moved_def)
qed

text \<open>
  C29. Parsing builds the model of the document. For every file whose elements are those of a
  document without properties (in either notation of empty elements, with anything between the
  elements), the compiler's context holds afterwards exactly the tree of the document: every element
  under its parent, with what its attributes say, the children of each in the order of their types
  and otherwise of the document, and nothing left open.
\<close>

theorem parsing_builds_model:
  assumes "open_xml (c_str file) = Some (nodes, 0)" and "filter is_element_node nodes = render d"
    and "no_property d"
  shows "then_eff reset (invoke_for open_xml compiler_parser file) s
     = (Inr True, \<lparr>ctx_root = Some (build d), ctx_current = None\<rparr>)"
  using assms by (rule parsed_document)

definition sample_doc :: doc where
  "sample_doc = Doc (P_node \<lparr>node_name = ''/a''\<rparr>) False
     [Doc (P_interface \<lparr>interface_name = ''x.Y''\<rparr>) False
        [Doc (P_signal \<lparr>signal_name = ''S''\<rparr>) True [],
         Doc (P_method \<lparr>method_name = ''M''\<rparr>) False
           [Doc (P_argument \<lparr>argument_name = ''a'', argument_signature = ''i'',
              argument_direction = Dir_in\<rparr>) True []]]]"

theorem parsing_builds_model_witness:
  "then_eff reset (invoke_for (\<lambda>f. Some (render sample_doc, 0)) compiler_parser ''a.xml'')
       \<lparr>ctx_root = None, ctx_current = None\<rparr>
     = (Inr True, \<lparr>ctx_root = Some
         (Element (P_node \<lparr>node_name = ''/a''\<rparr>)
           [Element (P_interface \<lparr>interface_name = ''x.Y''\<rparr>)
             [Element (P_method \<lparr>method_name = ''M''\<rparr>)
               [Element (P_argument \<lparr>argument_name = ''a'', argument_signature = ''i'',
                  argument_direction = Dir_in\<rparr>) []],
              Element (P_signal \<lparr>signal_name = ''S''\<rparr>) []]]),
        ctx_current = None\<rparr>)"
proof -
  have "filter is_element_node (render sample_doc) = render sample_doc"
    by (simp add: sample_doc_def start_node_def end_node_def is_element_node_def)
  then show ?thesis
    using parsing_builds_model [of "\<lambda>f. Some (render sample_doc, 0)" "''a.xml''" "render sample_doc" sample_doc]
    by (simp add: sample_doc_def)
qed

text \<open>
  The parser reports where a property starts but not where it ends, and the context moves
  down to every element that starts. So what follows a property in an interface becomes its
  child: a method after a property is found under the property, and when the document is done
  the context still points into the tree.
\<close>

lemma property_swallows_what_follows:
  assumes "open_xml (c_str file) = Some (render (Doc t False [Doc (P_property x) b [], d]), 0)"
    and "no_property d" and "\<not> is_property t"
  shows "then_eff reset (invoke_for open_xml compiler_parser file) s
     = (Inr True, \<lparr>ctx_root = Some (Element t [Element (P_property x) [build d]]),
                   ctx_current = Some []\<rparr>)"
proof -
  let ?s0 = "s\<lparr>ctx_root := None, ctx_current := None\<rparr>"
  let ?p = "Element (P_property x) []"
  let ?s1 = "moved (Element t []) (Some []) ?s0" and ?s2 = "moved (Element t [?p]) (Some [0]) ?s0"
  let ?s3 = "moved (Element t [Element (P_property x) [build d]]) (Some [0]) ?s0"
  have 1: "visit_xml_node compiler_parser (start_node t False) ?s0 = (Inr (), ?s1)"
    using root_down [of ?s0 t] by (simp add: visit_start then_eff_Inr return_eff_def)
  have "adjust_down (P_property x) ?s1 = (Inr (), ?s2)"
    by (simp add: adjust_down_def moved_def insert_child_def insert_index_def)
  then have 2: "visit_xml_node compiler_parser (start_node (P_property x) b') ?s1 = (Inr (), ?s2)" for b'
    by (simp add: visit_start then_eff_Inr return_eff_def)
  have 3: "visit_xml_node compiler_parser (end_node (P_property x)) ?s2 = (Inr (), ?s2)"
    by (simp add: visit_end return_eff_def)
  have 4: "each_eff (visit_xml_node compiler_parser) (render d) ?s2 = (Inr (), ?s3)"
    using adds_doc [OF assms(2)] unfolding adds_def
    by (simp add: insert_child_def insert_index_def)
  have 5: "visit_xml_node compiler_parser (end_node t) ?s3
      = (Inr (), moved (Element t [Element (P_property x) [build d]]) (Some []) ?s0)"
    using adjust_up_run [of ?s3 _ "[]" 0] assms(3) by (simp add: visit_end)
  have 6: "each_eff (visit_xml_node compiler_parser) (render (Doc (P_property x) b [])) ?s1 = (Inr (), ?s2)"
    using 2 3 by (simp add: then_eff_Inr return_eff_def)
  have "render (Doc t False [Doc (P_property x) b [], d])
      = [start_node t False] @ render (Doc (P_property x) b []) @ render d @ [end_node t]"
    by simp
  then have "each_eff (visit_xml_node compiler_parser)
      (render (Doc t False [Doc (P_property x) b [], d])) ?s0
      = (Inr (), moved (Element t [Element (P_property x) [build d]]) (Some []) ?s0)"
    using 1 4 5 6 by (simp add: each_eff_append then_eff_Inr return_eff_def del: render.simps)
  then show ?thesis
    using assms(1) by (simp add: reset_run then_eff_Inr invoke_for_def return_eff_def moved_def
        del: render.simps)
qed

lemma property_swallows_what_follows_witness:
  "let x = \<lparr>property_name = ''P'', property_signature = ''i'', property_access = Access_read\<rparr>;
       t = P_interface \<lparr>interface_name = ''x.Y''\<rparr>;
       d = Doc (P_method \<lparr>method_name = ''M''\<rparr>) True [] in
   then_eff reset (invoke_for (\<lambda>f. Some (render (Doc t False [Doc (P_property x) True [], d]), 0))
       compiler_parser ''a.xml'') \<lparr>ctx_root = None, ctx_current = None\<rparr>
     = (Inr True, \<lparr>ctx_root = Some (Element t [Element (P_property x)
           [Element (P_method \<lparr>method_name = ''M''\<rparr>) []]]), ctx_current = Some []\<rparr>)"
  unfolding Let_def
  by (subst property_swallows_what_follows [OF refl]) simp_all

end
