(* ===== verification/Generator_Model.thy ===== *)
theory Generator_Model
  imports Generator Introspection_Model
begin

text \<open>
  What the generator writes: the text for an interface with methods, signals and properties, and
  what becomes of the braces, of a second interface and of the text of the file itself.
\<close>

section \<open>Declarations\<close>

text \<open>A parameter: its name, its direction and its type.\<close>

type_synonym parameter = "string \<times> direction \<times> ctype"

datatype member =
    Method_decl string "parameter list"
  | Signal_decl string "parameter list"
  | Property_decl string access ctype

fun parameter_payload :: "parameter \<Rightarrow> payload" where
  "parameter_payload (n, d, t) =
     P_argument \<lparr>argument_name = n, argument_signature = signature t, argument_direction = d\<rparr>"

fun member_payload :: "member \<Rightarrow> payload" where
  "member_payload (Method_decl n ps) = P_method \<lparr>method_name = n\<rparr>"
| "member_payload (Signal_decl n ps) = P_signal \<lparr>signal_name = n\<rparr>"
| "member_payload (Property_decl n a t) =
     P_property \<lparr>property_name = n, property_signature = signature t, property_access = a\<rparr>"

fun parameters :: "member \<Rightarrow> parameter list" where
  "parameters (Method_decl n ps) = ps"
| "parameters (Signal_decl n ps) = ps"
| "parameters (Property_decl n a t) = []"

definition member_element :: "member \<Rightarrow> element" where
  "member_element m =
     Element (member_payload m) (map (\<lambda>p. Element (parameter_payload p) []) (parameters m))"

definition in_types :: "parameter list \<Rightarrow> ctype list" where
  "in_types ps = map (\<lambda>(n, d, t). t) (filter (\<lambda>(n, d, t). d \<noteq> Dir_out) ps)"

definition out_types :: "parameter list \<Rightarrow> ctype list" where
  "out_types ps = map (\<lambda>(n, d, t). t) (filter (\<lambda>(n, d, t). d \<noteq> Dir_in) ps)"

definition all_types :: "parameter list \<Rightarrow> ctype list" where
  "all_types ps = map (\<lambda>(n, d, t). t) ps"

text \<open>The types can be printed.\<close>

definition printable :: "ctype list \<Rightarrow> bool" where
  "printable ts \<longleftrightarrow> (\<forall>t \<in> set ts. idl t \<and> tidy t) \<and> arrays_last ts"

fun member_ok :: "member \<Rightarrow> bool" where
  "member_ok (Method_decl n ps) = (printable (in_types ps) \<and> printable (out_types ps))"
| "member_ok (Signal_decl n ps) = printable (all_types ps)"
| "member_ok (Property_decl n a t) = printable [t]"

section \<open>The text of a declaration\<close>

definition head_text :: "string \<Rightarrow> string \<Rightarrow> string" where
  "head_text i n = text_of_lines [''struct '' @ n, ''{'', typedef_line i ''Interface'', name_function n]"

fun member_text :: "string \<Rightarrow> member \<Rightarrow> string" where
  "member_text i (Method_decl n ps) =
     head_text i n @ text_of_lines [timeout_function,
       typedef_line (cpp_arguments (in_types ps)) ''ArgumentType'',
       typedef_line (cpp_arguments (out_types ps)) ''ResultType'', ''};'']"
| "member_text i (Signal_decl n ps) =
     head_text i n @ text_of_lines [typedef_line (cpp_arguments (all_types ps)) ''ArgumentType'', ''};'']"
| "member_text i (Property_decl n a t) =
     head_text i n @ text_of_lines (access_lines a)
       @ text_of_lines [typedef_line (cpp_type t) ''ArgumentType'', ''};'']"

text \<open>What is written in front of a member, when so many signals and properties came before it.\<close>

fun opening_text :: "nat \<Rightarrow> nat \<Rightarrow> member \<Rightarrow> string" where
  "opening_text sigs props (Method_decl n ps) = []"
| "opening_text sigs props (Signal_decl n ps) =
     (if sigs = 0 then text_of_lines [''struct Signals'', ''{''] else [])"
| "opening_text sigs props (Property_decl n a t) =
     (if sigs > 0 then text_of_lines [''};''] else [])
       @ (if props = 0 then text_of_lines [''struct Properties'', ''{''] else [])"

fun signals_in :: "member \<Rightarrow> nat" where
  "signals_in (Signal_decl n ps) = 1"
| "signals_in m = 0"

fun properties_in :: "member \<Rightarrow> nat" where
  "properties_in (Property_decl n a t) = 1"
| "properties_in m = 0"

fun members_text :: "string \<Rightarrow> nat \<Rightarrow> nat \<Rightarrow> member list \<Rightarrow> string" where
  "members_text i sigs props [] = []"
| "members_text i sigs props (m # ms) =
     opening_text sigs props m @ member_text i m
       @ members_text i (sigs + signals_in m) (props + properties_in m) ms"

section \<open>Reading the types of arguments\<close>

definition mangler_of :: "ctype list \<Rightarrow> mangler \<Rightarrow> bool" where
  "mangler_of ts m \<longleftrightarrow> update_from_signature (helper_signature ts) new_mangler = (Inr True, m)"

lemma mangler_of_new [simp]: "mangler_of [] new_mangler"
  by (simp add: mangler_of_def return_eff_def)

lemma printable_butlast: "printable (ts @ [t]) \<Longrightarrow> printable ts"
  by (auto simp: printable_def arrays_last_def dest: in_set_butlastD)

lemma printable_append: "printable (ts @ us) \<Longrightarrow> printable ts"
  by (induction us rule: rev_induct) (auto simp flip: append_assoc dest: printable_butlast)

lemma feed_signature:
  assumes "printable (ts @ [t])" and "mangler_of ts m"
  shows "\<exists>m'. feed (signature t) m = Inr m' \<and> mangler_of (ts @ [t]) m'"
proof -
  obtain m' where "update_from_signature (helper_signature (ts @ [t])) new_mangler = (Inr True, m')"
    using mangler_reads_arguments [of "ts @ [t]"] assms(1) by (auto simp: printable_def)
  moreover have "helper_signature (ts @ [t]) = helper_signature ts @ signature t"
    by (simp add: helper_signature_concat)
  ultimately show ?thesis
    using assms(2) by (simp add: mangler_of_def feed_def update_signature_step)
qed

lemma print_mangler_of:
  "printable ts \<Longrightarrow> mangler_of ts m \<Longrightarrow> print_type m = Inr (cpp_arguments ts)"
  using mangler_reads_arguments [of ts] by (auto simp: printable_def mangler_of_def)

section \<open>Visiting a member\<close>

abbreviation visit_child ::
  "(string \<Rightarrow> string \<Rightarrow> string list) \<Rightarrow> (string \<Rightarrow> bool) \<Rightarrow> generator_configuration \<Rightarrow> element
     \<Rightarrow> (gen_context, unit) eff" where
  "visit_child split can_open config child \<equiv>
     then_eff (call_visitor None child)
       (then_eff (apply_element None (gen_visitor split can_open config) (Some gen_post_visitor) child)
          (call_visitor (Some gen_post_visitor) child))"

definition extend :: "string \<Rightarrow> gen_context \<Rightarrow> gen_context" where
  "extend txt s = s\<lparr>gen_buffer := gen_buffer s @ txt\<rparr>"

lemma emit_run: "emit txt s = (Inr (), extend txt s)"
  by (simp add: emit_def extend_def)

lemma extend_extend [simp]: "extend v (extend u s) = extend (u @ v) s"
  by (simp add: extend_def)

lemma extend_Nil [simp]: "extend [] s = s"
  by (simp add: extend_def)

lemma extend_fields [simp]:
  "interface_current (extend txt s) = interface_current s"
  "method_current (extend txt s) = method_current s"
  "signal_current (extend txt s) = signal_current s"
  "property_current (extend txt s) = property_current s"
  "signals_count (extend txt s) = signals_count s"
  "properties_count (extend txt s) = properties_count s"
  "namespaces_count (extend txt s) = namespaces_count s"
  "protocol_file (extend txt s) = protocol_file s"
  "disk (extend txt s) = disk s"
  by (simp_all add: extend_def)

lemma extend_update [simp]:
  "(extend txt s)\<lparr>method_current := x\<rparr> = extend txt (s\<lparr>method_current := x\<rparr>)"
  "(extend txt s)\<lparr>signal_current := y\<rparr> = extend txt (s\<lparr>signal_current := y\<rparr>)"
  "(extend txt s)\<lparr>property_current := z\<rparr> = extend txt (s\<lparr>property_current := z\<rparr>)"
  "(extend txt s)\<lparr>signals_count := k\<rparr> = extend txt (s\<lparr>signals_count := k\<rparr>)"
  "(extend txt s)\<lparr>properties_count := l\<rparr> = extend txt (s\<lparr>properties_count := l\<rparr>)"
  by (simp_all add: extend_def)

lemma visit_argument_child:
  "visit_child split can_open config (Element (parameter_payload (n, d, t)) []) s
     = visit_argument \<lparr>argument_name = n, argument_signature = signature t, argument_direction = d\<rparr> s"
  by (simp add: call_visitor_def gen_visitor_def gen_post_visitor_def then_eff_def)

lemmas types_defs = in_types_def out_types_def all_types_def

lemma feed_method_parameter:
  assumes "mangler_of is (gm_in_type_mangler m)" and "mangler_of os (gm_out_type_mangler m)"
    and "printable (is @ in_types [(n, d, t)])" and "printable (os @ out_types [(n, d, t)])"
  shows "\<exists>m'. feed_method d (signature t) m = Inr m'
     \<and> mangler_of (is @ in_types [(n, d, t)]) (gm_in_type_mangler m')
     \<and> mangler_of (os @ out_types [(n, d, t)]) (gm_out_type_mangler m')"
proof -
  have i: "\<exists>m'. feed (signature t) (gm_in_type_mangler m) = Inr m' \<and> mangler_of (is @ [t]) m'" if "d \<noteq> Dir_out"
    using feed_signature [OF _ assms(1)] assms(3) that by (simp add: types_defs)
  have o: "\<exists>m'. feed (signature t) (gm_out_type_mangler m) = Inr m' \<and> mangler_of (os @ [t]) m'" if "d \<noteq> Dir_in"
    using feed_signature [OF _ assms(2)] assms(4) that by (simp add: types_defs)
  show ?thesis
    using i o assms(1,2) by (cases d) (auto simp: feed_in_def feed_out_def types_defs)
qed

lemma method_parameters:
  assumes "method_current s = Some m"
    and "mangler_of is (gm_in_type_mangler m)" and "mangler_of os (gm_out_type_mangler m)"
    and "printable (is @ in_types ps)" and "printable (os @ out_types ps)"
  shows "\<exists>m'. each_eff (visit_child split can_open config)
       (map (\<lambda>p. Element (parameter_payload p) []) ps) s = (Inr (), s\<lparr>method_current := Some m'\<rparr>)
     \<and> mangler_of (is @ in_types ps) (gm_in_type_mangler m')
     \<and> mangler_of (os @ out_types ps) (gm_out_type_mangler m')"
  using assms
proof (induction ps arbitrary: s m "is" os)
  case Nil
  then have "s\<lparr>method_current := Some m\<rparr> = s" by simp
  then show ?case using Nil by (intro exI [of _ m]) (simp add: types_defs return_eff_def)
next
  case (Cons p ps)
  obtain n d t where p: "p = (n, d, t)" by (cases p)
  have split: "in_types (p # ps) = in_types [p] @ in_types ps"
    "out_types (p # ps) = out_types [p] @ out_types ps"
    by (simp_all add: types_defs)
  have pr: "printable (is @ in_types [p])" "printable (os @ out_types [p])"
    using Cons.prems(4,5) printable_append unfolding split by (metis append_assoc)+
  obtain m1 where m1: "feed_method d (signature t) m = Inr m1"
    "mangler_of (is @ in_types [p]) (gm_in_type_mangler m1)"
    "mangler_of (os @ out_types [p]) (gm_out_type_mangler m1)"
    using feed_method_parameter [OF Cons.prems(2,3)] pr unfolding p by blast
  let ?s1 = "s\<lparr>method_current := Some m1\<rparr>"
  have "visit_child split can_open config (Element (parameter_payload p) []) s = (Inr (), ?s1)"
    using m1(1) Cons.prems(1) unfolding p visit_argument_child by (simp add: visit_argument_def)
  moreover obtain m' where "each_eff (visit_child split can_open config)
       (map (\<lambda>p. Element (parameter_payload p) []) ps) ?s1 = (Inr (), ?s1\<lparr>method_current := Some m'\<rparr>)"
     "mangler_of ((is @ in_types [p]) @ in_types ps) (gm_in_type_mangler m')"
     "mangler_of ((os @ out_types [p]) @ out_types ps) (gm_out_type_mangler m')"
    using Cons.IH [of ?s1 m1, OF _ m1(2,3)] Cons.prems(4,5) unfolding split by auto
  ultimately show ?case
    unfolding split by (intro exI [of _ m']) (simp add: then_eff_Inr)
qed

lemma signal_parameters:
  assumes "method_current s = None" and "signal_current s = Some g"
    and "mangler_of ts (gs_type_mangler g)" and "printable (ts @ all_types ps)"
  shows "\<exists>g'. each_eff (visit_child split can_open config)
       (map (\<lambda>p. Element (parameter_payload p) []) ps) s = (Inr (), s\<lparr>signal_current := Some g'\<rparr>)
     \<and> mangler_of (ts @ all_types ps) (gs_type_mangler g')"
  using assms
proof (induction ps arbitrary: s g ts)
  case Nil
  then have "s\<lparr>signal_current := Some g\<rparr> = s" by simp
  then show ?case using Nil by (intro exI [of _ g]) (simp add: types_defs return_eff_def)
next
  case (Cons p ps)
  obtain n d t where p: "p = (n, d, t)" by (cases p)
  have split: "all_types (p # ps) = t # all_types ps"
    by (simp add: types_defs p)
  have "printable (ts @ [t])"
    using Cons.prems(4) printable_append unfolding split by (metis append_Cons append_Nil append_assoc)
  then obtain m1 where m1: "feed (signature t) (gs_type_mangler g) = Inr m1" "mangler_of (ts @ [t]) m1"
    using feed_signature [OF _ Cons.prems(3)] by blast
  let ?g = "g\<lparr>gs_type_mangler := m1\<rparr>" and ?s1 = "s\<lparr>signal_current := Some (g\<lparr>gs_type_mangler := m1\<rparr>)\<rparr>"
  have "visit_child split can_open config (Element (parameter_payload p) []) s = (Inr (), ?s1)"
    using m1(1) Cons.prems(1,2) unfolding p visit_argument_child by (simp add: visit_argument_def)
  moreover obtain g' where "each_eff (visit_child split can_open config)
       (map (\<lambda>p. Element (parameter_payload p) []) ps) ?s1 = (Inr (), ?s1\<lparr>signal_current := Some g'\<rparr>)"
     "mangler_of ((ts @ [t]) @ all_types ps) (gs_type_mangler g')"
    using Cons.IH [of ?s1 ?g "ts @ [t]"] Cons.prems(1,4) m1(2) unfolding split by auto
  ultimately show ?case
    unfolding split by (intro exI [of _ g']) (simp add: then_eff_Inr)
qed

text \<open>Between two members there is no current method, signal or property.\<close>

definition idle :: "string \<Rightarrow> gen_context \<Rightarrow> bool" where
  "idle i s \<longleftrightarrow> interface_current s = Some \<lparr>gi_name = i\<rparr> \<and> method_current s = None
     \<and> signal_current s = None \<and> property_current s = None"

definition counted :: "nat \<Rightarrow> nat \<Rightarrow> gen_context \<Rightarrow> gen_context" where
  "counted sigs props s = s\<lparr>signals_count := signals_count s + sigs,
     properties_count := properties_count s + props\<rparr>"

lemma counted_fields [simp]:
  "idle i (counted a b s) = idle i s" "idle i (extend txt s) = idle i s"
  "signals_count (counted a b s) = signals_count s + a"
  "properties_count (counted a b s) = properties_count s + b"
  "namespaces_count (counted a b s) = namespaces_count s"
  "protocol_file (counted a b s) = protocol_file s"
  "disk (counted a b s) = disk s"
  "gen_buffer (counted a b s) = gen_buffer s"
  by (simp_all add: idle_def counted_def extend_def)

lemma counted_extend [simp]: "counted a b (extend txt s) = extend txt (counted a b s)"
  by (simp add: counted_def extend_def)

lemma counted_counted [simp]: "counted a b (counted c d s) = counted (c + a) (d + b) s"
  by (simp add: counted_def add.assoc)

lemma counted_0 [simp]: "counted 0 0 s = s"
  by (simp add: counted_def)

lemma emit_member_head_run:
  "interface_current s = Some \<lparr>gi_name = i\<rparr> \<Longrightarrow> emit_member_head n s = (Inr (), extend (head_text i n) s)"
  by (simp add: emit_member_head_def current_interface_name_def emit_run head_text_def)

lemma text_of_lines_append: "text_of_lines (xs @ ys) = text_of_lines xs @ text_of_lines ys"
  by (simp add: text_of_lines_def)

lemma text_of_lines_Cons: "text_of_lines (x # y # ys) = text_of_lines [x] @ text_of_lines (y # ys)"
  by (simp add: text_of_lines_def)

lemma visit_child_run:
  assumes "gen_visitor split can_open config (Element t cs) s = (Inr (), s1)"
    and "each_eff (visit_child split can_open config) cs s1 = (Inr (), s2)"
    and "gen_post_visitor (Element t cs) s2 = (Inr (), s3)"
  shows "visit_child split can_open config (Element t cs) s = (Inr (), s3)"
  using assms by (simp add: call_visitor_def then_eff_Inr)

lemma method_member:
  assumes "idle i s" and "member_ok (Method_decl n ps)"
  shows "visit_child split can_open config (member_element (Method_decl n ps)) s
     = (Inr (), extend (member_text i (Method_decl n ps)) s)"
proof -
  let ?s1 = "extend (head_text i n @ text_of_lines [timeout_function]) (s\<lparr>method_current := Some (new_method n)\<rparr>)"
  have 1: "gen_visitor split can_open config (member_element (Method_decl n ps)) s = (Inr (), ?s1)"
    using assms(1) emit_member_head_run [of s i n]
    by (simp add: gen_visitor_def member_element_def visit_method_def then_eff_Inr emit_run idle_def)
  obtain m where m: "each_eff (visit_child split can_open config)
       (map (\<lambda>p. Element (parameter_payload p) []) ps) ?s1 = (Inr (), ?s1\<lparr>method_current := Some m\<rparr>)"
    "mangler_of (in_types ps) (gm_in_type_mangler m)" "mangler_of (out_types ps) (gm_out_type_mangler m)"
    using method_parameters [of ?s1 "new_method n" "[]" "[]" ps split can_open config] assms(2) by (auto simp: new_method_def)
  have s: "s\<lparr>method_current := None\<rparr> = s" using assms(1) by (simp add: idle_def)
  have "gen_post_visitor (member_element (Method_decl n ps)) (?s1\<lparr>method_current := Some m\<rparr>)
     = (Inr (), extend (member_text i (Method_decl n ps)) s)"
    using print_mangler_of [OF _ m(2)] print_mangler_of [OF _ m(3)] assms(2) s
    by (simp add: gen_post_visitor_def member_element_def post_method_def then_eff_Inr emit_run
        print_current_def emit_result_def text_of_lines_Cons)
  then show ?thesis
    using 1 m(1) unfolding member_element_def
    by (intro visit_child_run) (simp_all add: member_element_def)
qed

lemma signal_member:
  assumes "idle i s" and "member_ok (Signal_decl n ps)"
  shows "visit_child split can_open config (member_element (Signal_decl n ps)) s
     = (Inr (), extend (opening_text (signals_count s) k (Signal_decl n ps) @ member_text i (Signal_decl n ps))
         (counted (Suc 0) 0 s))"
proof -
  let ?o = "opening_text (signals_count s) k (Signal_decl n ps)"
  let ?s1 = "extend (?o @ head_text i n) (counted (Suc 0) 0 s\<lparr>signal_current := Some (new_signal n)\<rparr>)"
  have i: "interface_current s = Some \<lparr>gi_name = i\<rparr>" using assms(1) by (simp add: idle_def)
  have c: "s\<lparr>signals_count := Suc (signals_count s), signal_current := x\<rparr>
      = (counted (Suc 0) 0 s)\<lparr>signal_current := x\<rparr>" for x
    by (simp add: counted_def)
  have i1: "interface_current ((counted (Suc 0) 0 s)\<lparr>signal_current := x\<rparr>) = Some \<lparr>gi_name = i\<rparr>" for x
    using i by (simp add: counted_def)
  have 1: "gen_visitor split can_open config (member_element (Signal_decl n ps)) s = (Inr (), ?s1)"
    using emit_member_head_run [OF i1]
    by (simp add: gen_visitor_def member_element_def visit_signal_def then_eff_Inr emit_run c
        emit_member_head_run i1)
  obtain g where g: "each_eff (visit_child split can_open config)
       (map (\<lambda>p. Element (parameter_payload p) []) ps) ?s1 = (Inr (), ?s1\<lparr>signal_current := Some g\<rparr>)"
    "mangler_of (all_types ps) (gs_type_mangler g)"
    using signal_parameters [of ?s1 "new_signal n" "[]" ps split can_open config] assms
    by (auto simp: new_signal_def idle_def counted_def)
  have s: "(counted (Suc 0) 0 s)\<lparr>signal_current := None\<rparr> = counted (Suc 0) 0 s"
    using assms(1) by (simp add: idle_def counted_def)
  have "gen_post_visitor (member_element (Signal_decl n ps)) (?s1\<lparr>signal_current := Some g\<rparr>)
     = (Inr (), extend (?o @ member_text i (Signal_decl n ps)) (counted (Suc 0) 0 s))"
    using print_mangler_of [OF _ g(2)] assms(2) s
    by (simp add: gen_post_visitor_def member_element_def post_signal_def then_eff_Inr emit_run
        print_current_def emit_result_def text_of_lines_Cons)
  then show ?thesis
    using 1 g(1) unfolding member_element_def
    by (intro visit_child_run) (simp_all add: member_element_def)
qed

lemma property_member:
  assumes "idle i s" and "member_ok (Property_decl n a t)"
  shows "visit_child split can_open config (member_element (Property_decl n a t)) s
     = (Inr (), extend (opening_text (signals_count s) (properties_count s) (Property_decl n a t)
         @ member_text i (Property_decl n a t)) (counted 0 (Suc 0) s))"
proof -
  let ?o = "opening_text (signals_count s) (properties_count s) (Property_decl n a t)"
  obtain m where m: "feed (signature t) new_mangler = Inr m" "mangler_of [t] m"
    using feed_signature [of "[]" t new_mangler] assms(2) by auto
  have t: "print_type m = Inr (cpp_type t)"
    using print_mangler_of [OF _ m(2)] assms(2) by (simp add: cpp_arguments_def)
  let ?p = "(new_property n)\<lparr>gp_type_mangler := m\<rparr>"
  let ?s1 = "extend (?o @ head_text i n @ text_of_lines (access_lines a)
      @ text_of_lines [typedef_line (cpp_type t) ''ArgumentType'']) (counted 0 (Suc 0) s\<lparr>property_current := Some ?p\<rparr>)"
  have i: "interface_current s = Some \<lparr>gi_name = i\<rparr>" using assms(1) by (simp add: idle_def)
  have c: "s\<lparr>properties_count := Suc (properties_count s), property_current := x\<rparr>
      = (counted 0 (Suc 0) s)\<lparr>property_current := x\<rparr>" for x
    by (simp add: counted_def)
  have i1: "interface_current ((counted 0 (Suc 0) s)\<lparr>property_current := x\<rparr>) = Some \<lparr>gi_name = i\<rparr>" for x
    using i by (simp add: counted_def)
  have 1: "gen_visitor split can_open config (member_element (Property_decl n a t)) s = (Inr (), ?s1)"
    using t m(1)
    by (simp add: gen_visitor_def member_element_def visit_property_def then_eff_Inr emit_run c
        emit_member_head_run i1 new_property_def)
  have s: "(counted 0 (Suc 0) s)\<lparr>property_current := None\<rparr> = counted 0 (Suc 0) s"
    using assms(1) by (simp add: idle_def counted_def)
  have "gen_post_visitor (member_element (Property_decl n a t)) ?s1
     = (Inr (), extend (?o @ member_text i (Property_decl n a t)) (counted 0 (Suc 0) s))"
    using s by (simp add: gen_post_visitor_def member_element_def post_property_def then_eff_Inr
        emit_run text_of_lines_Cons)
  then show ?thesis
    using 1 unfolding member_element_def
    by (intro visit_child_run) (simp_all add: member_element_def return_eff_def)
qed

lemma member_visit:
  assumes "idle i s" and "member_ok m"
  shows "visit_child split can_open config (member_element m) s
     = (Inr (), extend (opening_text (signals_count s) (properties_count s) m @ member_text i m)
         (counted (signals_in m) (properties_in m) s))"
  using assms method_member [OF assms(1)] signal_member [OF assms(1)] property_member [OF assms(1)]
  by (cases m) simp_all

lemma members_visit:
  assumes "idle i s" and "\<forall>m \<in> set ms. member_ok m"
  shows "each_eff (visit_child split can_open config) (map member_element ms) s
     = (Inr (), extend (members_text i (signals_count s) (properties_count s) ms)
         (counted (sum_list (map signals_in ms)) (sum_list (map properties_in ms)) s))"
  using assms
proof (induction ms arbitrary: s)
  case (Cons m ms)
  let ?s1 = "extend (opening_text (signals_count s) (properties_count s) m @ member_text i m)
      (counted (signals_in m) (properties_in m) s)"
  have "visit_child split can_open config (member_element m) s = (Inr (), ?s1)"
    using member_visit Cons.prems by simp
  moreover have "idle i ?s1" using Cons.prems(1) by simp
  ultimately show ?case
    using Cons.IH [of ?s1] Cons.prems(2) by (simp add: then_eff_Inr)
qed (simp add: return_eff_def)

section \<open>An interface and its file\<close>

definition interface_element :: "string \<Rightarrow> string \<Rightarrow> member list \<Rightarrow> element" where
  "interface_element path name ms =
     Element (P_node \<lparr>node_name = path\<rparr>)
       [Element (P_interface \<lparr>interface_name = name\<rparr>) (map member_element ms)]"

definition opening_lines ::
  "(string \<Rightarrow> string \<Rightarrow> string list) \<Rightarrow> generator_configuration \<Rightarrow> string \<Rightarrow> string \<Rightarrow> string \<Rightarrow> string list"
  where
  "opening_lines split config path name raw =
     (case parse_namespaces_and_interface split name of
        (ns, i) \<Rightarrow> header_lines (build_time_stamp_generator config 0) (include_guard_generator config 0)
          @ interface_lines ns i path name (raw_text False raw))"

definition closing_lines ::
  "(string \<Rightarrow> string \<Rightarrow> string list) \<Rightarrow> string \<Rightarrow> nat \<Rightarrow> string list" where
  "closing_lines split name props =
     (if props > 0 then [''};''] else []) @ [''};'']
       @ replicate (length (fst (parse_namespaces_and_interface split name))) ''}'' @ [''#endif'']"

definition file_text ::
  "(string \<Rightarrow> string \<Rightarrow> string list) \<Rightarrow> generator_configuration \<Rightarrow> string \<Rightarrow> string \<Rightarrow> member list
     \<Rightarrow> string \<Rightarrow> string" where
  "file_text split config path name ms raw =
     text_of_lines (opening_lines split config path name raw)
       @ members_text (snd (parse_namespaces_and_interface split name)) 0 0 ms
       @ text_of_lines (closing_lines split name (sum_list (map properties_in ms)))"

definition file_name :: "(string \<Rightarrow> string \<Rightarrow> string list) \<Rightarrow> string \<Rightarrow> string" where
  "file_name split name = snd (parse_namespaces_and_interface split name) @ ''.h''"

lemma interface_visited:
  assumes "parse_namespaces_and_interface split name = (ns, i)" and "can_open (i @ ''.h'')"
    and "open_on (protocol_file s) = None"
  shows "visit_interface split can_open config \<lparr>interface_name = name\<rparr> s
     = (Inr (), extend (text_of_lines
            (header_lines (build_time_stamp_generator config (stamps_made s))
               (include_guard_generator config (guards_made s))
             @ interface_lines ns i (node_path s) name (raw_file_buffer s)))
         (s\<lparr>protocol_file := \<lparr>open_on = Some (i @ ''.h''), failed = False\<rparr>,
            disk := (disk s)(i @ ''.h'' \<mapsto> []),
            stamps_made := stamps_made s + 1, guards_made := guards_made s + 1,
            namespaces_count := namespaces_count s + length ns,
            interface_current := Some \<lparr>gi_name = i\<rparr>\<rparr>))"
  using assms by (simp add: visit_interface_def open_trunc_def then_eff_Inr emit_run)

lemma interface_written:
  assumes "can_open (file_name split name)" and "\<forall>m \<in> set ms. member_ok m"
  shows "invoke_for_model split can_open config (interface_element path name ms) raw fs
     = (Inr True, fs(file_name split name \<mapsto> file_text split config path name ms raw))"
proof -
  obtain ns i where ni: "parse_namespaces_and_interface split name = (ns, i)"
    by (cases "parse_namespaces_and_interface split name")
  let ?x = "\<lparr>interface_name = name\<rparr>" and ?s0 = "new_context raw fs\<lparr>node_path := path\<rparr>"
  let ?f = "i @ ''.h''" and ?o = "text_of_lines (opening_lines split config path name raw)"
  let ?s1 = "extend ?o (?s0\<lparr>protocol_file := \<lparr>open_on = Some ?f, failed = False\<rparr>,
     disk := fs(?f \<mapsto> []), stamps_made := 1, guards_made := 1, namespaces_count := length ns,
     interface_current := Some \<lparr>gi_name = i\<rparr>\<rparr>)"
  have f: "file_name split name = ?f" using ni by (simp add: file_name_def)
  have 1: "gen_visitor split can_open config (Element (P_interface ?x) cs) ?s0 = (Inr (), ?s1)" for cs
    using interface_visited [OF ni, of can_open ?s0 config] assms(1) f ni
    by (simp add: gen_visitor_def new_context_def opening_lines_def)
  have idle: "idle i ?s1" by (simp add: idle_def new_context_def)
  let ?ps = "sum_list (map properties_in ms)"
  let ?s2 = "extend (members_text i 0 0 ms) (counted (sum_list (map signals_in ms)) ?ps ?s1)"
  have "each_eff (visit_child split can_open config) (map member_element ms) ?s1 = (Inr (), ?s2)"
    using members_visit [OF idle assms(2)] by (simp add: new_context_def)
  moreover have "gen_post_visitor (Element (P_interface ?x) cs) ?s2
      = (Inr (), extend (text_of_lines (closing_lines split name ?ps)) ?s2)" for cs
    using ni by (simp add: gen_post_visitor_def post_interface_def emit_run closing_lines_def
        new_context_def del: sum_list_eq_0_iff)
  ultimately have 2: "visit_child split can_open config
      (Element (P_interface ?x) (map member_element ms)) ?s0
      = (Inr (), extend (text_of_lines (closing_lines split name ?ps)) ?s2)"
    using 1 by (intro visit_child_run)
  have "gen_visitor split can_open config (Element (P_node \<lparr>node_name = path\<rparr>) cs) (new_context raw fs)
      = (Inr (), ?s0)" for cs
    by (simp add: gen_visitor_def visit_node_def)
  then have "apply_element None (gen_visitor split can_open config) (Some gen_post_visitor)
      (interface_element path name ms) (new_context raw fs)
      = (Inr (), extend (text_of_lines (closing_lines split name ?ps)) ?s2)"
    using 2 by (simp add: interface_element_def then_eff_Inr return_eff_def del: extend_extend)
  then show ?thesis
    using ni by (simp add: invoke_for_model_def then_eff_Inr write_file_def return_eff_def f
        file_text_def extend_def counted_def new_context_def)
qed

end
