(* ===== verification/Generator_Properties.thy ===== *)
theory Generator_Properties
  imports Generator_Model
begin

text \<open>
  The properties of the generator: the header it writes for a document, its braces, the text of the
  file as a string literal, the name of an interface, and a second interface.
\<close>

section \<open>The name of an interface\<close>

text \<open>What the split iterator promises: the tokens are the pieces between the separators.\<close>

definition splits :: "(string \<Rightarrow> string \<Rightarrow> string list) \<Rightarrow> bool" where
  "splits split \<longleftrightarrow> (\<forall>sep s. split [sep] s \<noteq> [] \<and> intercalate [sep] (split [sep] s) = s
     \<and> (\<forall>t \<in> set (split [sep] s). sep \<notin> set t))"

fun split_at :: "char \<Rightarrow> string \<Rightarrow> string list" where
  "split_at c [] = [[]]"
| "split_at c (x # xs) =
     (if x = c then [] # split_at c xs
      else (case split_at c xs of [] \<Rightarrow> [[x]] | t # ts \<Rightarrow> (x # t) # ts))"

lemma split_at_nonempty: "split_at c s \<noteq> []"
  by (cases s) (auto split: list.split)

lemma intercalate_cons_head: "intercalate sep ((x # t) # ts) = x # intercalate sep (t # ts)"
  by (cases ts) simp_all

lemma intercalate_empty_head: "ts \<noteq> [] \<Longrightarrow> intercalate sep ([] # ts) = sep @ intercalate sep ts"
  by (cases ts) simp_all

lemma split_at_join: "intercalate [c] (split_at c s) = s"
proof (induction s)
  case (Cons x xs)
  obtain t ts where "split_at c xs = t # ts" using split_at_nonempty [of c xs] by (meson neq_Nil_conv)
  then show ?case using Cons by (simp add: intercalate_cons_head intercalate_empty_head del: intercalate.simps)
qed simp

lemma split_at_tokens: "t \<in> set (split_at c s) \<Longrightarrow> c \<notin> set t"
  by (induction s arbitrary: t) (fastforce split: if_splits list.splits)+

lemma splits_split_at: "splits (\<lambda>sep. split_at (hd sep))"
  using split_at_join split_at_nonempty split_at_tokens by (simp add: splits_def)

lemma namespaces_loop_last:
  "ts \<noteq> [] \<Longrightarrow> namespaces_loop ts = (butlast ts, last ts)"
  by (induction ts rule: namespaces_loop.induct) simp_all

text \<open>
  A D-Bus interface name is taken apart at its dots, and nothing is lost: joining the namespaces
  and the name of the struct with dots gives the name back, and none of them holds a dot.
\<close>

lemma namespaces_round_trip:
  assumes "splits split" and "parse_namespaces_and_interface split name = (ns, i)"
  shows "intercalate ''.'' (ns @ [i]) = name \<and> (\<forall>t \<in> set (ns @ [i]). CHR ''.'' \<notin> set t)"
proof -
  have s: "split ''.'' name \<noteq> []" "intercalate ''.'' (split ''.'' name) = name"
    "\<forall>t \<in> set (split ''.'' name). CHR ''.'' \<notin> set t"
    using assms(1) by (simp_all add: splits_def)
  have "ns @ [i] = split ''.'' name"
    using assms(2) s(1) by (auto simp: parse_namespaces_and_interface_def namespaces_loop_last)
  then show ?thesis using s by simp
qed

lemma namespaces_round_trip_witness:
  "parse_namespaces_and_interface (\<lambda>sep. split_at (hd sep)) ''org.freedesktop.DBus''
     = ([''org'', ''freedesktop''], ''DBus'')
   \<and> intercalate ''.'' ([''org'', ''freedesktop''] @ [''DBus'']) = ''org.freedesktop.DBus''"
proof -
  have "parse_namespaces_and_interface (\<lambda>sep. split_at (hd sep)) ''org.freedesktop.DBus''
     = ([''org'', ''freedesktop''], ''DBus'')"
    by (simp add: parse_namespaces_and_interface_def)
  then show ?thesis using namespaces_round_trip [OF splits_split_at] by blast
qed

section \<open>The text of the file as a string literal\<close>

text \<open>What a C++ compiler makes of the text between the quotes of a string literal: an escaped
  quote or backslash stands for itself; a quote on its own would end the literal and a line end is
  not allowed in it.\<close>

fun literal_value :: "string \<Rightarrow> string option" where
  "literal_value [] = Some []"
| "literal_value (c # cs) =
     (if c = CHR 0x5C then
        (case cs of
           [] \<Rightarrow> None
         | d # ds \<Rightarrow> if d = CHR 0x22 \<or> d = CHR 0x5C then map_option ((#) d) (literal_value ds) else None)
      else if c = CHR 0x22 \<or> c = CHR 0x0A then None
      else map_option ((#) c) (literal_value cs))"

text \<open>What the generator keeps of the file: no control characters, and no blanks outside of tags.\<close>

fun kept :: "bool \<Rightarrow> string \<Rightarrow> string" where
  "kept tag_open [] = []"
| "kept tag_open (c # cs) =
     (if c = CHR ''<'' then c # kept True cs
      else if c = CHR ''>'' then c # kept False cs
      else if iscntrl c \<or> (\<not> tag_open \<and> c = CHR '' '') then kept tag_open cs
      else c # kept tag_open cs)"

lemma not_control [simp]: "\<not> iscntrl CHR 0x22" "iscntrl CHR 0x0A"
  by (simp_all add: iscntrl_def)

lemma isspace_cases: "\<not> iscntrl c \<Longrightarrow> isspace c \<longleftrightarrow> c = CHR '' ''"
  by (auto simp: iscntrl_def isspace_def)

text \<open>
  C32. The text of the introspection file goes into the header as a string literal. If the file has no
  backslash, the literal is well formed, and its value is the file without control characters and
  without the blanks outside of tags.
\<close>

theorem raw_text_is_literal:
  assumes "CHR 0x5C \<notin> set raw"
  shows "literal_value (raw_text tag_open raw) = Some (kept tag_open raw)"
  using assms
proof (induction raw arbitrary: tag_open)
  case (Cons c cs)
  then show ?case
    using isspace_cases [of c] not_control by (cases "c = CHR 0x0A") (auto simp del: not_control)
qed simp

theorem raw_text_is_literal_witness:
  "raw_text False (''<a n='' @ [CHR 0x22, CHR ''s'', CHR 0x22] @ ''> x'')
     = ''<a n='' @ [CHR 0x5C, CHR 0x22, CHR ''s'', CHR 0x5C, CHR 0x22] @ ''>x''
   \<and> literal_value (raw_text False (''<a n='' @ [CHR 0x22, CHR ''s'', CHR 0x22] @ ''> x''))
     = Some (''<a n='' @ [CHR 0x22, CHR ''s'', CHR 0x22] @ ''>x'')"
  using raw_text_is_literal [of "''<a n='' @ [CHR 0x22, CHR ''s'', CHR 0x22] @ ''> x''" False]
  by (simp add: iscntrl_def isspace_def)

section \<open>Compiling a document\<close>

text \<open>The header for an interface without properties: the methods, then the signals in a struct of
  their own, and what closes the interface.\<close>

definition header_text ::
  "(string \<Rightarrow> string \<Rightarrow> string list) \<Rightarrow> generator_configuration \<Rightarrow> string \<Rightarrow> string
     \<Rightarrow> (string \<times> parameter list) list \<Rightarrow> (string \<times> parameter list) list \<Rightarrow> string \<Rightarrow> string" where
  "header_text split config path name methods signals raw =
     (let i = snd (parse_namespaces_and_interface split name) in
      text_of_lines (opening_lines split config path name raw)
        @ concat (map (\<lambda>(n, ps). member_text i (Method_decl n ps)) methods)
        @ (if signals = [] then []
           else text_of_lines [''struct Signals'', ''{'']
             @ concat (map (\<lambda>(n, ps). member_text i (Signal_decl n ps)) signals))
        @ text_of_lines (closing_lines split name 0))"

lemma members_text_methods:
  "members_text i k l (map (\<lambda>(n, ps). Method_decl n ps) methods @ ms)
     = concat (map (\<lambda>(n, ps). member_text i (Method_decl n ps)) methods) @ members_text i k l ms"
  by (induction methods) auto

lemma members_text_signals:
  "0 < k \<Longrightarrow> members_text i k l (map (\<lambda>(n, ps). Signal_decl n ps) signals @ ms)
     = concat (map (\<lambda>(n, ps). member_text i (Signal_decl n ps)) signals)
       @ members_text i (k + length signals) l ms"
  by (induction signals arbitrary: k) auto

lemma members_text_first_signal:
  "members_text i 0 l (map (\<lambda>(n, ps). Signal_decl n ps) signals @ ms)
     = (if signals = [] then []
        else text_of_lines [''struct Signals'', ''{'']
          @ concat (map (\<lambda>(n, ps). member_text i (Signal_decl n ps)) signals))
       @ members_text i (length signals) l ms"
  by (cases signals) (auto simp: members_text_signals)

lemma no_properties:
  "sum_list (map properties_in (map (\<lambda>(n, ps). Method_decl n ps) methods)) = 0"
  "sum_list (map properties_in (map (\<lambda>(n, ps). Signal_decl n ps) signals)) = 0"
  by (induction methods; auto) (induction signals; auto)

lemma file_text_methods_signals:
  "file_text split config path name
      (map (\<lambda>(n, ps). Method_decl n ps) methods @ map (\<lambda>(n, ps). Signal_decl n ps) signals) raw
     = header_text split config path name methods signals raw"
  using members_text_first_signal [where ms = "[]"] no_properties
  by (simp add: file_text_def header_text_def Let_def members_text_methods del: sum_list_eq_0_iff)

lemma document_compiled:
  assumes "open_xml (c_str fn) = Some (nodes, 0)" and "filter is_element_node nodes = render d"
    and "no_property d"
    and "build d = interface_element path name (map (\<lambda>(n, ps). Method_decl n ps) methods
       @ map (\<lambda>(n, ps). Signal_decl n ps) signals)"
    and "\<forall>(n, ps) \<in> set methods. printable (in_types ps) \<and> printable (out_types ps)"
    and "\<forall>(n, ps) \<in> set signals. printable (all_types ps)"
    and "fs (c_str fn) = Some raw" and "can_open (file_name split name)"
  shows "process_introspection_file open_xml split can_open config fn ctx fs
     = (Inr True, \<lparr>ctx_root = Some (build d), ctx_current = None\<rparr>,
        fs(file_name split name \<mapsto> header_text split config path name methods signals raw))"
proof -
  have "\<forall>m \<in> set (map (\<lambda>(n, ps). Method_decl n ps) methods @ map (\<lambda>(n, ps). Signal_decl n ps) signals).
      member_ok m"
    using assms(5,6) by auto
  then show ?thesis
    using parsed_document [where open_xml = open_xml, OF assms(1-3)] interface_written [where can_open = can_open, OF assms(8)] assms(4,7)
    by (simp add: process_introspection_file_def file_text_methods_signals)
qed

text \<open>
  C22. Compiling an introspection file. If the file is a document of one node with one interface that
  has methods and signals (in any order and notation), with argument types that a file can name and
  arrays only in last position, then the compiler reports success and writes one file, named after
  the last part of the interface's name. It holds, for each method, a struct with the C++ types of
  its input and output arguments, and the same for each signal within a struct \<open>Signals\<close>.
\<close>

theorem compiled_document:
  assumes "open_xml (c_str fn) = Some (nodes, 0)" and "filter is_element_node nodes = render d"
    and "no_property d"
    and "build d = interface_element path name (map (\<lambda>(n, ps). Method_decl n ps) methods
       @ map (\<lambda>(n, ps). Signal_decl n ps) signals)"
    and "\<forall>(n, ps) \<in> set methods. printable (in_types ps) \<and> printable (out_types ps)"
    and "\<forall>(n, ps) \<in> set signals. printable (all_types ps)"
    and "fs (c_str fn) = Some raw" and "can_open (file_name split name)"
  shows "process_introspection_file open_xml split can_open config fn ctx fs
     = (Inr True, \<lparr>ctx_root = Some (build d), ctx_current = None\<rparr>,
        fs(file_name split name \<mapsto> header_text split config path name methods signals raw))"
  by (rule document_compiled [where open_xml = open_xml and fs = fs and can_open = can_open, OF assms])

theorem compiled_document_witness:
  "process_introspection_file (\<lambda>f. Some (render sample_doc, 0)) (\<lambda>sep. split_at (hd sep)) (\<lambda>f. True)
       \<lparr>include_guard_generator = \<lambda>n. ''G'', build_time_stamp_generator = \<lambda>n. ''now''\<rparr> ''a.xml''
       \<lparr>ctx_root = None, ctx_current = None\<rparr>
       [''a.xml'' \<mapsto> ''<node/>'']
     = (Inr True, \<lparr>ctx_root = Some (build sample_doc), ctx_current = None\<rparr>,
        [''a.xml'' \<mapsto> ''<node/>'', ''Y.h'' \<mapsto>
           header_text (\<lambda>sep. split_at (hd sep))
             \<lparr>include_guard_generator = \<lambda>n. ''G'', build_time_stamp_generator = \<lambda>n. ''now''\<rparr>
             ''/a'' ''x.Y'' [(''M'', [(''a'', Dir_in, T_int32)])] [(''S'', [])] ''<node/>''])"
proof -
  have 1: "filter is_element_node (render sample_doc) = render sample_doc"
    by (simp add: sample_doc_def start_node_def end_node_def is_element_node_def)
  have 2: "build sample_doc = interface_element ''/a'' ''x.Y''
      (map (\<lambda>(n, ps). Method_decl n ps) [(''M'', [(''a'', Dir_in, T_int32)])]
        @ map (\<lambda>(n, ps). Signal_decl n ps) [(''S'', [])])"
    by (simp add: sample_doc_def interface_element_def member_element_def tm_basic_defs)
  have 3: "file_name (\<lambda>sep. split_at (hd sep)) ''x.Y'' = ''Y.h''"
    by (simp add: file_name_def parse_namespaces_and_interface_def)
  have 4: "no_property sample_doc" by (simp add: sample_doc_def)
  show ?thesis
    using compiled_document [of "\<lambda>f. Some (render sample_doc, 0)" "''a.xml''" "render sample_doc" sample_doc
        "''/a''" "''x.Y''" "[(''M'', [(''a'', Dir_in, T_int32)])]" "[(''S'', [])]"
        "[''a.xml'' \<mapsto> ''<node/>'']" "''<node/>''" "\<lambda>f. True" "\<lambda>sep. split_at (hd sep)"] 1 2 3 4
    by (simp add: printable_def types_defs arrays_last_def)
qed

section \<open>Braces\<close>

text \<open>The braces opened minus the braces closed.\<close>

definition braces :: "string \<Rightarrow> int" where
  "braces s = int (count_list s CHR ''{'') - int (count_list s CHR ''}'')"

lemma count_list_append: "count_list (xs @ ys) c = count_list xs c + count_list ys c"
  by (induction xs) simp_all

lemma braces_append [simp]: "braces (xs @ ys) = braces xs + braces ys"
  by (simp add: braces_def count_list_append)

lemma braces_Nil [simp]: "braces [] = 0"
  by (simp add: braces_def)

lemma braces_Cons:
  "braces (c # cs) = (if c = CHR ''{'' then 1 else if c = CHR ''}'' then - 1 else 0) + braces cs"
  by (simp add: braces_def)

lemma braces_lines: "braces (text_of_lines ls) = sum_list (map braces ls)"
  by (induction ls) (simp_all add: text_of_lines_def endl_def braces_Cons)

lemma braces_concat: "braces (concat ls) = sum_list (map braces ls)"
  by (induction ls) simp_all

lemma braces_raw_text: "braces (raw_text b s) = braces s"
  by (induction s arbitrary: b) (auto simp: braces_Cons iscntrl_def isspace_def)

lemma braces_type_name: "type_name a = Some n \<Longrightarrow> braces n = 0"
  by (cases a) (auto simp: braces_Cons)

lemma braces_intercalate: "braces (intercalate '','' ls) = sum_list (map braces ls)"
  by (induction "'',''::string" ls rule: intercalate.induct) (simp_all add: braces_Cons)

lemma sum_list_zero: "(\<And>x. x \<in> set xs \<Longrightarrow> f x = (0::int)) \<Longrightarrow> sum_list (map f xs) = 0"
  by (induction xs) simp_all

lemma sum_list_ones: "(\<And>x. x \<in> set xs \<Longrightarrow> f x = (1::nat)) \<Longrightarrow> sum_list (map f xs) = length xs"
  by (induction xs) simp_all

lemma braces_cpp_type: "braces (cpp_type t) = 0"
proof (induction t rule: cpp_type.induct)
  case (4 ts)
  have "sum_list (map (\<lambda>t. braces (cpp_type t)) ts) = 0" using 4 by (rule sum_list_zero)
  then show ?case by (simp add: braces_intercalate braces_Cons comp_def)
next
  case (3 t)
  show ?case
  proof (cases "\<exists>ts. t = T_tuple ts")
    case True
    then obtain ts where t: "t = T_tuple ts" by blast
    then show ?thesis using 3 by simp
  next
    case False
    then have "braces (cpp_type t) = 0" using 3 by (cases t) simp_all
    moreover have "cpp_type (T_struct t) = ''std::tuple<'' @ cpp_type t @ ''>''"
      using False by (cases t) simp_all
    ultimately show ?thesis by (simp add: braces_Cons)
  qed
qed (simp_all add: braces_Cons braces_type_name split: option.split)

lemma braces_cpp_arguments: "braces (cpp_arguments ts) = 0"
proof -
  have "sum_list (map (\<lambda>t. braces (cpp_type t)) ts) = 0"
    by (rule sum_list_zero) (simp add: braces_cpp_type)
  then show ?thesis
    by (simp add: cpp_arguments_def braces_Cons braces_intercalate braces_cpp_type comp_def)
qed

lemma braces_constants [simp]:
  "braces ''struct '' = 0" "braces ''};'' = - 1" "braces ''{'' = 1" "braces ''}'' = - 1"
  "braces ''typedef '' = 0" "braces '' '' = 0" "braces '';'' = 0" "braces ''Interface'' = 0"
  "braces ''ArgumentType'' = 0" "braces ''ResultType'' = 0" "braces timeout_function = 0"
  "braces ''struct Signals'' = 0" "braces ''struct Properties'' = 0" "braces ''#endif'' = 0"
  "braces ''namespace '' = 0"
  by (simp_all add: braces_Cons timeout_function_def)

lemma braces_functions [simp]:
  "braces (name_function n) = braces n" "braces (default_path_function n) = braces n"
  "braces (introspect_function n) = braces n" "braces (typedef_line t n) = braces t + braces n"
  by (simp_all add: braces_Cons name_function_def default_path_function_def introspect_function_def
      in_quotes_def typedef_line_def)

lemma braces_access: "sum_list (map braces (access_lines a)) = 0"
  by (cases a) (simp_all add: braces_Cons)

lemma braces_head_text: "braces (head_text i n) = 1 + braces i + 2 * braces n"
  by (simp add: head_text_def braces_lines braces_Cons)

fun declared_name :: "member \<Rightarrow> string" where
  "declared_name (Method_decl n ps) = n"
| "declared_name (Signal_decl n ps) = n"
| "declared_name (Property_decl n a t) = n"

lemma braces_member_text:
  "braces i = 0 \<Longrightarrow> braces (declared_name m) = 0 \<Longrightarrow> braces (member_text i m) = 0"
  by (cases m) (simp_all add: braces_head_text braces_lines braces_cpp_arguments braces_cpp_type braces_access)

fun is_method :: "member \<Rightarrow> bool" where
  "is_method (Method_decl n ps) = True"
| "is_method m = False"

text \<open>The members in the order of the model.\<close>

definition in_model_order :: "member list \<Rightarrow> bool" where
  "in_model_order ms \<longleftrightarrow> sorted (map (\<lambda>m. element_rank (member_payload m)) ms)"

lemma braces_properties:
  "\<lbrakk>braces i = 0; \<forall>m \<in> set ms. braces (declared_name m) = 0 \<and> properties_in m = 1\<rbrakk> \<Longrightarrow>
     braces (members_text i k l ms)
       = (if ms = [] then 0 else (if l = 0 then 1 else 0) - (if k = 0 then 0 else int (length ms)))"
proof (induction ms arbitrary: l)
  case (Cons m ms)
  then obtain n a t where "m = Property_decl n a t" by (cases m) auto
  then show ?case using Cons braces_member_text [OF Cons.prems(1), of m] by (auto simp: braces_lines)
qed simp

lemma braces_members:
  "\<lbrakk>braces i = 0; \<forall>m \<in> set ms. braces (declared_name m) = 0; in_model_order ms\<rbrakk> \<Longrightarrow>
     braces (members_text i k 0 ms)
       = (let s = sum_list (map signals_in ms); p = sum_list (map properties_in ms) in
          (if k = 0 \<and> s > 0 then 1 else 0) + (if p = 0 then 0 else 1)
            - (if k + s > 0 then int p else 0))"
proof (induction ms arbitrary: k)
  case (Cons m ms)
  have tail: "in_model_order ms" using Cons.prems(3) by (simp add: in_model_order_def)
  have b: "braces (member_text i m) = 0"
    using braces_member_text [OF Cons.prems(1)] Cons.prems(2) by simp
  show ?case
  proof (cases m)
    case (Property_decl n a t)
    have all: "\<forall>m' \<in> set (m # ms). properties_in m' = 1 \<and> signals_in m' = 0"
    proof
      fix m' assume "m' \<in> set (m # ms)"
      then have "4 \<le> element_rank (member_payload m')"
        using Cons.prems(3) Property_decl by (auto simp: in_model_order_def)
      then show "properties_in m' = 1 \<and> signals_in m' = 0" by (cases m') auto
    qed
    then have "sum_list (map signals_in (m # ms)) = 0" by (simp del: sum_list.Cons)
    moreover have "sum_list (map properties_in (m # ms)) = length (m # ms)"
      using sum_list_ones [of "m # ms" properties_in] all by blast
    ultimately show ?thesis
      using braces_properties [OF Cons.prems(1), of "m # ms" k 0] all Cons.prems(2)
      by (simp add: Let_def del: members_text.simps sum_list.Cons list.map sum_list_eq_0_iff)
  next
    case (Method_decl n ps)
    then show ?thesis
      using Cons.IH [OF Cons.prems(1) _ tail, of k] Cons.prems(2) b by (simp add: Let_def)
  next
    case (Signal_decl n ps)
    then show ?thesis
      using Cons.IH [OF Cons.prems(1) _ tail, of "k + 1"] Cons.prems(2) b
      by (auto simp: Let_def braces_lines)
  qed
qed (simp add: Let_def)

lemma sum_replicate: "sum_list (replicate n (- 1)) = - int n"
  by (induction n) simp_all

lemma braces_namespaces:
  "\<forall>ns \<in> set nss. braces ns = 0 \<Longrightarrow>
     sum_list (map braces (concat (map (\<lambda>ns. [''namespace '' @ ns, ''{'']) nss))) = int (length nss)"
  by (induction nss) (simp_all add: braces_Cons)

lemma braces_header_lines:
  "sum_list (map braces (header_lines stamp guard)) = braces stamp + 2 * braces guard"
  by (simp add: header_lines_def braces_Cons)

lemma some_signal:
  "(\<exists>m \<in> set ms. signals_in m = 1) \<longleftrightarrow> 0 < sum_list (map signals_in ms)"
proof (induction ms)
  case (Cons m ms)
  then show ?case by (cases m) simp_all
qed simp

text \<open>
  The braces of the header. For an interface with any methods, signals and properties, in the
  order of the model, with names that have no braces: the braces of the generated file balance if
  there is no signal, or exactly one property; with \<open>s > 0\<close> signals and \<open>p\<close> properties the file
  opens \<open>1 - p\<close> more than it closes. So with signals and no property the struct \<open>Signals\<close> is never
  closed, and with several properties it is closed once for each.
\<close>

lemma header_braces:
  assumes "can_open (file_name split name)" and "\<forall>m \<in> set ms. member_ok m" and "in_model_order ms"
    and "parse_namespaces_and_interface split name = (ns, i)"
    and "\<forall>n \<in> set ns. braces n = 0" and "braces i = 0" and "braces name = 0" and "braces path = 0"
    and "braces raw = 0" and "\<forall>m \<in> set ms. braces (declared_name m) = 0"
    and "braces (build_time_stamp_generator config 0) = 0" and "braces (include_guard_generator config 0) = 0"
  shows "\<exists>txt. invoke_for_model split can_open config (interface_element path name ms) raw fs
       = (Inr True, fs(file_name split name \<mapsto> txt))
     \<and> braces txt = (if \<exists>m \<in> set ms. signals_in m = 1
         then 1 - int (sum_list (map properties_in ms)) else 0)"
proof -
  have "braces (text_of_lines (opening_lines split config path name raw)) = int (length ns) + 1"
    using assms(4,6-9,11,12) braces_namespaces [OF assms(5)]
    by (simp add: opening_lines_def interface_lines_def braces_lines braces_header_lines
        braces_Cons braces_raw_text)
  moreover have "braces (text_of_lines (closing_lines split name p))
      = - int (length ns) - 1 - (if p = 0 then 0 else 1)" for p
    using assms(4) by (simp add: closing_lines_def braces_lines sum_replicate braces_Cons)
  moreover have "(\<exists>m \<in> set ms. signals_in m = 1) \<longleftrightarrow> 0 < sum_list (map signals_in ms)"
    by (rule some_signal)
  ultimately have "braces (file_text split config path name ms raw)
      = (if \<exists>m \<in> set ms. signals_in m = 1 then 1 - int (sum_list (map properties_in ms)) else 0)"
    using braces_members [OF assms(6,10,3), of 0] assms(4)
    by (simp add: file_text_def Let_def del: sum_list_eq_0_iff)
  then show ?thesis using interface_written [where can_open = can_open, OF assms(1,2)] by blast
qed

lemma header_braces_sample:
  "\<exists>txt. invoke_for_model (\<lambda>sep. split_at (hd sep)) (\<lambda>f. True)
       \<lparr>include_guard_generator = \<lambda>n. ''G'', build_time_stamp_generator = \<lambda>n. ''now''\<rparr>
       (interface_element ''/a'' ''x.Y'' [Signal_decl ''S'' []]) [] Map.empty
       = (Inr True, [''Y.h'' \<mapsto> txt])
     \<and> braces txt = 1"
proof -
  have "parse_namespaces_and_interface (\<lambda>sep. split_at (hd sep)) ''x.Y'' = ([''x''], ''Y'')"
    by (simp add: parse_namespaces_and_interface_def)
  then show ?thesis
    using header_braces [of "\<lambda>f. True" "\<lambda>sep. split_at (hd sep)" "''x.Y''" "[Signal_decl ''S'' []]"
        "[''x'']" "''Y''" "''/a''" "[]"
        "\<lparr>include_guard_generator = \<lambda>n. ''G'', build_time_stamp_generator = \<lambda>n. ''now''\<rparr>" Map.empty]
    by (simp add: printable_def types_defs arrays_last_def file_name_def in_model_order_def braces_Cons)
qed

section \<open>A second interface\<close>

definition quiet :: "gen_context \<Rightarrow> bool" where
  "quiet s \<longleftrightarrow> method_current s = None \<and> signal_current s = None \<and> property_current s = None"

definition opened :: "(string \<Rightarrow> bool) \<Rightarrow> string \<Rightarrow> gen_context \<Rightarrow> gen_context \<Rightarrow> bool" where
  "opened can_open f s s' \<longleftrightarrow>
     (if open_on (protocol_file s) = None \<and> can_open f
      then protocol_file s' = \<lparr>open_on = Some f, failed = False\<rparr> \<and> disk s' = (disk s)(f \<mapsto> [])
      else protocol_file s' = (protocol_file s)\<lparr>failed := True\<rparr> \<and> disk s' = disk s)"

abbreviation interface_child :: "string \<times> member list \<Rightarrow> element" where
  "interface_child d \<equiv>
     Element (P_interface \<lparr>interface_name = fst d\<rparr>) (map member_element (snd d))"

lemma interface_child_visit:
  assumes "quiet s" and "\<forall>m \<in> set (snd d). member_ok m"
  shows "\<exists>s'. visit_child split can_open config (interface_child d) s = (Inr (), s') \<and> quiet s'
     \<and> opened can_open (file_name split (fst d)) s s'"
proof -
  obtain ns i where ni: "parse_namespaces_and_interface split (fst d) = (ns, i)"
    by (cases "parse_namespaces_and_interface split (fst d)")
  obtain s1 where 1: "gen_visitor split can_open config (interface_child d) s = (Inr (), s1)"
    "idle i s1" "opened can_open (file_name split (fst d)) s s1"
    using assms(1) ni
    by (simp add: gen_visitor_def visit_interface_def open_trunc_def then_eff_Inr emit_run idle_def
        quiet_def opened_def file_name_def)
  define s2 where "s2 = extend (members_text i (signals_count s1) (properties_count s1) (snd d))
      (counted (sum_list (map signals_in (snd d))) (sum_list (map properties_in (snd d))) s1)"
  have 2: "each_eff (visit_child split can_open config) (map member_element (snd d)) s1 = (Inr (), s2)"
    unfolding s2_def by (rule members_visit [OF 1(2) assms(2)])
  obtain s3 where 3: "gen_post_visitor (interface_child d) s2 = (Inr (), s3)" "quiet s3"
    "protocol_file s3 = protocol_file s1" "disk s3 = disk s1"
    using 1(2) by (simp add: gen_post_visitor_def post_interface_def emit_run s2_def quiet_def idle_def
        counted_def)
  have "visit_child split can_open config (interface_child d) s = (Inr (), s3)"
    using 1(1) 2 3(1) by (rule visit_child_run)
  then show ?thesis using 1(3) 3 by (auto simp: opened_def)
qed

lemma later_interfaces_visit:
  assumes "quiet s" and "\<forall>d \<in> set ds. \<forall>m \<in> set (snd d). member_ok m"
    and "protocol_file s = \<lparr>open_on = Some f, failed = b\<rparr>"
  shows "\<exists>s'. each_eff (visit_child split can_open config) (map interface_child ds) s = (Inr (), s')
     \<and> protocol_file s' = \<lparr>open_on = Some f, failed = b \<or> ds \<noteq> []\<rparr> \<and> disk s' = disk s"
  using assms
proof (induction ds arbitrary: s b)
  case (Cons d ds)
  obtain s1 where 1: "visit_child split can_open config (interface_child d) s = (Inr (), s1)" "quiet s1"
    "opened can_open (file_name split (fst d)) s s1"
    using interface_child_visit [OF Cons.prems(1)] Cons.prems(2) by (meson list.set_intros(1))
  then have "protocol_file s1 = \<lparr>open_on = Some f, failed = True\<rparr>" "disk s1 = disk s"
    using Cons.prems(3) by (simp_all add: opened_def)
  then obtain s2 where "each_eff (visit_child split can_open config) (map interface_child ds) s1 = (Inr (), s2)"
    "protocol_file s2 = \<lparr>open_on = Some f, failed = True\<rparr>" "disk s2 = disk s"
    using Cons.IH [OF 1(2), of True] Cons.prems(2) by auto
  then show ?case using 1(1) by (simp add: then_eff_Inr)
qed (simp add: return_eff_def)

text \<open>
  A second interface loses everything. If a node has more than one interface, opening the file
  of the second one fails, because the stream is still open on the first file, and a stream that
  failed takes no text. The generator reports success; the first interface's file exists and is
  empty, and no other file is written.
\<close>

lemma second_interface_loses_text:
  assumes "can_open (file_name split (fst d1))"
    and "\<forall>d \<in> set (d1 # d2 # ds). \<forall>m \<in> set (snd d). member_ok m"
  shows "invoke_for_model split can_open config
       (Element (P_node n) (map interface_child (d1 # d2 # ds))) raw fs
     = (Inr True, fs(file_name split (fst d1) \<mapsto> []))"
proof -
  let ?s0 = "new_context raw fs\<lparr>node_path := node_name n\<rparr>" and ?f = "file_name split (fst d1)"
  have 0: "gen_visitor split can_open config (Element (P_node n) cs) (new_context raw fs) = (Inr (), ?s0)" for cs
    by (simp add: gen_visitor_def visit_node_def)
  have q: "quiet ?s0" by (simp add: quiet_def new_context_def)
  obtain s1 where 1: "visit_child split can_open config (interface_child d1) ?s0 = (Inr (), s1)" "quiet s1"
    "opened can_open ?f ?s0 s1"
    using interface_child_visit [OF q, of d1] assms(2) by (meson list.set_intros(1))
  then have f: "protocol_file s1 = \<lparr>open_on = Some ?f, failed = False\<rparr>" "disk s1 = fs(?f \<mapsto> [])"
    using assms(1) by (simp_all add: opened_def new_context_def)
  obtain s2 where 2: "each_eff (visit_child split can_open config) (map interface_child (d2 # ds)) s1 = (Inr (), s2)"
    "protocol_file s2 = \<lparr>open_on = Some ?f, failed = True\<rparr>" "disk s2 = fs(?f \<mapsto> [])"
    using later_interfaces_visit [OF 1(2) _ f(1), of "d2 # ds" split can_open config] assms(2) f(2) by auto
  have "each_eff (visit_child split can_open config) (map interface_child (d1 # d2 # ds)) ?s0 = (Inr (), s2)"
    using 1(1) 2(1) by (simp add: then_eff_Inr del: apply_element.simps)
  then have "apply_element None (gen_visitor split can_open config) (Some gen_post_visitor)
      (Element (P_node n) (map interface_child (d1 # d2 # ds))) (new_context raw fs) = (Inr (), s2)"
    unfolding apply_element.simps by (simp add: then_eff_Inr 0 del: apply_element.simps)
  then show ?thesis
    using 2(2,3) by (simp add: invoke_for_model_def then_eff_Inr write_file_def return_eff_def
        del: apply_element.simps)
qed

lemma second_interface_loses_text_witness:
  "invoke_for_model (\<lambda>sep. split_at (hd sep)) (\<lambda>f. True)
       \<lparr>include_guard_generator = \<lambda>n. ''G'', build_time_stamp_generator = \<lambda>n. ''now''\<rparr>
       (Element (P_node \<lparr>node_name = ''/a''\<rparr>)
          (map interface_child [(''x.Y'', [Method_decl ''M'' []]), (''x.Z'', [])])) [] Map.empty
     = (Inr True, [''Y.h'' \<mapsto> []])"
proof -
  have "file_name (\<lambda>sep. split_at (hd sep)) ''x.Y'' = ''Y.h''"
    by (simp add: file_name_def parse_namespaces_and_interface_def)
  then show ?thesis
    using second_interface_loses_text [of "\<lambda>f. True" "\<lambda>sep. split_at (hd sep)"
        "(''x.Y'', [Method_decl ''M'' []])" "(''x.Z'', [])" "[]"]
    by (simp add: printable_def types_defs arrays_last_def del: apply_element.simps)
qed

end
