(* ===== verification/State_Parts.thy ===== *)
theory State_Parts
  imports Dbus_Prelude
begin

text \<open>
  Two interfaces that the components share: a part of a state, which \<open>zoom\<close> runs a function on, and a
  mutex, which \<open>guarded\<close> locks for a scope. The objects, the bus, the connection and the routers are
  parts of the worlds around them; the routers, the cache, the pending calls and the signals have a
  mutex each.
\<close>

locale state_part =
  fixes get :: "'s \<Rightarrow> 't"
    and put :: "'t \<Rightarrow> 's \<Rightarrow> 's"
  assumes get_put: "get (put t s) = t"
    and put_get: "put (get s) s = s"
    and put_put: "put t (put u s) = put t s"
begin

lemma zoom_run: "e (get s) = (r, t) \<Longrightarrow> zoom get put e s = (r, put t s)"
  by (simp add: zoom_def)

lemma zoom_return: "zoom get put (return_eff x) = return_eff x"
  by (simp add: fun_eq_iff zoom_def return_eff_def put_get)

lemma zoom_throw: "zoom get put (throw_eff e) = throw_eff e"
  by (simp add: fun_eq_iff zoom_def throw_eff_def put_get)

lemma zoom_bind: "zoom get put (bind_eff e f) = bind_eff (zoom get put e) (\<lambda>x. zoom get put (f x))"
  by (simp add: fun_eq_iff zoom_def bind_eff_def get_put put_put split: prod.split sum.split)

lemma zoom_then: "zoom get put (then_eff e f) = then_eff (zoom get put e) (zoom get put f)"
  by (simp add: then_eff_def zoom_bind)

lemma zoom_catch: "zoom get put (catch_eff e h) = catch_eff (zoom get put e) (\<lambda>x. zoom get put (h x))"
  by (simp add: fun_eq_iff zoom_def catch_eff_def get_put put_put split: prod.split sum.split)

lemma zoom_each: "zoom get put (each_eff f xs) = each_eff (\<lambda>x. zoom get put (f x)) xs"
  by (induction xs) (simp_all add: zoom_return zoom_then)

end

locale mutex =
  fixes held :: "'s \<Rightarrow> bool"
    and set_held :: "bool \<Rightarrow> 's \<Rightarrow> 's"
  assumes held_set: "held (set_held b s) = b"
    and set_held_same: "set_held (held s) s = s"
    and set_set: "set_held b (set_held c s) = set_held b s"
begin

lemma free_again: "\<not> held s \<Longrightarrow> set_held False s = s"
  by (metis set_held_same)

lemma blocked: "held s \<Longrightarrow> guarded held set_held e s = (Inl Deadlock, s)"
  by (simp add: guarded_def)

lemma released: "\<not> held s \<Longrightarrow> \<not> held (snd (guarded held set_held e s))"
  by (simp add: guarded_def held_set split: prod.split)

lemma nested: "guarded held set_held (guarded held set_held e) s = (Inl Deadlock, s)"
  by (simp add: guarded_def held_set set_set free_again)

text \<open>A scope that does not look at its mutex runs like its body.\<close>

lemma transparent:
  assumes "\<not> held s" and "e (set_held True s) = (r, set_held True s')" and "\<not> held s'"
  shows "guarded held set_held e s = (r, s')"
  using assms by (simp add: guarded_def set_set free_again)

end

text \<open>The mutex of a part is a mutex of the whole.\<close>

locale locked_part = state_part get put + mutex held set_held
  for get :: "'s \<Rightarrow> 't" and put :: "'t \<Rightarrow> 's \<Rightarrow> 's" and held :: "'t \<Rightarrow> bool" and set_held :: "bool \<Rightarrow> 't \<Rightarrow> 't"

sublocale locked_part \<subseteq> whole: mutex "\<lambda>s. held (get s)" "\<lambda>b s. put (set_held b (get s)) s"
  by unfold_locales (simp_all add: get_put put_put put_get held_set set_held_same set_set)

context locked_part
begin

lemma zoom_guarded:
  "zoom get put (guarded held set_held e)
     = guarded (\<lambda>s. held (get s)) (\<lambda>b s. put (set_held b (get s)) s) (zoom get put e)"
  by (simp add: fun_eq_iff zoom_def guarded_def get_put put_put put_get split: prod.split)

end

end
