(* ===== verification/Registry.thy ===== *)
theory Registry
  imports State_Parts
begin

text \<open>
  The interface that the routers, the object tables and the signal tables share: a table from
  keys to values that is read by key, where adding replaces and deleting removes. What follows for
  a history of additions and deletions is proved once, for every table that meets the laws.
\<close>

datatype ('k, 'v) table_op = Add 'k 'v | Del 'k

text \<open>The value of a key after a history, given the value before.\<close>

fun after_ops :: "('k, 'v) table_op list \<Rightarrow> 'k \<Rightarrow> 'v option \<Rightarrow> 'v option" where
  "after_ops [] k v = v"
| "after_ops (Add k' x # ops) k v = after_ops ops k (if k = k' then Some x else v)"
| "after_ops (Del k' # ops) k v = after_ops ops k (if k = k' then None else v)"

fun mentions :: "'k \<Rightarrow> ('k, 'v) table_op \<Rightarrow> bool" where
  "mentions k (Add k' x) \<longleftrightarrow> k = k'"
| "mentions k (Del k') \<longleftrightarrow> k = k'"

lemma after_ops_other: "\<forall>p \<in> set ops. \<not> mentions k p \<Longrightarrow> after_ops ops k v = v"
  by (induction ops k v rule: after_ops.induct) simp_all

lemma after_ops_append: "after_ops (xs @ ys) k v = after_ops ys k (after_ops xs k v)"
  by (induction xs k v rule: after_ops.induct) simp_all

locale registry =
  fixes lookup :: "'s \<Rightarrow> 'k \<Rightarrow> 'v option"
    and add :: "'k \<Rightarrow> 'v \<Rightarrow> 's \<Rightarrow> 's"
    and del :: "'k \<Rightarrow> 's \<Rightarrow> 's"
  assumes lookup_add: "lookup (add k v s) k' = (if k' = k then Some v else lookup s k')"
    and lookup_del: "lookup (del k s) k' = (if k' = k then None else lookup s k')"
begin

lemma lookup_history:
  "lookup (fold (\<lambda>op. case op of Add k v \<Rightarrow> add k v | Del k \<Rightarrow> del k) ops s) k
     = after_ops ops k (lookup s k)"
  by (induction ops arbitrary: s) (auto simp: lookup_add lookup_del split: table_op.split)

lemma lookup_last_added:
  assumes "\<forall>p \<in> set ops. \<not> mentions k p"
  shows "lookup (fold (\<lambda>op. case op of Add k v \<Rightarrow> add k v | Del k \<Rightarrow> del k) ops (add k v s)) k = Some v"
  by (simp add: lookup_history lookup_add after_ops_other [OF assms])

lemma lookup_last_deleted:
  assumes "\<forall>p \<in> set ops. \<not> mentions k p"
  shows "lookup (fold (\<lambda>op. case op of Add k v \<Rightarrow> add k v | Del k \<Rightarrow> del k) ops (del k s)) k = None"
  by (simp add: lookup_history lookup_del after_ops_other [OF assms])

end

end
