(* ===== verification/Message_Router.thy ===== *)
theory Message_Router
  imports Registry Dbus_Types
begin

text \<open>
  \<open>MessageRouter<Key>\<close>: include/core/dbus/message\_router.h. The table is a map from keys to
  handlers, next to the mutex. Handlers are values of a type \<open>'h\<close> with an interpretation \<open>run\<close>
  that says what calling one does to a state \<open>'s\<close> of which the router is a part: a handler may use
  the router that called it.
\<close>

record ('k, 'h) router =
  router_guard :: bool
  router_table :: "'k \<Rightarrow> 'h option"

definition new_router :: "('k, 'h) router" where
  "new_router = \<lparr>router_guard = False, router_table = (\<lambda>k. None)\<rparr>"

definition put_route :: "'k \<Rightarrow> 'h \<Rightarrow> ('k, 'h) router \<Rightarrow> ('k, 'h) router" where
  "put_route key handler r = r\<lparr>router_table := (router_table r)(key \<mapsto> handler)\<rparr>"

definition erase_route :: "'k \<Rightarrow> ('k, 'h) router \<Rightarrow> ('k, 'h) router" where
  "erase_route key r = r\<lparr>router_table := (router_table r)(key := None)\<rparr>"

interpretation routes: registry router_table put_route erase_route
  by unfold_locales (simp_all add: put_route_def erase_route_def)

interpretation router_lock: mutex router_guard "\<lambda>b r. r\<lparr>router_guard := b\<rparr>"
  by unfold_locales simp_all

definition with_router :: "(('k, 'h) router, 'a) eff \<Rightarrow> (('k, 'h) router, 'a) eff" where
  "with_router e = guarded router_guard (\<lambda>b r. r\<lparr>router_guard := b\<rparr>) e"

definition install_route :: "'k \<Rightarrow> 'h \<Rightarrow> (('k, 'h) router, unit) eff" where
  "install_route key handler = with_router (\<lambda>r. (Inr (), put_route key handler r))"

definition uninstall_route :: "'k \<Rightarrow> (('k, 'h) router, unit) eff" where
  "uninstall_route key = with_router (\<lambda>r. (Inr (), erase_route key r))"

text \<open>The part of \<open>operator()\<close> that runs under the lock: \<open>mapper\<close> may throw.\<close>

definition find_route :: "('m \<Rightarrow> exn + 'k) \<Rightarrow> 'm \<Rightarrow> (('k, 'h) router, 'h option) eff" where
  "find_route mapper msg = with_router
     (bind_eff (lift_res (mapper msg)) (\<lambda>key r. (Inr (router_table r key), r)))"

text \<open>\<open>operator()\<close>: the handler is called after the lock has been released.\<close>

definition route_message ::
  "('s \<Rightarrow> ('k, 'h) router) \<Rightarrow> (('k, 'h) router \<Rightarrow> 's \<Rightarrow> 's) \<Rightarrow> ('m \<Rightarrow> exn + 'k)
     \<Rightarrow> ('h \<Rightarrow> 'm \<Rightarrow> ('s, unit) eff) \<Rightarrow> 'm \<Rightarrow> ('s, bool) eff" where
  "route_message get put mapper run msg =
     bind_eff (zoom get put (find_route mapper msg)) (\<lambda>found.
       case found of
         None \<Rightarrow> return_eff False
       | Some handler \<Rightarrow> then_eff (run handler msg) (return_eff True))"

abbreviation route_own ::
  "('m \<Rightarrow> exn + 'k) \<Rightarrow> ('h \<Rightarrow> 'm \<Rightarrow> (('k, 'h) router, unit) eff) \<Rightarrow> 'm
     \<Rightarrow> (('k, 'h) router, bool) eff" where
  "route_own \<equiv> route_message (\<lambda>r. r) (\<lambda>r s. r)"

section \<open>Running the operations\<close>

lemma install_route_run [eff_simps]:
  "\<not> router_guard r \<Longrightarrow> install_route k h r = (Inr (), put_route k h r)"
  unfolding install_route_def with_router_def
  by (rule router_lock.transparent) (simp_all add: put_route_def)

lemma uninstall_route_run [eff_simps]:
  "\<not> router_guard r \<Longrightarrow> uninstall_route k r = (Inr (), erase_route k r)"
  unfolding uninstall_route_def with_router_def
  by (rule router_lock.transparent) (simp_all add: erase_route_def)

lemma find_route_run [eff_simps]:
  "\<not> router_guard r \<Longrightarrow> find_route mapper msg r =
     (case mapper msg of Inl e \<Rightarrow> (Inl e, r) | Inr k \<Rightarrow> (Inr (router_table r k), r))"
  by (simp add: find_route_def with_router_def guarded_def bind_eff_def lift_res_def
      split: sum.split)

lemma route_message_run:
  assumes "\<not> router_guard (get s)" and "put (get s) s = s"
  shows "route_message get put mapper run msg s =
     (case mapper msg of
        Inl e \<Rightarrow> (Inl e, s)
      | Inr k \<Rightarrow> (case router_table (get s) k of
                   None \<Rightarrow> (Inr False, s)
                 | Some h \<Rightarrow> then_eff (run h msg) (return_eff True) s))"
  using assms
  by (simp add: route_message_def bind_eff_def zoom_def find_route_run return_eff_def
      split: sum.split option.split)

lemma guard_put [simp]: "router_guard (put_route k h r) = router_guard r"
  by (simp add: put_route_def)

lemma guard_erase [simp]: "router_guard (erase_route k r) = router_guard r"
  by (simp add: erase_route_def)

section \<open>Routing\<close>

fun table_step :: "('k, 'h) table_op \<Rightarrow> (('k, 'h) router, unit) eff" where
  "table_step (Add k h) = install_route k h"
| "table_step (Del k) = uninstall_route k"

lemma table_steps_run:
  "\<not> router_guard r \<Longrightarrow> each_eff table_step ops r =
     (Inr (), fold (\<lambda>op. case op of Add k h \<Rightarrow> put_route k h | Del k \<Rightarrow> erase_route k) ops r)"
proof (induction ops arbitrary: r)
  case (Cons p ops)
  then show ?case
    by (cases p) (simp_all add: then_eff_def bind_eff_def eff_simps)
qed (simp add: return_eff_def)

lemma guard_fold:
  "router_guard (fold (\<lambda>op. case op of Add k h \<Rightarrow> put_route k h | Del k \<Rightarrow> erase_route k) ops r)
     = router_guard r"
  by (induction ops arbitrary: r) (auto split: table_op.split)

text \<open>
  C6. A message is delivered to the handler that was installed last for its key. After any
  history of installing and uninstalling routes that returned, a message whose key was last
  installed with \<open>h\<close> is given to \<open>h\<close> and to no other handler, and the router answers that it
  was routed; a message whose key was never installed, or was uninstalled last, reaches no handler
  and the router answers false. A mapper that throws leaves the router usable.
\<close>

theorem router_delivers_to_last:
  assumes "\<not> router_guard r"
  shows "\<exists>r'. each_eff table_step ops r = (Inr (), r') \<and> \<not> router_guard r'
     \<and> route_own mapper run msg r' =
         (case mapper msg of
            Inl e \<Rightarrow> (Inl e, r')
          | Inr k \<Rightarrow> (case after_ops ops k (router_table r k) of
                       None \<Rightarrow> (Inr False, r')
                     | Some h \<Rightarrow> then_eff (run h msg) (return_eff True) r'))"
  using assms
  by (simp add: table_steps_run guard_fold route_message_run routes.lookup_history split: sum.split)

definition sample_mapper :: "nat \<Rightarrow> exn + nat" where
  "sample_mapper m = Inr (m mod 10)"

theorem router_delivers_to_last_witness:
  "\<exists>r'. each_eff table_step [Add 1 ''a'', Add 2 ''b'', Add 1 ''c'', Del 2]
          (new_router :: (nat, string) router) = (Inr (), r')
     \<and> route_own sample_mapper (\<lambda>h m. if h = ''c'' then return_eff () else throw_eff No_memory) 11 r'
         = (Inr True, r')"
  using router_delivers_to_last [of new_router "[Add 1 ''a'', Add 2 ''b'', Add 1 ''c'', Del 2]"
      sample_mapper "\<lambda>h m. if h = ''c'' then return_eff () else throw_eff No_memory" 11]
  by (auto simp: new_router_def sample_mapper_def then_eff_def return_eff_def)

section \<open>Handlers that use their own router\<close>

text \<open>What a handler may do with the router that called it, and running it, with the depth of
  nested calls and steps bounded by \<open>n\<close>.\<close>

datatype ('k, 'h, 'm) action = Install 'k 'h | Uninstall 'k | Dispatch 'm | Raise string

fun run_actions ::
  "('m \<Rightarrow> exn + 'k) \<Rightarrow> ('h \<Rightarrow> 'm \<Rightarrow> ('k, 'h, 'm) action list) \<Rightarrow> nat
     \<Rightarrow> ('k, 'h, 'm) action list \<Rightarrow> (('k, 'h) router, unit) eff" where
  "run_actions mapper code 0 as = throw_eff Diverges"
| "run_actions mapper code (Suc n) [] = return_eff ()"
| "run_actions mapper code (Suc n) (a # as) =
     then_eff
       (case a of
          Install k h \<Rightarrow> install_route k h
        | Uninstall k \<Rightarrow> uninstall_route k
        | Dispatch msg \<Rightarrow> then_eff
            (route_own mapper (\<lambda>h m. run_actions mapper code n (code h m)) msg) (return_eff ())
        | Raise e \<Rightarrow> throw_eff (Runtime_error e))
       (run_actions mapper code n as)"

definition keeps_free :: "(('k, 'h) router, 'a) eff \<Rightarrow> bool" where
  "keeps_free e \<longleftrightarrow>
     (\<forall>r. \<not> router_guard r \<longrightarrow> fst (e r) \<noteq> Inl Deadlock \<and> \<not> router_guard (snd (e r)))"

lemma keeps_free_then: "keeps_free e \<Longrightarrow> keeps_free f \<Longrightarrow> keeps_free (then_eff e f)"
  by (fastforce simp: keeps_free_def then_eff_def bind_eff_def split: prod.split sum.split)

lemma keeps_free_basic:
  "keeps_free (return_eff x)" "e \<noteq> Deadlock \<Longrightarrow> keeps_free (throw_eff e)"
  "keeps_free (install_route k h)" "keeps_free (uninstall_route k)"
  by (simp_all add: keeps_free_def return_eff_def throw_eff_def eff_simps)

lemma keeps_free_route:
  assumes "\<And>h m. keeps_free (run h m)" and "\<And>m. mapper m \<noteq> Inl Deadlock"
  shows "keeps_free (route_own mapper run msg)"
proof -
  have "keeps_free (then_eff (run h msg) (return_eff True))" for h
    by (intro keeps_free_then assms(1) keeps_free_basic)
  then show ?thesis
    using assms(2) by (auto simp: keeps_free_def route_message_run split: sum.split option.split)
qed

lemma keeps_free_actions:
  assumes "\<And>m. mapper m \<noteq> Inl Deadlock"
  shows "keeps_free (run_actions mapper code n as)"
proof (induction n arbitrary: as)
  case 0
  then show ?case by (simp add: keeps_free_basic)
next
  case (Suc n)
  have "keeps_free (route_own mapper (\<lambda>h m. run_actions mapper code n (code h m)) msg)" for msg
    by (rule keeps_free_route [OF Suc assms])
  then have "keeps_free (case a of
          Install k h \<Rightarrow> install_route k h
        | Uninstall k \<Rightarrow> uninstall_route k
        | Dispatch msg \<Rightarrow> then_eff
            (route_own mapper (\<lambda>h m. run_actions mapper code n (code h m)) msg) (return_eff ())
        | Raise e \<Rightarrow> throw_eff (Runtime_error e))" for a
    by (cases a) (simp_all add: keeps_free_basic keeps_free_then)
  then show ?case
    by (cases as) (simp_all add: keeps_free_basic keeps_free_then Suc)
qed

text \<open>
  C25. Handlers may change the router they are called from. Whatever a handler does with its
  own router, to any depth (install and uninstall routes, its own included, dispatch further
  messages, throw), no operation runs into the lock, and the lock is free afterwards, even
  when a handler or the mapper threw.
\<close>

theorem router_handlers_reenter:
  assumes "\<not> router_guard r" and "\<And>m. mapper m \<noteq> Inl Deadlock"
  shows "fst (route_own mapper (\<lambda>h m. run_actions mapper code n (code h m)) msg r) \<noteq> Inl Deadlock
     \<and> \<not> router_guard (snd (route_own mapper (\<lambda>h m. run_actions mapper code n (code h m)) msg r))"
proof -
  have "keeps_free (route_own mapper (\<lambda>h m. run_actions mapper code n (code h m)) msg)"
    by (intro keeps_free_route keeps_free_actions assms(2))
  then show ?thesis using assms(1) by (simp add: keeps_free_def)
qed

theorem router_handlers_reenter_witness:
  "fst (route_own sample_mapper
      (\<lambda>h m. run_actions sample_mapper (\<lambda>h m. [Install 3 ''x'', Uninstall 1, Raise ''e'']) 5
          [Install 3 ''x'', Uninstall 1, Raise ''e'']) 1 (put_route 1 ''h'' new_router))
    \<noteq> Inl Deadlock"
  using router_handlers_reenter [of "put_route 1 ''h'' new_router" sample_mapper
      "\<lambda>h m. [Install 3 ''x'', Uninstall 1, Raise ''e'']" 5 1]
  by (simp add: new_router_def sample_mapper_def)

end
