(* ===== verification/Pending_Call.thy ===== *)
theory Pending_Call
  imports Message State_Parts
begin

text \<open>
  \<open>impl::PendingCall\<close>: src/core/dbus/pending\_call\_impl.h, the reply to a method call that has
  not arrived yet. The object is a record; \<open>pc_raw\<close> stands for the \<open>DBusPendingCall\<close>, on which the
  functions of libdbus in the record \<open>pending_lib\<close> work; \<open>call_arrive\<close> is what libdbus does to it when
  the reply comes in (also the error it makes up when the time is over). Continuations are values of a type \<open>'c\<close>
  with an interpretation \<open>run\<close>; \<open>pc_log\<close> is a history variable, the calls of continuations so far.

  The mutex is modelled, so code that runs under it and locks it again is \<open>Deadlock\<close>.
\<close>

record ('p, 'm) pending_lib =
  call_completed :: "'p \<Rightarrow> bool"
  call_steal_reply :: "'p \<Rightarrow> 'm option \<times> 'p"
  call_set_notify :: "'p \<Rightarrow> bool \<times> 'p"
  call_cancel :: "'p \<Rightarrow> 'p"
  call_arrive :: "'m \<Rightarrow> 'p \<Rightarrow> 'p"

datatype pc_state = Pc_pending | Pc_completed

record ('p, 'm, 'c) pending_call =
  pc_guard :: bool
  pc_state :: pc_state
  pc_raw :: 'p
  pc_message :: "'m option"
  pc_callback :: "'c option"
  pc_log :: "('c \<times> 'm) list"

text \<open>The raw pointer may be null.\<close>

definition is_pending_call_completed :: "('p, 'm) pending_lib \<Rightarrow> 'p option \<Rightarrow> bool" where
  "is_pending_call_completed P call =
     (case call of None \<Rightarrow> False | Some p \<Rightarrow> call_completed P p)"

definition invoke_callback ::
  "('c \<Rightarrow> 'm \<Rightarrow> (('p, 'm, 'c) pending_call, unit) eff) \<Rightarrow> 'c \<Rightarrow> 'm
     \<Rightarrow> (('p, 'm, 'c) pending_call, unit) eff" where
  "invoke_callback run c m s = run c m (s\<lparr>pc_log := pc_log s @ [(c, m)]\<rparr>)"

text \<open>\<open>state.exchange(completed)\<close> stores and yields the old value.\<close>

definition notify_locked ::
  "('c \<Rightarrow> 'm \<Rightarrow> (('p, 'm, 'c) pending_call, unit) eff) \<Rightarrow> 'm
     \<Rightarrow> (('p, 'm, 'c) pending_call, unit) eff" where
  "notify_locked run msg s =
     (let old = pc_state s; s = s\<lparr>pc_state := Pc_completed\<rparr> in
      if old = Pc_completed then (Inr (), s)
      else let s = s\<lparr>pc_message := Some msg\<rparr> in
           case pc_callback s of None \<Rightarrow> (Inr (), s) | Some c \<Rightarrow> invoke_callback run c msg s)"

interpretation call_lock: mutex pc_guard "\<lambda>b s. s\<lparr>pc_guard := b\<rparr>"
  by unfold_locales simp_all

definition with_pending_call ::
  "(('p, 'm, 'c) pending_call, 'a) eff \<Rightarrow> (('p, 'm, 'c) pending_call, 'a) eff" where
  "with_pending_call e = guarded pc_guard (\<lambda>b s. s\<lparr>pc_guard := b\<rparr>) e"

text \<open>Stealing the reply, and announcing it when there is one.\<close>

definition steal_and_notify ::
  "('p, 'm) pending_lib \<Rightarrow> ('c \<Rightarrow> 'm \<Rightarrow> (('p, 'm, 'c) pending_call, unit) eff)
     \<Rightarrow> (('p, 'm, 'c) pending_call, unit) eff" where
  "steal_and_notify P run s =
     (if is_pending_call_completed P (Some (pc_raw s))
      then (case call_steal_reply P (pc_raw s) of (reply, p') \<Rightarrow>
              let s = s\<lparr>pc_raw := p'\<rparr> in
              case reply of
                None \<Rightarrow> (Inr (), s)
              | Some m \<Rightarrow> bind_eff (lift_res (from_raw_message (Some m))) (notify_locked run) s)
      else (Inr (), s))"

text \<open>The callback that libdbus calls; the cookie is the wrapper, which may be null.\<close>

definition on_pending_call_completed ::
  "('p, 'm) pending_lib \<Rightarrow> ('c \<Rightarrow> 'm \<Rightarrow> (('p, 'm, 'c) pending_call, unit) eff) \<Rightarrow> bool
     \<Rightarrow> (('p, 'm, 'c) pending_call, unit) eff" where
  "on_pending_call_completed P run cookie =
     (if \<not> cookie then return_eff () else with_pending_call (steal_and_notify P run))"

definition construct_pending_call :: "'p option \<Rightarrow> exn + ('p, 'm, 'c) pending_call" where
  "construct_pending_call call =
     (case call of
        None \<Rightarrow> Inl (Runtime_error ''core::dbus::PendingCall cannot be constructed for null object.'')
      | Some p \<Rightarrow> Inr \<lparr>pc_guard = False, pc_state = Pc_pending, pc_raw = p, pc_message = None,
                       pc_callback = None, pc_log = []\<rparr>)"

definition create_locked ::
  "('p, 'm) pending_lib \<Rightarrow> ('c \<Rightarrow> 'm \<Rightarrow> (('p, 'm, 'c) pending_call, unit) eff)
     \<Rightarrow> (('p, 'm, 'c) pending_call, unit) eff" where
  "create_locked P run s =
     (case call_set_notify P (pc_raw s) of (success, p') \<Rightarrow>
        let s = s\<lparr>pc_raw := p'\<rparr> in
        if \<not> success
        then (Inl (Runtime_error ''Error setting up pending call notification.''), s)
        else steal_and_notify P run s)"

definition create_pending_call ::
  "('p, 'm) pending_lib \<Rightarrow> ('c \<Rightarrow> 'm \<Rightarrow> (('p, 'm, 'c) pending_call, unit) eff) \<Rightarrow> 'p option
     \<Rightarrow> exn + ('p, 'm, 'c) pending_call" where
  "create_pending_call P run call =
     (case construct_pending_call call of
        Inl e \<Rightarrow> Inl e
      | Inr s \<Rightarrow> (case with_pending_call (create_locked P run) s of
                   (Inl e, s') \<Rightarrow> Inl e
                 | (Inr _, s') \<Rightarrow> Inr s'))"

definition cancel ::
  "('p, 'm) pending_lib \<Rightarrow> (('p, 'm, 'c) pending_call, unit) eff" where
  "cancel P s = (Inr (), s\<lparr>pc_raw := call_cancel P (pc_raw s)\<rparr>)"

text \<open>\<open>then(notification)\<close>.\<close>

definition then_call ::
  "('c \<Rightarrow> 'm \<Rightarrow> (('p, 'm, 'c) pending_call, unit) eff) \<Rightarrow> 'c
     \<Rightarrow> (('p, 'm, 'c) pending_call, unit) eff" where
  "then_call run notification = with_pending_call (\<lambda>s.
     let s = s\<lparr>pc_callback := Some notification\<rparr> in
     case pc_message s of
       None \<Rightarrow> (Inr (), s)
     | Some m \<Rightarrow> invoke_callback run notification m s)"

section \<open>Histories\<close>

text \<open>
  What can happen to a call, in any order: a continuation is installed, libdbus calls the callback
  (once, never or several times), the call is cancelled, the reply arrives, and the raw call changes
  by itself.
\<close>

datatype ('p, 'm, 'c) call_event = Then 'c | Notify bool | Cancel | Arrive 'm | Progress "'p \<Rightarrow> 'p"

fun call_step ::
  "('p, 'm) pending_lib \<Rightarrow> ('c \<Rightarrow> 'm \<Rightarrow> (('p, 'm, 'c) pending_call, unit) eff)
     \<Rightarrow> ('p, 'm, 'c) call_event \<Rightarrow> (('p, 'm, 'c) pending_call, unit) eff" where
  "call_step P run (Then c) = then_call run c"
| "call_step P run (Notify cookie) = on_pending_call_completed P run cookie"
| "call_step P run Cancel = cancel P"
| "call_step P run (Arrive m) = (\<lambda>s. (Inr (), s\<lparr>pc_raw := call_arrive P m (pc_raw s)\<rparr>))"
| "call_step P run (Progress f) = (\<lambda>s. (Inr (), s\<lparr>pc_raw := f (pc_raw s)\<rparr>))"

fun installed :: "('p, 'm, 'c) call_event list \<Rightarrow> 'c list" where
  "installed [] = []"
| "installed (Then c # es) = c # installed es"
| "installed (e # es) = installed es"

lemma installed_append: "installed (es @ fs) = installed es @ installed fs"
  by (induction es rule: installed.induct) simp_all

text \<open>Continuations that do their work elsewhere: for every reply that libdbus can hand out they return
  and leave this call alone.\<close>

definition handed_out :: "('p, 'm) pending_lib \<Rightarrow> 'm \<Rightarrow> bool" where
  "handed_out P m \<longleftrightarrow> (\<exists>p p'. call_steal_reply P p = (Some m, p'))"

definition elsewhere ::
  "('p, 'm) pending_lib \<Rightarrow> ('c \<Rightarrow> 'm \<Rightarrow> (('p, 'm, 'c) pending_call, unit) eff) \<Rightarrow> bool" where
  "elsewhere P run \<longleftrightarrow> (\<forall>c m s. handed_out P m \<longrightarrow> run c m s = (Inr (), s))"

text \<open>
  The invariant: \<open>cs\<close> are the continuations installed so far. Before the reply none was called.
  Afterwards, the last one installed before the reply (if any) and every one installed since have
  been called, once each, in this order, and all with the same reply.
\<close>

definition call_inv :: "('p, 'm) pending_lib \<Rightarrow> 'c list \<Rightarrow> ('p, 'm, 'c) pending_call \<Rightarrow> bool" where
  "call_inv P cs s \<longleftrightarrow>
     \<not> pc_guard s
     \<and> pc_callback s = (if cs = [] then None else Some (last cs))
     \<and> (case pc_message s of
          None \<Rightarrow> pc_state s = Pc_pending \<and> pc_log s = []
        | Some m \<Rightarrow> pc_state s = Pc_completed \<and> handed_out P m
            \<and> (\<exists>k \<le> length cs. pc_log s = map (\<lambda>c. (c, m)) (drop (k - 1) cs)))"

lemma steal_and_notify_inv:
  assumes "elsewhere P run" and "call_inv P cs s"
  obtains s' where "with_pending_call (steal_and_notify P run) s = (Inr (), s')"
    and "call_inv P cs s'"
    and "pc_message s \<noteq> None \<longrightarrow> pc_message s' = pc_message s \<and> pc_log s' = pc_log s"
proof -
  have g: "\<not> pc_guard s" using assms(2) by (simp add: call_inv_def)
  let ?r = "with_pending_call (steal_and_notify P run) s"
  have "fst ?r = Inr () \<and> call_inv P cs (snd ?r)
     \<and> (pc_message s \<noteq> None \<longrightarrow> pc_message (snd ?r) = pc_message s \<and> pc_log (snd ?r) = pc_log s)"
  proof (cases "call_completed P (pc_raw s)")
    case False
    then show ?thesis using assms(2) g
      by (simp add: with_pending_call_def guarded_def steal_and_notify_def
          is_pending_call_completed_def call_inv_def split: option.splits)
  next
    case True
    obtain reply p' where r: "call_steal_reply P (pc_raw s) = (reply, p')" by fastforce
    show ?thesis
    proof (cases "reply = None \<or> pc_message s \<noteq> None")
      case True
      then show ?thesis using assms(2) g \<open>call_completed P (pc_raw s)\<close> r
        by (auto simp: with_pending_call_def guarded_def steal_and_notify_def bind_eff_def
            is_pending_call_completed_def call_inv_def lift_res_def from_raw_message_def
            construct_message_def notify_locked_def Let_def split: option.splits)
    next
      case False
      then obtain m where "reply = Some m" by auto
      moreover from this have "handed_out P m" using r by (auto simp: handed_out_def)
      ultimately show ?thesis using assms g \<open>call_completed P (pc_raw s)\<close> r False
        by (cases cs rule: rev_cases)
          (auto simp: with_pending_call_def guarded_def steal_and_notify_def bind_eff_def
            is_pending_call_completed_def call_inv_def lift_res_def from_raw_message_def
            construct_message_def notify_locked_def Let_def invoke_callback_def elsewhere_def
            intro!: exI [of _ "length cs"])
    qed
  qed
  then show thesis using that [of "snd ?r"] by (cases ?r) auto
qed

lemma then_call_inv:
  assumes "elsewhere P run" and "call_inv P cs s"
  obtains s' where "then_call run c s = (Inr (), s')" and "call_inv P (cs @ [c]) s'"
    and "pc_message s' = pc_message s"
proof -
  have "fst (then_call run c s) = Inr () \<and> call_inv P (cs @ [c]) (snd (then_call run c s))
      \<and> pc_message (snd (then_call run c s)) = pc_message s"
  proof (cases "pc_message s")
    case None
    then show ?thesis using assms
      by (simp add: then_call_def with_pending_call_def guarded_def call_inv_def)
  next
    case (Some m)
    then obtain j where "handed_out P m" and j: "j \<le> length cs" "pc_log s = map (\<lambda>c. (c, m)) (drop (j - 1) cs)"
      using assms(2) by (auto simp: call_inv_def)
    then have "j \<le> length (cs @ [c]) \<and>
        pc_log s @ [(c, m)] = map (\<lambda>c. (c, m)) (drop (j - 1) (cs @ [c]))"
      by simp
    then have "\<exists>j \<le> length (cs @ [c]).
        pc_log s @ [(c, m)] = map (\<lambda>c. (c, m)) (drop (j - 1) (cs @ [c]))"
      by blast
    then show ?thesis using assms Some
      by (simp add: then_call_def with_pending_call_def guarded_def call_inv_def
          invoke_callback_def elsewhere_def)
  qed
  then show thesis using that [of "snd (then_call run c s)"] by (cases "then_call run c s") auto
qed

lemma call_step_inv:
  assumes "elsewhere P run" and "call_inv P cs s"
  obtains s' where "call_step P run e s = (Inr (), s')" and "call_inv P (cs @ installed [e]) s'"
    and "pc_message s \<noteq> None \<longrightarrow> pc_message s' = pc_message s"
proof (cases e)
  case (Then c)
  obtain s' where "then_call run c s = (Inr (), s')" and "call_inv P (cs @ [c]) s'"
    and "pc_message s' = pc_message s"
    by (rule then_call_inv [OF assms])
  then show thesis using that [of s'] Then by simp
next
  case (Notify cookie)
  show thesis
  proof (cases cookie)
    case True
    obtain s' where "with_pending_call (steal_and_notify P run) s = (Inr (), s')"
      and "call_inv P cs s'"
      and "pc_message s \<noteq> None \<longrightarrow> pc_message s' = pc_message s \<and> pc_log s' = pc_log s"
      by (rule steal_and_notify_inv [OF assms])
    then show thesis using that [of s'] Notify True by (simp add: on_pending_call_completed_def)
  next
    case False
    then show thesis using that [of s] Notify assms(2)
      by (simp add: on_pending_call_completed_def return_eff_def)
  qed
next
  case Cancel
  then show thesis using that [of "s\<lparr>pc_raw := call_cancel P (pc_raw s)\<rparr>"] assms(2)
    by (simp add: cancel_def call_inv_def split: option.splits)
next
  case (Arrive m)
  then show thesis using that [of "s\<lparr>pc_raw := call_arrive P m (pc_raw s)\<rparr>"] assms(2)
    by (simp add: call_inv_def split: option.splits)
next
  case (Progress f)
  then show thesis using that [of "s\<lparr>pc_raw := f (pc_raw s)\<rparr>"] assms(2)
    by (simp add: call_inv_def split: option.splits)
qed

lemma call_history_inv:
  assumes "elsewhere P run"
  shows "call_inv P cs s \<Longrightarrow> \<exists>s'. each_eff (call_step P run) es s = (Inr (), s')
     \<and> call_inv P (cs @ installed es) s' \<and> (pc_message s \<noteq> None \<longrightarrow> pc_message s' = pc_message s)"
proof (induction es arbitrary: cs s)
  case Nil
  then show ?case by (simp add: return_eff_def)
next
  case (Cons e es)
  obtain s1 where 1: "call_step P run e s = (Inr (), s1)"
    and inv: "call_inv P (cs @ installed [e]) s1"
    and keep: "pc_message s \<noteq> None \<longrightarrow> pc_message s1 = pc_message s"
    by (rule call_step_inv [OF assms Cons.prems, where e = e])
  obtain s' where "each_eff (call_step P run) es s1 = (Inr (), s')"
    and "call_inv P ((cs @ installed [e]) @ installed es) s'"
    and "pc_message s1 \<noteq> None \<longrightarrow> pc_message s' = pc_message s1"
    using Cons.IH [OF inv] by blast
  then show ?case
    using 1 keep installed_append [of "[e]" es] by (auto simp: then_eff_def bind_eff_def)
qed

lemma create_inv:
  assumes "elsewhere P run" and "create_pending_call P run (Some p) = Inr s"
  shows "call_inv P [] s"
proof -
  let ?s0 = "\<lparr>pc_guard = False, pc_state = Pc_pending, pc_raw = p, pc_message = None,
    pc_callback = None, pc_log = []\<rparr>"
  obtain success p' where n: "call_set_notify P p = (success, p')" by fastforce
  have "call_inv P [] (?s0\<lparr>pc_raw := p'\<rparr>)" by (simp add: call_inv_def)
  then obtain s' where s': "with_pending_call (steal_and_notify P run) (?s0\<lparr>pc_raw := p'\<rparr>) = (Inr (), s')"
    and inv: "call_inv P [] s'"
    by (rule steal_and_notify_inv [OF assms(1)])
  have "s = s'"
    using assms(2) n s'
    by (auto simp: create_pending_call_def construct_pending_call_def with_pending_call_def
        guarded_def create_locked_def Let_def split: if_splits prod.splits sum.splits)
  then show ?thesis using inv by simp
qed

text \<open>A raw call as a flag and the reply that can be stolen once, for the witnesses.\<close>

definition list_pending :: "(bool \<times> nat option, nat) pending_lib" where
  "list_pending = \<lparr>call_completed = fst, call_steal_reply = (\<lambda>(d, r). (r, (d, None))),
     call_set_notify = (\<lambda>p. (True, p)), call_cancel = (\<lambda>(d, r). (True, if d then r else None)),
     call_arrive = (\<lambda>m (d, r). (True, if d then r else Some m))\<rparr>"

definition quiet :: "string \<Rightarrow> nat \<Rightarrow> ((bool \<times> nat option, nat, string) pending_call, unit) eff" where
  "quiet c m = return_eff ()"

section \<open>A reply is delivered\<close>

text \<open>The reply is there, and can be stolen.\<close>

definition answered :: "('p, 'm) pending_lib \<Rightarrow> ('p, 'm, 'c) pending_call \<Rightarrow> bool" where
  "answered P s \<longleftrightarrow> call_completed P (pc_raw s) \<and> fst (call_steal_reply P (pc_raw s)) \<noteq> None"

lemma notify_answered:
  assumes "elsewhere P run" and "call_inv P cs s" and "answered P s"
  obtains s' m where "call_step P run (Notify True) s = (Inr (), s')" and "call_inv P cs s'"
    and "pc_message s' = Some m"
proof -
  obtain s' where s': "with_pending_call (steal_and_notify P run) s = (Inr (), s')" "call_inv P cs s'"
    and keep: "pc_message s \<noteq> None \<longrightarrow> pc_message s' = pc_message s \<and> pc_log s' = pc_log s"
    by (rule steal_and_notify_inv [OF assms(1,2)])
  have "pc_message s' \<noteq> None"
  proof (cases "pc_message s")
    case None
    obtain m p' where r: "call_steal_reply P (pc_raw s) = (Some m, p')"
      using assms(3) by (cases "call_steal_reply P (pc_raw s)") (auto simp: answered_def)
    then have "handed_out P m" by (auto simp: handed_out_def)
    then show ?thesis
      using assms r None s'(1)
      by (auto simp: answered_def call_inv_def with_pending_call_def guarded_def steal_and_notify_def
          is_pending_call_completed_def lift_res_def bind_eff_def from_raw_message_def construct_message_def
          notify_locked_def Let_def invoke_callback_def elsewhere_def split: option.splits if_splits)
  next
    case (Some m)
    then show ?thesis using keep by simp
  qed
  then show thesis using that s' by (auto simp: on_pending_call_completed_def)
qed

text \<open>Once the reply is there, every installation calls its continuation, and nothing else calls any.\<close>

lemma delivered_step:
  assumes "elsewhere P run" and "call_inv P cs s" and "pc_message s = Some m"
  obtains s' where "call_step P run e s = (Inr (), s')" and "call_inv P (cs @ installed [e]) s'"
    and "pc_message s' = Some m" and "pc_log s' = pc_log s @ map (\<lambda>c. (c, m)) (installed [e])"
proof -
  obtain s' where s': "call_step P run e s = (Inr (), s')" "call_inv P (cs @ installed [e]) s'"
      "pc_message s \<noteq> None \<longrightarrow> pc_message s' = pc_message s"
    by (rule call_step_inv [OF assms(1,2)])
  have "pc_log s' = pc_log s @ map (\<lambda>c. (c, m)) (installed [e])"
  proof (cases e)
    case (Then c)
    have "handed_out P m" using assms(2,3) by (simp add: call_inv_def)
    then show ?thesis using s'(1) Then assms
      by (auto simp: then_call_def with_pending_call_def guarded_def call_inv_def invoke_callback_def elsewhere_def)
  next
    case (Notify cookie)
    obtain s1 where "with_pending_call (steal_and_notify P run) s = (Inr (), s1)" "pc_log s1 = pc_log s"
      using steal_and_notify_inv [OF assms(1,2)] assms(3) by (metis option.distinct(1))
    then show ?thesis using s'(1) Notify
      by (auto simp: on_pending_call_completed_def return_eff_def split: if_splits)
  qed (use s'(1) in \<open>auto simp: cancel_def\<close>)
  then show thesis using that s' assms(3) by simp
qed

lemma delivered_history:
  assumes "elsewhere P run"
  shows "call_inv P cs s \<Longrightarrow> pc_message s = Some m \<Longrightarrow> \<exists>s'. each_eff (call_step P run) es s = (Inr (), s')
     \<and> pc_message s' = Some m \<and> pc_log s' = pc_log s @ map (\<lambda>c. (c, m)) (installed es)"
proof (induction es arbitrary: cs s)
  case (Cons e es)
  obtain s1 where 1: "call_step P run e s = (Inr (), s1)" "call_inv P (cs @ installed [e]) s1"
      "pc_message s1 = Some m" "pc_log s1 = pc_log s @ map (\<lambda>c. (c, m)) (installed [e])"
    by (rule delivered_step [OF assms Cons.prems])
  then show ?case
    using Cons.IH [OF 1(2,3)] installed_append [of "[e]" es] by (auto simp: then_eff_Inr)
qed (simp add: return_eff_def)

section \<open>What a call promises\<close>

text \<open>
  A \<open>DBusPendingCall\<close>, as libdbus documents it: the reply is awaited, or it is here, or there is none
  to come any more, because it was stolen or the call was cancelled before. A raw call keeps its reply
  if the functions of libdbus respect this view \<open>there\<close> of it: a reply that is here can be stolen,
  once; setting the callback up and cancelling lose none (while the callback is set up the reply may come in).
  \<open>M\<close> are the replies that may come.
\<close>

datatype 'm awaiting = Awaiting | Here 'm | Over

definition arrive :: "'m \<Rightarrow> 'm awaiting \<Rightarrow> 'm awaiting" where
  "arrive m w = (if w = Awaiting then Here m else w)"

definition give_up :: "'m awaiting \<Rightarrow> 'm awaiting" where
  "give_up w = (if w = Awaiting then Over else w)"

definition keeps_reply :: "('p, 'm) pending_lib \<Rightarrow> 'm set \<Rightarrow> ('p \<Rightarrow> 'm awaiting) \<Rightarrow> bool" where
  "keeps_reply P M there \<longleftrightarrow> (\<forall>p.
     (\<forall>m. there p = Here m \<longrightarrow>
        call_completed P p \<and> (\<exists>p'. call_steal_reply P p = (Some m, p') \<and> there p' = Over))
   \<and> ((\<forall>m. there p \<noteq> Here m) \<longrightarrow> call_completed P p \<longrightarrow>
        (\<exists>p'. call_steal_reply P p = (None, p') \<and> there p' = there p))
   \<and> (there p \<noteq> Awaiting \<longrightarrow> there (snd (call_set_notify P p)) = there p)
   \<and> there (call_cancel P p) = give_up (there p)
   \<and> (\<forall>m \<in> M. there (call_arrive P m p) = arrive m (there p)))"

text \<open>
  The specification. Whatever happens, the reply is noticed when libdbus calls the callback while it is
  here; making the call looks for it, too. From then on \<open>noticed\<close> is the reply. The calls of
  continuations it leads to: at that moment the last one installed, if any, and then every other one as it
  is installed.
\<close>

fun noticed :: "'m awaiting \<Rightarrow> ('p, 'm, 'c) call_event list \<Rightarrow> 'm option" where
  "noticed w [] = None"
| "noticed w (Arrive m # es) = noticed (arrive m w) es"
| "noticed w (Cancel # es) = noticed (give_up w) es"
| "noticed w (Notify cookie # es) = (case w of Here m \<Rightarrow> if cookie then Some m else noticed w es | _ \<Rightarrow> noticed w es)"
| "noticed w (e # es) = noticed w es"

fun calls :: "'m awaiting \<Rightarrow> 'c list \<Rightarrow> ('p, 'm, 'c) call_event list \<Rightarrow> ('c \<times> 'm) list" where
  "calls w last_one [] = []"
| "calls w last_one (Then c # es) = calls w [c] es"
| "calls w last_one (Arrive m # es) = calls (arrive m w) last_one es"
| "calls w last_one (Cancel # es) = calls (give_up w) last_one es"
| "calls w last_one (Notify cookie # es) =
     (case w of
        Here m \<Rightarrow> if cookie then map (\<lambda>c. (c, m)) (last_one @ installed es) else calls w last_one es
      | _ \<Rightarrow> calls w last_one es)"
| "calls w last_one (Progress f # es) = calls w last_one es"

text \<open>The replies that come are in \<open>M\<close>, and what the raw call does by itself does not concern its reply.\<close>

definition may_happen :: "'m set \<Rightarrow> ('p \<Rightarrow> 'm awaiting) \<Rightarrow> ('p, 'm, 'c) call_event list \<Rightarrow> bool" where
  "may_happen M there es \<longleftrightarrow> (\<forall>m. Arrive m \<in> set es \<longrightarrow> m \<in> M) \<and> (\<forall>f. Progress f \<in> set es \<longrightarrow> (\<forall>p. there (f p) = there p))"

text \<open>The call waits: nothing was noticed, \<open>cs\<close> is the last continuation, if any.\<close>

definition waiting :: "('p \<Rightarrow> 'm awaiting) \<Rightarrow> 'm awaiting \<Rightarrow> 'c list \<Rightarrow> ('p, 'm, 'c) pending_call \<Rightarrow> bool" where
  "waiting there w cs s \<longleftrightarrow> \<not> pc_guard s \<and> there (pc_raw s) = w \<and> length cs \<le> 1
     \<and> pc_callback s = (if cs = [] then None else Some (last cs))
     \<and> pc_message s = None \<and> pc_state s = Pc_pending \<and> pc_log s = []"

lemma waiting_notified:
  assumes "elsewhere P run" and "keeps_reply P M there" and "waiting there w cs s"
  shows "case w of
      Here m \<Rightarrow> (\<exists>s'. call_step P run (Notify True) s = (Inr (), s') \<and> call_inv P cs s'
        \<and> pc_message s' = Some m \<and> pc_log s' = map (\<lambda>c. (c, m)) cs)
    | _ \<Rightarrow> (\<exists>s'. call_step P run (Notify True) s = (Inr (), s') \<and> waiting there w cs s')"
proof (cases "\<exists>m. w = Here m")
  case True
  then obtain m p' where m: "w = Here m" and c: "call_completed P (pc_raw s)"
      "call_steal_reply P (pc_raw s) = (Some m, p')"
    using assms(2,3) by (fastforce simp: keeps_reply_def waiting_def)
  then have h: "handed_out P m" by (auto simp: handed_out_def)
  then have r: "run c m s = (Inr (), s)" for c s using assms(1) by (simp add: elsewhere_def)
  note run_defs = with_pending_call_def guarded_def steal_and_notify_def is_pending_call_completed_def
    lift_res_def bind_eff_def from_raw_message_def construct_message_def notify_locked_def
    invoke_callback_def on_pending_call_completed_def Let_def
  have "cs = [] \<or> (\<exists>d. cs = [d])" using assms(3) by (cases cs) (auto simp: waiting_def)
  then show ?thesis using assms(3) c h m
    by (auto simp: run_defs r waiting_def call_inv_def intro!: exI [of _ "Suc 0"])
next
  case False
  then have "call_completed P (pc_raw s) \<longrightarrow> (\<exists>p'. call_steal_reply P (pc_raw s) = (None, p') \<and> there p' = w)"
    using assms(2,3) by (auto simp: keeps_reply_def waiting_def)
  then have "\<exists>s'. call_step P run (Notify True) s = (Inr (), s') \<and> waiting there w cs s'"
    using assms(3) by (auto simp: waiting_def with_pending_call_def guarded_def steal_and_notify_def
        is_pending_call_completed_def on_pending_call_completed_def)
  then show ?thesis using False by (cases w) auto
qed

lemma waiting_step:
  assumes "keeps_reply P M there" and "waiting there w cs s"
  shows "call_step P run (Then c) s = (Inr (), s') \<Longrightarrow> waiting there w [c] s'"
    and "\<exists>s'. call_step P run (Then c) s = (Inr (), s')"
    and "call_step P run (Notify False) s = (Inr (), s)"
    and "waiting there (give_up w) cs (s\<lparr>pc_raw := call_cancel P (pc_raw s)\<rparr>)"
    and "m \<in> M \<Longrightarrow> waiting there (arrive m w) cs (s\<lparr>pc_raw := call_arrive P m (pc_raw s)\<rparr>)"
  using assms by (auto simp: waiting_def keeps_reply_def then_call_def with_pending_call_def guarded_def
      on_pending_call_completed_def return_eff_def split: prod.splits)

lemma waiting_history:
  assumes "elsewhere P run" and "keeps_reply P M there"
  shows "waiting there w cs s \<Longrightarrow> may_happen M there es
    \<Longrightarrow> \<exists>s'. each_eff (call_step P run) es s = (Inr (), s') \<and> \<not> pc_guard s'
     \<and> pc_message s' = noticed w es \<and> pc_log s' = calls w cs es"
proof (induction es arbitrary: w cs s)
  case Nil
  then show ?case by (simp add: return_eff_def waiting_def)
next
  case (Cons e es)
  have es: "may_happen M there es" using Cons.prems(2) by (simp add: may_happen_def)
  note step = waiting_step [OF assms(2) Cons.prems(1)]
  note IH = Cons.IH [OF _ es]
  show ?case
  proof (cases e)
    case (Then c)
    obtain s1 where s1: "call_step P run (Then c) s = (Inr (), s1)" using step(2) by blast
    show ?thesis using IH [OF step(1) [OF s1]] s1 Then by (simp add: then_eff_Inr)
  next
    case (Notify cookie)
    show ?thesis
    proof (cases "cookie \<and> (\<exists>m. w = Here m)")
      case True
      then obtain m where w: "w = Here m" by blast
      obtain s1 where s1: "call_step P run (Notify True) s = (Inr (), s1)" "call_inv P cs s1"
          "pc_message s1 = Some m" "pc_log s1 = map (\<lambda>c. (c, m)) cs"
        using waiting_notified [OF assms Cons.prems(1)] w by auto
      obtain s2 where s2: "each_eff (call_step P run) es s1 = (Inr (), s2)" "pc_message s2 = Some m"
          "pc_log s2 = pc_log s1 @ map (\<lambda>c. (c, m)) (installed es)"
        using delivered_history [OF assms(1) s1(2,3)] by blast
      moreover have "\<not> pc_guard s2"
        using call_history_inv [OF assms(1) s1(2), of es] s2(1) by (auto simp: call_inv_def)
      ultimately show ?thesis using True Notify w s1 by (simp add: then_eff_Inr)
    next
      case False
      then have n: "noticed w (e # es) = noticed w es" "calls w cs (e # es) = calls w cs es"
        using Notify by (auto split: awaiting.splits)
      obtain s1 where "call_step P run e s = (Inr (), s1)" "waiting there w cs s1"
        using waiting_notified [OF assms Cons.prems(1)] step(3) False Notify Cons.prems(1)
        by (cases w; cases cookie) auto
      then show ?thesis using IH n by (simp add: then_eff_Inr)
    qed
  next
    case Cancel
    then show ?thesis using IH [OF step(4)] by (simp add: cancel_def then_eff_Inr)
  next
    case (Arrive m)
    then have "m \<in> M" using Cons.prems(2) by (simp add: may_happen_def)
    then show ?thesis using IH [OF step(5)] Arrive by (simp add: then_eff_Inr)
  next
    case (Progress f)
    then have "waiting there w cs (s\<lparr>pc_raw := f (pc_raw s)\<rparr>)"
      using Cons.prems by (simp add: waiting_def may_happen_def)
    then show ?thesis using IH Progress by (simp add: then_eff_Inr)
  qed
qed

text \<open>The wrapper as its constructor leaves it, after the callback was set up.\<close>

definition set_up :: "('p, 'm) pending_lib \<Rightarrow> 'p \<Rightarrow> ('p, 'm, 'c) pending_call" where
  "set_up P p = \<lparr>pc_guard = False, pc_state = Pc_pending, pc_raw = snd (call_set_notify P p),
     pc_message = None, pc_callback = None, pc_log = []\<rparr>"

lemma set_up_waiting: "waiting there (there (snd (call_set_notify P p))) [] (set_up P p)"
  by (simp add: waiting_def set_up_def)

text \<open>Making the call ends as if libdbus called the callback right away.\<close>

lemma create_notifies:
  "create_pending_call P run (Some p) =
     (if fst (call_set_notify P p)
      then case call_step P run (Notify True) (set_up P p) of (Inl e, s) \<Rightarrow> Inl e | (Inr _, s) \<Rightarrow> Inr s
      else Inl (Runtime_error ''Error setting up pending call notification.''))"
  by (auto simp: create_pending_call_def construct_pending_call_def with_pending_call_def guarded_def
      create_locked_def on_pending_call_completed_def set_up_def Let_def split: prod.splits sum.splits)

text \<open>A call whose callback can be set up is made, and then runs as specified.\<close>

lemma create_call:
  assumes "elsewhere P run" and "fst (call_set_notify P p)"
  obtains s0 where "create_pending_call P run (Some p) = Inr s0" and "call_inv P [] s0"
proof -
  have "call_inv P [] (set_up P p)" by (simp add: call_inv_def set_up_def)
  then obtain s' where "call_step P run (Notify True) (set_up P p) = (Inr (), s')" "call_inv P [] s'"
    using call_step_inv [OF assms(1), where e = "Notify True"] by (metis append_Nil installed.simps(1,3))
  then show thesis using that assms(2) by (simp add: create_notifies del: call_step.simps)
qed

lemma created_history:
  assumes "elsewhere P run" and "keeps_reply P M there" and "create_pending_call P run (Some p) = Inr s0"
    and "may_happen M there es"
  shows "\<exists>s. each_eff (call_step P run) es s0 = (Inr (), s) \<and> \<not> pc_guard s
     \<and> pc_message s = noticed (there (snd (call_set_notify P p))) (Notify True # es)
     \<and> pc_log s = calls (there (snd (call_set_notify P p))) [] (Notify True # es)"
proof -
  have "may_happen M there (Notify True # es)" using assms(4) by (simp add: may_happen_def)
  then obtain s where s: "each_eff (call_step P run) (Notify True # es) (set_up P p) = (Inr (), s)" "\<not> pc_guard s"
      "pc_message s = noticed (there (snd (call_set_notify P p))) (Notify True # es)"
      "pc_log s = calls (there (snd (call_set_notify P p))) [] (Notify True # es)"
    using waiting_history [OF assms(1,2) set_up_waiting] by blast
  have "call_step P run (Notify True) (set_up P p) = (Inr (), s0)"
    using assms(3) by (auto simp: create_notifies simp del: call_step.simps split: if_splits prod.splits sum.splits)
  then have "each_eff (call_step P run) es s0 = (Inr (), s)"
    using s(1) by (simp add: then_eff_Inr del: call_step.simps)
  then show ?thesis using s(2-4) by blast
qed

text \<open>
  C4. A continuation is called once, with the one reply, however the reply and the installation
  race. Continuations run under the mutex of the call and are taken to return without touching the
  call (\<open>elsewhere\<close>). For every history of a call that was made (installations, the arrival of the
  reply, callbacks of libdbus in any number and at any time, cancellation) nothing throws or locks up; the
  call has a reply exactly when libdbus called back while the reply was here, or it was here already
  when the call was made (before or while the callback was set up); and then the last continuation
  installed before, and every one installed since, was called exactly once, in order and with this
  reply. No other call of a continuation was made.
\<close>

theorem continuations_called_once:
  assumes "elsewhere P run" and "keeps_reply P M there" and "create_pending_call P run (Some p) = Inr s0"
    and "may_happen M there es"
  shows "\<exists>s. each_eff (call_step P run) es s0 = (Inr (), s)
     \<and> \<not> pc_guard s
     \<and> pc_message s = noticed (there (snd (call_set_notify P p))) (Notify True # es)
     \<and> pc_log s = calls (there (snd (call_set_notify P p))) [] (Notify True # es)"
  by (rule created_history [OF assms])

definition list_there :: "bool \<times> nat option \<Rightarrow> nat awaiting" where
  "list_there p = (if fst p then case snd p of Some m \<Rightarrow> Here m | None \<Rightarrow> Over else Awaiting)"

lemma list_keeps_reply: "keeps_reply list_pending UNIV list_there"
  by (auto simp: keeps_reply_def list_pending_def list_there_def arrive_def give_up_def split: if_splits option.splits)

text \<open>One call whose reply comes between two installations, and one whose reply comes before it is wrapped.\<close>

theorem continuations_called_once_witness:
  "(\<exists>s0 s. create_pending_call list_pending quiet (Some (False, None)) = Inr s0
      \<and> each_eff (call_step list_pending quiet)
          [Then ''a'', Notify True, Then ''b'', Arrive 7, Notify True, Cancel, Notify True, Then ''c''] s0 = (Inr (), s)
      \<and> pc_log s = [(''b'', 7), (''c'', 7)])
   \<and> (\<exists>s0 s. create_pending_call list_pending quiet (Some (True, Some 7)) = Inr s0
      \<and> each_eff (call_step list_pending quiet) [Then ''a''] s0 = (Inr (), s) \<and> pc_log s = [(''a'', 7)])"
proof -
  let ?es = "[Then ''a'', Notify True, Then ''b'', Arrive 7, Notify True, Cancel, Notify True, Then ''c'']
    :: (bool \<times> nat option, nat, string) call_event list"
  have e: "elsewhere list_pending quiet" by (simp add: elsewhere_def quiet_def return_eff_def)
  have c: "\<exists>s0. create_pending_call list_pending quiet (Some p) = Inr s0" for p
    by (cases p) (auto simp: create_notifies list_pending_def set_up_def on_pending_call_completed_def with_pending_call_def
        guarded_def steal_and_notify_def is_pending_call_completed_def lift_res_def bind_eff_def from_raw_message_def
        construct_message_def notify_locked_def Let_def split: option.splits sum.splits)
  have p: "may_happen UNIV list_there ?es" "may_happen UNIV list_there [Then ''a'']" by (simp_all add: may_happen_def)
  have w: "list_there (snd (call_set_notify list_pending q)) = list_there q" for q
    by (simp add: list_pending_def)
  have 1: "calls (list_there (False, None)) [] (Notify True # ?es) = [(''b'', 7), (''c'', 7)]"
    by (simp add: list_there_def arrive_def)
  have 2: "calls (list_there (True, Some 7)) [] [Notify True, Then ''a''] = [(''a'', 7)]"
    by (simp add: list_there_def)
  show ?thesis
    using continuations_called_once [OF e list_keeps_reply _ p(1), of "(False, None)"]
      continuations_called_once [OF e list_keeps_reply _ p(2), of "(True, Some 7)"] c [of "(False, None)"]
      c [of "(True, Some 7)"]
    unfolding w 1 2 by metis
qed



text \<open>
  Continuations run under the mutex of the call. A continuation that calls \<open>then\<close> on the
  call it belongs to, when the reply is already there, locks up: the outer \<open>then\<close> never returns.
\<close>

lemma then_inside_continuation_deadlocks:
  assumes "\<not> pc_guard s" and "pc_message s = Some m"
    and "\<And>s'. run c m s' = then_call run' d s'"
  shows "fst (then_call run c s) = Inl Deadlock"
  using assms
  by (simp add: then_call_def with_pending_call_def guarded_def invoke_callback_def)

lemma then_inside_continuation_deadlocks_witness:
  "fst (then_call (\<lambda>c m. then_call quiet ''inner'') ''outer''
     \<lparr>pc_guard = False, pc_state = Pc_completed, pc_raw = (True, None), pc_message = Some 7,
      pc_callback = None, pc_log = []\<rparr>) = Inl Deadlock"
  using then_inside_continuation_deadlocks
    [of "\<lparr>pc_guard = False, pc_state = Pc_completed, pc_raw = (True, None), pc_message = Some 7,
      pc_callback = None, pc_log = []\<rparr>" 7 "\<lambda>c m. then_call quiet ''inner''" "''outer''" quiet "''inner''"]
  by simp

end
