(* ===== verification/Match_Rule.thy ===== *)
theory Match_Rule
  imports Message
begin

text \<open>
  \<open>MatchRule\<close>: include/core/dbus/match\_rule.h and src/core/dbus/match\_rule.cpp. A rule is a
  record; each setter exists in a form that changes the rule and in a \<open>const\<close> form that returns a
  changed copy. \<open>as_string\<close> prints the clauses with a \<open>Comma\<close> object between them, which prints a
  comma every second time it is written.
\<close>

section \<open>The rule\<close>

record match_rule =
  rule_type :: message_type
  rule_sender :: string
  rule_interface :: string
  rule_member :: string
  rule_path :: string
  rule_args :: "(64 word \<times> string) list"

definition new_match_rule :: match_rule where
  "new_match_rule = \<lparr>rule_type = Mt_invalid, rule_sender = [], rule_interface = [],
     rule_member = [], rule_path = object_path_root, rule_args = []\<rparr>"

text \<open>The copy constructor makes a rule of its own with the same contents; assignment overwrites
  the contents.\<close>

definition copy_match_rule :: "match_rule \<Rightarrow> match_rule" where
  "copy_match_rule rhs = rhs"

definition assign_match_rule :: "match_rule \<Rightarrow> (match_rule, unit) eff" where
  "assign_match_rule rhs r = (Inr (), rhs)"

definition set_type :: "message_type \<Rightarrow> (match_rule, unit) eff" where
  "set_type t r = (Inr (), r\<lparr>rule_type := t\<rparr>)"

definition with_type :: "match_rule \<Rightarrow> message_type \<Rightarrow> match_rule" where
  "with_type r t = (let result = copy_match_rule r in result\<lparr>rule_type := t\<rparr>)"

definition set_sender :: "string \<Rightarrow> (match_rule, unit) eff" where
  "set_sender s r = (Inr (), r\<lparr>rule_sender := s\<rparr>)"

definition with_sender :: "match_rule \<Rightarrow> string \<Rightarrow> match_rule" where
  "with_sender r s = (let result = copy_match_rule r in result\<lparr>rule_sender := s\<rparr>)"

definition set_interface :: "string \<Rightarrow> (match_rule, unit) eff" where
  "set_interface i r = (Inr (), r\<lparr>rule_interface := i\<rparr>)"

definition with_interface :: "match_rule \<Rightarrow> string \<Rightarrow> match_rule" where
  "with_interface r i = (let result = copy_match_rule r in result\<lparr>rule_interface := i\<rparr>)"

definition set_member :: "string \<Rightarrow> (match_rule, unit) eff" where
  "set_member m r = (Inr (), r\<lparr>rule_member := m\<rparr>)"

definition with_member :: "match_rule \<Rightarrow> string \<Rightarrow> match_rule" where
  "with_member r m = (let result = copy_match_rule r in result\<lparr>rule_member := m\<rparr>)"

definition set_path :: "string \<Rightarrow> (match_rule, unit) eff" where
  "set_path p r = (Inr (), r\<lparr>rule_path := p\<rparr>)"

definition with_path :: "match_rule \<Rightarrow> string \<Rightarrow> match_rule" where
  "with_path r p = snd (set_path p (copy_match_rule r))"

definition set_args :: "(64 word \<times> string) list \<Rightarrow> (match_rule, unit) eff" where
  "set_args a r = (Inr (), r\<lparr>rule_args := a\<rparr>)"

text \<open>The \<open>const\<close> form of \<open>args\<close> is declared to return a reference, and returns one to its local
  copy: the caller has a rule that no longer exists.\<close>

definition with_args :: "match_rule \<Rightarrow> (64 word \<times> string) list \<Rightarrow> exn + match_rule" where
  "with_args r a =
     (let result = snd (set_args a (copy_match_rule r)) in
      Inl (Undefined_behaviour ''reference to a local variable''))"

section \<open>Printing\<close>

type_synonym comma = bool

definition new_comma :: comma where
  "new_comma = False"

definition print_comma :: "comma \<Rightarrow> string \<times> comma" where
  "print_comma is_required = (if is_required then '','' else [], \<not> is_required)"

definition quoted :: "string \<Rightarrow> string" where
  "quoted v = CHR 0x27 # v @ [CHR 0x27]"

definition clause_text :: "string \<times> string \<Rightarrow> string" where
  "clause_text c = fst c @ ''='' @ quoted (snd c)"

text \<open>\<open>ss << comma << "key='" << value << "'" << comma\<close>.\<close>

definition print_clause :: "string \<Rightarrow> string \<Rightarrow> string \<times> comma \<Rightarrow> string \<times> comma" where
  "print_clause key v out =
     (case print_comma (snd out) of (before, comma) \<Rightarrow>
      case print_comma comma of (after, comma) \<Rightarrow>
        (fst out @ before @ clause_text (key, v) @ after, comma))"

text \<open>\<open>ss << "type='" << type << "'" << comma\<close>.\<close>

definition print_type_clause :: "message_type \<Rightarrow> string \<times> comma \<Rightarrow> string \<times> comma" where
  "print_type_clause t out =
     (case print_comma (snd out) of (after, comma) \<Rightarrow>
        (fst out @ clause_text (''type'', print_message_type t) @ after, comma))"

definition as_string :: "match_rule \<Rightarrow> string" where
  "as_string d =
     (let out = ([], new_comma);
          out = (if rule_type d \<noteq> Mt_invalid then print_type_clause (rule_type d) out else out);
          out = (if rule_sender d \<noteq> [] then print_clause ''sender'' (rule_sender d) out else out);
          out = (if rule_interface d \<noteq> []
                 then print_clause ''interface'' (rule_interface d) out else out);
          out = (if rule_member d \<noteq> [] then print_clause ''member'' (rule_member d) out else out);
          out = (if \<not> object_path_empty (rule_path d)
                 then print_clause ''path'' (rule_path d) out else out);
          out = fold (\<lambda>arg. print_clause (''arg'' @ show_nat (unat (fst arg))) (snd arg))
                  (rule_args d) out
      in fst out)"

section \<open>What is printed\<close>

text \<open>The clauses of a rule, in order: the type, what is set of sender, interface, member and
  path, and the arguments.\<close>

definition type_clauses :: "match_rule \<Rightarrow> (string \<times> string) list" where
  "type_clauses d =
     (if rule_type d \<noteq> Mt_invalid then [(''type'', print_message_type (rule_type d))] else [])"

definition other_clauses :: "match_rule \<Rightarrow> (string \<times> string) list" where
  "other_clauses d =
     filter (\<lambda>c. snd c \<noteq> [])
       [(''sender'', rule_sender d), (''interface'', rule_interface d), (''member'', rule_member d),
        (''path'', rule_path d)]
     @ map (\<lambda>arg. (''arg'' @ show_nat (unat (fst arg)), snd arg)) (rule_args d)"

definition rule_clauses :: "match_rule \<Rightarrow> (string \<times> string) list" where
  "rule_clauses d = type_clauses d @ other_clauses d"

lemma print_clause_required:
  "print_clause k v (s, True) = (s @ '','' @ clause_text (k, v), True)"
  by (simp add: print_clause_def print_comma_def)

lemma print_clause_not_required:
  "print_clause k v (s, False) = (s @ clause_text (k, v) @ '','', False)"
  by (simp add: print_clause_def print_comma_def)

lemma fold_print_clause:
  "fold (\<lambda>c. print_clause (fst c) (snd c)) cs (s, b) =
     (s @ concat (map (\<lambda>c. if b then '','' @ clause_text c else clause_text c @ '','') cs), b)"
  by (induction cs arbitrary: s b)
    (auto simp: print_clause_required print_clause_not_required)

lemma as_string_fold:
  "as_string d = fst (fold (\<lambda>c. print_clause (fst c) (snd c)) (other_clauses d)
     (if rule_type d \<noteq> Mt_invalid then print_type_clause (rule_type d) ([], new_comma)
      else ([], new_comma)))"
  by (simp add: as_string_def other_clauses_def Let_def object_path_empty_def fold_map o_def)

text \<open>
  What \<open>as_string\<close> prints, for every rule. With a message type, the clauses are separated by
  single commas, as the bus expects. Without a type the commas are out of step by one: every
  clause is followed by a comma, so the string ends with one.
\<close>

lemma as_string_clauses:
  "as_string d =
     (if rule_type d \<noteq> Mt_invalid then intercalate '','' (map clause_text (rule_clauses d))
      else concat (map (\<lambda>c. clause_text c @ '','') (rule_clauses d)))"
  by (simp add: as_string_fold fold_print_clause new_comma_def print_type_clause_def
      print_comma_def rule_clauses_def type_clauses_def intercalate_Cons o_def)

section \<open>Reading a rule back\<close>

text \<open>A reader of match rules: keys up to the equals sign, values between apostrophes.\<close>

function read_clauses :: "string \<Rightarrow> (string \<times> string) list option" where
  "read_clauses s =
     (case dropWhile (\<lambda>c. c \<noteq> CHR ''='') s of
        e # q # r \<Rightarrow>
          (if q \<noteq> CHR 0x27 then None
           else (case dropWhile (\<lambda>c. c \<noteq> CHR 0x27) r of
                   [] \<Rightarrow> None
                 | _ # rest \<Rightarrow>
                     (let clause = (takeWhile (\<lambda>c. c \<noteq> CHR ''='') s, takeWhile (\<lambda>c. c \<noteq> CHR 0x27) r)
                      in (case rest of
                            [] \<Rightarrow> Some [clause]
                          | c # rest' \<Rightarrow>
                              if c \<noteq> CHR '','' then None
                              else map_option ((#) clause) (read_clauses rest')))))
      | _ \<Rightarrow> None)"
  by pat_completeness auto

termination
proof (relation "measure length", goal_cases)
  case (2 s e l q r f rest c rest')
  then have "length (dropWhile (\<lambda>c. c \<noteq> CHR ''='') s) > length (dropWhile (\<lambda>c. c \<noteq> CHR 0x27) r)"
    using length_dropWhile_le [of "\<lambda>c. c \<noteq> CHR 0x27" r] by simp
  then show ?case
    using 2 length_dropWhile_le [of "\<lambda>c. c \<noteq> CHR ''=''" s] by simp
qed simp

declare read_clauses.simps [simp del]

definition readable :: "string \<times> string \<Rightarrow> bool" where
  "readable c \<longleftrightarrow> CHR ''='' \<notin> set (fst c) \<and> CHR 0x27 \<notin> set (snd c)"

lemma takeWhile_stop: "c \<notin> set xs \<Longrightarrow> takeWhile (\<lambda>x. x \<noteq> c) (xs @ c # ys) = xs"
  by (induction xs) auto

lemma dropWhile_stop: "c \<notin> set xs \<Longrightarrow> dropWhile (\<lambda>x. x \<noteq> c) (xs @ c # ys) = c # ys"
  by (induction xs) auto

lemma read_clause_step:
  assumes "readable c"
  shows "read_clauses (clause_text c @ rest) =
     (case rest of [] \<Rightarrow> Some [c]
      | x # rest' \<Rightarrow> if x \<noteq> CHR '','' then None else map_option ((#) c) (read_clauses rest'))"
proof -
  have "clause_text c @ rest = fst c @ CHR ''='' # CHR 0x27 # snd c @ CHR 0x27 # rest"
    by (simp add: clause_text_def quoted_def)
  moreover have "CHR ''='' \<notin> set (fst c)" "CHR 0x27 \<notin> set (snd c)"
    using assms by (simp_all add: readable_def)
  ultimately show ?thesis
    by (subst read_clauses.simps) (simp add: takeWhile_stop dropWhile_stop Let_def)
qed

lemma read_clauses_intercalate:
  "\<forall>c \<in> set (c # cs). readable c
     \<Longrightarrow> read_clauses (intercalate '','' (map clause_text (c # cs))) = Some (c # cs)"
proof (induction cs arbitrary: c)
  case Nil
  then show ?case using read_clause_step [of c "[]"] by simp
next
  case (Cons c' cs)
  then show ?case
    using read_clause_step [of c "CHR '','' # intercalate '','' (map clause_text (c' # cs))"]
    by simp
qed

lemma no_equals_sign [simp]: "CHR ''='' \<notin> set (show_nat n)"
proof
  assume "CHR ''='' \<in> set (show_nat n)"
  then obtain k :: nat where k: "48 \<le> k" "k \<le> 57" and c: "CHR ''='' = char_of k"
    using show_nat_digits [of n] by fastforce
  have "k mod 256 = of_char CHR ''=''"
    unfolding c by (rule of_char_of [symmetric])
  also have "\<dots> = 61" by simp
  finally show False using k by simp
qed

lemma clause_keys_readable: "c \<in> set (rule_clauses d) \<Longrightarrow> CHR ''='' \<notin> set (fst c)"
  by (auto simp: rule_clauses_def type_clauses_def other_clauses_def split: if_splits)

lemma read_clauses_as_string:
  assumes "rule_type d \<noteq> Mt_invalid"
    and "list_all (\<lambda>c. CHR 0x27 \<notin> set (snd c)) (rule_clauses d)"
  shows "read_clauses (as_string d) = Some (rule_clauses d)"
proof -
  obtain c cs where "rule_clauses d = c # cs"
    using assms(1) by (simp add: rule_clauses_def type_clauses_def)
  moreover have "\<forall>c \<in> set (rule_clauses d). readable c"
    using assms(2) clause_keys_readable by (auto simp: readable_def list_all_iff)
  ultimately show ?thesis
    using assms(1) read_clauses_intercalate [of c cs] by (simp add: as_string_clauses)
qed


definition sample_rule :: match_rule where
  "sample_rule = with_member (with_interface (with_type new_match_rule Mt_signal) ''a.b'') ''m''"


end
