(* ===== verification/Bus.thy ===== *)
theory Bus
  imports Message_Router Pending_Call Match_Rule
begin

text \<open>
  \<open>Bus\<close>: include/core/dbus/bus.h and src/core/dbus/bus.cpp, and \<open>Service\<close>:
  include/core/dbus/service.h and src/core/dbus/service.cpp.

  The connection is an object of libdbus: a state \<open>'d\<close> (the connection with what is behind it, the
  daemon included) with the functions of the record \<open>connection\<close>. A bus holds it with the two
  routers and the executor. What calling a handler of the signal router does is the argument \<open>run\<close>,
  on a state of which the bus is a part.
\<close>

section \<open>The functions of libdbus on a connection\<close>

record ('d, 'm, 'p) connection =
  conn_open_private :: "string \<Rightarrow> 'd \<Rightarrow> (bool \<times> dbus_error) \<times> 'd"
  conn_get_private :: "int \<Rightarrow> 'd \<Rightarrow> (bool \<times> dbus_error) \<times> 'd"
  conn_add_filter :: "'d \<Rightarrow> 'd"
  conn_remove_filter :: "'d \<Rightarrow> 'd"
  conn_close :: "'d \<Rightarrow> 'd"
  conn_unref :: "'d \<Rightarrow> 'd"
  conn_set_exit_on_disconnect :: "bool \<Rightarrow> 'd \<Rightarrow> 'd"
  conn_send :: "'m \<Rightarrow> 'd \<Rightarrow> 32 word option \<times> 'd"
  conn_send_and_block :: "'m \<Rightarrow> int \<Rightarrow> 'd \<Rightarrow> ('m option \<times> dbus_error) \<times> 'd"
  conn_send_with_reply :: "'m \<Rightarrow> int \<Rightarrow> 'd \<Rightarrow> (bool \<times> 'p option) \<times> 'd"
  conn_add_match :: "string \<Rightarrow> 'd \<Rightarrow> dbus_error \<times> 'd"
  conn_remove_match :: "string \<Rightarrow> 'd \<Rightarrow> dbus_error \<times> 'd"
  conn_request_name :: "string \<Rightarrow> 32 word \<Rightarrow> 'd \<Rightarrow> (int \<times> dbus_error) \<times> 'd"
  conn_release_name :: "string \<Rightarrow> 'd \<Rightarrow> (int \<times> dbus_error) \<times> 'd"
  conn_name_has_owner :: "string \<Rightarrow> 'd \<Rightarrow> bool \<times> 'd"
  conn_try_register_path :: "string \<Rightarrow> nat \<Rightarrow> 'd \<Rightarrow> (bool \<times> dbus_error) \<times> 'd"
  conn_unregister_path :: "string \<Rightarrow> 'd \<Rightarrow> 'd"

text \<open>\<open>milliseconds.count()\<close> is passed as an \<open>int\<close>, of 32 bits.\<close>

definition to_c_int :: "int \<Rightarrow> int" where
  "to_c_int n = sint (word_of_int n :: 32 word)"

section \<open>Flags, names and results\<close>

datatype request_name_flag = Flag "32 word"

definition flag_not_set :: request_name_flag where
  "flag_not_set = Flag 0"

definition flag_allow_replacement :: request_name_flag where
  "flag_allow_replacement = Flag 1"

definition flag_replace_existing :: request_name_flag where
  "flag_replace_existing = Flag 2"

definition flag_do_not_queue :: request_name_flag where
  "flag_do_not_queue = Flag 4"

fun flag_bits :: "request_name_flag \<Rightarrow> 32 word" where
  "flag_bits (Flag w) = w"

definition flag_or :: "request_name_flag \<Rightarrow> request_name_flag \<Rightarrow> request_name_flag" where
  "flag_or lhs rhs = Flag (or (flag_bits lhs) (flag_bits rhs))"

definition default_service_flags :: request_name_flag where
  "default_service_flags = flag_or flag_do_not_queue flag_replace_existing"

record bus_name =
  bus_name_string :: string

datatype handler_result = Handled | Not_yet_handled | Need_memory

text \<open>\<open>what()\<close> of the exceptions that are runtime errors, those of \<open>Bus::Errors\<close> among them.\<close>

fun exception_text :: "exn \<Rightarrow> string" where
  "exception_text (Runtime_error s) = c_str s"
| "exception_text Already_owner = ''This process already owns the name on the bus.''"
| "exception_text Already_owned = ''The name is already owned on the bus.''"
| "exception_text No_memory = ''Not enough memory to complete operation.''"
| "exception_text e = []"

section \<open>The process\<close>

text \<open>The two static variables of \<open>init_libdbus_thread_support_and_install_shutdown_handler\<close>, which every bus
calls when it is constructed, and how often it called \<open>dbus_threads_init_default\<close> and registered
\<open>dbus_shutdown\<close> to be called at exit. The argument is the value of the environment variable, empty when it is
not set.\<close>

record process =
  install_dbus_shutdown_handler :: "bool option"
  once :: bool
  threads_inits :: nat
  shutdowns_at_exit :: nat

definition new_process :: process where
  "new_process = \<lparr>install_dbus_shutdown_handler = None, once = False, threads_inits = 0, shutdowns_at_exit = 0\<rparr>"

definition init_libdbus :: "string \<Rightarrow> process \<Rightarrow> process" where
  "init_libdbus variable p =
     (let install = (case install_dbus_shutdown_handler p of Some b \<Rightarrow> b | None \<Rightarrow> variable \<noteq> []);
          p = p\<lparr>install_dbus_shutdown_handler := Some install\<rparr> in
      if once p then p
      else p\<lparr>once := True, threads_inits := Suc (threads_inits p),
             shutdowns_at_exit := shutdowns_at_exit p + (if install then 1 else 0)\<rparr>)"

text \<open>However many buses are constructed, and however the environment changes in between, libdbus is made ready for
threads once, and the first bus decides whether it is shut down at exit.\<close>

lemma init_libdbus_once:
  "fold init_libdbus (variable # variables) new_process =
     \<lparr>install_dbus_shutdown_handler = Some (variable \<noteq> []), once = True, threads_inits = 1,
      shutdowns_at_exit = (if variable \<noteq> [] then 1 else 0)\<rparr>"
proof -
  have "fold init_libdbus variables p = p" if "once p" "install_dbus_shutdown_handler p \<noteq> None" for p
  proof -
    have "init_libdbus v p = p" for v
      using that by (cases p) (auto simp: init_libdbus_def Let_def)
    then show ?thesis by (induction variables) simp_all
  qed
  then show ?thesis by (simp add: init_libdbus_def new_process_def Let_def)
qed

section \<open>Operations on the connection\<close>

definition request_name_on_bus ::
  "('d, 'm, 'p) connection \<Rightarrow> string \<Rightarrow> request_name_flag \<Rightarrow> ('d, bus_name) eff" where
  "request_name_on_bus K name flags d =
     (case conn_request_name K (c_str name) (flag_bits flags) d of ((rc, error), d) \<Rightarrow>
        (let result = \<lparr>bus_name_string = name\<rparr> in
         if rc = 1 then (Inr result, d)
         else if rc = 2 then (Inr result, d)
         else if rc = 3 then (Inl Already_owned, d)
         else if rc = 4 then (Inl Already_owner, d)
         else if rc = -1 then (Inl (throw_error_text error), d)
         else (Inr result, d)))"

definition release_name_on_bus :: "('d, 'm, 'p) connection \<Rightarrow> bus_name \<Rightarrow> ('d, unit) eff" where
  "release_name_on_bus K name d = (Inr (), snd (conn_release_name K (c_str (bus_name_string name)) d))"

definition bus_send :: "('d, 'm, 'p) connection \<Rightarrow> 'm \<Rightarrow> ('d, 32 word) eff" where
  "bus_send K msg d =
     (case conn_send K msg d of
        (None, d) \<Rightarrow> (Inl (Runtime_error ''Problem sending message''), d)
      | (Some serial, d) \<Rightarrow> (Inr serial, d))"

definition send_with_reply_and_block_for_at_most ::
  "('d, 'm, 'p) connection \<Rightarrow> 'm \<Rightarrow> int \<Rightarrow> ('d, 'm) eff" where
  "send_with_reply_and_block_for_at_most K msg milliseconds d =
     (case conn_send_and_block K msg (to_c_int milliseconds) d of
        ((None, se), d) \<Rightarrow> (Inl (throw_error_text se), d)
      | ((Some result, se), d) \<Rightarrow> (from_raw_message (Some result), d))"

text \<open>The pending call is made from what libdbus returned, see \<open>create_pending_call\<close>.\<close>

definition send_with_reply_and_timeout ::
  "('d, 'm, 'p) connection \<Rightarrow> ('p, 'm) pending_lib
     \<Rightarrow> ('c \<Rightarrow> 'm \<Rightarrow> (('p, 'm, 'c) pending_call, unit) eff) \<Rightarrow> 'm \<Rightarrow> int
     \<Rightarrow> ('d, ('p, 'm, 'c) pending_call) eff" where
  "send_with_reply_and_timeout K P run msg timeout d =
     (case conn_send_with_reply K msg (to_c_int timeout) d of
        ((result, pending), d) \<Rightarrow>
          if \<not> result then (Inl No_memory, d)
          else (case pending of
                  None \<Rightarrow> (Inl (Runtime_error (''Connection disconnected or tried to send fd's ''
                             @ ''over a transport that does not support it'')), d)
                | Some p \<Rightarrow> (create_pending_call P run (Some p), d)))"

definition add_match :: "('d, 'm, 'p) connection \<Rightarrow> match_rule \<Rightarrow> ('d, unit) eff" where
  "add_match K rule d =
     (case conn_add_match K (c_str (as_string rule)) d of (se, d) \<Rightarrow>
        if error_is_set se then (Inl (throw_error_text se), d) else (Inr (), d))"

definition remove_match :: "('d, 'm, 'p) connection \<Rightarrow> match_rule \<Rightarrow> ('d, unit) eff" where
  "remove_match K rule d =
     (case conn_remove_match K (c_str (as_string rule)) d of (se, d) \<Rightarrow>
        if error_is_set se then (Inl (throw_error_text se), d) else (Inr (), d))"

definition has_owner_for_name :: "('d, 'm, 'p) connection \<Rightarrow> string \<Rightarrow> ('d, bool) eff" where
  "has_owner_for_name K name d =
     (case conn_name_has_owner K (c_str name) d of (b, d) \<Rightarrow> (Inr b, d))"

definition register_object_for_path ::
  "('d, 'm, 'p) connection \<Rightarrow> string \<Rightarrow> nat \<Rightarrow> ('d, unit) eff" where
  "register_object_for_path K path object d =
     (case conn_try_register_path K (c_str path) object d of ((result, e), d) \<Rightarrow>
        if \<not> result \<or> error_is_set e then (Inl (throw_error_text e), d) else (Inr (), d))"

definition unregister_object_path :: "('d, 'm, 'p) connection \<Rightarrow> string \<Rightarrow> ('d, unit) eff" where
  "unregister_object_path K path d = (Inr (), conn_unregister_path K (c_str path) d)"

section \<open>The bus\<close>

text \<open>The only route of the type router leads to the signal router (\<open>To_signal_router\<close>); the
  handlers of the signal router are values of a type \<open>'h\<close>.\<close>

datatype type_route = To_signal_router

record ('d, 'h, 'e) bus =
  bus_conn :: 'd
  bus_type_router :: "(message_type, type_route) router"
  bus_signal_router :: "(string, 'h) router"
  bus_executor :: "'e option"

interpretation conn_part: state_part bus_conn "\<lambda>d b. b\<lparr>bus_conn := d\<rparr>"
  by unfold_locales simp_all

interpretation type_router_part: locked_part bus_type_router "\<lambda>r b. b\<lparr>bus_type_router := r\<rparr>"
    router_guard "\<lambda>b r. r\<lparr>router_guard := b\<rparr>"
  by unfold_locales simp_all

interpretation signal_router_part: locked_part bus_signal_router "\<lambda>r b. b\<lparr>bus_signal_router := r\<rparr>"
    router_guard "\<lambda>b r. r\<lparr>router_guard := b\<rparr>"
  by unfold_locales simp_all

definition on_conn :: "('d, 'a) eff \<Rightarrow> (('d, 'h, 'e) bus, 'a) eff" where
  "on_conn e = zoom bus_conn (\<lambda>d b. b\<lparr>bus_conn := d\<rparr>) e"

definition on_type_router ::
  "((message_type, type_route) router, 'a) eff \<Rightarrow> (('d, 'h, 'e) bus, 'a) eff" where
  "on_type_router e = zoom bus_type_router (\<lambda>r b. b\<lparr>bus_type_router := r\<rparr>) e"

definition on_signal_router :: "((string, 'h) router, 'a) eff \<Rightarrow> (('d, 'h, 'e) bus, 'a) eff" where
  "on_signal_router e = zoom bus_signal_router (\<lambda>r b. b\<lparr>bus_signal_router := r\<rparr>) e"

text \<open>What both constructors do once there is a connection.\<close>

definition wire_up :: "('d, 'm, 'p) connection \<Rightarrow> (('d, 'h, 'e) bus, unit) eff" where
  "wire_up K =
     then_eff (on_type_router (install_route Mt_signal To_signal_router))
       (on_conn (\<lambda>d. (Inr (), conn_add_filter K d)))"

definition new_bus :: "'d \<Rightarrow> ('d, 'h, 'e) bus" where
  "new_bus d = \<lparr>bus_conn = d, bus_type_router = new_router, bus_signal_router = new_router,
     bus_executor = None\<rparr>"

definition set_no_exit :: "('d, 'm, 'p) connection \<Rightarrow> (('d, 'h, 'e) bus, unit) eff" where
  "set_no_exit K = on_conn (\<lambda>d. (Inr (), conn_set_exit_on_disconnect K False d))"

text \<open>\<open>Hello\<close> has to be said on a connection that was opened by its address.\<close>

definition say_hello ::
  "('m, 'i, 'w) libdbus \<Rightarrow> ('d, 'm, 'p) connection \<Rightarrow> (('d, 'h, 'e) bus, unit) eff" where
  "say_hello L K =
     bind_eff (lift_res (make_method_call L ''org.freedesktop.DBus'' ''/org/freedesktop/DBus''
         ''org.freedesktop.DBus'' ''Hello''))
       (\<lambda>message. bind_eff (on_conn (send_with_reply_and_block_for_at_most K message 1000))
         (\<lambda>reply. if msg_type L reply = Mt_error
            then bind_eff (lift_res (msg_error L reply)) (\<lambda>e. throw_eff (throw_error_text e))
            else return_eff ()))"

text \<open>A constructor that throws leaves no bus, but what it did to the connection stays: the
  destructor is not called, and the deleter of the connection does nothing.\<close>

definition bus_or_error :: "(exn + unit) \<times> ('d, 'h, 'e) bus \<Rightarrow> (exn + ('d, 'h, 'e) bus) \<times> 'd" where
  "bus_or_error r = (case r of (Inl e, b) \<Rightarrow> (Inl e, bus_conn b) | (Inr _, b) \<Rightarrow> (Inr b, bus_conn b))"

definition construct_bus_for_address ::
  "('m, 'i, 'w) libdbus \<Rightarrow> ('d, 'm, 'p) connection \<Rightarrow> string \<Rightarrow> 'd
     \<Rightarrow> (exn + ('d, 'h, 'e) bus) \<times> 'd" where
  "construct_bus_for_address L K address d =
     (case conn_open_private K (c_str address) d of
        ((False, se), d) \<Rightarrow> (Inl (throw_error_text se), d)
      | ((True, se), d) \<Rightarrow>
          bus_or_error (then_eff (wire_up K) (then_eff (say_hello L K) (set_no_exit K)) (new_bus d)))"

datatype well_known_bus = Session_bus | System_bus | Starter_bus

fun well_known_bus_code :: "well_known_bus \<Rightarrow> int" where
  "well_known_bus_code Session_bus = 0"
| "well_known_bus_code System_bus = 1"
| "well_known_bus_code Starter_bus = 2"

definition construct_bus_well_known ::
  "('d, 'm, 'p) connection \<Rightarrow> int \<Rightarrow> 'd \<Rightarrow> (exn + ('d, 'h, 'e) bus) \<times> 'd" where
  "construct_bus_well_known K well_known d =
     (case conn_get_private K well_known d of
        ((False, se), d) \<Rightarrow> (Inl (throw_error_text se), d)
      | ((True, se), d) \<Rightarrow> bus_or_error (then_eff (wire_up K) (set_no_exit K) (new_bus d)))"

definition destroy_bus :: "('d, 'm, 'p) connection \<Rightarrow> ('d, 'h, 'e) bus \<Rightarrow> 'd" where
  "destroy_bus K b = conn_unref K (conn_close K (conn_remove_filter K (bus_conn b)))"

definition install_executor :: "'e \<Rightarrow> (('d, 'h, 'e) bus, unit) eff" where
  "install_executor e b = (Inr (), b\<lparr>bus_executor := Some e\<rparr>)"

definition bus_stop ::
  "('e \<Rightarrow> (('d, 'h, 'e) bus, unit) eff) \<Rightarrow> (('d, 'h, 'e) bus, unit) eff" where
  "bus_stop executor_stop b =
     (case bus_executor b of
        None \<Rightarrow> (Inl (Runtime_error ''Missing executor, cannot stop.''), b)
      | Some e \<Rightarrow> executor_stop e b)"

definition bus_run ::
  "('e \<Rightarrow> (('d, 'h, 'e) bus, unit) eff) \<Rightarrow> (('d, 'h, 'e) bus, unit) eff" where
  "bus_run executor_run b =
     (case bus_executor b of
        None \<Rightarrow> (Inl (Runtime_error ''Missing executor, cannot run.''), b)
      | Some e \<Rightarrow> executor_run e b)"

section \<open>Dispatching messages\<close>

text \<open>\<open>handle_message\<close>, on a state \<open>'s\<close> of which the bus is the part that \<open>get\<close> reads.\<close>

definition put_type_router ::
  "('s \<Rightarrow> ('d, 'h, 'e) bus) \<Rightarrow> (('d, 'h, 'e) bus \<Rightarrow> 's \<Rightarrow> 's) \<Rightarrow> (message_type, type_route) router
     \<Rightarrow> 's \<Rightarrow> 's" where
  "put_type_router get put r s = put (get s\<lparr>bus_type_router := r\<rparr>) s"

definition put_signal_router ::
  "('s \<Rightarrow> ('d, 'h, 'e) bus) \<Rightarrow> (('d, 'h, 'e) bus \<Rightarrow> 's \<Rightarrow> 's) \<Rightarrow> (string, 'h) router \<Rightarrow> 's \<Rightarrow> 's"
  where
  "put_signal_router get put r s = put (get s\<lparr>bus_signal_router := r\<rparr>) s"

definition route_signal ::
  "('s \<Rightarrow> ('d, 'h, 'e) bus) \<Rightarrow> (('d, 'h, 'e) bus \<Rightarrow> 's \<Rightarrow> 's) \<Rightarrow> ('m, 'i, 'w) libdbus
     \<Rightarrow> ('h \<Rightarrow> 'm \<Rightarrow> ('s, unit) eff) \<Rightarrow> 'm \<Rightarrow> ('s, bool) eff" where
  "route_signal get put L run =
     route_message (\<lambda>s. bus_signal_router (get s)) (put_signal_router get put) (msg_path L) run"

definition handle_message ::
  "('s \<Rightarrow> ('d, 'h, 'e) bus) \<Rightarrow> (('d, 'h, 'e) bus \<Rightarrow> 's \<Rightarrow> 's) \<Rightarrow> ('m, 'i, 'w) libdbus
     \<Rightarrow> ('h \<Rightarrow> 'm \<Rightarrow> ('s, unit) eff) \<Rightarrow> 'm \<Rightarrow> ('s, handler_result) eff" where
  "handle_message get put L run message =
     then_eff
       (route_message (\<lambda>s. bus_type_router (get s)) (put_type_router get put) (\<lambda>m. Inr (msg_type L m))
          (\<lambda>r m. then_eff (route_signal get put L run m) (return_eff ())) message)
       (return_eff Not_yet_handled)"

text \<open>The filter that libdbus calls.\<close>

definition static_handle_message ::
  "('s \<Rightarrow> ('d, 'h, 'e) bus) \<Rightarrow> (('d, 'h, 'e) bus \<Rightarrow> 's \<Rightarrow> 's) \<Rightarrow> ('m, 'i, 'w) libdbus
     \<Rightarrow> ('h \<Rightarrow> 'm \<Rightarrow> ('s, unit) eff) \<Rightarrow> 'm option \<Rightarrow> ('s, handler_result) eff" where
  "static_handle_message get put L run message =
     bind_eff (lift_res (from_raw_message message)) (handle_message get put L run)"

text \<open>\<open>VTable::on_new_message\<close>: \<open>lock\<close> is the object behind the weak pointer, if it is alive, and
  \<open>on_new_message\<close> its method.\<close>

definition vtable_on_new_message ::
  "('s \<Rightarrow> 'o option) \<Rightarrow> ('o \<Rightarrow> 'm \<Rightarrow> ('s, bool) eff) \<Rightarrow> 'm option \<Rightarrow> ('s, handler_result) eff"
  where
  "vtable_on_new_message lock on_new_message message s =
     (case lock s of
        None \<Rightarrow> (Inr Not_yet_handled, s)
      | Some sp \<Rightarrow>
          bind_eff (lift_res (from_raw_message message))
            (\<lambda>msg. bind_eff (on_new_message sp msg)
               (\<lambda>b. return_eff (if b then Handled else Not_yet_handled))) s)"

section \<open>Services\<close>

record service =
  service_name :: string
  service_stub :: bool

definition use_service :: "string \<Rightarrow> service" where
  "use_service name = \<lparr>service_name = name, service_stub = True\<rparr>"

definition use_service_or_throw_if_not_available ::
  "('d, 'm, 'p) connection \<Rightarrow> string \<Rightarrow> ('d, service) eff" where
  "use_service_or_throw_if_not_available K name =
     bind_eff (has_owner_for_name K name)
       (\<lambda>b. if \<not> b then throw_eff (Runtime_error (name @ '' is not owned on the bus''))
            else return_eff (use_service name))"

text \<open>The constructor that requests the name looks at the error first.\<close>

definition add_service ::
  "('d, 'm, 'p) connection \<Rightarrow> string \<Rightarrow> request_name_flag \<Rightarrow> ('d, service) eff" where
  "add_service K name flags d =
     (case conn_request_name K (c_str name) (flag_bits flags) d of ((rc, error), d) \<Rightarrow>
        (let result = \<lparr>service_name = name, service_stub = False\<rparr> in
         if error_is_set error then (Inl (throw_error_text error), d)
         else if rc = 1 then (Inr result, d)
         else if rc = 2 then (Inr result, d)
         else if rc = 3 then (Inl Already_owned, d)
         else if rc = 4 then (Inl Already_owner, d)
         else if rc = -1 then (Inl (throw_error_text error), d)
         else (Inr result, d)))"

definition service_add_match ::
  "('d, 'm, 'p) connection \<Rightarrow> service \<Rightarrow> match_rule \<Rightarrow> ('d, unit) eff" where
  "service_add_match K s rule = add_match K (with_sender rule (service_name s))"

definition service_remove_match ::
  "('d, 'm, 'p) connection \<Rightarrow> service \<Rightarrow> match_rule \<Rightarrow> ('d, unit) eff" where
  "service_remove_match K s rule = remove_match K (with_sender rule (service_name s))"

section \<open>Running the operations\<close>

lemma on_type_router_run:
  "e (bus_type_router b) = (r, t) \<Longrightarrow> on_type_router e b = (r, b\<lparr>bus_type_router := t\<rparr>)"
  unfolding on_type_router_def by (rule type_router_part.zoom_run)

lemma on_signal_router_run:
  "e (bus_signal_router b) = (r, t) \<Longrightarrow> on_signal_router e b = (r, b\<lparr>bus_signal_router := t\<rparr>)"
  unfolding on_signal_router_def by (rule signal_router_part.zoom_run)

lemma on_conn_run: "e (bus_conn b) = (r, d) \<Longrightarrow> on_conn e b = (r, b\<lparr>bus_conn := d\<rparr>)"
  unfolding on_conn_def by (rule conn_part.zoom_run)

lemma wire_up_run:
  "wire_up K (new_bus d) = (Inr (), (new_bus d)\<lparr>bus_type_router := put_route Mt_signal To_signal_router new_router,
      bus_conn := conn_add_filter K d\<rparr>)"
  by (simp add: wire_up_def then_eff_Inr on_type_router_run on_conn_run new_bus_def install_route_run
      new_router_def)

text \<open>A bus as the constructors leave it: free locks, and signals as the only type that is routed.\<close>

definition wired :: "('d, 'h, 'e) bus \<Rightarrow> bool" where
  "wired b \<longleftrightarrow> \<not> router_guard (bus_type_router b) \<and> \<not> router_guard (bus_signal_router b)
     \<and> (\<forall>t. router_table (bus_type_router b) t = (if t = Mt_signal then Some To_signal_router else None))"

definition constructed_bus :: "'d \<Rightarrow> ('d, 'h, 'e) bus" where
  "constructed_bus d = (new_bus d)\<lparr>bus_type_router := put_route Mt_signal To_signal_router new_router\<rparr>"

lemma wired_up_or_error:
  "bus_or_error (then_eff (wire_up K) (set_no_exit K) (new_bus d))
     = (let d = conn_set_exit_on_disconnect K False (conn_add_filter K d) in (Inr (constructed_bus d), d))"
  by (simp only: then_eff_def bind_eff_def wire_up_run)
     (simp add: set_no_exit_def bus_or_error_def on_conn_def zoom_def constructed_bus_def new_bus_def
       Let_def)

lemma construct_bus_well_known_eq:
  "construct_bus_well_known K n d =
     (case conn_get_private K n d of
        ((ok, se), d) \<Rightarrow>
          if ok then (let d = conn_set_exit_on_disconnect K False (conn_add_filter K d) in
                      (Inr (constructed_bus d), d))
          else (Inl (throw_error_text se), d))"
  by (simp add: construct_bus_well_known_def wired_up_or_error split: prod.split bool.split)

lemma constructed_bus_wired:
  "wired (constructed_bus d)" "router_table (bus_signal_router (constructed_bus d)) p = None"
  by (simp_all add: wired_def constructed_bus_def new_bus_def new_router_def put_route_def)

lemma construct_bus_well_known_run:
  assumes "fst (construct_bus_well_known K n d) = Inr b"
  shows "wired b \<and> router_table (bus_signal_router b) p = None"
proof -
  obtain d' where "b = constructed_bus d'"
    using assms by (auto simp: construct_bus_well_known_eq Let_def split: prod.splits if_splits)
  then show ?thesis by (simp add: constructed_bus_wired)
qed

lemma route_signal_run:
  assumes "\<not> router_guard (bus_signal_router (get s))" and "put (get s) s = s"
  shows "route_signal get put L run msg s =
     (case msg_path L msg of
        Inl e \<Rightarrow> (Inl e, s)
      | Inr k \<Rightarrow> (case router_table (bus_signal_router (get s)) k of
                   None \<Rightarrow> (Inr False, s)
                 | Some h \<Rightarrow> then_eff (run h msg) (return_eff True) s))"
  unfolding route_signal_def
  by (rule route_message_run) (use assms in \<open>simp_all add: put_signal_router_def\<close>)

lemma handle_message_run:
  assumes "wired (get s)" and "put (get s) s = s"
  shows "handle_message get put L run msg s =
     (if msg_type L msg = Mt_signal
      then then_eff (route_signal get put L run msg) (return_eff Not_yet_handled) s
      else (Inr Not_yet_handled, s))"
proof -
  have "route_message (\<lambda>s. bus_type_router (get s)) (put_type_router get put) (\<lambda>m. Inr (msg_type L m))
      (\<lambda>r m. then_eff (route_signal get put L run m) (return_eff ())) msg s
     = (case router_table (bus_type_router (get s)) (msg_type L msg) of
          None \<Rightarrow> (Inr False, s)
        | Some h \<Rightarrow> then_eff (then_eff (route_signal get put L run msg) (return_eff ())) (return_eff True) s)"
    using assms by (subst route_message_run) (simp_all add: wired_def put_type_router_def)
  then show ?thesis
    using assms(1)
    by (auto simp: handle_message_def wired_def then_eff_def bind_eff_def return_eff_def
        split: prod.split sum.split)
qed

section \<open>What a bus does with a message\<close>


text \<open>A connection that does nothing, for the witnesses.\<close>

definition idle_connection :: "(unit, 'm, 'p) connection" where
  "idle_connection =
     \<lparr>conn_open_private = (\<lambda>a d. ((True, None), d)), conn_get_private = (\<lambda>n d. ((True, None), d)),
      conn_add_filter = (\<lambda>d. d), conn_remove_filter = (\<lambda>d. d), conn_close = (\<lambda>d. d),
      conn_unref = (\<lambda>d. d), conn_set_exit_on_disconnect = (\<lambda>b d. d),
      conn_send = (\<lambda>m d. (Some 1, d)), conn_send_and_block = (\<lambda>m n d. ((None, None), d)),
      conn_send_with_reply = (\<lambda>m n d. ((True, None), d)),
      conn_add_match = (\<lambda>r d. (None, d)), conn_remove_match = (\<lambda>r d. (None, d)),
      conn_request_name = (\<lambda>n f d. ((1, None), d)), conn_release_name = (\<lambda>n d. ((1, None), d)),
      conn_name_has_owner = (\<lambda>n d. (True, d)),
      conn_try_register_path = (\<lambda>p obj d. ((True, None), d)), conn_unregister_path = (\<lambda>p d. d)\<rparr>"

definition idle_bus :: "(unit, nat, unit) bus" where
  "idle_bus = constructed_bus ()"


section \<open>A constructor that fails\<close>

text \<open>
  C39. A bus that cannot introduce itself leaves its filter behind. If \<open>Hello\<close> fails, that is the call
  that blocks yields no message (the daemon answered with an error, the second was over, the connection
  was lost), the constructor throws the text of the error; the connection stays as the call left it: the
  filter that refers to the bus that does not exist is not removed and the connection is not closed.
\<close>

theorem failed_hello_leaves_filter:
  assumes "conn_open_private K (c_str address) d = ((True, se), d1)"
    and "make_method_call L ''org.freedesktop.DBus'' ''/org/freedesktop/DBus'' ''org.freedesktop.DBus'' ''Hello''
       = Inr hello"
    and "conn_send_and_block K hello 1000 (conn_add_filter K d1) = ((None, e), d2)"
  shows "(construct_bus_for_address L K address d :: (exn + ('d, 'h, 'e) bus) \<times> 'd)
     = (Inl (throw_error_text e), d2)"
proof -
  let ?b = "(new_bus d1 :: ('d, 'h, 'e) bus)\<lparr>bus_type_router := put_route Mt_signal To_signal_router new_router,
      bus_conn := conn_add_filter K d1\<rparr>"
  have "on_conn (send_with_reply_and_block_for_at_most K hello 1000) ?b
      = (Inl (throw_error_text e), ?b\<lparr>bus_conn := d2\<rparr>)"
    using assms(3)
    by (simp add: on_conn_def zoom_def send_with_reply_and_block_for_at_most_def to_c_int_def)
  then have "say_hello L K ?b = (Inl (throw_error_text e), ?b\<lparr>bus_conn := d2\<rparr>)"
    using assms(2) by (simp add: say_hello_def lift_res_def bind_eff_Inr bind_eff_def)
  then show ?thesis
    using assms(1)
    by (simp add: construct_bus_for_address_def then_eff_def bind_eff_def wire_up_run bus_or_error_def
        split: prod.split sum.split)
qed

text \<open>A connection that counts its filters and refuses \<open>Hello\<close>.\<close>

definition refusing_connection :: "(nat, list_message, unit) connection" where
  "refusing_connection =
     \<lparr>conn_open_private = (\<lambda>a d. ((True, None), d)), conn_get_private = (\<lambda>n d. ((True, None), d)),
      conn_add_filter = Suc, conn_remove_filter = (\<lambda>d. d - 1), conn_close = (\<lambda>d. d),
      conn_unref = (\<lambda>d. d), conn_set_exit_on_disconnect = (\<lambda>b d. d),
      conn_send = (\<lambda>m d. (Some 1, d)),
      conn_send_and_block = (\<lambda>m n d. ((None, Some (''e'', ''no'')), d)),
      conn_send_with_reply = (\<lambda>m n d. ((True, None), d)),
      conn_add_match = (\<lambda>r d. (None, d)), conn_remove_match = (\<lambda>r d. (None, d)),
      conn_request_name = (\<lambda>n f d. ((1, None), d)), conn_release_name = (\<lambda>n d. ((1, None), d)),
      conn_name_has_owner = (\<lambda>n d. (True, d)),
      conn_try_register_path = (\<lambda>p obj d. ((True, None), d)), conn_unregister_path = (\<lambda>p d. d)\<rparr>"

theorem failed_hello_leaves_filter_witness:
  "(construct_bus_for_address list_libdbus refusing_connection ''unix:x'' 0
      :: (exn + (nat, nat, unit) bus) \<times> nat) = (Inl (Runtime_error ''e: no''), 1)"
  using failed_hello_leaves_filter [of refusing_connection "''unix:x''" 0 None 0 list_libdbus
      "(new_list_message 1)\<lparr>lm_destination := Some ''org.freedesktop.DBus'',
         lm_path := Some ''/org/freedesktop/DBus'', lm_interface := Some ''org.freedesktop.DBus'',
         lm_member := Some ''Hello''\<rparr>" "Some (''e'', ''no'')" 1]
  by (simp add: refusing_connection_def list_libdbus_def make_method_call_def construct_message_def
      new_list_message_def)

section \<open>Timeouts\<close>


end
