(* ===== verification/Codec_Roundtrip.thy ===== *)
theory Codec_Roundtrip
  imports Codec_Correct
begin

text \<open>
  Reading back what was written. \<open>yields den m ds P\<close>: where the iterator still has \<open>ds\<close> before
  it, \<open>m\<close> returns a result that satisfies \<open>P\<close> and has consumed exactly \<open>ds\<close>. As for \<open>emits\<close>,
  there is one lemma for each form of code.

  The value that is received is the value that was sent (\<open>received\<close>), except that a variant
  arrives as a variant that holds a reader of its contents; \<open>as<T>()\<close> reads them from there.
\<close>

section \<open>Consuming values\<close>

definition yields ::
  "('i \<Rightarrow> dval list \<Rightarrow> bool) \<Rightarrow> ('i, 'a) eff \<Rightarrow> dval list \<Rightarrow> ('a \<Rightarrow> bool) \<Rightarrow> bool" where
  "yields den m ds P \<longleftrightarrow>
     (\<forall>i rest. den i (ds @ rest) \<longrightarrow> (\<exists>x i'. m i = (Inr x, i') \<and> den i' rest \<and> P x))"

lemma yields_run:
  assumes "yields den m ds P" and "den i (ds @ rest)"
  obtains x i' where "m i = (Inr x, i')" and "den i' rest" and "P x"
  using assms unfolding yields_def by blast

lemma yieldsI:
  assumes "\<And>i rest. den i (ds @ rest) \<Longrightarrow> \<exists>x i'. m i = (Inr x, i') \<and> den i' rest \<and> P x"
  shows "yields den m ds P"
  using assms by (simp add: yields_def)

lemma yields_return: "P x \<Longrightarrow> yields den (return_eff x) [] P"
  by (simp add: yields_def return_eff_def)

lemma yields_bind:
  assumes "yields den m ds P" and "\<And>x. P x \<Longrightarrow> yields den (f x) ds' Q"
  shows "yields den (bind_eff m f) (ds @ ds') Q"
proof (rule yieldsI)
  fix i rest
  assume "den i ((ds @ ds') @ rest)"
  then have "den i (ds @ ds' @ rest)" by simp
  then obtain x j where 1: "m i = (Inr x, j)" and "den j (ds' @ rest)" and "P x"
    by (rule yields_run [OF assms(1)])
  then obtain y k where "f x j = (Inr y, k)" and "den k rest" and "Q y"
    using yields_run [OF assms(2)] by metis
  then show "\<exists>x i'. bind_eff m f i = (Inr x, i') \<and> den i' rest \<and> Q x"
    using 1 by (auto simp: bind_eff_def)
qed

lemma yields_map:
  assumes "yields den m ds P" and "\<And>x. P x \<Longrightarrow> Q (f x)"
  shows "yields den (bind_eff m (\<lambda>x. return_eff (f x))) ds Q"
  using yields_bind [OF assms(1), of "\<lambda>x. return_eff (f x)" "[]" Q] assms(2)
  by (simp add: yields_return)

lemma yields_container:
  assumes "reads L den" and "\<And>i. pop i = (Inr (iter_recurse L i), iter_next L i)"
    and "yields den body xs P"
  shows "yields den (bind_eff pop (\<lambda>j. on_reader j body)) [D_container c sg xs] P"
proof (rule yieldsI)
  fix i rest
  assume d: "den i ([D_container c sg xs] @ rest)"
  then have "den (iter_recurse L i) (xs @ [])"
    using reads_recurse [OF assms(1), of i c sg xs rest] by simp
  then obtain x j where "body (iter_recurse L i) = (Inr x, j)" and "P x"
    by (rule yields_run [OF assms(3)])
  moreover have "den (iter_next L i) rest"
    using d reads_next [OF assms(1)] by simp
  ultimately show "\<exists>x i'. bind_eff pop (\<lambda>j. on_reader j body) i = (Inr x, i')
      \<and> den i' rest \<and> P x"
    by (simp add: bind_eff_def assms(2) on_reader_def)
qed

text \<open>The loop over the elements of a container, with an invariant on the elements seen so far.\<close>

lemma loop_run:
  assumes "reads L den" and "\<And>x. x \<in> set xs \<Longrightarrow> argument_type_of (dtype (d x)) \<noteq> At_invalid"
    and step: "\<And>ys x zs acc. xs = ys @ x # zs \<Longrightarrow> I ys acc \<Longrightarrow> yields den (c acc) [d x] (I (ys @ [x]))"
    and "xs = ys @ zs" and "I ys acc" and "den j (map d zs)"
  shows "\<exists>acc' j'. loop_eff (\<lambda>j. reader_type L j \<noteq> At_invalid) c acc j = (Inr acc', j')
           \<and> den j' [] \<and> I xs acc'"
  using assms(4-6)
proof (induction zs arbitrary: ys acc j)
  case Nil
  then have "reader_type L j = At_invalid"
    using reader_type_end [OF assms(1)] by simp
  then show ?case using Nil by (simp add: loop_eff_stop)
next
  case (Cons x zs)
  have t: "reader_type L j \<noteq> At_invalid"
    using reader_type_den [OF assms(1)] Cons.prems assms(2) [of x] by fastforce
  have y: "yields den (c acc) [d x] (I (ys @ [x]))"
    using step Cons.prems by blast
  have "den j ([d x] @ map d zs)"
    using Cons.prems by simp
  then obtain acc1 j1 where 1: "c acc j = (Inr acc1, j1)" and "den j1 (map d zs)"
    and "I (ys @ [x]) acc1"
    by (rule yields_run [OF y])
  then obtain acc' j' where "loop_eff (\<lambda>j. reader_type L j \<noteq> At_invalid) c acc1 j1 = (Inr acc', j')"
    and "den j' []" and "I xs acc'"
    using Cons.IH [of "ys @ [x]" acc1 j1] Cons.prems by auto
  then show ?case 
    using loop_eff_step [where b = "\<lambda>j. reader_type L j \<noteq> At_invalid" and c = c and a = acc
        and s = j, OF t 1] by blast
qed

lemma yields_loop:
  assumes "reads L den" and "\<And>x. x \<in> set xs \<Longrightarrow> argument_type_of (dtype (d x)) \<noteq> At_invalid"
    and "\<And>ys x zs acc. xs = ys @ x # zs \<Longrightarrow> I ys acc \<Longrightarrow> yields den (c acc) [d x] (I (ys @ [x]))"
    and "I [] a" and "\<And>i. pop i = (Inr (iter_recurse L i), iter_next L i)"
  shows "yields den
     (bind_eff pop (\<lambda>j. on_reader j (loop_eff (\<lambda>j. reader_type L j \<noteq> At_invalid) c a)))
     [D_container k sg (map d xs)] (I xs)"
proof (rule yieldsI)
  fix i rest
  assume den: "den i ([D_container k sg (map d xs)] @ rest)"
  then have "den (iter_recurse L i) (map d xs)" and "den (iter_next L i) rest"
    using reads_recurse [OF assms(1), of i k sg "map d xs" rest] reads_next [OF assms(1)] by simp_all
  moreover have "\<exists>acc' j'. loop_eff (\<lambda>j. reader_type L j \<noteq> At_invalid) c a (iter_recurse L i)
      = (Inr acc', j') \<and> den j' [] \<and> I xs acc'" if "den (iter_recurse L i) (map d xs)"
    by (rule loop_run [where ys = "[]" and zs = xs and I = I and c = c and acc = a,
          OF assms(1) assms(2) assms(3) _ assms(4) that]) simp_all
  ultimately show "\<exists>x i'. bind_eff pop (\<lambda>j. on_reader j
        (loop_eff (\<lambda>j. reader_type L j \<noteq> At_invalid) c a)) i = (Inr x, i')
      \<and> den i' rest \<and> I xs x"
    by (auto simp: bind_eff_def assms(5) on_reader_def)
qed

lemma yields_pop:
  assumes "reads L den" and "at_named t" and "\<And>i. get_basic_is L i r \<Longrightarrow> get i = v"
  shows "yields den (then_eff (ensure_argument_type_or_throw L t) (get_basic_next L get))
     [D_basic (at_code t) r] (\<lambda>x. x = v)"
  using pop_basic_ok [OF assms(1) _ assms(2,3)] by (auto simp: yields_def)

lemma codec_apply_decode_list_all2:
  assumes "\<And>k w. k < length decs \<Longrightarrow> yields den ((decs ! k) (t ! k)) (ds ! k) (Q k)"
    and "length t = length decs" and "length ds = length decs" and "n < length decs"
    and "\<And>k. k < length decs - n - 1 \<Longrightarrow> Q k (t' ! k)"
    and "\<And>k. length decs - n - 1 \<le> k \<Longrightarrow> k < length decs \<Longrightarrow> t' ! k = t ! k"
    and "length t' = length decs"
  shows "yields den (codec_apply_decode decs n (length decs) t')
     (concat (drop (length decs - n - 1) ds)) (\<lambda>r. length r = length decs \<and> (\<forall>k < length decs. Q k (r ! k)))"
  using assms(4-7)
proof (induction n arbitrary: t')
  case 0
  let ?k = "length decs - 1"
  have "drop ?k ds = [ds ! ?k]"
    using 0 assms(3) Cons_nth_drop_Suc [of ?k ds] by simp
  moreover have "yields den ((decs ! ?k) (t' ! ?k)) (ds ! ?k) (Q ?k)"
    using assms(1) [of ?k] 0 by simp
  ultimately show ?case
    using 0 by (auto intro!: yields_map simp: nth_list_update)
next
  case (Suc n)
  let ?k = "length decs - Suc n - 1"
  have k: "?k < length ds" and sk: "Suc ?k = length decs - n - 1"
    using Suc.prems assms(3) by simp_all
  have "drop ?k ds = ds ! ?k # drop (length decs - n - 1) ds"
    using Cons_nth_drop_Suc [OF k] sk by simp
  moreover have "yields den ((decs ! ?k) (t' ! ?k)) (ds ! ?k) (Q ?k)"
    using assms(1) [of ?k] Suc.prems by simp
  moreover have "yields den (codec_apply_decode decs n (length decs) (t'[?k := x]))
      (concat (drop (length decs - n - 1) ds))
      (\<lambda>r. length r = length decs \<and> (\<forall>k < length decs. Q k (r ! k)))" if "Q ?k x" for x
  proof (rule Suc.IH)
    fix k
    assume "k < length decs - n - 1"
    then show "Q k (t'[?k := x] ! k)"
      using that Suc.prems sk by (cases "k = ?k") auto
  qed (use Suc.prems in auto)
  ultimately show ?case by (simp add: yields_bind)
qed

section \<open>What is received\<close>

fun plain :: "'i cval \<Rightarrow> bool" where
  "plain (V_any a) = False"
| "plain (V_variant e d a s) = False"
| "plain (V_vector vs) = False"
| "plain (V_map kvs) = False"
| "plain (V_pair v w) = False"
| "plain (V_tuple vs) = False"
| "plain (V_struct v) = False"
| "plain (V_typed_variant v) = False"
| "plain v = True"

inductive received ::
  "float_conversions \<Rightarrow> ('i \<Rightarrow> dval list \<Rightarrow> bool) \<Rightarrow> 'i cval \<Rightarrow> 'i cval \<Rightarrow> bool"
  for F den where
  received_plain: "plain v \<Longrightarrow> received F den v v"
| received_variant: "den j (dvals_of F t x)
    \<Longrightarrow> received F den (V_variant (Some (t, x)) d a s) (V_variant None True (Some j) [])"
| received_vector: "length vs' = length vs
    \<Longrightarrow> (\<And>k. k < length vs \<Longrightarrow> received F den (vs ! k) (vs' ! k))
    \<Longrightarrow> received F den (V_vector vs) (V_vector vs')"
| received_map: "length kvs' = length kvs
    \<Longrightarrow> (\<And>k. k < length kvs \<Longrightarrow> fst (kvs' ! k) = fst (kvs ! k)
           \<and> received F den (snd (kvs ! k)) (snd (kvs' ! k)))
    \<Longrightarrow> received F den (V_map kvs) (V_map kvs')"
| received_tuple: "length vs' = length vs
    \<Longrightarrow> (\<And>k. k < length vs \<Longrightarrow> received F den (vs ! k) (vs' ! k))
    \<Longrightarrow> received F den (V_tuple vs) (V_tuple vs')"
| received_struct: "received F den v v' \<Longrightarrow> received F den (V_struct v) (V_struct v')"

inductive_cases received_variantE: "received F den (V_variant e d a s) v'"
inductive_cases received_vectorE: "received F den (V_vector vs) v'"
inductive_cases received_mapE: "received F den (V_map kvs) v'"
inductive_cases received_tupleE: "received F den (V_tuple vs) v'"
inductive_cases received_structE: "received F den (V_struct v) v'"

lemma received_plain_eq: "received F den v v' \<Longrightarrow> plain v \<Longrightarrow> v' = v"
  by (induction rule: received.induct) simp_all

text \<open>Values that keep their meaning on the way: strings without a zero, valid object paths, and
  floating point numbers that survive the conversion.\<close>

function clean :: "('m, 'i, 'w) libdbus \<Rightarrow> float_conversions \<Rightarrow> 'i cval \<Rightarrow> bool" where
  "clean L F (V_byte v) = True"
| "clean L F (V_boolean v) = True"
| "clean L F (V_int16 v) = True"
| "clean L F (V_uint16 v) = True"
| "clean L F (V_int32 v) = True"
| "clean L F (V_uint32 v) = True"
| "clean L F (V_int64 v) = True"
| "clean L F (V_uint64 v) = True"
| "clean L F (V_float v) = (narrow F (widen F v) = v)"
| "clean L F (V_double v) = True"
| "clean L F (V_string v) = (CHR 0x00 \<notin> set v)"
| "clean L F (V_object_path v) = (CHR 0x00 \<notin> set v \<and> validate_path L v)"
| "clean L F (V_signature v) = (CHR 0x00 \<notin> set v)"
| "clean L F (V_unix_fd v) = True"
| "clean L F (V_any v) = True"
| "clean L F (V_variant e d a s) = (case e of None \<Rightarrow> True | Some p \<Rightarrow> clean L F (snd p))"
| "clean L F (V_vector vs) = (\<forall>v \<in> set vs. clean L F v)"
| "clean L F (V_map kvs) = (\<forall>p \<in> set kvs. clean L F (fst p) \<and> clean L F (snd p))"
| "clean L F (V_pair v w) = (clean L F v \<and> clean L F w)"
| "clean L F (V_tuple vs) = (\<forall>v \<in> set vs. clean L F v)"
| "clean L F (V_struct v) = clean L F v"
| "clean L F (V_typed_variant v) = clean L F v"
  by pat_completeness auto

termination clean
proof (relation "measure (\<lambda>(L, F, v). size v)", goal_cases)
  case (2 L F e d a s p)
  then show ?case by (cases p) simp
next
  case (4 L F kvs p)
  then show ?case using size_map_value [of "fst p" "snd p" kvs] by simp
next
  case (5 L F kvs p)
  then show ?case using size_map_value [of "fst p" "snd p" kvs] by simp
qed (simp_all add: size_list_value)

lemma map_put_last:
  "\<forall>p \<in> set m. lt (fst p) k \<Longrightarrow> map_put lt k x m = m @ [(k, x)]"
  by (induction m) auto

section \<open>Decoding\<close>

lemmas codec_basic_decodes = codec_byte_decode_def codec_boolean_decode_def
  codec_int16_decode_def codec_uint16_decode_def codec_int32_decode_def codec_uint32_decode_def
  codec_int64_decode_def codec_uint64_decode_def codec_double_decode_def codec_float_decode_def
  codec_string_decode_def codec_object_path_decode_def codec_signature_decode_def
  codec_unix_fd_decode_def

lemma yields_pop_string:
  "reads L den \<Longrightarrow> yields den (pop_string L) [D_basic (at_code At_string) (Raw_str s)] (\<lambda>x. x = Some s)"
  using pop_string_ok [of L den] by (auto simp: yields_def simp del: at_code.simps)

lemma yields_pop_object_path:
  "reads L den \<Longrightarrow> validate_path L (c_str s)
     \<Longrightarrow> yields den (pop_object_path L) [D_basic (at_code At_object_path) (Raw_str s)] (\<lambda>x. x = s)"
  using pop_object_path_ok [of L den] by (auto simp: yields_def simp del: at_code.simps)

lemma yields_pop_signature:
  "reads L den \<Longrightarrow> yields den (pop_signature L) [D_basic (at_code At_signature) (Raw_str s)] (\<lambda>x. x = s)"
  using pop_signature_ok [of L den] by (auto simp: yields_def simp del: at_code.simps)

lemma dval_type_valid:
  assumes "single_type t" and "sendable t v" and "dvals_of F t v = [d]"
  shows "argument_type_of (dtype d) \<noteq> At_invalid"
  using assms by (cases v) (auto simp: argument_type_of_eq_iff split: ctype.splits option.splits)

lemma yields_vector:
  assumes "reads L den" and "\<And>x. x \<in> set xs \<Longrightarrow> argument_type_of (dtype (d x)) \<noteq> At_invalid"
    and "\<And>x. x \<in> set xs \<Longrightarrow> yields den dec [d x] (P x)"
  shows "yields den (codec_vector_decode L dec out) [D_container c sg (map d xs)]
     (\<lambda>r. \<exists>ys. r = out @ ys \<and> list_all2 P xs ys)"
  unfolding codec_vector_decode_def
proof (rule yields_loop [where I = "\<lambda>zs r. \<exists>ys. r = out @ ys \<and> list_all2 P zs ys", OF assms(1,2)])
  fix ys x zs acc
  assume xs: "xs = ys @ x # zs" and acc: "\<exists>rs. acc = out @ rs \<and> list_all2 P ys rs"
  have "yields den dec [d x] (P x)" using assms(3) xs by simp
  then show "yields den (bind_eff dec (\<lambda>value. return_eff (acc @ [value]))) [d x]
      (\<lambda>r. \<exists>rs. r = out @ rs \<and> list_all2 P (ys @ [x]) rs)"
  proof (rule yields_map)
    fix v
    assume "P x v"
    then show "\<exists>rs. acc @ [v] = out @ rs \<and> list_all2 P (ys @ [x]) rs"
      using acc by (metis append.assoc list_all2_Cons list_all2_Nil list_all2_appendI)
  qed
qed (simp_all add: pop_array_def)

lemma yields_map_decode:
  assumes "reads L den"
    and "\<And>p. p \<in> set kvs \<Longrightarrow> yields den dec (d p) (\<lambda>q. fst q = fst p \<and> P (snd p) (snd q))"
    and "sorted_wrt lt (map fst kvs)"
  shows "yields den (codec_map_decode L lt dec out)
     [D_container c sg (map (\<lambda>p. D_container (at_code At_dictionary_entry) None (d p)) kvs)]
     (\<lambda>r. list_all2 (\<lambda>p q. fst q = fst p \<and> P (snd p) (snd q)) kvs r)"
  unfolding codec_map_decode_def Let_def
proof (rule yields_loop [where xs = kvs and I = "\<lambda>ps. list_all2 (\<lambda>p q. fst q = fst p \<and> P (snd p) (snd q)) ps",
      OF assms(1)])
  fix ys p zs acc
  assume kvs: "kvs = ys @ p # zs" and acc: "list_all2 (\<lambda>p q. fst q = fst p \<and> P (snd p) (snd q)) ys acc"
  have "map fst acc = map fst ys"
    using acc by (induction rule: list_all2_induct) simp_all
  then have keys: "fst ` set acc = fst ` set ys"
    by (metis list.set_map)
  have "\<forall>k \<in> fst ` set acc. lt k (fst p)"
    unfolding keys using assms(3) kvs by (simp add: sorted_wrt_append)
  then have "\<forall>q \<in> set acc. lt (fst q) (fst p)"
    by simp
  then have put: "map_put lt (fst p) x acc = acc @ [(fst p, x)]" for x
    by (rule map_put_last)
  have "yields den dec (d p) (\<lambda>q. fst q = fst p \<and> P (snd p) (snd q))"
    using assms(2) kvs by simp
  then have "yields den (bind_eff (pop_dict_entry L) (\<lambda>de. on_reader de dec))
      [D_container (at_code At_dictionary_entry) None (d p)] (\<lambda>q. fst q = fst p \<and> P (snd p) (snd q))"
    by (rule yields_container [OF assms(1), rotated]) (simp add: pop_dict_entry_def)
  then have "yields den (bind_eff (bind_eff (pop_dict_entry L) (\<lambda>de. on_reader de dec))
        (\<lambda>v. return_eff (map_put lt (fst v) (snd v) acc)))
      [D_container (at_code At_dictionary_entry) None (d p)]
      (list_all2 (\<lambda>p q. fst q = fst p \<and> P (snd p) (snd q)) (ys @ [p]))"
    by (rule yields_map) (auto simp: put intro!: list_all2_appendI acc)
  then show "yields den (bind_eff (pop_dict_entry L)
        (\<lambda>de. bind_eff (on_reader de dec) (\<lambda>v. return_eff (map_put lt (fst v) (snd v) acc))))
      [D_container (at_code At_dictionary_entry) None (d p)]
      (list_all2 (\<lambda>p q. fst q = fst p \<and> P (snd p) (snd q)) (ys @ [p]))"
    by (simp add: bind_assoc)
qed (simp_all add: pop_array_def argument_type_of_eq_iff)

lemma yields_variant:
  "reads L den \<Longrightarrow> yields den dec xs P
     \<Longrightarrow> yields den (codec_variant_decode L (Some dec)) [D_container c sg xs] P"
  unfolding codec_variant_decode_def variant_decode_def option.case
  by (rule yields_container) (simp_all add: pop_variant_def)

lemma yields_struct:
  "reads L den \<Longrightarrow> yields den dec xs P
     \<Longrightarrow> yields den (codec_struct_decode L dec) [D_container c sg xs] P"
  unfolding codec_struct_decode_def
  by (rule yields_container) (simp_all add: pop_structure_def)

text \<open>A variant keeps a reader for its contents.\<close>

lemma codec_variant_decode_any:
  assumes "reads L den" and "den i (D_container c sg xs # rest)"
  shows "codec_variant_decode L (Some codec_any_decode) i = (Inr (Some (iter_recurse L i)), iter_next L i)
     \<and> den (iter_recurse L i) xs \<and> den (iter_next L i) rest"
  using reads_recurse [OF assms] reads_next [OF assms]
  by (simp add: codec_variant_decode_def pop_variant_def bind_eff_def on_reader_def
      variant_decode_def codec_any_decode_def)

lemma yields_any_variant:
  "reads L den \<Longrightarrow> yields den (codec_variant_decode L (Some codec_any_decode)) [D_container c sg xs]
     (\<lambda>a. \<exists>j. a = Some j \<and> den j xs)"
  using codec_variant_decode_any [of L den] by (fastforce simp: yields_def)

lemma yields_pair:
  "yields den (dec1 a) ds P \<Longrightarrow> yields den (dec2 b) ds' Q
     \<Longrightarrow> yields den (codec_pair_decode dec1 dec2 (a, b)) (ds @ ds') (\<lambda>r. P (fst r) \<and> Q (snd r))"
  unfolding codec_pair_decode_def
  by (auto intro!: yields_bind [where P = P] yields_map [where P = Q])

lemma received_vector_all2:
  "list_all2 (received F den) vs ws \<Longrightarrow> received F den (V_vector vs) (V_vector ws)"
  by (auto intro!: received_vector simp: list_all2_conv_all_nth)

lemma received_map_all2:
  "list_all2 (\<lambda>p q. fst q = fst p \<and> received F den (snd p) (snd q)) kvs ls
     \<Longrightarrow> received F den (V_map kvs) (V_map ls)"
  by (auto intro!: received_map simp: list_all2_conv_all_nth)

lemma key_plain: "key_type k \<Longrightarrow> sendable k v \<Longrightarrow> plain v"
  by (cases v) (auto split: ctype.splits option.splits)

lemma yields_weaken: "yields den m ds P \<Longrightarrow> (\<And>x. P x \<Longrightarrow> Q x) \<Longrightarrow> yields den m ds Q"
  unfolding yields_def by blast

lemma decode_vector_yields:
  assumes "reads L den" and u: "single_type u" and vs: "\<forall>v \<in> set vs. sendable u v"
    and IH: "\<And>v. v \<in> set vs \<Longrightarrow>
       yields den (decode L F u (default_val u)) (dvals_of F u v) (received F den v)"
  shows "yields den (codec_vector_decode L (decode L F u (default_val u)) out)
     [D_container c sg (concat (map (dvals_of F u) vs))]
     (\<lambda>r. \<exists>ws. r = out @ ws \<and> list_all2 (received F den) vs ws)"
proof -
  let ?d = "\<lambda>v. hd (dvals_of F u v)"
  have one: "dvals_of F u v = [?d v]" if "v \<in> set vs" for v
    using single_one [OF u, of v F] vs that by (metis list.sel(1))
  have "yields den (decode L F u (default_val u)) [?d v] (received F den v)"
    if "v \<in> set vs" for v
    using IH [OF that] one [OF that] by simp
  moreover have "argument_type_of (dtype (?d v)) \<noteq> At_invalid" if "v \<in> set vs" for v
    using dval_type_valid [OF u _ one [OF that]] vs that by blast
  ultimately have "yields den (codec_vector_decode L (decode L F u (default_val u)) out)
      [D_container c sg (map ?d vs)] (\<lambda>r. \<exists>ws. r = out @ ws \<and> list_all2 (received F den) vs ws)"
    by (intro yields_vector [OF assms(1)])
  moreover have "concat (map (dvals_of F u) vs) = map ?d vs"
    by (rule concat_map_single) (rule one)
  ultimately show ?thesis by simp
qed

lemma decode_tuple_yields:
  assumes ts: "ts \<noteq> []" and l: "length vs = length ts"
    and IH: "\<And>t v. (t, v) \<in> set (zip ts vs) \<Longrightarrow>
       yields den (decode L F t (default_val t)) (dvals_of F t v) (received F den v)"
  shows "yields den (codec_tuple_decode (map (decode L F) ts) (map default_val ts))
     (concat (map (\<lambda>p. dvals_of F (fst p) (snd p)) (zip ts vs)))
     (\<lambda>ws. received F den (V_tuple vs) (V_tuple ws))"
proof -
  let ?ds = "map (\<lambda>p. dvals_of F (fst p) (snd p)) (zip ts vs)"
  have "yields den ((map (decode L F) ts ! k) (map default_val ts ! k)) (?ds ! k) (received F den (vs ! k))"
    if "k < length (map (decode L F) ts)" for k
    using IH [of "ts ! k" "vs ! k"] that l by (simp add: set_zip) blast
  then have "yields den (codec_apply_decode (map (decode L F) ts) (length ts - 1)
        (length (map (decode L F) ts)) (map default_val ts))
      (concat (drop (length (map (decode L F) ts) - (length ts - 1) - 1) ?ds))
      (\<lambda>r. length r = length (map (decode L F) ts)
         \<and> (\<forall>k < length (map (decode L F) ts). received F den (vs ! k) (r ! k)))"
    by (rule codec_apply_decode_list_all2) (use ts l in auto)
  moreover have "concat (drop (length (map (decode L F) ts) - (length ts - 1) - 1) ?ds) = concat ?ds"
    using ts by (cases ts) simp_all
  ultimately show ?thesis
    unfolding codec_tuple_decode_def using l
    by (auto elim!: yields_weaken intro: received_tuple)
qed

lemma decode_yields:
  assumes "reads L den"
  shows "multi_type t \<Longrightarrow> sendable t v \<Longrightarrow> clean L F v
     \<Longrightarrow> yields den (decode L F t (default_val t)) (dvals_of F t v) (received F den v)"
proof (induction F t v rule: dvals_of.induct)
  case (2 F t v)
  then have t: "t = T_boolean" by simp
  have "yields den (pop_boolean L) [D_basic (at_code At_boolean) (Raw32 (if v then 1 else 0))]
      (\<lambda>x. x = v)"
    unfolding pop_boolean_def by (rule yields_pop [OF assms]) auto
  then show ?case
    unfolding t decode.simps dvals_of.simps codec_boolean_decode_def
    by (rule yields_map) (simp add: received_plain)
next
  case (11 F t v)
  then have t: "t = T_string" and v: "c_str v = v" by simp_all
  have "yields den (codec_string_decode L []) [D_basic (at_code At_string) (Raw_str v)] (\<lambda>x. x = v)"
    unfolding codec_string_decode_def
    by (rule yields_map [OF yields_pop_string [OF assms]]) simp
  then show ?case
    unfolding t decode.simps default_val.simps cval.case dvals_of.simps v
    by (rule yields_map) (simp add: received_plain)
next
  case (12 F t v)
  then show ?case
    using yields_pop_object_path [OF assms, of v]
    by (auto intro!: yields_map [of den _ _ "\<lambda>x. x = v"] received_plain
        simp: codec_object_path_decode_def)
next
  case (13 F t v)
  then show ?case
    using yields_pop_signature [OF assms, of v]
    by (auto intro!: yields_map [of den _ _ "\<lambda>x. x = v"] received_plain
        simp: codec_signature_decode_def)
next
  case (16 F t e d a s)
  then obtain u x where e: "e = Some (u, x)" and t: "t = T_variant"
    by (auto split: option.splits)
  show ?case
    unfolding t e decode.simps default_val.simps cval.case if_True dvals_of.simps option.case
    by (rule yields_map [OF yields_any_variant [OF assms]]) (auto intro: received_variant)
next
  case (17 F t vs)
  then obtain u where t: "t = T_vector u" and u: "single_type u"
    and vs: "\<forall>v \<in> set vs. sendable u v"
    by (auto split: ctype.splits)
  have "yields den (decode L F u (default_val u)) (dvals_of F u v) (received F den v)"
    if "v \<in> set vs" for v
    using 17 t u vs that by (simp add: single_multi)
  from decode_vector_yields [OF assms u vs this]
  show ?case
    unfolding t decode.simps default_val.simps cval.case dvals_of.simps ctype.case
    by (rule yields_map) (auto intro: received_vector_all2)
next
  case (18 F t kvs)
  then obtain k u where t: "t = T_map k u" and k: "key_type k" and u: "single_type u"
    and kvs: "\<forall>p \<in> set kvs. sendable k (fst p) \<and> sendable u (snd p)"
    and sorted: "sorted_wrt key_less (map fst kvs)"
    by (auto split: ctype.splits)
  have "yields den (codec_pair_decode (decode L F k) (decode L F u) (default_val k, default_val u))
      (dvals_of F k (fst p) @ dvals_of F u (snd p))
      (\<lambda>q. fst q = fst p \<and> received F den (snd p) (snd q))" if p: "p \<in> set kvs" for p
  proof -
    have "yields den (decode L F k (default_val k)) (dvals_of F k (fst p)) (received F den (fst p))"
      and "yields den (decode L F u (default_val u)) (dvals_of F u (snd p)) (received F den (snd p))"
      using 18 t k u p kvs by (simp_all add: single_multi key_multi)
    from yields_pair [where ?dec1.0 = "decode L F k" and a = "default_val k"
        and ?dec2.0 = "decode L F u" and b = "default_val u", OF this] show ?thesis
      by (rule yields_weaken) (use received_plain_eq key_plain [OF k] kvs p in blast)
  qed
  from yields_map_decode [OF assms this sorted]
  show ?case
    unfolding t decode.simps default_val.simps cval.case dvals_of.simps ctype.case
    by (rule yields_map) (auto intro: received_map_all2)
next
  case (20 F t vs)
  then obtain ts where t: "t = T_tuple ts" and ts: "ts \<noteq> []" "\<forall>t \<in> set ts. multi_type t"
    and l: "length vs = length ts"
    by (auto split: ctype.splits)
  have "yields den (decode L F u (default_val u)) (dvals_of F u v) (received F den v)"
    if uv: "(u, v) \<in> set (zip ts vs)" for u v
    using 20(1) [OF t uv] 20(3,4) t ts uv set_zip_leftD [OF uv] set_zip_rightD [OF uv] by auto
  from decode_tuple_yields [OF ts(1) l this]
  show ?case
    unfolding t decode.simps default_val.simps cval.case dvals_of.simps ctype.case
    by (rule yields_map)
next
  case (21 F t v)
  then obtain u where t: "t = T_struct u" and u: "multi_type u"
    by (auto split: ctype.splits)
  have "yields den (decode L F u (default_val u)) (dvals_of F u v) (received F den v)"
    using 21 t u by simp
  from yields_struct [OF assms this]
  show ?case
    unfolding t decode.simps default_val.simps cval.case dvals_of.simps ctype.case
    by (rule yields_map) (rule received_struct)
qed (auto intro!: yields_map [OF yields_pop [OF assms]] yields_map [OF yields_map [OF yields_pop [OF assms]]]
    received_plain simp: codec_basic_decodes pop_defs split: ctype.splits simp del: at_code.simps)

section \<open>Values without variants are received as they were sent\<close>

fun no_variant :: "ctype \<Rightarrow> bool" where
  "no_variant T_variant = False"
| "no_variant (T_vector t) = no_variant t"
| "no_variant (T_map t u) = no_variant u"
| "no_variant (T_tuple ts) = (\<forall>t \<in> set ts. no_variant t)"
| "no_variant (T_struct t) = no_variant t"
| "no_variant t = True"

lemma received_no_variant:
  "received F den v v' \<Longrightarrow> sendable t v \<Longrightarrow> no_variant t \<Longrightarrow> v' = v"
proof (induction arbitrary: t rule: received.induct)
  case (received_vector vs' vs)
  then obtain u where t: "t = T_vector u" by (auto split: ctype.splits)
  have "vs' = vs"
  proof (rule nth_equalityI)
    show "vs' ! k = vs ! k" if "k < length vs'" for k
      using received_vector(3) [of k u] received_vector(1,4,5) t that by simp
  qed (rule received_vector(1))
  then show ?case by simp
next
  case (received_map kvs' kvs)
  then obtain kt u where t: "t = T_map kt u" by (auto split: ctype.splits)
  have "kvs' = kvs"
  proof (rule nth_equalityI)
    fix k assume k: "k < length kvs'"
    then have "kvs ! k \<in> set kvs" using received_map(1) by simp
    then have "sendable u (snd (kvs ! k))" using received_map(3) t by simp
    then show "kvs' ! k = kvs ! k"
      using received_map(2) [of k] received_map(1,4) t k by (simp add: prod_eq_iff)
  qed (rule received_map(1))
  then show ?case by simp
next
  case (received_tuple vs' vs)
  then obtain ts where t: "t = T_tuple ts" by (auto split: ctype.splits)
  have "vs' = vs"
  proof (rule nth_equalityI)
    fix k assume k: "k < length vs'"
    then have "(ts ! k, vs ! k) \<in> set (zip ts vs)"
      using received_tuple(1,4) t by (auto simp: set_zip)
    then show "vs' ! k = vs ! k"
      using received_tuple(3) [of k "ts ! k"] received_tuple(1,4,5) t k
      by (auto dest: set_zip_leftD)
  qed (rule received_tuple(1))
  then show ?case by simp
next
  case (received_struct v v')
  then show ?case by (auto split: ctype.splits)
qed (auto split: option.splits)

section \<open>Whole messages\<close>

definition sendable_args :: "(ctype \<times> 'i cval) list \<Rightarrow> bool" where
  "sendable_args args \<longleftrightarrow> list_all (\<lambda>(t, v). multi_type t \<and> sendable t v) args"

definition args_dvals :: "float_conversions \<Rightarrow> (ctype \<times> 'i cval) list \<Rightarrow> dval list" where
  "args_dvals F args = concat (map (\<lambda>(t, v). dvals_of F t v) args)"

lemma encode_message_emits:
  assumes "writes L ok wden"
  shows "sendable_args args \<Longrightarrow> list_all (dval_ok ok) (args_dvals F args)
     \<Longrightarrow> emits wden (encode_message L F args) None vs (args_dvals F args)"
proof (induction args arbitrary: vs)
  case Nil
  then show ?case by (simp add: args_dvals_def emits_return)
next
  case (Cons a args)
  then show ?case
    using encode_emits [OF assms]
    by (cases a) (auto simp: args_dvals_def sendable_args_def intro!: emits_then)
qed

lemma decode_message_yields:
  assumes "reads L den"
  shows "sendable_args args \<Longrightarrow> list_all (clean L F \<circ> snd) args
     \<Longrightarrow> yields den (decode_message L F (map (\<lambda>(t, v). (t, default_val t)) args)) (args_dvals F args)
           (list_all2 (\<lambda>p. received F den (snd p)) args)"
proof (induction args)
  case Nil
  then show ?case by (simp add: args_dvals_def yields_return)
next
  case (Cons a args)
  obtain t v where a: "a = (t, v)" by (cases a)
  have 1: "yields den (decode L F t (default_val t)) (dvals_of F t v) (received F den v)"
    using decode_yields [OF assms] Cons.prems a by (simp add: sendable_args_def)
  have 2: "yields den (decode_message L F (map (\<lambda>(t, v). (t, default_val t)) args)) (args_dvals F args)
      (list_all2 (\<lambda>p. received F den (snd p)) args)"
    using Cons by (simp add: sendable_args_def)
  have "args_dvals F (a # args) = dvals_of F t v @ args_dvals F args"
    using a by (simp add: args_dvals_def)
  moreover have "decode_message L F (map (\<lambda>(t, v). (t, default_val t)) (a # args))
      = bind_eff (decode L F t (default_val t)) (\<lambda>x. bind_eff
          (decode_message L F (map (\<lambda>(t, v). (t, default_val t)) args)) (\<lambda>xs. return_eff (x # xs)))"
    using a by simp
  ultimately show ?case
    using a by (simp only:) (rule yields_bind [OF 1 yields_map [OF 2]], simp)
qed

lemma msg_reader_ok:
  assumes "stores L den wden" and "wden m [(w, None, vs)]" and "vs \<noteq> []"
  obtains i where "msg_reader L m = Inr i" and "den i vs"
proof -
  have "fst (iter_init L m)" and "den (snd (iter_init L m)) vs"
    using assms unfolding stores_def by simp_all
  then show thesis
    using that [of "snd (iter_init L m)"]
    by (cases "iter_init L m") (simp add: msg_reader_def)
qed

text \<open>
  C1. What \<open>encode_message\<close> writes into an empty message, \<open>decode_message\<close> at the same types reads
  from the message: encoding and decoding return, every value is received, those of types
  without variants are equal to the ones sent, and the reader is at the end of the message, so
  neither more nor less was read than was written. Libdbus reports the signatures of the arguments
  as the signature of the message contents.
\<close>

theorem message_roundtrip:
  assumes "reads L den" and "writes L ok wden" and "stores L den wden"
    and "args \<noteq> []" and "sendable_args args" and "list_all (dval_ok ok) (args_dvals F args)"
    and "list_all (clean L F \<circ> snd) args" and "wden m [(w, None, [])]"
  shows "\<exists>w' m' i vs i'.
     encode_message L F args (w, m) = (Inr (), (w', m'))
     \<and> msg_reader L m' = Inr i
     \<and> decode_message L F (map (\<lambda>(t, v). (t, default_val t)) args) i = (Inr vs, i')
     \<and> list_all2 (\<lambda>p v'. received F den (snd p) v' \<and> (no_variant (fst p) \<longrightarrow> v' = snd p)) args vs
     \<and> reader_type L i' = At_invalid
     \<and> concat (map dsig (args_dvals F args)) = helper_signature (map fst args)"
proof -
  obtain w' m' where e: "encode_message L F args (w, m) = (Inr (), (w', m'))"
    and wd: "wden m' [(w', None, [] @ args_dvals F args)]"
    by (rule emits_run [OF encode_message_emits [OF assms(2,5,6)] assms(8)])
  have "args_dvals F args \<noteq> []"
    using assms(4,5) dvals_nonempty by (cases args) (auto simp: args_dvals_def sendable_args_def)
  then obtain i where i: "msg_reader L m' = Inr i" and den: "den i (args_dvals F args @ [])"
    using msg_reader_ok [OF assms(3) wd] by auto
  obtain vs i' where d: "decode_message L F (map (\<lambda>(t, v). (t, default_val t)) args) i = (Inr vs, i')"
    and fin: "den i' []" and vs: "list_all2 (\<lambda>p. received F den (snd p)) args vs"
    by (rule yields_run [OF decode_message_yields [OF assms(1,5,7)] den])
  have "list_all2 (\<lambda>p v'. received F den (snd p) v' \<and> (no_variant (fst p) \<longrightarrow> v' = snd p)) args vs"
    using vs assms(5)
    by (induction rule: list_all2_induct)
      (auto simp: sendable_args_def received_no_variant)
  moreover have "concat (map dsig (args_dvals F args)) = helper_signature (map fst args)"
    using assms(5)
    by (induction args) (auto simp: args_dvals_def sendable_args_def dsig_dvals)
  ultimately show ?thesis
    using e i d reader_type_end [OF assms(1) fin] by blast
qed

lemma variant_as_received:
  assumes "reads L den" and "single_type t" and "sendable t x" and "clean L F x"
    and "received F den (make_variant t x) v"
  shows "\<exists>x'. fst (variant_as L F t v) = Inr x' \<and> received F den x x' \<and> (no_variant t \<longrightarrow> x' = x)"
proof -
  obtain j where v: "v = V_variant None True (Some j) []" and j: "den j (dvals_of F t x @ [])"
    using assms(5) unfolding make_variant_def by (auto elim: received_variantE)
  obtain x' j' where "decode L F t (default_val t) j = (Inr x', j')" and "received F den x x'"
    by (rule yields_run [OF decode_yields [OF assms(1) single_multi [OF assms(2)] assms(3,4)] j])
  then show ?thesis
    using received_no_variant assms(3) v by (fastforce simp: variant_as_def stream_in_def)
qed

theorem message_roundtrip_witness:
  "\<exists>w' m' i v1 v2 i'.
     encode_message list_libdbus sample_conversions
       [(T_map T_string T_variant, sample_value), (T_string, V_string ''ok'')]
       ((), new_list_message 1) = (Inr (), (w', m'))
     \<and> msg_reader list_libdbus m' = Inr i
     \<and> decode_message list_libdbus sample_conversions
         [(T_map T_string T_variant, V_map []), (T_string, V_string [])] i = (Inr [v1, v2], i')
     \<and> received sample_conversions list_den sample_value v1
     \<and> v2 = V_string ''ok''
     \<and> reader_type list_libdbus i' = At_invalid"
proof -
  let ?args = "[(T_map T_string T_variant, sample_value), (T_string, V_string ''ok'')]"
  have 1: "sendable_args ?args" "?args \<noteq> []"
    by (simp_all add: sendable_args_def sample_ok)
  have 2: "list_all (dval_ok (\<lambda>c r. True)) (args_dvals sample_conversions ?args)"
    by (simp add: args_dvals_def sample_ok sample_dvals_def)
  have 3: "list_all (clean list_libdbus sample_conversions \<circ> snd) ?args"
    by (simp add: sample_value_def make_variant_def)
  have 4: "list_wden (new_list_message 1) [((), None, [])]"
    by (simp add: list_wden_def new_list_message_def)
  show ?thesis
    using message_roundtrip [OF list_reads list_writes list_stores 1(2,1) 2 3 4]
    by (auto simp: list_all2_Cons1)
qed

text \<open>
  Decoding into a vector keeps what it holds: \<open>Codec<std::vector<T>>\<close> does not clear its
  output, so the elements that are read come after the elements that were there, in contrast to
  \<open>Codec<std::map<T, U>>\<close>, which starts from an empty map whatever its output holds.
\<close>

lemma decode_vector_appends:
  assumes "reads L den" and "single_type t" and "sendable (T_vector t) (V_vector vs)"
    and "clean L F (V_vector vs)" and "den i (dvals_of F (T_vector t) (V_vector vs) @ rest)"
  shows "(\<exists>ws i'. decode L F (T_vector t) (V_vector old) i = (Inr (V_vector (old @ ws)), i')
        \<and> list_all2 (received F den) vs ws \<and> den i' rest)
     \<and> decode L F (T_map k u) (V_map old_map) = decode L F (T_map k u) (V_map [])"
proof
  have y: "yields den (decode L F t (default_val t)) (dvals_of F t v) (received F den v)"
    if "v \<in> set vs" for v
    using decode_yields [OF assms(1) single_multi [OF assms(2)]] assms(3,4) that by simp
  have vs: "\<forall>v \<in> set vs. sendable t v" using assms(3) by simp
  have dec: "yields den (codec_vector_decode L (decode L F t (default_val t)) old)
      (dvals_of F (T_vector t) (V_vector vs))
      (\<lambda>r. \<exists>ws. r = old @ ws \<and> list_all2 (received F den) vs ws)"
    unfolding dvals_of.simps ctype.case by (rule decode_vector_yields [OF assms(1,2) vs y])
  obtain r i' where "codec_vector_decode L (decode L F t (default_val t)) old i = (Inr r, i')"
    and "den i' rest" and "\<exists>ws. r = old @ ws \<and> list_all2 (received F den) vs ws"
    using yields_run [OF dec assms(5)] by metis
  then show "\<exists>ws i'. decode L F (T_vector t) (V_vector old) i = (Inr (V_vector (old @ ws)), i')
      \<and> list_all2 (received F den) vs ws \<and> den i' rest"
    by (auto simp: bind_eff_def return_eff_def)
  show "decode L F (T_map k u) (V_map old_map) = decode L F (T_map k u) (V_map [])"
    by (rule ext) (simp add: codec_map_decode_def)
qed

lemma decode_vector_appends_witness:
  "\<exists>ws. decode list_libdbus sample_conversions (T_vector T_int32) (V_vector [V_int32 1])
       [D_container 97 (Some ''i'') [D_basic 105 (Raw32 2)]] = (Inr (V_vector (V_int32 1 # ws)), [])"
proof -
  have "list_den [D_container 97 (Some ''i'') [D_basic 105 (Raw32 2)]]
      (dvals_of sample_conversions (T_vector T_int32) (V_vector [V_int32 2]) @ [])"
    by (simp add: list_den_def)
  then show ?thesis
    using decode_vector_appends [OF list_reads, of T_int32 "[V_int32 2]" sample_conversions
        _ "[]" "[V_int32 1]"]
    by (fastforce simp: list_den_def)
qed

end
