(* ===== verification/Dbus_Signal.thy ===== *)
theory Dbus_Signal
  imports Bus Codec_Roundtrip "HOL-Library.Multiset" "HOL-Library.Product_Lexorder"
begin

text \<open>
  \<open>Signal<SignalDescription, Argument>\<close>: include/core/dbus/signal.h and
  include/core/dbus/impl/signal.h, in both forms (with and without an argument).

  A signal works on its own fields, on the signal router of the object it belongs to, and on the
  connection, where it adds and removes match rules: the record \<open>signal_world\<close>. The multimap of
  handlers is a list sorted by key; an iterator (\<open>SubscriptionToken\<close>) is a number that identifies
  an entry.
\<close>

type_synonym match_args = "(64 word \<times> string) list"

record 'h typed_signal =
  sig_service :: service
  sig_path :: string
  sig_interface :: string
  sig_name :: string
  sig_rule :: match_rule
  sig_guard :: bool
  sig_handlers :: "(nat \<times> match_args \<times> 'h) list"
  sig_next_token :: nat

record ('h, 'r, 'd) signal_world =
  sw_signal :: "'h typed_signal"
  sw_router :: "(string \<times> string, 'r) router"
  sw_conn :: 'd

interpretation sw_router_part: locked_part sw_router "\<lambda>r s. s\<lparr>sw_router := r\<rparr>"
    router_guard "\<lambda>b r. r\<lparr>router_guard := b\<rparr>"
  by unfold_locales simp_all

interpretation sw_signal_part: locked_part sw_signal "\<lambda>g s. s\<lparr>sw_signal := g\<rparr>"
    sig_guard "\<lambda>b g. g\<lparr>sig_guard := b\<rparr>"
  by unfold_locales simp_all

interpretation sw_conn_part: state_part sw_conn "\<lambda>d s. s\<lparr>sw_conn := d\<rparr>"
  by unfold_locales simp_all

definition on_sw_router ::
  "((string \<times> string, 'r) router, 'a) eff \<Rightarrow> (('h, 'r, 'd) signal_world, 'a) eff" where
  "on_sw_router e = zoom sw_router (\<lambda>r s. s\<lparr>sw_router := r\<rparr>) e"

definition on_sw_conn :: "('d, 'a) eff \<Rightarrow> (('h, 'r, 'd) signal_world, 'a) eff" where
  "on_sw_conn e = zoom sw_conn (\<lambda>d s. s\<lparr>sw_conn := d\<rparr>) e"

definition on_sw_signal :: "('h typed_signal, 'a) eff \<Rightarrow> (('h, 'r, 'd) signal_world, 'a) eff" where
  "on_sw_signal e = zoom sw_signal (\<lambda>g s. s\<lparr>sw_signal := g\<rparr>) e"

definition with_handlers ::
  "(('h, 'r, 'd) signal_world, 'a) eff \<Rightarrow> (('h, 'r, 'd) signal_world, 'a) eff" where
  "with_handlers e = guarded (\<lambda>s. sig_guard (sw_signal s))
     (\<lambda>b s. s\<lparr>sw_signal := sw_signal s\<lparr>sig_guard := b\<rparr>\<rparr>) e"

section \<open>Match rules\<close>

text \<open>\<open>Object::add_match\<close> and \<open>remove_match\<close>.\<close>

definition object_add_match ::
  "('d, 'm, 'p) connection \<Rightarrow> service \<Rightarrow> string \<Rightarrow> match_rule \<Rightarrow> ('d, unit) eff" where
  "object_add_match K service path rule = service_add_match K service (with_path rule path)"

definition object_remove_match ::
  "('d, 'm, 'p) connection \<Rightarrow> service \<Rightarrow> string \<Rightarrow> match_rule \<Rightarrow> ('d, unit) eff" where
  "object_remove_match K service path rule = service_remove_match K service (with_path rule path)"

text \<open>\<open>d->rule.args(match_args)\<close> changes the rule of the signal.\<close>

definition rule_for_args :: "match_args \<Rightarrow> ('h typed_signal, match_rule) eff" where
  "rule_for_args match_args g =
     (let g = g\<lparr>sig_rule := snd (set_args match_args (sig_rule g))\<rparr> in (Inr (sig_rule g), g))"

definition add_rule_for_args ::
  "('d, 'm, 'p) connection \<Rightarrow> match_args \<Rightarrow> (('h, 'r, 'd) signal_world, unit) eff" where
  "add_rule_for_args K match_args =
     bind_eff (on_sw_signal (rule_for_args match_args)) (\<lambda>rule s.
       on_sw_conn (object_add_match K (sig_service (sw_signal s)) (sig_path (sw_signal s)) rule) s)"

definition remove_rule_for_args ::
  "('d, 'm, 'p) connection \<Rightarrow> match_args \<Rightarrow> (('h, 'r, 'd) signal_world, unit) eff" where
  "remove_rule_for_args K match_args =
     bind_eff (on_sw_signal (rule_for_args match_args)) (\<lambda>rule s.
       on_sw_conn (object_remove_match K (sig_service (sw_signal s)) (sig_path (sw_signal s)) rule) s)"

section \<open>Handlers\<close>

text \<open>\<open>multimap::insert\<close> puts an entry behind those whose key is not greater.\<close>

definition handlers_insert ::
  "nat \<times> match_args \<times> 'h \<Rightarrow> (nat \<times> match_args \<times> 'h) list \<Rightarrow> (nat \<times> match_args \<times> 'h) list" where
  "handlers_insert e hs =
     takeWhile (\<lambda>x. \<not> fst (snd e) < fst (snd x)) hs @ e # dropWhile (\<lambda>x. \<not> fst (snd e) < fst (snd x)) hs"

definition has_key :: "match_args \<Rightarrow> (nat \<times> match_args \<times> 'h) list \<Rightarrow> bool" where
  "has_key k hs \<longleftrightarrow> (\<exists>e \<in> set hs. fst (snd e) = k)"

definition insert_handler :: "'h \<Rightarrow> match_args \<Rightarrow> ('h typed_signal, nat) eff" where
  "insert_handler h match_args g =
     (let token = sig_next_token g in
      (Inr token, g\<lparr>sig_handlers := handlers_insert (token, match_args, h) (sig_handlers g),
                    sig_next_token := Suc token\<rparr>))"

definition connect_with_match_args ::
  "('d, 'm, 'p) connection \<Rightarrow> 'h \<Rightarrow> match_args \<Rightarrow> (('h, 'r, 'd) signal_world, nat) eff" where
  "connect_with_match_args K h match_args = with_handlers (\<lambda>s.
     let new_entry = \<not> has_key match_args (sig_handlers (sw_signal s)) in
     bind_eff (on_sw_signal (insert_handler h match_args)) (\<lambda>token.
       then_eff (if new_entry then add_rule_for_args K match_args else return_eff ())
         (return_eff token)) s)"

definition signal_connect ::
  "('d, 'm, 'p) connection \<Rightarrow> 'h \<Rightarrow> (('h, 'r, 'd) signal_world, nat) eff" where
  "signal_connect K h = connect_with_match_args K h []"

text \<open>A token that refers to no entry is an invalid iterator.\<close>

definition signal_disconnect ::
  "('d, 'm, 'p) connection \<Rightarrow> nat \<Rightarrow> (('h, 'r, 'd) signal_world, unit) eff" where
  "signal_disconnect K token = with_handlers (\<lambda>s.
     case find (\<lambda>e. fst e = token) (sig_handlers (sw_signal s)) of
       None \<Rightarrow> (Inl (Undefined_behaviour ''invalid iterator''), s)
     | Some (_, match_args, h) \<Rightarrow>
         then_eff (on_sw_signal (\<lambda>g. (Inr (),
             g\<lparr>sig_handlers := filter (\<lambda>e. fst e \<noteq> token) (sig_handlers g)\<rparr>)))
           (\<lambda>s. if \<not> has_key match_args (sig_handlers (sw_signal s))
                then remove_rule_for_args K match_args s else (Inr (), s)) s)"

section \<open>Construction and destruction\<close>

definition new_typed_signal :: "service \<Rightarrow> string \<Rightarrow> string \<Rightarrow> string \<Rightarrow> 'h typed_signal" where
  "new_typed_signal service path interface name =
     \<lparr>sig_service = service, sig_path = path, sig_interface = interface, sig_name = name,
      sig_rule = new_match_rule, sig_guard = False, sig_handlers = [], sig_next_token = 0\<rparr>"

text \<open>\<open>route\<close> stands for \<open>operator()\<close> bound to the new signal.\<close>

definition construct_signal :: "'r \<Rightarrow> (('h, 'r, 'd) signal_world, unit) eff" where
  "construct_signal route s =
     then_eff (on_sw_router (install_route (sig_interface (sw_signal s), sig_name (sw_signal s)) route))
       (on_sw_signal (\<lambda>g. (Inr (), g\<lparr>sig_rule := snd (set_member (sig_name g)
           (snd (set_interface (sig_interface g) (snd (set_type Mt_signal (sig_rule g))))))\<rparr>))) s"

text \<open>\<open>emit_destroyed\<close> stands for the emission of \<open>about_to_be_destroyed\<close>, a signal of a library
  outside the repository. The rules are removed once for each key; what is thrown is dropped.\<close>

definition ignore_exceptions :: "('s, unit) eff \<Rightarrow> ('s, unit) eff" where
  "ignore_exceptions e = catch_eff e (\<lambda>x. if is_exception x then return_eff () else throw_eff x)"

definition noexcept_eff :: "('s, 'a) eff \<Rightarrow> ('s, 'a) eff" where
  "noexcept_eff e = catch_eff e (\<lambda>x. throw_eff (if is_exception x then Terminate else x))"

definition unique_keys :: "(nat \<times> match_args \<times> 'h) list \<Rightarrow> match_args list" where
  "unique_keys hs = remdups_adj (map (\<lambda>e. fst (snd e)) hs)"

definition destroy_signal ::
  "('d, 'm, 'p) connection \<Rightarrow> (('h, 'r, 'd) signal_world, unit) eff
     \<Rightarrow> (('h, 'r, 'd) signal_world, unit) eff" where
  "destroy_signal K emit_destroyed = noexcept_eff
     (then_eff emit_destroyed
       (\<lambda>s. then_eff (on_sw_router (uninstall_route (sig_interface (sw_signal s), sig_name (sw_signal s))))
         (each_eff (\<lambda>match_args. ignore_exceptions (remove_rule_for_args K match_args))
            (unique_keys (sig_handlers (sw_signal s)))) s))"

section \<open>Dispatch\<close>

text \<open>The reader is wound forward to the argument; it stops at the end of the message.\<close>

fun wind :: "('m, 'i, 'w) libdbus \<Rightarrow> nat \<Rightarrow> 'i \<Rightarrow> 'i" where
  "wind L 0 i = i"
| "wind L (Suc n) i = (if reader_type L i \<noteq> At_invalid then wind L n (snd (reader_pop L i)) else i)"

definition argument_string :: "('m, 'i, 'w) libdbus \<Rightarrow> 'm \<Rightarrow> 64 word \<Rightarrow> exn + string" where
  "argument_string L msg index =
     (case msg_reader L msg of
        Inl e \<Rightarrow> Inl e
      | Inr reader \<Rightarrow>
          (case fst (pop_string L (wind L (unat index) reader)) of
             Inl e \<Rightarrow> Inl e
           | Inr s \<Rightarrow> string_from_chars s))"

text \<open>The loop goes on after a mismatch.\<close>

fun match_loop :: "('m, 'i, 'w) libdbus \<Rightarrow> 'm \<Rightarrow> bool \<Rightarrow> match_args \<Rightarrow> exn + bool" where
  "match_loop L msg matched [] = Inr matched"
| "match_loop L msg matched ((index, v) # args) =
     (case argument_string L msg index of
        Inl e \<Rightarrow> Inl e
      | Inr s \<Rightarrow> match_loop L msg (if v \<noteq> s then False else matched) args)"

definition call_handler ::
  "('m, 'i, 'w) libdbus \<Rightarrow> ('h \<Rightarrow> 'v \<Rightarrow> ('s, unit) eff) \<Rightarrow> 'm \<Rightarrow> 'v \<Rightarrow> nat \<times> match_args \<times> 'h
     \<Rightarrow> ('s, unit) eff" where
  "call_handler L call msg v e =
     bind_eff (lift_res (match_loop L msg True (fst (snd e))))
       (\<lambda>matched. if matched then call (snd (snd e)) v else return_eff ())"

definition signal_message ::
  "('m, 'i, 'w) libdbus \<Rightarrow> float_conversions \<Rightarrow> ctype
     \<Rightarrow> ('h \<Rightarrow> 'i cval \<Rightarrow> (('h, 'r, 'd) signal_world, unit) eff) \<Rightarrow> 'm
     \<Rightarrow> (('h, 'r, 'd) signal_world, unit) eff" where
  "signal_message L F t call msg = noexcept_eff (catch_eff
     (bind_eff (lift_res (msg_reader L msg)) (\<lambda>reader.
      bind_eff (lift_res (fst (stream_in L F t (default_val t) reader))) (\<lambda>v.
        with_handlers (\<lambda>s. each_eff (call_handler L call msg v) (sig_handlers (sw_signal s)) s))))
     (\<lambda>e. if is_runtime_error e then return_eff () else throw_eff e))"

section \<open>Signals without an argument\<close>

record 'h void_signal =
  vs_service :: service
  vs_path :: string
  vs_interface :: string
  vs_name :: string
  vs_rule :: match_rule
  vs_guard :: bool
  vs_handlers :: "(nat \<times> 'h) list"
  vs_next_token :: nat

record ('h, 'r, 'd) void_world =
  vw_signal :: "'h void_signal"
  vw_router :: "(string \<times> string, 'r) router"
  vw_conn :: 'd

definition with_void_handlers ::
  "(('h, 'r, 'd) void_world, 'a) eff \<Rightarrow> (('h, 'r, 'd) void_world, 'a) eff" where
  "with_void_handlers e = guarded (\<lambda>s. vs_guard (vw_signal s))
     (\<lambda>b s. s\<lparr>vw_signal := vw_signal s\<lparr>vs_guard := b\<rparr>\<rparr>) e"

definition void_connect :: "'h \<Rightarrow> (('h, 'r, 'd) void_world, nat) eff" where
  "void_connect h = with_void_handlers (\<lambda>s.
     let g = vw_signal s; token = vs_next_token g in
     (Inr token, s\<lparr>vw_signal := g\<lparr>vs_handlers := vs_handlers g @ [(token, h)],
                                   vs_next_token := Suc token\<rparr>\<rparr>))"

definition void_disconnect :: "nat \<Rightarrow> (('h, 'r, 'd) void_world, unit) eff" where
  "void_disconnect token = with_void_handlers (\<lambda>s.
     if \<exists>e \<in> set (vs_handlers (vw_signal s)). fst e = token
     then (Inr (), s\<lparr>vw_signal := vw_signal s
             \<lparr>vs_handlers := filter (\<lambda>e. fst e \<noteq> token) (vs_handlers (vw_signal s))\<rparr>\<rparr>)
     else (Inl (Undefined_behaviour ''invalid iterator''), s))"

definition void_message ::
  "('h \<Rightarrow> (('h, 'r, 'd) void_world, unit) eff) \<Rightarrow> 'm \<Rightarrow> (('h, 'r, 'd) void_world, unit) eff" where
  "void_message call msg = with_void_handlers (\<lambda>s.
     each_eff (\<lambda>e. call (snd e)) (vs_handlers (vw_signal s)) s)"

definition new_void_signal :: "service \<Rightarrow> string \<Rightarrow> string \<Rightarrow> string \<Rightarrow> 'h void_signal" where
  "new_void_signal service path interface name =
     \<lparr>vs_service = service, vs_path = path, vs_interface = interface, vs_name = name,
      vs_rule = new_match_rule, vs_guard = False, vs_handlers = [], vs_next_token = 0\<rparr>"

definition construct_void_signal ::
  "('d, 'm, 'p) connection \<Rightarrow> 'r \<Rightarrow> (('h, 'r, 'd) void_world, unit) eff" where
  "construct_void_signal K route s =
     then_eff (zoom vw_router (\<lambda>r s. s\<lparr>vw_router := r\<rparr>)
         (install_route (vs_interface (vw_signal s), vs_name (vw_signal s)) route))
       (\<lambda>s. let g = vw_signal s;
                g = g\<lparr>vs_rule := snd (set_member (vs_name g)
                   (snd (set_interface (vs_interface g) (snd (set_type Mt_signal (vs_rule g))))))\<rparr> in
            zoom vw_conn (\<lambda>d s. s\<lparr>vw_conn := d\<rparr>)
              (object_add_match K (vs_service g) (vs_path g) (vs_rule g)) (s\<lparr>vw_signal := g\<rparr>)) s"

definition destroy_void_signal ::
  "('d, 'm, 'p) connection \<Rightarrow> (('h, 'r, 'd) void_world, unit) eff
     \<Rightarrow> (('h, 'r, 'd) void_world, unit) eff" where
  "destroy_void_signal K emit_destroyed = noexcept_eff
     (then_eff emit_destroyed
       (\<lambda>s. then_eff (zoom vw_router (\<lambda>r s. s\<lparr>vw_router := r\<rparr>)
              (uninstall_route (vs_interface (vw_signal s), vs_name (vw_signal s))))
         (ignore_exceptions (zoom vw_conn (\<lambda>d s. s\<lparr>vw_conn := d\<rparr>)
            (object_remove_match K (vs_service (vw_signal s)) (vs_path (vw_signal s))
               (vs_rule (vw_signal s))))) s))"

end
