(* ===== verification/Lifetime_Cache.thy ===== *)
theory Lifetime_Cache
  imports Registry "HOL-Library.AList"
begin

text \<open>
  \<open>ThreadSafeLifetimeConstrainedCache<Key, Value>\<close>:
  include/core/dbus/lifetime\_constrained\_cache.h. An entry holds a weak pointer to an object and
  the connection to the object's \<open>about_to_be_destroyed\<close> signal; the slot that was connected
  removes the key again.

  The objects and their signals (\<open>core::Signal\<close>, a library outside the repository) are a state
  \<open>'w\<close> with the operations of the record \<open>objects\<close>; \<open>objects_ok\<close> says what they do: connecting a
  slot adds it to the slots that are called when the object is destroyed.
\<close>

section \<open>Objects with a signal of their destruction\<close>

record ('w, 'o, 'k, 'c) objects =
  alive :: "'w \<Rightarrow> 'o \<Rightarrow> bool"
  slots_of :: "'w \<Rightarrow> 'o \<Rightarrow> 'k list"
  connect_slot :: "'o \<Rightarrow> 'k \<Rightarrow> 'w \<Rightarrow> 'c \<times> 'w"
  disconnect_slot :: "'c \<Rightarrow> 'w \<Rightarrow> 'w"
  create_object :: "'o \<Rightarrow> 'w \<Rightarrow> 'w"
  end_object :: "'o \<Rightarrow> 'w \<Rightarrow> 'w"

definition objects_ok :: "('w, 'o, 'k, 'c) objects \<Rightarrow> bool" where
  "objects_ok W \<longleftrightarrow>
     (\<forall>w o1 k o2. alive W (snd (connect_slot W o1 k w)) o2 = alive W w o2)
     \<and> (\<forall>w o1 k o2. slots_of W (snd (connect_slot W o1 k w)) o2
          = (if o2 = o1 then slots_of W w o2 @ [k] else slots_of W w o2))
     \<and> (\<forall>w o1 o2. alive W (create_object W o1 w) o2 = (o2 = o1 \<or> alive W w o2))
     \<and> (\<forall>w o1 o2. o2 \<noteq> o1 \<longrightarrow> slots_of W (create_object W o1 w) o2 = slots_of W w o2)
     \<and> (\<forall>w o1 o2. alive W (end_object W o1 w) o2 = (o2 \<noteq> o1 \<and> alive W w o2))
     \<and> (\<forall>w o1 o2. o2 \<noteq> o1 \<longrightarrow> slots_of W (end_object W o1 w) o2 = slots_of W w o2)"

section \<open>The cache\<close>

record ('k, 'o, 'c) cache =
  cache_guard :: bool
  cache_map :: "('k \<times> 'o \<times> 'c) list"

definition new_cache :: "('k, 'o, 'c) cache" where
  "new_cache = \<lparr>cache_guard = False, cache_map = []\<rparr>"

definition cache_find :: "('k, 'o, 'c) cache \<Rightarrow> 'k \<Rightarrow> ('o \<times> 'c) option" where
  "cache_find c k = map_of (cache_map c) k"

definition cache_put :: "'k \<Rightarrow> 'o \<times> 'c \<Rightarrow> ('k, 'o, 'c) cache \<Rightarrow> ('k, 'o, 'c) cache" where
  "cache_put k e c = c\<lparr>cache_map := AList.update k e (cache_map c)\<rparr>"

definition cache_erase :: "'k \<Rightarrow> ('k, 'o, 'c) cache \<Rightarrow> ('k, 'o, 'c) cache" where
  "cache_erase k c = c\<lparr>cache_map := AList.delete k (cache_map c)\<rparr>"

interpretation entries: registry cache_find cache_put cache_erase
  by unfold_locales (simp_all add: cache_find_def cache_put_def cache_erase_def update_conv'
      delete_conv')

interpretation cache_lock: mutex "\<lambda>(c, w). cache_guard c" "\<lambda>b (c, w). (c\<lparr>cache_guard := b\<rparr>, w)"
  by unfold_locales (simp_all add: case_prod_beta)

definition with_cache ::
  "(('k, 'o, 'c) cache \<times> 'w, 'a) eff \<Rightarrow> (('k, 'o, 'c) cache \<times> 'w, 'a) eff" where
  "with_cache e =
     guarded (\<lambda>(c, w). cache_guard c) (\<lambda>b (c, w). (c\<lparr>cache_guard := b\<rparr>, w)) e"

text \<open>\<open>lock()\<close> of a weak pointer is null when the object is gone.\<close>

definition weak_lock :: "('w, 'o, 'k, 'c) objects \<Rightarrow> 'o \<Rightarrow> 'w \<Rightarrow> 'o option" where
  "weak_lock W p w = (if alive W w p then Some p else None)"

definition retrieve_value_for_key ::
  "('w, 'o, 'k, 'c) objects \<Rightarrow> 'k \<Rightarrow> (('k, 'o, 'c) cache \<times> 'w, 'o option) eff" where
  "retrieve_value_for_key W key = with_cache (\<lambda>(c, w).
     case cache_find c key of
       None \<Rightarrow> (Inr None, (c, w))
     | Some (p, conn) \<Rightarrow> (Inr (weak_lock W p w), (c, w)))"

definition insert_value_for_key ::
  "('w, 'o, 'k, 'c) objects \<Rightarrow> 'k \<Rightarrow> 'o \<Rightarrow> (('k, 'o, 'c) cache \<times> 'w, bool) eff" where
  "insert_value_for_key W key val = with_cache (\<lambda>(c, w).
     case cache_find c key of
       Some e \<Rightarrow> (Inr False, (c, w))
     | None \<Rightarrow> (case connect_slot W val key w of (conn, w') \<Rightarrow>
         (Inr True, (cache_put key (val, conn) c, w'))))"

definition remove_value_for_key :: "'k \<Rightarrow> (('k, 'o, 'c) cache \<times> 'w, unit) eff" where
  "remove_value_for_key key = with_cache (\<lambda>(c, w).
     case cache_find c key of
       None \<Rightarrow> (Inr (), (c, w))
     | Some e \<Rightarrow> (Inr (), (cache_erase key c, w)))"

definition has_value_for_key :: "'k \<Rightarrow> (('k, 'o, 'c) cache \<times> 'w, bool) eff" where
  "has_value_for_key key = with_cache (\<lambda>(c, w). (Inr (cache_find c key \<noteq> None), (c, w)))"

text \<open>The destructor disconnects every entry.\<close>

definition destroy_cache ::
  "('w, 'o, 'k, 'c) objects \<Rightarrow> (('k, 'o, 'c) cache \<times> 'w, unit) eff" where
  "destroy_cache W = with_cache (\<lambda>(c, w).
     (Inr (), (c, fold (\<lambda>(k, p, conn). disconnect_slot W conn) (cache_map c) w)))"

text \<open>What happens when an object is destroyed: its signal calls the slots, which remove their
  keys, and then the object is gone.\<close>

definition destroy_object ::
  "('w, 'o, 'k, 'c) objects \<Rightarrow> 'o \<Rightarrow> (('k, 'o, 'c) cache \<times> 'w, unit) eff" where
  "destroy_object W p s =
     then_eff (each_eff remove_value_for_key (slots_of W (snd s) p))
       (\<lambda>(c, w). (Inr (), (c, end_object W p w))) s"

section \<open>Running the operations\<close>

lemma cache_guard_put [simp]: "cache_guard (cache_put k e c) = cache_guard c"
  by (simp add: cache_put_def)

lemma cache_guard_erase [simp]: "cache_guard (cache_erase k c) = cache_guard c"
  by (simp add: cache_erase_def)

lemma retrieve_run [eff_simps]:
  "\<not> cache_guard c \<Longrightarrow> retrieve_value_for_key W k (c, w) =
     (Inr (case cache_find c k of None \<Rightarrow> None | Some (p, conn) \<Rightarrow> weak_lock W p w), (c, w))"
  by (simp add: retrieve_value_for_key_def with_cache_def guarded_def cache_find_def
      split: option.split prod.split)

lemma insert_run [eff_simps]:
  "\<not> cache_guard c \<Longrightarrow> insert_value_for_key W k p (c, w) =
     (case cache_find c k of
        Some e \<Rightarrow> (Inr False, (c, w))
      | None \<Rightarrow> (Inr True, (cache_put k (p, fst (connect_slot W p k w)) c, snd (connect_slot W p k w))))"
  by (simp add: insert_value_for_key_def with_cache_def guarded_def cache_find_def cache_put_def
      split: option.split prod.split)

lemma remove_run [eff_simps]:
  "\<not> cache_guard c \<Longrightarrow> remove_value_for_key k (c, w) =
     (Inr (), (if cache_find c k = None then c else cache_erase k c, w))"
  by (simp add: remove_value_for_key_def with_cache_def guarded_def cache_find_def cache_erase_def
      split: option.split prod.split)

lemma has_run [eff_simps]:
  "\<not> cache_guard c \<Longrightarrow> has_value_for_key k (c, w) = (Inr (cache_find c k \<noteq> None), (c, w))"
  by (simp add: has_value_for_key_def with_cache_def guarded_def cache_find_def)

lemma remove_each:
  "\<not> cache_guard c \<Longrightarrow>
     \<exists>c'. each_eff remove_value_for_key ks (c, w) = (Inr (), (c', w)) \<and> \<not> cache_guard c'
       \<and> (\<forall>k. cache_find c' k = (if k \<in> set ks then None else cache_find c k))"
proof (induction ks arbitrary: c)
  case Nil
  then show ?case by (simp add: return_eff_def)
next
  case (Cons k ks)
  let ?c1 = "if cache_find c k = None then c else cache_erase k c"
  have find: "cache_find ?c1 k' = (if k' = k then None else cache_find c k')" for k'
    by (simp add: entries.lookup_del)
  have g: "\<not> cache_guard ?c1" using Cons.prems by simp
  obtain c' where 1: "each_eff remove_value_for_key ks (?c1, w) = (Inr (), (c', w))"
    and 2: "\<not> cache_guard c'"
    and 3: "\<forall>k'. cache_find c' k' = (if k' \<in> set ks then None else cache_find ?c1 k')"
    using Cons.IH [OF g] by blast
  have "each_eff remove_value_for_key (k # ks) (c, w) = (Inr (), (c', w))"
    using 1 Cons.prems by (simp add: then_eff_def bind_eff_def remove_run)
  then show ?case using 2 3 find by auto
qed

lemma destroy_object_run:
  assumes "\<not> cache_guard c"
  obtains c' where "destroy_object W p (c, w) = (Inr (), (c', end_object W p w))"
    and "\<not> cache_guard c'"
    and "\<And>k. cache_find c' k = (if k \<in> set (slots_of W w p) then None else cache_find c k)"
  using remove_each [OF assms, of "slots_of W w p" w]
  by (auto simp: destroy_object_def then_eff_def bind_eff_def)

section \<open>Objects, concretely\<close>

text \<open>The set of the living objects and the slots of each, for the witnesses.\<close>

definition fun_objects :: "(nat set \<times> (nat \<Rightarrow> nat list), nat, nat, nat) objects" where
  "fun_objects =
     \<lparr>alive = (\<lambda>(a, sl) p. p \<in> a), slots_of = (\<lambda>(a, sl) p. sl p),
      connect_slot = (\<lambda>p k (a, sl). (p, (a, sl(p := sl p @ [k])))),
      disconnect_slot = (\<lambda>p w. w),
      create_object = (\<lambda>p (a, sl). (insert p a, sl(p := []))),
      end_object = (\<lambda>p (a, sl). (a - {p}, sl))\<rparr>"

lemma fun_objects_ok: "objects_ok fun_objects"
  by (auto simp: objects_ok_def fun_objects_def)

section \<open>The life of a cache\<close>

text \<open>
  The steps: objects are created, destroyed and inserted under keys. (Nothing in the repository
  calls \<open>remove_value_for_key\<close> but the slots.)
\<close>

inductive cache_step ::
  "('w, 'o, 'k, 'c) objects \<Rightarrow> ('k, 'o, 'c) cache \<times> 'w \<Rightarrow> ('k, 'o, 'c) cache \<times> 'w \<Rightarrow> bool"
  for W where
  step_create: "\<not> alive W w p \<Longrightarrow> cache_step W (c, w) (c, create_object W p w)"
| step_insert: "alive W w p \<Longrightarrow> insert_value_for_key W k p (c, w) = (r, s')
    \<Longrightarrow> cache_step W (c, w) s'"
| step_destroy: "alive W w p \<Longrightarrow> destroy_object W p (c, w) = (r, s') \<Longrightarrow> cache_step W (c, w) s'"

inductive cache_reachable ::
  "('w, 'o, 'k, 'c) objects \<Rightarrow> ('k, 'o, 'c) cache \<times> 'w \<Rightarrow> bool" for W where
  reach_new: "cache_reachable W (new_cache, w)"
| reach_step: "cache_reachable W s \<Longrightarrow> cache_step W s s' \<Longrightarrow> cache_reachable W s'"

inductive_cases cache_stepE: "cache_step W s s'"

definition cache_inv :: "('w, 'o, 'k, 'c) objects \<Rightarrow> ('k, 'o, 'c) cache \<times> 'w \<Rightarrow> bool" where
  "cache_inv W s \<longleftrightarrow>
     \<not> cache_guard (fst s)
     \<and> (\<forall>k p conn. cache_find (fst s) k = Some (p, conn)
          \<longrightarrow> alive W (snd s) p \<and> k \<in> set (slots_of W (snd s) p))"

lemma cache_inv_step:
  assumes ok: "objects_ok W" and "cache_inv W s" and "cache_step W s s'"
  shows "cache_inv W s'"
  using assms(3,2)
proof (cases rule: cache_step.cases)
  case (step_create w p c)
  have "alive W (create_object W p w) q \<and> k \<in> set (slots_of W (create_object W p w) q)"
    if "cache_find c k = Some (q, conn)" for k q conn
  proof -
    have "alive W w q" and "k \<in> set (slots_of W w q)"
      using assms(2) that step_create(1) by (auto simp: cache_inv_def)
    moreover from this have "q \<noteq> p" using step_create(3) by auto
    ultimately show ?thesis using ok by (simp add: objects_ok_def)
  qed
  then show ?thesis
    using assms(2) step_create(1,2) by (simp add: cache_inv_def)
next
  case (step_insert w p k c r)
  have g: "\<not> cache_guard c" using assms(2) step_insert(1) by (simp add: cache_inv_def)
  show ?thesis
  proof (cases "cache_find c k")
    case None
    then have "s' = (cache_put k (p, fst (connect_slot W p k w)) c, snd (connect_slot W p k w))"
      using step_insert(3) by (simp add: insert_run [OF g])
    then show ?thesis
      using ok assms(2) step_insert(1,2) by (auto simp: cache_inv_def objects_ok_def entries.lookup_add)
  next
    case (Some e)
    then show ?thesis using assms(2) step_insert(1,3) by (simp add: insert_run [OF g])
  qed
next
  case (step_destroy w p c r)
  have g: "\<not> cache_guard c" using assms(2) step_destroy(1) by (simp add: cache_inv_def)
  obtain c' where s': "s' = (c', end_object W p w)" and g': "\<not> cache_guard c'"
    and find: "\<And>k. cache_find c' k = (if k \<in> set (slots_of W w p) then None else cache_find c k)"
    using destroy_object_run [OF g, of W p w] step_destroy(3) by (metis prod.inject)
  have "alive W (end_object W p w) q \<and> k \<in> set (slots_of W (end_object W p w) q)"
    if e: "cache_find c' k = Some (q, conn)" for k q conn
  proof -
    have k: "k \<notin> set (slots_of W w p)" and "cache_find c k = Some (q, conn)"
      using e find by (simp_all split: if_splits)
    then have "alive W w q" and "k \<in> set (slots_of W w q)"
      using assms(2) step_destroy(1) by (auto simp: cache_inv_def)
    moreover from this k have "q \<noteq> p" by auto
    ultimately show ?thesis using ok by (simp add: objects_ok_def)
  qed
  then show ?thesis using g' s' by (simp add: cache_inv_def)
qed

lemma cache_reachable_inv:
  assumes "objects_ok W" and "cache_reachable W s"
  shows "cache_inv W s"
  using assms(2)
proof (induction rule: cache_reachable.induct)
  case (reach_new w)
  then show ?case by (simp add: cache_inv_def new_cache_def cache_find_def)
next
  case (reach_step s s')
  then show ?case using cache_inv_step [OF assms(1)] by blast
qed


lemma sample_cache_reachable:
  obtains c w where "cache_reachable fun_objects (c, w)"
    and "retrieve_value_for_key fun_objects 5 (c, w) = (Inr (Some 1), (c, w))"
proof -
  let ?c0 = "new_cache :: (nat, nat, nat) cache" and ?w1 = "({1}, (\<lambda>p. [])(1 := []))"
  let ?c1 = "cache_put 5 (1, 1) ?c0" and ?w2 = "({1}, (\<lambda>p. [])(1 := [5]))"
  have g: "\<not> cache_guard ?c0" and g1: "\<not> cache_guard ?c1" and f: "cache_find ?c0 5 = None"
    by (simp_all add: new_cache_def cache_find_def)
  have "cache_step fun_objects (?c0, ({}, \<lambda>p. [])) (?c0, create_object fun_objects 1 ({}, \<lambda>p. []))"
    by (rule step_create) (simp add: fun_objects_def)
  then have "cache_reachable fun_objects (?c0, ?w1)"
    using reach_step [OF reach_new] by (simp add: fun_objects_def)
  moreover have "cache_step fun_objects (?c0, ?w1) (?c1, ?w2)"
  proof (rule step_insert [of _ _ 1 5])
    show "alive fun_objects ?w1 1" by (simp add: fun_objects_def)
    show "insert_value_for_key fun_objects 5 1 (?c0, ?w1) = (Inr True, (?c1, ?w2))"
      unfolding insert_run [OF g] f by (simp add: fun_objects_def)
  qed
  ultimately have "cache_reachable fun_objects (?c1, ?w2)"
    by (rule reach_step)
  moreover have "retrieve_value_for_key fun_objects 5 (?c1, ?w2) = (Inr (Some 1), (?c1, ?w2))"
    unfolding retrieve_run [OF g1]
    by (simp add: entries.lookup_add weak_lock_def fun_objects_def)
  ultimately show thesis by (rule that)
qed


section \<open>Removing by hand\<close>

text \<open>
  Removing a key does not disconnect the slot of the object it belonged to. When an entry is
  removed while its object lives and another object is inserted under the key, the destruction
  of the first object removes the entry of the second one, which is alive and was never removed.
\<close>

lemma removed_entry_strikes_back:
  assumes "objects_ok W" and "\<not> cache_guard c" and "cache_find c k = None"
    and "alive W w p" and "alive W w q" and "p \<noteq> q"
  shows "\<exists>s1 s2 s3 s4.
     insert_value_for_key W k p (c, w) = (Inr True, s1)
     \<and> remove_value_for_key k s1 = (Inr (), s2)
     \<and> insert_value_for_key W k q s2 = (Inr True, s3)
     \<and> fst (retrieve_value_for_key W k s3) = Inr (Some q)
     \<and> destroy_object W p s3 = (Inr (), s4)
     \<and> alive W (snd s4) q
     \<and> fst (retrieve_value_for_key W k s4) = Inr None"
proof -
  let ?w1 = "snd (connect_slot W p k w)" and ?e1 = "(p, fst (connect_slot W p k w))"
  let ?c2 = "cache_erase k (cache_put k ?e1 c)"
  let ?w3 = "snd (connect_slot W q k ?w1)" and ?e3 = "(q, fst (connect_slot W q k ?w1))"
  let ?c3 = "cache_put k ?e3 ?c2"
  have g: "\<not> cache_guard (cache_put k ?e1 c)" "\<not> cache_guard ?c2" "\<not> cache_guard ?c3"
    using assms(2) by simp_all
  have 1: "insert_value_for_key W k p (c, w) = (Inr True, (cache_put k ?e1 c, ?w1))"
    using assms(3) by (simp add: insert_run [OF assms(2)])
  have 2: "remove_value_for_key k (cache_put k ?e1 c, ?w1) = (Inr (), (?c2, ?w1))"
    by (simp add: remove_run [OF g(1)] entries.lookup_add)
  have 3: "insert_value_for_key W k q (?c2, ?w1) = (Inr True, (?c3, ?w3))"
    by (simp add: insert_run [OF g(2)] entries.lookup_del)
  have 4: "fst (retrieve_value_for_key W k (?c3, ?w3)) = Inr (Some q)"
    using assms(1,5) by (simp add: retrieve_run [OF g(3)] entries.lookup_add weak_lock_def objects_ok_def)
  have slot: "k \<in> set (slots_of W ?w3 p)"
    using assms(1,6) by (simp add: objects_ok_def)
  obtain c4 where 5: "destroy_object W p (?c3, ?w3) = (Inr (), (c4, end_object W p ?w3))"
    and g4: "\<not> cache_guard c4" and "cache_find c4 k = None"
    using destroy_object_run [OF g(3), of W p ?w3] slot by metis
  then have 6: "fst (retrieve_value_for_key W k (c4, end_object W p ?w3)) = Inr None"
    by (simp add: retrieve_run [OF g4])
  have "alive W (end_object W p ?w3) q"
    using assms(1,5,6) by (simp add: objects_ok_def)
  then show ?thesis using 1 2 3 4 5 6 by (metis snd_conv)
qed


lemma removed_entry_strikes_back_sample:
  "\<exists>s. alive fun_objects (snd s) 2 \<and> fst (retrieve_value_for_key fun_objects 5 s) = Inr None"
proof -
  have "\<not> cache_guard (new_cache :: (nat, nat, nat) cache)" "cache_find (new_cache :: (nat, nat, nat) cache) 5 = None"
    by (simp_all add: new_cache_def cache_find_def)
  moreover have "alive fun_objects ({1, 2}, \<lambda>p. []) 1" "alive fun_objects ({1, 2}, \<lambda>p. []) 2"
    by (simp_all add: fun_objects_def)
  ultimately show ?thesis
    using removed_entry_strikes_back [OF fun_objects_ok, of new_cache 5 "({1, 2}, \<lambda>p. [])" 1 2]
    by auto
qed

end
