(* ===== verification/Dbus_Object.thy ===== *)
theory Dbus_Object
  imports Dbus_Signal Lifetime_Cache
begin

text \<open>
  \<open>Object\<close> (include/core/dbus/object.h, include/core/dbus/impl/object.h), \<open>Property\<close>
  (include/core/dbus/property.h, include/core/dbus/impl/property.h), \<open>Result\<close>
  (include/core/dbus/result.h) and the interface \<open>org.freedesktop.DBus.Properties\<close>
  (include/core/dbus/interfaces/properties.h).

  Objects and properties are numbered; the \<open>world\<close> holds the bus and what is alive. A route leads to
  a number or to code of the object. What is outside of these classes is in the record \<open>env\<close>: libdbus,
  the connection, the conversions of floating point numbers, the method handlers of the user, the
  signals of the object (see the theory on signals) and \<open>core::Property\<close>, the base class from another
  library, of which only \<open>set\<close> is used: \<open>env_store old new\<close> is the value after it.
\<close>

section \<open>Results\<close>

record 'i result =
  result_error :: dbus_error
  result_value :: "'i cval option"

text \<open>A value of a scalar type is not initialised; reading it is undefined.\<close>

fun scalar :: "ctype \<Rightarrow> bool" where
  "scalar T_byte = True"
| "scalar T_boolean = True"
| "scalar T_int16 = True"
| "scalar T_uint16 = True"
| "scalar T_int32 = True"
| "scalar T_uint32 = True"
| "scalar T_int64 = True"
| "scalar T_uint64 = True"
| "scalar T_float = True"
| "scalar T_double = True"
| "scalar t = False"

definition new_result :: "ctype \<Rightarrow> 'i result" where
  "new_result t = \<lparr>result_error = error_init,
     result_value = (if scalar t then None else Some (default_val t))\<rparr>"

definition result_from_message ::
  "('m, 'i, 'w) libdbus \<Rightarrow> float_conversions \<Rightarrow> ctype \<Rightarrow> 'm \<Rightarrow> exn + 'i result" where
  "result_from_message L F t message =
     (let result = new_result t in
      case msg_type L message of
        Mt_method_call \<Rightarrow> Inl (Runtime_error ''Cannot construct result from method call'')
      | Mt_signal \<Rightarrow> Inl (Runtime_error ''Cannot construct result from signal'')
      | Mt_error \<Rightarrow>
          (case msg_error L message of
             Inl e \<Rightarrow> Inl e | Inr e \<Rightarrow> Inr (result\<lparr>result_error := e\<rparr>))
      | Mt_method_return \<Rightarrow>
          (case msg_reader L message of
             Inl e \<Rightarrow> Inl e
           | Inr reader \<Rightarrow>
               (case fst (stream_in L F t (default_val t) reader) of
                  Inl e \<Rightarrow> Inl e | Inr v \<Rightarrow> Inr (result\<lparr>result_value := Some v\<rparr>)))
      | _ \<Rightarrow> Inr result)"

text \<open>\<open>Result<void>\<close> has no value to read.\<close>

definition void_result_from_message :: "('m, 'i, 'w) libdbus \<Rightarrow> 'm \<Rightarrow> exn + dbus_error" where
  "void_result_from_message L message =
     (case msg_type L message of
        Mt_method_call \<Rightarrow> Inl (Runtime_error ''Cannot construct result from method call'')
      | Mt_signal \<Rightarrow> Inl (Runtime_error ''Cannot construct result from signal'')
      | Mt_error \<Rightarrow> msg_error L message
      | _ \<Rightarrow> Inr error_init)"

definition result_is_error :: "'i result \<Rightarrow> bool" where
  "result_is_error r = error_is_set (result_error r)"

definition value_of_result :: "'i result \<Rightarrow> exn + 'i cval" where
  "value_of_result r =
     (case result_value r of
        None \<Rightarrow> Inl (Undefined_behaviour ''value that was not initialised'')
      | Some v \<Rightarrow> Inr v)"

section \<open>Calling methods\<close>

definition make_call ::
  "('m, 'i, 'w) libdbus \<Rightarrow> float_conversions \<Rightarrow> service \<Rightarrow> string \<Rightarrow> string \<times> string
     \<Rightarrow> (ctype \<times> 'i cval) list \<Rightarrow> exn + 'm" where
  "make_call L F service path method args =
     (case factory_make_method_call L (service_name service) path (c_str (fst method)) (snd method) of
        Inl e \<Rightarrow> Inl e
      | Inr msg \<Rightarrow>
          (case encode_message L F args (msg_writer L msg) of
             (Inl e, w) \<Rightarrow> Inl e
           | (Inr _, w) \<Rightarrow> Inr (snd w)))"

text \<open>\<open>method\<close> is the interface name and the name of the method, \<open>timeout\<close> in milliseconds.\<close>

definition invoke_method_synchronously ::
  "('m, 'i, 'w) libdbus \<Rightarrow> ('d, 'm, 'p) connection \<Rightarrow> float_conversions \<Rightarrow> service \<Rightarrow> string
     \<Rightarrow> string \<times> string \<Rightarrow> int \<Rightarrow> ctype \<Rightarrow> (ctype \<times> 'i cval) list \<Rightarrow> ('d, 'i result) eff" where
  "invoke_method_synchronously L K F service path method timeout t args =
     bind_eff (lift_res (make_call L F service path method args))
       (\<lambda>msg. bind_eff (send_with_reply_and_block_for_at_most K msg timeout)
         (\<lambda>reply. lift_res (result_from_message L F t reply)))"

definition invoke_void_method_synchronously ::
  "('m, 'i, 'w) libdbus \<Rightarrow> ('d, 'm, 'p) connection \<Rightarrow> float_conversions \<Rightarrow> service \<Rightarrow> string
     \<Rightarrow> string \<times> string \<Rightarrow> int \<Rightarrow> (ctype \<times> 'i cval) list \<Rightarrow> ('d, dbus_error) eff" where
  "invoke_void_method_synchronously L K F service path method timeout args =
     bind_eff (lift_res (make_call L F service path method args))
       (\<lambda>msg. bind_eff (send_with_reply_and_block_for_at_most K msg timeout)
         (\<lambda>reply. lift_res (void_result_from_message L reply)))"

text \<open>The two asynchronous forms differ in the continuation \<open>c\<close> only. Both make the result from the
  reply; then one keeps the promise with it and the other calls the callback, which is \<open>deliver\<close>.\<close>

definition run_result_continuation ::
  "('m, 'i, 'w) libdbus \<Rightarrow> float_conversions \<Rightarrow> ctype
     \<Rightarrow> ('c \<Rightarrow> 'i result \<Rightarrow> (('p, 'm, 'c) pending_call, unit) eff) \<Rightarrow> 'c \<Rightarrow> 'm
     \<Rightarrow> (('p, 'm, 'c) pending_call, unit) eff" where
  "run_result_continuation L F t deliver c reply =
     bind_eff (lift_res (result_from_message L F t reply)) (deliver c)"

definition invoke_method_asynchronously ::
  "('m, 'i, 'w) libdbus \<Rightarrow> ('d, 'm, 'p) connection \<Rightarrow> float_conversions \<Rightarrow> ('p, 'm) pending_lib
     \<Rightarrow> ('c \<Rightarrow> 'm \<Rightarrow> (('p, 'm, 'c) pending_call, unit) eff) \<Rightarrow> service \<Rightarrow> string \<Rightarrow> string \<times> string
     \<Rightarrow> int \<Rightarrow> 'c \<Rightarrow> (ctype \<times> 'i cval) list \<Rightarrow> ('d, ('p, 'm, 'c) pending_call) eff" where
  "invoke_method_asynchronously L K F P run service path method timeout c args =
     bind_eff (lift_res (make_call L F service path method args))
       (\<lambda>msg. bind_eff (send_with_reply_and_timeout K P run msg timeout)
         (\<lambda>pending. case then_call run c pending of
             (Inl e, _) \<Rightarrow> throw_eff e
           | (Inr _, pending) \<Rightarrow> return_eff pending))"

definition emit_signal ::
  "('m, 'i, 'w) libdbus \<Rightarrow> ('d, 'm, 'p) connection \<Rightarrow> float_conversions \<Rightarrow> string \<Rightarrow> string \<times> string
     \<Rightarrow> (ctype \<times> 'i cval) list \<Rightarrow> ('d, unit) eff" where
  "emit_signal L K F path sig args =
     bind_eff (lift_res (factory_make_signal L path (fst sig) (snd sig)))
       (\<lambda>msg. case encode_message L F args (msg_writer L msg) of
           (Inl e, w) \<Rightarrow> throw_eff e
         | (Inr _, w) \<Rightarrow> then_eff (bus_send K (snd w)) (return_eff ()))"

text \<open>\<open>Signal::emit\<close>, with and without an argument, on an object with the path.\<close>

definition signal_emit ::
  "('m, 'i, 'w) libdbus \<Rightarrow> ('d, 'm, 'p) connection \<Rightarrow> float_conversions \<Rightarrow> string \<Rightarrow> string \<times> string
     \<Rightarrow> ctype \<Rightarrow> 'i cval \<Rightarrow> ('d, unit) eff" where
  "signal_emit L K F path sig t args = emit_signal L K F path sig [(t, args)]"

definition void_signal_emit ::
  "('m, 'i, 'w) libdbus \<Rightarrow> ('d, 'm, 'p) connection \<Rightarrow> float_conversions \<Rightarrow> string \<Rightarrow> string \<times> string
     \<Rightarrow> ('d, unit) eff" where
  "void_signal_emit L K F path sig = emit_signal L K F path sig []"

section \<open>The interface of properties\<close>

definition properties_interface :: string where
  "properties_interface = ''org.freedesktop.DBus.Properties''"

definition get_key :: "string \<times> string" where
  "get_key = (properties_interface, ''Get'')"

definition set_key :: "string \<times> string" where
  "set_key = (properties_interface, ''Set'')"

definition get_all_key :: "string \<times> string" where
  "get_all_key = (properties_interface, ''GetAll'')"

definition properties_changed_key :: "string \<times> string" where
  "properties_changed_key = (properties_interface, ''PropertiesChanged'')"

definition properties_timeout :: int where
  "properties_timeout = 30000"

definition properties_changed_type :: ctype where
  "properties_changed_type = T_tuple [T_string, T_map T_string T_variant, T_vector T_string]"

section \<open>Objects and properties\<close>

datatype object_route = Route_signal nat | Route_properties_changed

datatype 'h method_route = Route_get_property | Route_set_property | Route_user 'h

record 'h dbus_object =
  ob_service :: service
  ob_path :: string
  ob_signal_router :: "(string \<times> string, object_route) router"
  ob_method_router :: "(string \<times> string, 'h method_route) router"
  ob_get_router :: "(string \<times> string, nat) router"
  ob_set_router :: "(string \<times> string, nat) router"
  ob_match_added :: bool
  ob_changed_vtable :: "string \<times> string \<Rightarrow> nat option"

definition new_object :: "service \<Rightarrow> string \<Rightarrow> 'h dbus_object" where
  "new_object parent path = \<lparr>ob_service = parent, ob_path = path, ob_signal_router = new_router,
     ob_method_router = new_router, ob_get_router = new_router, ob_set_router = new_router,
     ob_match_added = False, ob_changed_vtable = (\<lambda>k. None)\<rparr>"

definition object_is_stub :: "'h dbus_object \<Rightarrow> bool" where
  "object_is_stub ob = service_stub (ob_service ob)"

record 'i dbus_property =
  pr_object :: nat
  pr_interface :: string
  pr_name :: string
  pr_type :: ctype
  pr_writable :: bool
  pr_value :: "'i cval"

record ('d, 'h, 'i, 'e) world =
  w_bus :: "('d, nat, 'e) bus"
  w_objects :: "nat \<Rightarrow> 'h dbus_object option"
  w_properties :: "nat \<Rightarrow> 'i dbus_property option"

record ('m, 'i, 'w, 'd, 'p, 'h, 'e) env =
  env_lib :: "('m, 'i, 'w) libdbus"
  env_conn :: "('d, 'm, 'p) connection"
  env_floats :: float_conversions
  env_user :: "'h \<Rightarrow> 'm \<Rightarrow> (('d, 'h, 'i, 'e) world, unit) eff"
  env_signal :: "nat \<Rightarrow> 'm \<Rightarrow> (('d, 'h, 'i, 'e) world, unit) eff"
  env_store :: "'i cval \<Rightarrow> 'i cval \<Rightarrow> 'i cval"

interpretation bus_part: state_part w_bus "\<lambda>b s. s\<lparr>w_bus := b\<rparr>"
  by unfold_locales simp_all

definition on_bus :: "(('d, nat, 'e) bus, 'a) eff \<Rightarrow> (('d, 'h, 'i, 'e) world, 'a) eff" where
  "on_bus e = zoom w_bus (\<lambda>b s. s\<lparr>w_bus := b\<rparr>) e"

lemma on_bus_run: "e (w_bus s) = (r, b) \<Longrightarrow> on_bus e s = (r, s\<lparr>w_bus := b\<rparr>)"
  unfolding on_bus_def by (rule bus_part.zoom_run)

lemma on_bus_conn_run:
  "e (bus_conn (w_bus s)) = (r, d) \<Longrightarrow> on_bus (on_conn e) s = (r, s\<lparr>w_bus := w_bus s\<lparr>bus_conn := d\<rparr>\<rparr>)"
  by (rule on_bus_run) (rule on_conn_run)

text \<open>What is no longer alive must not be touched.\<close>

definition null_object :: "'h dbus_object" where
  "null_object = new_object \<lparr>service_name = [], service_stub = True\<rparr> []"

definition object_of :: "nat \<Rightarrow> ('d, 'h, 'i, 'e) world \<Rightarrow> 'h dbus_object" where
  "object_of n s = (case w_objects s n of Some ob \<Rightarrow> ob | None \<Rightarrow> null_object)"

definition put_object :: "nat \<Rightarrow> 'h dbus_object \<Rightarrow> ('d, 'h, 'i, 'e) world \<Rightarrow> ('d, 'h, 'i, 'e) world" where
  "put_object n ob s = s\<lparr>w_objects := (w_objects s)(n \<mapsto> ob)\<rparr>"

definition if_alive :: "nat \<Rightarrow> (('d, 'h, 'i, 'e) world, 'a) eff \<Rightarrow> (('d, 'h, 'i, 'e) world, 'a) eff" where
  "if_alive n e s =
     (case w_objects s n of
        None \<Rightarrow> (Inl (Undefined_behaviour ''object used after its destruction''), s)
      | Some ob \<Rightarrow> e s)"

definition on_object ::
  "nat \<Rightarrow> ('h dbus_object, 'a) eff \<Rightarrow> (('d, 'h, 'i, 'e) world, 'a) eff" where
  "on_object n e = if_alive n (zoom (object_of n) (put_object n) e)"

definition with_property ::
  "nat \<Rightarrow> ('i dbus_property \<Rightarrow> (('d, 'h, 'i, 'e) world, 'a) eff) \<Rightarrow> (('d, 'h, 'i, 'e) world, 'a) eff" where
  "with_property n f s =
     (case w_properties s n of
        None \<Rightarrow> (Inl (Undefined_behaviour ''property used after its destruction''), s)
      | Some p \<Rightarrow> f p s)"

section \<open>Properties\<close>

text \<open>\<open>Super::set\<close> on a property.\<close>

definition super_set :: "('m, 'i, 'w, 'd, 'p, 'h, 'e) env \<Rightarrow> nat \<Rightarrow> 'i cval
     \<Rightarrow> (('d, 'h, 'i, 'e) world, unit) eff" where
  "super_set E n v = with_property n (\<lambda>p s. (Inr (),
     s\<lparr>w_properties := (w_properties s)(n \<mapsto> p\<lparr>pr_value := env_store E (pr_value p) v\<rparr>)\<rparr>))"

definition send_message :: "('m, 'i, 'w, 'd, 'p, 'h, 'e) env \<Rightarrow> 'm \<Rightarrow> (('d, 'h, 'i, 'e) world, unit) eff" where
  "send_message E msg = then_eff (on_bus (on_conn (bus_send (env_conn E) msg))) (return_eff ())"

definition handle_get ::
  "('m, 'i, 'w, 'd, 'p, 'h, 'e) env \<Rightarrow> nat \<Rightarrow> 'm \<Rightarrow> (('d, 'h, 'i, 'e) world, unit) eff" where
  "handle_get E n msg = with_property n (\<lambda>p.
     bind_eff (lift_res (make_method_return (env_lib E) msg)) (\<lambda>reply.
       case stream_out (env_lib E) (env_floats E) (T_typed_variant (pr_type p)) (V_typed_variant (pr_value p))
              (msg_writer (env_lib E) reply) of
         (Inl e, w) \<Rightarrow> throw_eff e
       | (Inr _, w) \<Rightarrow> send_message E (snd w)))"

definition send_not_writable ::
  "('m, 'i, 'w, 'd, 'p, 'h, 'e) env \<Rightarrow> string \<Rightarrow> 'm \<Rightarrow> (('d, 'h, 'i, 'e) world, unit) eff" where
  "send_not_writable E name msg =
     bind_eff (lift_res (make_error (env_lib E) msg (properties_interface @ ''.NotWritableError'')
         (name @ ''is not writable'')))
       (send_message E)"

text \<open>\<open>msg->reader() >> s >> s >> value\<close> for a property of type \<open>t\<close>.\<close>

definition read_set_value ::
  "('m, 'i, 'w) libdbus \<Rightarrow> float_conversions \<Rightarrow> ctype \<Rightarrow> 'm \<Rightarrow> exn + 'i cval" where
  "read_set_value L F t msg =
     (case msg_reader L msg of
        Inl e \<Rightarrow> Inl e
      | Inr reader \<Rightarrow> fst (bind_eff (stream_in L F T_string (default_val T_string))
          (\<lambda>s. bind_eff (stream_in L F T_string s)
            (\<lambda>s. bind_eff (stream_in L F (T_typed_variant t) (default_val (T_typed_variant t)))
              (\<lambda>v. case v of V_typed_variant x \<Rightarrow> return_eff x | _ \<Rightarrow> ill_typed))) reader))"

definition handle_set ::
  "('m, 'i, 'w, 'd, 'p, 'h, 'e) env \<Rightarrow> nat \<Rightarrow> 'm \<Rightarrow> (('d, 'h, 'i, 'e) world, unit) eff" where
  "handle_set E n msg = with_property n (\<lambda>p.
     if \<not> pr_writable p then send_not_writable E (pr_name p) msg
     else bind_eff
       (catch_eff
          (then_eff (bind_eff (lift_res (read_set_value (env_lib E) (env_floats E) (pr_type p) msg)) (super_set E n))
             (return_eff True))
          (\<lambda>e. if is_exception e then then_eff (send_not_writable E (pr_name p) msg) (return_eff False)
               else throw_eff e))
       (\<lambda>done. if \<not> done then return_eff ()
          else bind_eff (lift_res (make_method_return (env_lib E) msg)) (send_message E)))"

definition handle_changed ::
  "('m, 'i, 'w, 'd, 'p, 'h, 'e) env \<Rightarrow> nat \<Rightarrow> 'i cval \<Rightarrow> (('d, 'h, 'i, 'e) world, unit) eff" where
  "handle_changed E n arg = with_property n (\<lambda>p.
     catch_eff (bind_eff (lift_res (fst (variant_as (env_lib E) (env_floats E) (pr_type p) arg))) (super_set E n))
       (\<lambda>e. if is_exception e then return_eff () else throw_eff e))"

text \<open>\<open>Property::get\<close> and \<open>Property::set\<close>.\<close>

definition property_get ::
  "('m, 'i, 'w, 'd, 'p, 'h, 'e) env \<Rightarrow> nat \<Rightarrow> (('d, 'h, 'i, 'e) world, 'i cval) eff" where
  "property_get E n = with_property n (\<lambda>p s.
     bind_eff
       (if object_is_stub (object_of (pr_object p) s)
        then bind_eff (on_bus (on_conn (invoke_method_synchronously (env_lib E) (env_conn E) (env_floats E)
               (ob_service (object_of (pr_object p) s)) (ob_path (object_of (pr_object p) s)) get_key
               properties_timeout (T_typed_variant (pr_type p))
               [(T_string, V_string (pr_interface p)), (T_string, V_string (pr_name p))])))
          (\<lambda>result. bind_eff (lift_res (value_of_result result))
            (\<lambda>v. case v of
                V_typed_variant x \<Rightarrow> (\<lambda>s. (Inr (), s\<lparr>w_properties := (w_properties s)(n \<mapsto> p\<lparr>pr_value := x\<rparr>)\<rparr>))
              | _ \<Rightarrow> ill_typed))
        else return_eff ())
       (\<lambda>_. with_property n (\<lambda>p. return_eff (pr_value p))) s)"

definition property_set ::
  "('m, 'i, 'w, 'd, 'p, 'h, 'e) env \<Rightarrow> nat \<Rightarrow> 'i cval \<Rightarrow> (('d, 'h, 'i, 'e) world, unit) eff" where
  "property_set E n new_value = with_property n (\<lambda>p s.
     then_eff
       (if object_is_stub (object_of (pr_object p) s)
        then if \<not> pr_writable p then throw_eff (Runtime_error ''Property is not writable'')
             else then_eff (on_bus (on_conn (invoke_void_method_synchronously (env_lib E) (env_conn E)
                 (env_floats E) (ob_service (object_of (pr_object p) s)) (ob_path (object_of (pr_object p) s))
                 set_key properties_timeout
                 [(T_string, V_string (pr_interface p)), (T_string, V_string (pr_name p)),
                  (T_typed_variant (pr_type p), V_typed_variant new_value)]))) (return_eff ())
        else return_eff ())
       (super_set E n new_value) s)"

section \<open>Routing inside an object\<close>

text \<open>The four routers find their keys in the message: the interface and the member, or the first two
  arguments.\<close>

definition member_key :: "('m, 'i, 'w) libdbus \<Rightarrow> 'm \<Rightarrow> exn + string \<times> string" where
  "member_key L msg =
     (case msg_interface L msg of
        Inl e \<Rightarrow> Inl e
      | Inr i \<Rightarrow> (case msg_member L msg of Inl e \<Rightarrow> Inl e | Inr m \<Rightarrow> Inr (i, m)))"

definition property_key ::
  "('m, 'i, 'w) libdbus \<Rightarrow> float_conversions \<Rightarrow> 'm \<Rightarrow> exn + string \<times> string" where
  "property_key L F msg =
     (case msg_reader L msg of
        Inl e \<Rightarrow> Inl e
      | Inr reader \<Rightarrow> fst (bind_eff (stream_in L F T_string (default_val T_string))
          (\<lambda>i. bind_eff (stream_in L F T_string (default_val T_string))
            (\<lambda>m. case (i, m) of
                (V_string interface, V_string member) \<Rightarrow> return_eff (interface, member)
              | _ \<Rightarrow> ill_typed)) reader))"

definition route_in_object ::
  "nat \<Rightarrow> ('h dbus_object \<Rightarrow> ('k, 'r) router) \<Rightarrow> (('k, 'r) router \<Rightarrow> 'h dbus_object \<Rightarrow> 'h dbus_object)
     \<Rightarrow> ('m \<Rightarrow> exn + 'k) \<Rightarrow> ('r \<Rightarrow> 'm \<Rightarrow> (('d, 'h, 'i, 'e) world, unit) eff) \<Rightarrow> 'm
     \<Rightarrow> (('d, 'h, 'i, 'e) world, bool) eff" where
  "route_in_object n get put mapper run msg = if_alive n
     (route_message (\<lambda>s. get (object_of n s)) (\<lambda>r s. put_object n (put r (object_of n s)) s) mapper run msg)"

definition route_get ::
  "('m, 'i, 'w, 'd, 'p, 'h, 'e) env \<Rightarrow> nat \<Rightarrow> 'm \<Rightarrow> (('d, 'h, 'i, 'e) world, bool) eff" where
  "route_get E n = route_in_object n ob_get_router (\<lambda>r ob. ob\<lparr>ob_get_router := r\<rparr>)
     (property_key (env_lib E) (env_floats E)) (handle_get E)"

definition route_set ::
  "('m, 'i, 'w, 'd, 'p, 'h, 'e) env \<Rightarrow> nat \<Rightarrow> 'm \<Rightarrow> (('d, 'h, 'i, 'e) world, bool) eff" where
  "route_set E n = route_in_object n ob_set_router (\<lambda>r ob. ob\<lparr>ob_set_router := r\<rparr>)
     (property_key (env_lib E) (env_floats E)) (handle_set E)"

text \<open>The router of the methods; the answer of the routers for properties is lost, as the handler is a
  function without result.\<close>

definition run_method_route ::
  "('m, 'i, 'w, 'd, 'p, 'h, 'e) env \<Rightarrow> nat \<Rightarrow> 'h method_route \<Rightarrow> 'm \<Rightarrow> (('d, 'h, 'i, 'e) world, unit) eff"
  where
  "run_method_route E n r msg =
     (case r of
        Route_get_property \<Rightarrow> then_eff (route_get E n msg) (return_eff ())
      | Route_set_property \<Rightarrow> then_eff (route_set E n msg) (return_eff ())
      | Route_user h \<Rightarrow> env_user E h msg)"

definition on_new_message ::
  "('m, 'i, 'w, 'd, 'p, 'h, 'e) env \<Rightarrow> nat \<Rightarrow> 'm \<Rightarrow> (('d, 'h, 'i, 'e) world, bool) eff" where
  "on_new_message E n = route_in_object n ob_method_router (\<lambda>r ob. ob\<lparr>ob_method_router := r\<rparr>)
     (member_key (env_lib E)) (run_method_route E n)"

text \<open>What libdbus calls for a message to a registered path; the object is held weakly.\<close>

definition object_path_message ::
  "('m, 'i, 'w, 'd, 'p, 'h, 'e) env \<Rightarrow> nat \<Rightarrow> 'm option \<Rightarrow> (('d, 'h, 'i, 'e) world, handler_result) eff"
  where
  "object_path_message E n =
     vtable_on_new_message (\<lambda>s. if w_objects s n = None then None else Some n) (on_new_message E)"

definition on_properties_changed ::
  "('m, 'i, 'w, 'd, 'p, 'h, 'e) env \<Rightarrow> nat \<Rightarrow> 'i cval \<Rightarrow> (('d, 'h, 'i, 'e) world, unit) eff" where
  "on_properties_changed E n arg =
     (case arg of
        V_tuple [V_string interface, V_map changed, invalidated] \<Rightarrow>
          each_eff (\<lambda>(k, v) s.
            case k of
              V_string name \<Rightarrow>
                (case ob_changed_vtable (object_of n s) (interface, name) of
                   None \<Rightarrow> (Inr (), s)
                 | Some p \<Rightarrow> if w_properties s p = None then (Inr (), s) else handle_changed E p v s)
            | _ \<Rightarrow> ill_typed s) changed
      | _ \<Rightarrow> ill_typed)"

definition run_object_route ::
  "('m, 'i, 'w, 'd, 'p, 'h, 'e) env \<Rightarrow> nat \<Rightarrow> object_route \<Rightarrow> 'm \<Rightarrow> (('d, 'h, 'i, 'e) world, unit) eff"
  where
  "run_object_route E n r msg =
     (case r of
        Route_signal g \<Rightarrow> env_signal E g msg
      | Route_properties_changed \<Rightarrow>
          bind_eff (lift_res (msg_reader (env_lib E) msg)) (\<lambda>reader.
            bind_eff (lift_res (fst (stream_in (env_lib E) (env_floats E) properties_changed_type
                (default_val properties_changed_type) reader)))
              (on_properties_changed E n)))"

text \<open>The object's part in the dispatch of a signal, and the whole of it from the filter on.\<close>

definition object_signal ::
  "('m, 'i, 'w, 'd, 'p, 'h, 'e) env \<Rightarrow> nat \<Rightarrow> 'm \<Rightarrow> (('d, 'h, 'i, 'e) world, unit) eff" where
  "object_signal E n msg = then_eff
     (route_in_object n ob_signal_router (\<lambda>r ob. ob\<lparr>ob_signal_router := r\<rparr>)
        (member_key (env_lib E)) (run_object_route E n) msg)
     (return_eff ())"

definition filter_message ::
  "('m, 'i, 'w, 'd, 'p, 'h, 'e) env \<Rightarrow> 'm option \<Rightarrow> (('d, 'h, 'i, 'e) world, handler_result) eff" where
  "filter_message E = static_handle_message w_bus (\<lambda>b s. s\<lparr>w_bus := b\<rparr>) (env_lib E) (object_signal E)"

section \<open>The life of an object\<close>

definition install_method_handler ::
  "nat \<Rightarrow> string \<times> string \<Rightarrow> 'h method_route \<Rightarrow> (('d, 'h, 'i, 'e) world, unit) eff" where
  "install_method_handler n key r = on_object n (zoom ob_method_router
     (\<lambda>t ob. ob\<lparr>ob_method_router := t\<rparr>) (install_route key r))"

definition uninstall_method_handler ::
  "nat \<Rightarrow> string \<times> string \<Rightarrow> (('d, 'h, 'i, 'e) world, unit) eff" where
  "uninstall_method_handler n key = on_object n (zoom ob_method_router
     (\<lambda>t ob. ob\<lparr>ob_method_router := t\<rparr>) (uninstall_route key))"

definition construct_object ::
  "nat \<Rightarrow> service \<Rightarrow> string \<Rightarrow> (('d, 'h, 'i, 'e) world, unit) eff" where
  "construct_object n parent path =
     then_eff (\<lambda>s. (Inr (), put_object n (new_object parent path) s))
    (then_eff (on_bus (on_signal_router (install_route path n)))
       (if \<not> service_stub parent
        then then_eff (install_method_handler n get_key Route_get_property)
               (install_method_handler n set_key Route_set_property)
        else on_object n (zoom ob_signal_router (\<lambda>t ob. ob\<lparr>ob_signal_router := t\<rparr>)
               (install_route properties_changed_key Route_properties_changed))))"

definition properties_changed_rule :: match_rule where
  "properties_changed_rule = snd (set_member (snd properties_changed_key)
     (snd (set_interface properties_interface (snd (set_type Mt_signal new_match_rule)))))"

definition object_destructor ::
  "('m, 'i, 'w, 'd, 'p, 'h, 'e) env \<Rightarrow> nat \<Rightarrow> (('d, 'h, 'i, 'e) world, unit) eff" where
  "object_destructor E n = noexcept_eff (if_alive n (\<lambda>s.
     let ob = object_of n s in
     then_eff (on_bus (on_signal_router (uninstall_route (ob_path ob))))
    (then_eff (on_bus (on_conn (unregister_object_path (env_conn E) (ob_path ob))))
    (then_eff (ignore_exceptions (on_bus (on_conn
          (object_remove_match (env_conn E) (ob_service ob) (ob_path ob) properties_changed_rule))))
       (\<lambda>s. (Inr (), s\<lparr>w_objects := (w_objects s)(n := None)\<rparr>)))) s))"

text \<open>\<open>Service::object_for_path\<close>, \<open>Service::add_object_for_path\<close> and \<open>Object::add_object_for_path\<close>.
  When the registration throws, the new object is destroyed.\<close>

definition object_for_path ::
  "nat \<Rightarrow> service \<Rightarrow> string \<Rightarrow> (('d, 'h, 'i, 'e) world, nat) eff" where
  "object_for_path n service path = then_eff (construct_object n service path) (return_eff n)"

definition service_add_object_for_path ::
  "('m, 'i, 'w, 'd, 'p, 'h, 'e) env \<Rightarrow> nat \<Rightarrow> service \<Rightarrow> string \<Rightarrow> (('d, 'h, 'i, 'e) world, nat) eff" where
  "service_add_object_for_path E n service path =
     then_eff (construct_object n service path)
       (catch_eff (then_eff (on_bus (on_conn (register_object_for_path (env_conn E) path n))) (return_eff n))
          (\<lambda>e. then_eff (object_destructor E n) (throw_eff e)))"

text \<open>\<open>Service::root_object\<close>; \<open>root\<close> is the member that keeps it.\<close>

definition root_object ::
  "nat \<Rightarrow> service \<Rightarrow> nat option \<Rightarrow> (('d, 'h, 'i, 'e) world, nat) eff" where
  "root_object n service root =
     (case root of Some r \<Rightarrow> return_eff r | None \<Rightarrow> object_for_path n service object_path_root)"

definition object_add_object_for_path ::
  "nat \<Rightarrow> nat \<Rightarrow> string \<Rightarrow> (('d, 'h, 'i, 'e) world, nat) eff" where
  "object_add_object_for_path parent n path = if_alive parent (\<lambda>s.
     object_for_path n (ob_service (object_of parent s)) path s)"

section \<open>Properties of an object\<close>

record property_description =
  pd_interface :: string
  pd_name :: string
  pd_type :: ctype
  pd_writable :: bool

definition make_property ::
  "nat \<Rightarrow> nat \<Rightarrow> property_description \<Rightarrow> (('d, 'h, 'i, 'e) world, nat) eff" where
  "make_property n p D =
     then_eff (\<lambda>s. (Inr (), s\<lparr>w_properties := (w_properties s)(p \<mapsto>
         \<lparr>pr_object = n, pr_interface = pd_interface D, pr_name = pd_name D, pr_type = pd_type D,
          pr_writable = pd_writable D, pr_value = default_val (pd_type D)\<rparr>)\<rparr>))
    (then_eff (if_alive n (\<lambda>s.
        if \<not> object_is_stub (object_of n s)
        then then_eff (on_object n (zoom ob_get_router (\<lambda>t ob. ob\<lparr>ob_get_router := t\<rparr>)
                 (install_route (pd_interface D, pd_name D) p)))
               (on_object n (zoom ob_set_router (\<lambda>t ob. ob\<lparr>ob_set_router := t\<rparr>)
                 (install_route (pd_interface D, pd_name D) p))) s
        else (Inr (), s)))
       (return_eff p))"

text \<open>\<open>get_property\<close>, with the cache of the description; \<open>W\<close> is the interface of the cache to the
  properties that are alive (see the theory on the cache). A new property gets the number \<open>p\<close>. When
  the match rule cannot be added, the new property is destroyed.\<close>

type_synonym cache_key = "string \<times> string \<times> string"

definition on_world ::
  "('w, 'a) eff \<Rightarrow> (('k, nat, 'c) cache \<times> 'w, 'a) eff" where
  "on_world e = zoom snd (\<lambda>w s. (fst s, w)) e"

definition watch_changes ::
  "('m, 'i, 'w, 'd, 'p, 'h, 'e) env \<Rightarrow> nat \<Rightarrow> nat \<Rightarrow> property_description
     \<Rightarrow> (('d, 'h, 'i, 'e) world, unit) eff" where
  "watch_changes E n p D = if_alive n (\<lambda>s.
     let ob = object_of n s in
     then_eff (if ob_match_added ob then return_eff ()
               else then_eff (on_bus (on_conn (object_add_match (env_conn E) (ob_service ob) (ob_path ob)
                        properties_changed_rule)))
                      (on_object n (\<lambda>ob. (Inr (), ob\<lparr>ob_match_added := True\<rparr>))))
       (on_object n (\<lambda>ob. (Inr (), ob\<lparr>ob_changed_vtable :=
          (ob_changed_vtable ob)((pd_interface D, pd_name D) \<mapsto> p)\<rparr>))) s)"

definition get_property ::
  "(('d, 'h, 'i, 'e) world, nat, cache_key, 'c) objects \<Rightarrow> ('m, 'i, 'w, 'd, 'p, 'h, 'e) env \<Rightarrow> nat \<Rightarrow> nat
     \<Rightarrow> property_description \<Rightarrow> ((cache_key, nat, 'c) cache \<times> ('d, 'h, 'i, 'e) world, nat) eff" where
  "get_property W E n p D s =
     (let ob = object_of n (snd s); key = (ob_path ob, pd_interface D, pd_name D) in
      if w_objects (snd s) n = None
      then (Inl (Undefined_behaviour ''object used after its destruction''), s)
      else if \<not> object_is_stub ob then on_world (make_property n p D) s
      else bind_eff (retrieve_value_for_key W key) (\<lambda>found.
             case found of
               Some q \<Rightarrow> return_eff q
             | None \<Rightarrow>
                 then_eff (on_world (make_property n p D))
                   (then_eff (insert_value_for_key W key p)
                     (catch_eff (then_eff (on_world (watch_changes E n p D)) (return_eff p))
                        (\<lambda>e. then_eff (destroy_object W p) (throw_eff e))))) s)"

text \<open>\<open>Signal::make_signal\<close>, behind \<open>get_signal\<close>: the cache of the description of the signal, whose key
  is made from the path, the interface and the name as well; \<open>construct\<close> is the constructor, on the
  signal with the number \<open>g\<close>.\<close>

definition make_signal_cached ::
  "('w, nat, cache_key, 'c) objects \<Rightarrow> cache_key \<Rightarrow> nat \<Rightarrow> ('w, unit) eff
     \<Rightarrow> ((cache_key, nat, 'c) cache \<times> 'w, nat) eff" where
  "make_signal_cached W key g construct =
     bind_eff (retrieve_value_for_key W key) (\<lambda>found.
       case found of
         Some q \<Rightarrow> return_eff q
       | None \<Rightarrow> then_eff (on_world construct)
           (then_eff (insert_value_for_key W key g) (return_eff g)))"

text \<open>\<open>Signal<SignalDescription, void>::make_signal\<close>, for signals without argument: a cache of its own, the same
steps.\<close>

definition make_void_signal_cached ::
  "('w, nat, cache_key, 'c) objects \<Rightarrow> cache_key \<Rightarrow> nat \<Rightarrow> ('w, unit) eff
     \<Rightarrow> ((cache_key, nat, 'c) cache \<times> 'w, nat) eff" where
  "make_void_signal_cached W key g construct =
     bind_eff (retrieve_value_for_key W key) (\<lambda>found.
       case found of
         Some q \<Rightarrow> return_eff q
       | None \<Rightarrow> then_eff (on_world construct)
           (then_eff (insert_value_for_key W key g) (return_eff g)))"

definition get_signal ::
  "(('d, 'h, 'i, 'e) world, nat, cache_key, 'c) objects \<Rightarrow> nat \<Rightarrow> string \<times> string \<Rightarrow> nat
     \<Rightarrow> (('d, 'h, 'i, 'e) world, unit) eff \<Rightarrow> ((cache_key, nat, 'c) cache \<times> ('d, 'h, 'i, 'e) world, nat) eff" where
  "get_signal W n sig g construct s =
     (case w_objects (snd s) n of
        None \<Rightarrow> (Inl (Undefined_behaviour ''object used after its destruction''), s)
      | Some ob \<Rightarrow> make_signal_cached W (ob_path ob, fst sig, snd sig) g construct s)"

definition get_all_properties ::
  "('m, 'i, 'w, 'd, 'p, 'h, 'e) env \<Rightarrow> nat \<Rightarrow> string \<Rightarrow> (('d, 'h, 'i, 'e) world, 'i cval) eff" where
  "get_all_properties E n interface = if_alive n (\<lambda>s.
     bind_eff (on_bus (on_conn (invoke_method_synchronously (env_lib E) (env_conn E) (env_floats E)
         (ob_service (object_of n s)) (ob_path (object_of n s)) get_all_key properties_timeout
         (T_map T_string T_variant) [(T_string, V_string interface)])))
       (\<lambda>result. lift_res (value_of_result result)) s)"

end
