(* ===== verification/Remote_Properties.thy ===== *)
theory Remote_Properties
  imports Dbus_Object
begin

text \<open>
  Properties used from another process. The stub of the client calls \<open>Get\<close> or \<open>Set\<close>, the message
  arrives at the server's object, is routed to its property, and the reply comes back. The lemmas
  follow the message: what the client writes (\<open>make_call\<close>), what the routers of the server read from
  it (\<open>member_key\<close>, \<open>property_key\<close>), what the handler does, and what the client makes of the reply.
\<close>

section \<open>Variants of a fixed type\<close>

lemma emits_typed_variant:
  assumes "writes L ok wden" and "single_type t" and "sendable t v"
    and "list_all (dval_ok ok) (dvals_of F t v)"
  shows "emits wden (encode L F (T_typed_variant t) (V_typed_variant v)) None vs
     (dvals_of F (T_typed_variant t) (V_typed_variant v))"
proof -
  obtain d where d: "dvals_of F t v = [d]" using single_one [OF assms(2,3)] .
  have "dsig d = signature t"
    by (rule dsig_single [OF single_multi [OF assms(2)] assms(3) d])
  then have "emits wden (encode L F t v) (Some (at_code At_variant, Some (signature t))) [] [d]"
    using writes_well_single [OF encode_writes_well [OF assms(1) single_multi [OF assms(2)] assms(3,4)]
        assms(2) d] by simp
  then show ?thesis
    using emits_variant [OF assms(1)] single_multi [OF assms(2)] d by simp
qed

lemma yields_typed_variant:
  assumes "reads L den" and "single_type t" and "sendable t v" and "clean L F v"
  shows "yields den (stream_in L F (T_typed_variant t) (default_val (T_typed_variant t)))
     (dvals_of F (T_typed_variant t) (V_typed_variant v))
     (\<lambda>r. \<exists>x. r = V_typed_variant x \<and> received F den v x)"
proof -
  have "yields den (codec_variant_decode L (Some (decode L F t (default_val t))))
      [D_container (at_code At_variant) (Some (signature t)) (dvals_of F t v)] (received F den v)"
    by (rule yields_variant [OF assms(1) decode_yields [OF assms(1) single_multi [OF assms(2)] assms(3,4)]])
  then show ?thesis
    unfolding stream_in_def by (auto intro: yields_map)
qed

text \<open>What a property can send.\<close>

definition transportable ::
  "('m, 'i, 'w) libdbus \<Rightarrow> float_conversions \<Rightarrow> (int \<Rightarrow> raw \<Rightarrow> bool) \<Rightarrow> ctype \<Rightarrow> 'i cval \<Rightarrow> bool" where
  "transportable L F ok t v \<longleftrightarrow> single_type t \<and> sendable t v \<and> clean L F v
     \<and> list_all (dval_ok ok) (dvals_of F t v)"

definition string_ok :: "(int \<Rightarrow> raw \<Rightarrow> bool) \<Rightarrow> string \<Rightarrow> bool" where
  "string_ok ok s \<longleftrightarrow> CHR 0x00 \<notin> set s \<and> ok (at_code At_string) (Raw_str s)"

lemma emits_string:
  assumes "writes L ok wden" and "string_ok ok s"
  shows "emits wden (encode L F T_string (V_string s)) None vs [D_basic (at_code At_string) (Raw_str s)]"
  using encode_emits [OF assms(1), of T_string "V_string s" F] assms(2)
  by (simp add: string_ok_def del: at_code.simps)

lemma yields_string:
  assumes "reads L den"
  shows "yields den (stream_in L F T_string v) [D_basic (at_code At_string) (Raw_str s)] (\<lambda>r. r = V_string s)"
  unfolding stream_in_def decode.simps codec_string_decode_def
  by (rule yields_map [where P = "\<lambda>x. x = s"], rule yields_map [OF yields_pop_string [OF assms]]) simp_all

section \<open>Messages of a remote access\<close>

text \<open>
  What is used of libdbus: a new message is empty, takes values and gives them back, and keeps its
  interface, member and type while values are written.
\<close>

definition makes_call ::
  "('m, 'i, 'w) libdbus \<Rightarrow> (int \<Rightarrow> raw \<Rightarrow> bool) \<Rightarrow> ('i \<Rightarrow> dval list \<Rightarrow> bool) \<Rightarrow> string \<times> string \<Rightarrow> bool" where
  "makes_call L ok den key \<longleftrightarrow> (\<forall>destination path. \<exists>m w cden.
     message_new_method_call L destination path (fst key) (snd key) = Some m
     \<and> writes L ok cden \<and> stores L den cden \<and> cden m [(w, None, [])]
     \<and> (\<forall>m st. cden m st \<longrightarrow> message_get_interface L m = Some (fst key)
          \<and> message_get_member L m = Some (snd key)))"

definition makes_return ::
  "('m, 'i, 'w) libdbus \<Rightarrow> (int \<Rightarrow> raw \<Rightarrow> bool) \<Rightarrow> ('i \<Rightarrow> dval list \<Rightarrow> bool) \<Rightarrow> bool" where
  "makes_return L ok den \<longleftrightarrow> (\<forall>call. \<exists>m w wden.
     message_new_method_return L call = Some m
     \<and> writes L ok wden \<and> stores L den wden \<and> wden m [(w, None, [])]
     \<and> (\<forall>m st. wden m st \<longrightarrow> message_get_type L m = 2))"

definition makes_error :: "('m, 'i, 'w) libdbus \<Rightarrow> bool" where
  "makes_error L \<longleftrightarrow> (\<forall>call name desc. \<exists>m. message_new_error L call name desc = Some m
     \<and> message_get_type L m = 3 \<and> set_error_from_message L m = Some (name, desc))"

definition rpc_library ::
  "('m, 'i, 'w) libdbus \<Rightarrow> (int \<Rightarrow> raw \<Rightarrow> bool) \<Rightarrow> ('i \<Rightarrow> dval list \<Rightarrow> bool) \<Rightarrow> bool" where
  "rpc_library L ok den \<longleftrightarrow> reads L den \<and> makes_call L ok den get_key \<and> makes_call L ok den set_key
     \<and> makes_return L ok den \<and> makes_error L"

lemma member_key_ok:
  "message_get_interface L m = Some (fst key) \<Longrightarrow> message_get_member L m = Some (snd key)
     \<Longrightarrow> member_key L m = Inr key"
  by (simp add: member_key_def msg_interface_def msg_member_def string_from_chars_def)

lemma reply_types:
  "message_get_type L m = 2 \<Longrightarrow> msg_type L m = Mt_method_return"
  "message_get_type L m = 3 \<Longrightarrow> msg_type L m = Mt_error"
  by (simp_all add: msg_type_def message_type_of_def)

lemma key_strings [simp]:
  "c_str (fst get_key) = fst get_key" "c_str (snd get_key) = snd get_key"
  "c_str (fst set_key) = fst set_key" "c_str (snd set_key) = snd set_key"
  by (simp_all add: get_key_def set_key_def properties_interface_def)

lemma make_call_ok:
  assumes "makes_call L ok den key" and "c_str (fst key) = fst key" and "c_str (snd key) = snd key"
    and "\<And>cden :: 'm \<Rightarrow> 'w frame list \<Rightarrow> bool. writes L ok cden
           \<Longrightarrow> emits cden (encode_message L F args) None [] ds"
    and "ds \<noteq> []"
  obtains m i where "make_call (L :: ('m, 'i, 'w) libdbus) F service path key args = Inr m"
    and "member_key L m = Inr key" and "msg_reader L m = Inr i" and "den i ds"
proof -
  obtain m w cden where m: "message_new_method_call L (c_str (service_name service)) (c_str path) (fst key) (snd key) = Some m"
    and cden: "writes L ok cden" "stores L den cden" "cden m [(w, None, [])]"
    and keep: "\<forall>m st. cden m st \<longrightarrow> member_key L m = Inr key"
    using assms(1) member_key_ok unfolding makes_call_def by metis
  have "cden m [(iter_init_append L m, None, [])]"
    using cden(2,3) unfolding stores_def by blast
  then obtain w' m' where e: "encode_message L F args (iter_init_append L m, m) = (Inr (), (w', m'))"
    and wd: "cden m' [(w', None, [] @ ds)]"
    by (rule emits_run [OF assms(4) [OF cden(1)]])
  obtain i where i: "msg_reader L m' = Inr i" and "den i ds"
    using msg_reader_ok [OF cden(2) wd] assms(5) by auto
  moreover have "make_call L F service path key args = Inr m'"
    using m e assms(2,3)
    by (simp add: make_call_def factory_make_method_call_def make_method_call_def construct_message_def
        msg_writer_def)
  ultimately show thesis using that keep wd by blast
qed

section \<open>Reading a request\<close>

lemma property_key_ok:
  assumes "reads L den" and "msg_reader L msg = Inr i"
    and "den i (D_basic (at_code At_string) (Raw_str interface)
           # D_basic (at_code At_string) (Raw_str name) # ds)"
  shows "property_key L F msg = Inr (interface, name)"
proof -
  obtain i1 where 1: "stream_in L F T_string (default_val T_string) i = (Inr (V_string interface), i1)"
    and "den i1 (D_basic (at_code At_string) (Raw_str name) # ds)"
    using yields_run [OF yields_string [OF assms(1)]] assms(3) by (metis append_Cons append_Nil)
  then obtain i2 where 2: "stream_in L F T_string (default_val T_string) i1 = (Inr (V_string name), i2)"
    using yields_run [OF yields_string [OF assms(1)]] by (metis append_Cons append_Nil)
  show ?thesis
    using assms(2) 1 2 by (simp add: property_key_def bind_eff_def return_eff_def)
qed

lemma read_set_value_ok:
  assumes "reads L den" and "msg_reader L msg = Inr i"
    and "den i (D_basic (at_code At_string) (Raw_str interface)
           # D_basic (at_code At_string) (Raw_str name) # dvals_of F (T_typed_variant t) (V_typed_variant v))"
    and "single_type t" and "sendable t v" and "clean L F v"
  obtains x where "read_set_value L F t msg = Inr x" and "received F den v x"
proof -
  let ?ds = "dvals_of F (T_typed_variant t) (V_typed_variant v)"
  obtain i1 where 1: "stream_in L F T_string (default_val T_string) i = (Inr (V_string interface), i1)"
    and "den i1 (D_basic (at_code At_string) (Raw_str name) # ?ds)"
    using yields_run [OF yields_string [OF assms(1)]] assms(3) by (metis append_Cons append_Nil)
  then obtain i2 where 2: "stream_in L F T_string (V_string interface) i1 = (Inr (V_string name), i2)"
    and "den i2 (?ds @ [])"
    using yields_run [OF yields_string [OF assms(1)]] by (metis append_Cons append_Nil append_Nil2)
  then obtain x i3 where 3: "stream_in L F (T_typed_variant t) (default_val (T_typed_variant t)) i2
      = (Inr (V_typed_variant x), i3)" and "received F den v x"
    using yields_run [OF yields_typed_variant [OF assms(1,4,5,6)]] by metis
  moreover from 1 2 3 have "read_set_value L F t msg = Inr x"
    using assms(2) by (simp add: read_set_value_def bind_eff_def return_eff_def)
  ultimately show thesis using that by blast
qed

section \<open>The server\<close>

definition serves_property ::
  "('d, 'h, 'i, 'e) world \<Rightarrow> nat \<Rightarrow> string \<times> string \<Rightarrow> nat \<Rightarrow> bool" where
  "serves_property s ob key n \<longleftrightarrow> (\<exists>b. w_objects s ob = Some b
     \<and> \<not> router_guard (ob_method_router b) \<and> \<not> router_guard (ob_get_router b) \<and> \<not> router_guard (ob_set_router b)
     \<and> router_table (ob_method_router b) get_key = Some Route_get_property
     \<and> router_table (ob_method_router b) set_key = Some Route_set_property
     \<and> router_table (ob_get_router b) key = Some n \<and> router_table (ob_set_router b) key = Some n)"

lemma route_in_object_run:
  assumes "w_objects s ob = Some b" and "\<not> router_guard (get b)" and "put (get b) b = b"
  shows "route_in_object ob get put mapper run msg s =
     (case mapper msg of
        Inl e \<Rightarrow> (Inl e, s)
      | Inr k \<Rightarrow> (case router_table (get b) k of
                   None \<Rightarrow> (Inr False, s)
                 | Some h \<Rightarrow> then_eff (run h msg) (return_eff True) s))"
proof -
  have "object_of ob s = b" using assms(1) by (simp add: object_of_def)
  moreover from this have "put_object ob (put (get (object_of ob s)) (object_of ob s)) s = s"
    using assms(1,3) by (simp add: put_object_def fun_upd_idem)
  ultimately show ?thesis
    using assms(1,2) unfolding route_in_object_def if_alive_def
    by (simp add: route_message_run split: sum.split)
qed

lemma serve_get:
  assumes "serves_property s ob key n" and "member_key (env_lib E) msg = Inr get_key"
    and "property_key (env_lib E) (env_floats E) msg = Inr key"
    and "handle_get E n msg s = (Inr (), s')"
  shows "on_new_message E ob msg s = (Inr True, s')"
proof -
  obtain b where b: "w_objects s ob = Some b" "\<not> router_guard (ob_method_router b)"
      "\<not> router_guard (ob_get_router b)" "router_table (ob_method_router b) get_key = Some Route_get_property"
      "router_table (ob_get_router b) key = Some n"
    using assms(1) unfolding serves_property_def by blast
  have "route_get E ob msg s = (Inr True, s')"
    using b(3,5) assms(3,4) unfolding route_get_def
    by (simp add: route_in_object_run [OF b(1)] then_eff_Inr return_eff_def)
  then show ?thesis
    using b(2,4) assms(2) unfolding on_new_message_def
    by (simp add: route_in_object_run [OF b(1)] run_method_route_def then_eff_Inr return_eff_def)
qed

lemma serve_set:
  assumes "serves_property s ob key n" and "member_key (env_lib E) msg = Inr set_key"
    and "property_key (env_lib E) (env_floats E) msg = Inr key"
    and "handle_set E n msg s = (Inr (), s')"
  shows "on_new_message E ob msg s = (Inr True, s')"
proof -
  obtain b where b: "w_objects s ob = Some b" "\<not> router_guard (ob_method_router b)"
      "\<not> router_guard (ob_set_router b)" "router_table (ob_method_router b) set_key = Some Route_set_property"
      "router_table (ob_set_router b) key = Some n"
    using assms(1) unfolding serves_property_def by blast
  have "route_set E ob msg s = (Inr True, s')"
    using b(3,5) assms(3,4) unfolding route_set_def
    by (simp add: route_in_object_run [OF b(1)] then_eff_Inr return_eff_def)
  then show ?thesis
    using b(2,4) assms(2) unfolding on_new_message_def
    by (simp add: route_in_object_run [OF b(1)] run_method_route_def then_eff_Inr return_eff_def)
qed

text \<open>A connection that keeps what was sent, the last message first.\<close>

definition posts :: "('d, 'm, 'p) connection \<Rightarrow> ('d \<Rightarrow> 'm list) \<Rightarrow> bool" where
  "posts K outbox \<longleftrightarrow> (\<forall>m d. fst (conn_send K m d) \<noteq> None \<and> outbox (snd (conn_send K m d)) = m # outbox d)"

lemma send_message_run:
  assumes "posts (env_conn E) outbox"
  obtains s' where "send_message E m s = (Inr (), s')" and "hd (outbox (bus_conn (w_bus s'))) = m"
    and "w_properties s' = w_properties s" and "w_objects s' = w_objects s"
proof -
  obtain k d where d: "conn_send (env_conn E) m (bus_conn (w_bus s)) = (Some k, d)"
    and o: "outbox d = m # outbox (bus_conn (w_bus s))"
    using assms unfolding posts_def by (metis not_None_eq prod.collapse)
  let ?s = "s\<lparr>w_bus := w_bus s\<lparr>bus_conn := d\<rparr>\<rparr>"
  have "bus_send (env_conn E) m (bus_conn (w_bus s)) = (Inr k, d)"
    using d by (simp add: bus_send_def)
  then have "send_message E m s = (Inr (), ?s)"
    by (simp add: send_message_def then_eff_Inr [OF on_bus_conn_run] return_eff_def)
  then show thesis using that [of ?s] o by simp
qed

lemma handle_get_ok:
  assumes "rpc_library (env_lib E) ok den" and "posts (env_conn E) outbox"
    and "w_properties s n = Some p" and "transportable (env_lib E) (env_floats E) ok (pr_type p) (pr_value p)"
  obtains s' x where "handle_get E n msg s = (Inr (), s')" and "w_properties s' = w_properties s"
    and "w_objects s' = w_objects s"
    and "result_from_message (env_lib E) (env_floats E) (T_typed_variant (pr_type p))
           (hd (outbox (bus_conn (w_bus s'))))
         = Inr \<lparr>result_error = error_init, result_value = Some (V_typed_variant x)\<rparr>"
    and "received (env_floats E) den (pr_value p) x"
    and "msg_type (env_lib E) (hd (outbox (bus_conn (w_bus s')))) = Mt_method_return"
proof -
  let ?L = "env_lib E" and ?F = "env_floats E" and ?t = "T_typed_variant (pr_type p)"
  let ?v = "V_typed_variant (pr_value p)"
  have t: "single_type (pr_type p)" "sendable (pr_type p) (pr_value p)" "clean ?L ?F (pr_value p)"
      "list_all (dval_ok ok) (dvals_of ?F (pr_type p) (pr_value p))"
    using assms(4) by (simp_all add: transportable_def)
  have rd: "reads ?L den" using assms(1) by (simp add: rpc_library_def)
  obtain m w wden where m: "message_new_method_return ?L msg = Some m"
    and wden: "writes ?L ok wden" "stores ?L den wden" "wden m [(w, None, [])]"
    and keep: "\<forall>m st. wden m st \<longrightarrow> msg_type ?L m = Mt_method_return"
    using assms(1) reply_types(1) unfolding rpc_library_def makes_return_def by metis
  have "wden m [(iter_init_append ?L m, None, [])]"
    using wden(2,3) unfolding stores_def by blast
  then obtain w' m' where e: "encode ?L ?F ?t ?v (iter_init_append ?L m, m) = (Inr (), (w', m'))"
    and wd: "wden m' [(w', None, [] @ dvals_of ?F ?t ?v)]"
    by (rule emits_run [OF emits_typed_variant [OF wden(1) t(1,2,4)]])
  obtain i where i: "msg_reader ?L m' = Inr i" and "den i (dvals_of ?F ?t ?v @ [])"
    using msg_reader_ok [OF wden(2) wd] by auto
  then obtain x i' where "stream_in ?L ?F ?t (default_val ?t) i = (Inr (V_typed_variant x), i')"
    and x: "received ?F den (pr_value p) x"
    using yields_run [OF yields_typed_variant [OF rd t(1-3)]] by metis
  then have "result_from_message ?L ?F ?t m'
      = Inr \<lparr>result_error = error_init, result_value = Some (V_typed_variant x)\<rparr>"
    using i keep wd by (auto simp: result_from_message_def new_result_def Let_def)
  moreover obtain s' where s': "send_message E m' s = (Inr (), s')" "hd (outbox (bus_conn (w_bus s'))) = m'"
      "w_properties s' = w_properties s" "w_objects s' = w_objects s"
    using send_message_run [OF assms(2)] by metis
  moreover have "handle_get E n msg s = send_message E m' s"
    using assms(3) m e
    by (simp add: handle_get_def with_property_def make_method_return_def construct_message_def lift_res_def
        bind_eff_def msg_writer_def stream_out_def)
  moreover have "msg_type ?L m' = Mt_method_return" using keep wd by blast
  ultimately show thesis using that x by simp
qed

lemma return_message:
  assumes "makes_return L ok den"
  obtains m where "make_method_return L msg = Inr m" and "msg_type L m = Mt_method_return"
  using assms reply_types(1) unfolding makes_return_def make_method_return_def construct_message_def
  by (metis option.simps(5))

lemma handle_set_accepts:
  assumes "rpc_library (env_lib E) ok den" and "posts (env_conn E) outbox"
    and "w_properties s n = Some p" and "pr_writable p"
    and "read_set_value (env_lib E) (env_floats E) (pr_type p) msg = Inr x"
  obtains s' where "handle_set E n msg s = (Inr (), s')"
    and "w_properties s' = (w_properties s)(n \<mapsto> p\<lparr>pr_value := env_store E (pr_value p) x\<rparr>)"
    and "msg_type (env_lib E) (hd (outbox (bus_conn (w_bus s')))) = Mt_method_return"
proof -
  obtain m where m: "make_method_return (env_lib E) msg = Inr m" "msg_type (env_lib E) m = Mt_method_return"
    using assms(1) return_message unfolding rpc_library_def by metis
  let ?s = "s\<lparr>w_properties := (w_properties s)(n \<mapsto> p\<lparr>pr_value := env_store E (pr_value p) x\<rparr>)\<rparr>"
  obtain s' where s': "send_message E m ?s = (Inr (), s')" "hd (outbox (bus_conn (w_bus s'))) = m"
      "w_properties s' = w_properties ?s"
    using send_message_run [OF assms(2)] by metis
  have "handle_set E n msg s = (Inr (), s')"
    using assms(3-5) m(1) s'(1)
    by (simp add: handle_set_def with_property_def super_set_def lift_res_def bind_eff_def then_eff_def
        catch_eff_def return_eff_def)
  then show thesis using that s' m(2) by simp
qed

lemma handle_set_refuses:
  assumes "rpc_library (env_lib E) ok den" and "posts (env_conn E) outbox"
    and "w_properties s n = Some p" and "\<not> pr_writable p"
  obtains s' where "handle_set E n msg s = (Inr (), s')" and "w_properties s' = w_properties s"
    and "msg_type (env_lib E) (hd (outbox (bus_conn (w_bus s')))) = Mt_error"
    and "set_error_from_message (env_lib E) (hd (outbox (bus_conn (w_bus s'))))
           = Some (properties_interface @ ''.NotWritableError'', c_str (pr_name p @ ''is not writable''))"
proof -
  let ?L = "env_lib E" and ?name = "properties_interface @ ''.NotWritableError''"
  have c: "c_str ?name = ?name" by (simp add: properties_interface_def)
  obtain m where m: "message_new_error ?L msg ?name (c_str (pr_name p @ ''is not writable'')) = Some m"
      "msg_type ?L m = Mt_error"
      "set_error_from_message ?L m = Some (?name, c_str (pr_name p @ ''is not writable''))"
    using assms(1) reply_types(2) unfolding rpc_library_def makes_error_def by metis
  obtain s' where s': "send_message E m s = (Inr (), s')" "hd (outbox (bus_conn (w_bus s'))) = m"
      "w_properties s' = w_properties s"
    using send_message_run [OF assms(2)] by metis
  have "handle_set E n msg s = (Inr (), s')"
    using assms(3,4) m(1) s'(1) c
    by (simp add: handle_set_def with_property_def send_not_writable_def make_error_def construct_message_def
        lift_res_def bind_eff_def)
  then show thesis using that s' m(2,3) by simp
qed

section \<open>The client\<close>

text \<open>What \<open>dbus_connection_send_with_reply_and_block\<close> makes of the reply: an error reply becomes
  the error, and no message is returned.\<close>

definition answer_of :: "('m, 'i, 'w) libdbus \<Rightarrow> 'm \<Rightarrow> 'm option \<times> dbus_error" where
  "answer_of L reply =
     (if msg_type L reply = Mt_error then (None, set_error_from_message L reply) else (Some reply, None))"

text \<open>\<open>server\<close> is the world of the server as the client's connection reaches it, \<open>serve\<close> what it does
  with a call. A call that blocks is answered by what the server sent last.\<close>

definition connected ::
  "('m, 'i, 'w) libdbus \<Rightarrow> ('c, 'm, 'q) connection \<Rightarrow> ('c \<Rightarrow> ('d, 'h, 'i, 'e) world) \<Rightarrow> ('d \<Rightarrow> 'm list)
     \<Rightarrow> ('m \<Rightarrow> (('d, 'h, 'i, 'e) world, bool) eff) \<Rightarrow> bool" where
  "connected L K server outbox serve \<longleftrightarrow> (\<forall>call timeout d. \<exists>d'.
     conn_send_and_block K call timeout d
       = (answer_of L (hd (outbox (bus_conn (w_bus (snd (serve call (server d))))))), d')
     \<and> server d' = snd (serve call (server d)))"

lemma connected_block:
  assumes "connected L K server outbox serve" and "serve call (server d) = (r, s')"
  obtains d' where "conn_send_and_block K call timeout d = (answer_of L (hd (outbox (bus_conn (w_bus s')))), d')"
    and "server d' = s'"
  using assms unfolding connected_def by (metis snd_conv)

lemma call_reaches:
  assumes "connected L (env_conn C) server outbox serve"
    and "make_call L F service path key args = Inr call"
    and "serve call (server (bus_conn (w_bus c))) = (r, s')"
    and "msg_type L (hd (outbox (bus_conn (w_bus s')))) = Mt_method_return"
  obtains c' where
    "on_bus (on_conn (bind_eff (lift_res (make_call L F service path key args))
       (\<lambda>msg. bind_eff (send_with_reply_and_block_for_at_most (env_conn C) msg timeout)
         (\<lambda>reply. lift_res (read reply))))) c = (read (hd (outbox (bus_conn (w_bus s')))), c')"
    and "server (bus_conn (w_bus c')) = s'" and "w_properties c' = w_properties c"
    and "w_objects c' = w_objects c"
proof -
  obtain d' where "conn_send_and_block (env_conn C) call (to_c_int timeout) (bus_conn (w_bus c))
      = (answer_of L (hd (outbox (bus_conn (w_bus s')))), d')" and d'': "server d' = s'"
    by (rule connected_block [OF assms(1,3)])
  then have d': "conn_send_and_block (env_conn C) call (to_c_int timeout) (bus_conn (w_bus c))
      = ((Some (hd (outbox (bus_conn (w_bus s')))), None), d')" "server d' = s'"
    using assms(4) by (simp_all add: answer_of_def)
  show thesis
    by (rule that [of "c\<lparr>w_bus := w_bus c\<lparr>bus_conn := d'\<rparr>\<rparr>"], rule on_bus_conn_run)
      (use d' assms(2) in \<open>simp_all add: lift_res_def bind_eff_def send_with_reply_and_block_for_at_most_def
         from_raw_message_def construct_message_def\<close>)
qed

text \<open>A call that is answered with an error throws.\<close>

lemma call_refused:
  assumes "connected L (env_conn C) server outbox serve"
    and "make_call L F service path key args = Inr call"
    and "serve call (server (bus_conn (w_bus c))) = (r, s')"
    and "msg_type L (hd (outbox (bus_conn (w_bus s')))) = Mt_error"
  obtains c' where
    "on_bus (on_conn (bind_eff (lift_res (make_call L F service path key args))
       (\<lambda>msg. bind_eff (send_with_reply_and_block_for_at_most (env_conn C) msg timeout)
         (\<lambda>reply. lift_res (read reply))))) c
       = (Inl (throw_error_text (set_error_from_message L (hd (outbox (bus_conn (w_bus s')))))), c')"
    and "server (bus_conn (w_bus c')) = s'" and "w_properties c' = w_properties c"
proof -
  obtain d' where "conn_send_and_block (env_conn C) call (to_c_int timeout) (bus_conn (w_bus c))
      = (answer_of L (hd (outbox (bus_conn (w_bus s')))), d')" and d'': "server d' = s'"
    by (rule connected_block [OF assms(1,3)])
  then have d': "conn_send_and_block (env_conn C) call (to_c_int timeout) (bus_conn (w_bus c))
      = ((None, set_error_from_message L (hd (outbox (bus_conn (w_bus s'))))), d')" "server d' = s'"
    using assms(4) by (simp_all add: answer_of_def)
  show thesis
    by (rule that [of "c\<lparr>w_bus := w_bus c\<lparr>bus_conn := d'\<rparr>\<rparr>"], rule on_bus_conn_run)
      (use d' assms(2) in \<open>simp_all add: lift_res_def bind_eff_def send_with_reply_and_block_for_at_most_def\<close>)
qed

definition same_property :: "'i dbus_property \<Rightarrow> 'j dbus_property \<Rightarrow> bool" where
  "same_property p q \<longleftrightarrow> pr_interface q = pr_interface p \<and> pr_name q = pr_name p \<and> pr_type q = pr_type p"

definition property_strings_ok :: "(int \<Rightarrow> raw \<Rightarrow> bool) \<Rightarrow> 'i dbus_property \<Rightarrow> bool" where
  "property_strings_ok ok p \<longleftrightarrow> string_ok ok (pr_interface p) \<and> string_ok ok (pr_name p)"

lemma emits_key_args:
  assumes "writes L ok cden" and "property_strings_ok ok p"
    and "\<And>vs. emits cden (encode_message L F args) None vs ds"
  shows "emits cden (encode_message L F ((T_string, V_string (pr_interface p))
       # (T_string, V_string (pr_name p)) # args)) None vs
     (D_basic (at_code At_string) (Raw_str (pr_interface p))
      # D_basic (at_code At_string) (Raw_str (pr_name p)) # ds)"
proof -
  have "emits cden (encode_message L F ((T_string, V_string (pr_interface p))
       # (T_string, V_string (pr_name p)) # args)) None vs
     ([D_basic (at_code At_string) (Raw_str (pr_interface p))]
      @ [D_basic (at_code At_string) (Raw_str (pr_name p))] @ ds)"
    unfolding encode_message.simps using assms(2)
    by (intro emits_then emits_string [OF assms(1)] assms(3)) (simp_all add: property_strings_ok_def)
  then show ?thesis by (simp del: at_code.simps)
qed

lemma property_call:
  assumes "rpc_library L ok den" and "makes_call L ok den key"
    and "c_str (fst key) = fst key" and "c_str (snd key) = snd key" and "property_strings_ok ok p"
    and "\<And>cden vs. writes L ok cden \<Longrightarrow> emits cden (encode_message L F args) None vs ds"
  obtains call i where
    "make_call L F service path key ((T_string, V_string (pr_interface p))
       # (T_string, V_string (pr_name p)) # args) = Inr call"
    and "member_key L call = Inr key" and "property_key L F call = Inr (pr_interface p, pr_name p)"
    and "msg_reader L call = Inr i"
    and "den i (D_basic (at_code At_string) (Raw_str (pr_interface p))
           # D_basic (at_code At_string) (Raw_str (pr_name p)) # ds)"
proof (rule make_call_ok [OF assms(2-4)])
  let ?args = "(T_string, V_string (pr_interface p)) # (T_string, V_string (pr_name p)) # args"
  let ?ds = "D_basic (at_code At_string) (Raw_str (pr_interface p))
           # D_basic (at_code At_string) (Raw_str (pr_name p)) # ds"
  show "emits cden (encode_message L F ?args) None [] ?ds" if "writes L ok cden" for cden
    by (rule emits_key_args [OF that assms(5,6)]) (rule that)
  show "?ds \<noteq> []" by simp
  fix m i
  assume m: "make_call L F service path key ?args = Inr m" "member_key L m = Inr key"
    and i: "msg_reader L m = Inr i" "den i ?ds"
  have "reads L den" using assms(1) by (simp add: rpc_library_def)
  then have "property_key L F m = Inr (pr_interface p, pr_name p)"
    by (rule property_key_ok [where den = den and i = i]) (rule i)+
  then show thesis by (rule that [OF m _ i])
qed

section \<open>Reading and setting from another process\<close>

lemma remote_get_run:
  fixes E :: "('m, 'i, 'w, 'd, 'p, 'h, 'e) env" and C :: "('m, 'i, 'w, 'c, 'q, 'g, 'f) env"
  assumes "rpc_library (env_lib E) ok den" and "env_lib C = env_lib E" and "env_floats C = env_floats E"
    and "posts (env_conn E) outbox" and "connected (env_lib E) (env_conn C) server outbox (on_new_message E ob)"
    and "serves_property (server (bus_conn (w_bus c))) ob (pr_interface p, pr_name p) n"
    and "w_properties (server (bus_conn (w_bus c))) n = Some p"
    and "w_properties c k = Some q" and "same_property p q" and "object_is_stub (object_of (pr_object q) c)"
    and "property_strings_ok ok p" and "transportable (env_lib E) (env_floats E) ok (pr_type p) (pr_value p)"
  shows "\<exists>x c'. property_get C k c = (Inr x, c')
     \<and> received (env_floats E) den (pr_value p) x \<and> (no_variant (pr_type p) \<longrightarrow> x = pr_value p)
     \<and> w_properties c' k = Some (q\<lparr>pr_value := x\<rparr>)
     \<and> w_properties (server (bus_conn (w_bus c'))) = w_properties (server (bus_conn (w_bus c)))
     \<and> w_objects c' = w_objects c \<and> w_properties c' = (w_properties c)(k \<mapsto> q\<lparr>pr_value := x\<rparr>)
     \<and> w_objects (server (bus_conn (w_bus c'))) = w_objects (server (bus_conn (w_bus c)))"
proof -
  let ?s = "server (bus_conn (w_bus c))" and ?o = "object_of (pr_object q) c"
  have mc: "makes_call (env_lib E) ok den get_key" using assms(1) by (simp add: rpc_library_def)
  obtain call where call: "make_call (env_lib E) (env_floats E) (ob_service ?o) (ob_path ?o) get_key
        [(T_string, V_string (pr_interface p)), (T_string, V_string (pr_name p))] = Inr call"
      "member_key (env_lib E) call = Inr get_key"
      "property_key (env_lib E) (env_floats E) call = Inr (pr_interface p, pr_name p)"
    by (rule property_call [where args = "[]" and ds = "[]",
          OF assms(1) mc key_strings(1,2) assms(11)]) (simp_all add: emits_return)
  obtain s' x where s': "handle_get E n call ?s = (Inr (), s')" "w_properties s' = w_properties ?s"
      "w_objects s' = w_objects ?s"
      "result_from_message (env_lib E) (env_floats E) (T_typed_variant (pr_type p))
         (hd (outbox (bus_conn (w_bus s'))))
         = Inr \<lparr>result_error = error_init, result_value = Some (V_typed_variant x)\<rparr>"
    and x: "received (env_floats E) den (pr_value p) x"
    and mt: "msg_type (env_lib E) (hd (outbox (bus_conn (w_bus s')))) = Mt_method_return"
    by (rule handle_get_ok [OF assms(1,4,7,12)])
  have "on_new_message E ob call ?s = (Inr True, s')"
    by (rule serve_get [OF assms(6) call(2,3) s'(1)])
  from call_reaches [OF assms(5) call(1) this mt]
  obtain c' where c': "on_bus (on_conn (invoke_method_synchronously (env_lib E) (env_conn C) (env_floats E)
        (ob_service ?o) (ob_path ?o) get_key properties_timeout (T_typed_variant (pr_type p))
        [(T_string, V_string (pr_interface p)), (T_string, V_string (pr_name p))])) c
      = (Inr \<lparr>result_error = error_init, result_value = Some (V_typed_variant x)\<rparr>, c')"
    and srv: "server (bus_conn (w_bus c')) = s'" and w: "w_properties c' = w_properties c" "w_objects c' = w_objects c"
    unfolding invoke_method_synchronously_def s'(4) [symmetric] by metis
  let ?c = "c'\<lparr>w_properties := (w_properties c')(k \<mapsto> q\<lparr>pr_value := x\<rparr>)\<rparr>"
  have "property_get C k c = (Inr x, ?c)"
    using assms(2,3,8,9,10) c'
    by (simp add: property_get_def with_property_def same_property_def bind_eff_def lift_res_def
        value_of_result_def return_eff_def w)
  moreover have "no_variant (pr_type p) \<Longrightarrow> x = pr_value p"
    using received_no_variant [OF x, of "pr_type p"] assms(12) by (simp add: transportable_def)
  ultimately show ?thesis using x srv s'(2,3) w by (intro exI [of _ x] exI [of _ ?c]) simp
qed

text \<open>
  C3. A stub reads the value of the property. When \<open>get\<close> is called on a property of a stub whose
  connection leads to a process that serves the property, the call is routed to that property, and
  \<open>get\<close> returns and keeps the value the property has there (with its variants as received), for every
  type that can be put into a variant; the property that was read does not change.
\<close>

theorem remote_get_reads_value:
  fixes E :: "('m, 'i, 'w, 'd, 'p, 'h, 'e) env" and C :: "('m, 'i, 'w, 'c, 'q, 'g, 'f) env"
  assumes "rpc_library (env_lib E) ok den" and "env_lib C = env_lib E" and "env_floats C = env_floats E"
    and "posts (env_conn E) outbox" and "connected (env_lib E) (env_conn C) server outbox (on_new_message E ob)"
    and "serves_property (server (bus_conn (w_bus c))) ob (pr_interface p, pr_name p) n"
    and "w_properties (server (bus_conn (w_bus c))) n = Some p"
    and "w_properties c k = Some q" and "same_property p q" and "object_is_stub (object_of (pr_object q) c)"
    and "property_strings_ok ok p" and "transportable (env_lib E) (env_floats E) ok (pr_type p) (pr_value p)"
  shows "\<exists>x c'. property_get C k c = (Inr x, c')
     \<and> received (env_floats E) den (pr_value p) x \<and> (no_variant (pr_type p) \<longrightarrow> x = pr_value p)
     \<and> w_properties c' k = Some (q\<lparr>pr_value := x\<rparr>)
     \<and> w_properties (server (bus_conn (w_bus c'))) = w_properties (server (bus_conn (w_bus c)))"
  using remote_get_run [OF assms] by blast

text \<open>What a client sends with \<open>Set\<close>.\<close>

abbreviation set_args :: "'i dbus_property \<Rightarrow> 'i cval \<Rightarrow> (ctype \<times> 'i cval) list" where
  "set_args p v \<equiv> [(T_string, V_string (pr_interface p)), (T_string, V_string (pr_name p)),
     (T_typed_variant (pr_type p), V_typed_variant v)]"

lemma set_call:
  assumes "rpc_library L ok den" and "property_strings_ok ok p" and "transportable L F ok (pr_type p) v"
  obtains call x where "make_call L F service path set_key (set_args p v) = Inr call"
    and "member_key L call = Inr set_key" and "property_key L F call = Inr (pr_interface p, pr_name p)"
    and "read_set_value L F (pr_type p) call = Inr x" and "received F den v x"
proof -
  let ?ds = "dvals_of F (T_typed_variant (pr_type p)) (V_typed_variant v)"
  have t: "single_type (pr_type p)" "sendable (pr_type p) v" "clean L F v"
      "list_all (dval_ok ok) (dvals_of F (pr_type p) v)"
    using assms(3) by (simp_all add: transportable_def)
  have rd: "reads L den" and mc: "makes_call L ok den set_key"
    using assms(1) by (simp_all add: rpc_library_def)
  have e: "emits cden (encode_message L F [(T_typed_variant (pr_type p), V_typed_variant v)]) None vs ?ds"
    if "writes L ok cden" for cden :: "'a \<Rightarrow> 'c frame list \<Rightarrow> bool" and vs
    using emits_then [OF emits_typed_variant [OF that t(1,2,4)] emits_return]
    by (simp only: encode_message.simps append_Nil2)
  show thesis
  proof (rule property_call [OF assms(1) mc key_strings(3,4) assms(2) e])
    fix call i
    assume m: "make_call L F service path set_key (set_args p v) = Inr call"
        "member_key L call = Inr set_key" "property_key L F call = Inr (pr_interface p, pr_name p)"
      and i: "msg_reader L call = Inr i"
        "den i (D_basic (at_code At_string) (Raw_str (pr_interface p))
           # D_basic (at_code At_string) (Raw_str (pr_name p)) # ?ds)"
    obtain x where "read_set_value L F (pr_type p) call = Inr x" and "received F den v x"
      by (rule read_set_value_ok [where den = den, OF rd i t(1-3)])
    then show thesis using that m by blast
  qed
qed

lemma property_set_run:
  assumes "w_properties c k = Some q" and "object_is_stub (object_of (pr_object q) c)" and "pr_writable q"
    and "on_bus (on_conn (invoke_void_method_synchronously (env_lib C) (env_conn C) (env_floats C)
           (ob_service (object_of (pr_object q) c)) (ob_path (object_of (pr_object q) c)) set_key
           properties_timeout (set_args q v))) c = (Inr e, c')"
    and "w_properties c' = w_properties c"
  shows "property_set C k v c = (Inr (), c'\<lparr>w_properties := (w_properties c)
     (k \<mapsto> q\<lparr>pr_value := env_store C (pr_value q) v\<rparr>)\<rparr>)"
  using assms
  by (simp add: property_set_def with_property_def then_eff_def bind_eff_def super_set_def return_eff_def)

text \<open>
  C10. Setting a property of a stub sets the property itself. The call is routed to the property that
  the process serves, the value is stored there as \<open>core::Property\<close> stores it, and then in the stub;
  the value that is stored is the one that was set (with its variants as received).
\<close>

theorem remote_set_writes_value:
  fixes E :: "('m, 'i, 'w, 'd, 'p, 'h, 'e) env" and C :: "('m, 'i, 'w, 'c, 'q, 'g, 'f) env"
  assumes "rpc_library (env_lib E) ok den" and "env_lib C = env_lib E" and "env_floats C = env_floats E"
    and "posts (env_conn E) outbox" and "connected (env_lib E) (env_conn C) server outbox (on_new_message E ob)"
    and "serves_property (server (bus_conn (w_bus c))) ob (pr_interface p, pr_name p) n"
    and "w_properties (server (bus_conn (w_bus c))) n = Some p"
    and "w_properties c k = Some q" and "same_property p q" and "object_is_stub (object_of (pr_object q) c)"
    and "property_strings_ok ok p" and "transportable (env_lib E) (env_floats E) ok (pr_type p) v"
    and "pr_writable p" and "pr_writable q"
  shows "\<exists>x c'. property_set C k v c = (Inr (), c')
     \<and> received (env_floats E) den v x \<and> (no_variant (pr_type p) \<longrightarrow> x = v)
     \<and> w_properties (server (bus_conn (w_bus c'))) = (w_properties (server (bus_conn (w_bus c))))
         (n \<mapsto> p\<lparr>pr_value := env_store E (pr_value p) x\<rparr>)
     \<and> w_properties c' k = Some (q\<lparr>pr_value := env_store C (pr_value q) v\<rparr>)"
proof -
  let ?s = "server (bus_conn (w_bus c))" and ?o = "object_of (pr_object q) c"
  have q: "set_args q v = set_args p v" using assms(9) by (simp add: same_property_def)
  obtain call x where call: "make_call (env_lib E) (env_floats E) (ob_service ?o) (ob_path ?o) set_key
        (set_args q v) = Inr call"
      "member_key (env_lib E) call = Inr set_key"
      "property_key (env_lib E) (env_floats E) call = Inr (pr_interface p, pr_name p)"
      "read_set_value (env_lib E) (env_floats E) (pr_type p) call = Inr x"
    and x: "received (env_floats E) den v x"
    using set_call [OF assms(1,11,12)] unfolding q by metis
  obtain s' where s': "handle_set E n call ?s = (Inr (), s')"
      "w_properties s' = (w_properties ?s)(n \<mapsto> p\<lparr>pr_value := env_store E (pr_value p) x\<rparr>)"
      "msg_type (env_lib E) (hd (outbox (bus_conn (w_bus s')))) = Mt_method_return"
    by (rule handle_set_accepts [OF assms(1,4,7,13) call(4)])
  have "on_new_message E ob call ?s = (Inr True, s')"
    by (rule serve_set [OF assms(6) call(2,3) s'(1)])
  from call_reaches [OF assms(5) call(1) this s'(3), of properties_timeout "void_result_from_message (env_lib E)"]
  obtain c' where "on_bus (on_conn (invoke_void_method_synchronously (env_lib E) (env_conn C) (env_floats E)
        (ob_service ?o) (ob_path ?o) set_key properties_timeout (set_args q v))) c
      = (void_result_from_message (env_lib E) (hd (outbox (bus_conn (w_bus s')))), c')"
    and srv: "server (bus_conn (w_bus c')) = s'" and w: "w_properties c' = w_properties c"
    unfolding invoke_void_method_synchronously_def by blast
  then have "on_bus (on_conn (invoke_void_method_synchronously (env_lib C) (env_conn C) (env_floats C)
        (ob_service ?o) (ob_path ?o) set_key properties_timeout (set_args q v))) c = (Inr error_init, c')"
    using s'(3) assms(2,3) by (simp add: void_result_from_message_def)
  from property_set_run [OF assms(8,10,14) this w] srv s'(2) x
  show ?thesis
    using received_no_variant [OF x, of "pr_type p"] assms(12) by (auto simp: transportable_def)
qed

text \<open>
  C40. A refused \<open>Set\<close> throws. When the description in the client says that the property may
  be written and the one in the server that it may not, the server answers \<open>NotWritableError\<close>; the
  call that blocks turns this error into an exception with its name and text, which leaves \<open>set\<close>.
  Neither the property that is served nor the one of the stub changes.
\<close>

theorem refused_set_throws:
  fixes E :: "('m, 'i, 'w, 'd, 'p, 'h, 'e) env" and C :: "('m, 'i, 'w, 'c, 'q, 'g, 'f) env"
  assumes "rpc_library (env_lib E) ok den" and "env_lib C = env_lib E" and "env_floats C = env_floats E"
    and "posts (env_conn E) outbox" and "connected (env_lib E) (env_conn C) server outbox (on_new_message E ob)"
    and "serves_property (server (bus_conn (w_bus c))) ob (pr_interface p, pr_name p) n"
    and "w_properties (server (bus_conn (w_bus c))) n = Some p"
    and "w_properties c k = Some q" and "same_property p q" and "object_is_stub (object_of (pr_object q) c)"
    and "property_strings_ok ok p" and "transportable (env_lib E) (env_floats E) ok (pr_type p) v"
    and "\<not> pr_writable p" and "pr_writable q"
  shows "\<exists>c'. property_set C k v c = (Inl (Runtime_error (properties_interface @ ''.NotWritableError'' @ '': ''
         @ c_str (pr_name p @ ''is not writable''))), c')
     \<and> w_properties (server (bus_conn (w_bus c'))) = w_properties (server (bus_conn (w_bus c)))
     \<and> w_properties c' = w_properties c"
proof -
  let ?s = "server (bus_conn (w_bus c))" and ?o = "object_of (pr_object q) c"
  have q: "set_args q v = set_args p v" using assms(9) by (simp add: same_property_def)
  obtain call where call: "make_call (env_lib E) (env_floats E) (ob_service ?o) (ob_path ?o) set_key
        (set_args q v) = Inr call"
      "member_key (env_lib E) call = Inr set_key"
      "property_key (env_lib E) (env_floats E) call = Inr (pr_interface p, pr_name p)"
    using set_call [OF assms(1,11,12)] unfolding q by metis
  obtain s' where s': "handle_set E n call ?s = (Inr (), s')" "w_properties s' = w_properties ?s"
      "msg_type (env_lib E) (hd (outbox (bus_conn (w_bus s')))) = Mt_error"
      "set_error_from_message (env_lib E) (hd (outbox (bus_conn (w_bus s'))))
         = Some (properties_interface @ ''.NotWritableError'', c_str (pr_name p @ ''is not writable''))"
    by (rule handle_set_refuses [OF assms(1,4,7,13)])
  have "on_new_message E ob call ?s = (Inr True, s')"
    by (rule serve_set [OF assms(6) call(2,3) s'(1)])
  from call_refused [OF assms(5) call(1) this s'(3), of properties_timeout "void_result_from_message (env_lib E)"]
  obtain c' where "on_bus (on_conn (invoke_void_method_synchronously (env_lib E) (env_conn C) (env_floats E)
        (ob_service ?o) (ob_path ?o) set_key properties_timeout (set_args q v))) c
      = (Inl (Runtime_error (properties_interface @ ''.NotWritableError'' @ '': ''
         @ c_str (pr_name p @ ''is not writable''))), c')"
    and srv: "server (bus_conn (w_bus c')) = s'" "w_properties c' = w_properties c"
    unfolding invoke_void_method_synchronously_def s'(4) by auto
  then show ?thesis
    using assms(2,3,8,10,14) s'(2)
    by (auto simp: property_set_def with_property_def then_eff_def bind_eff_def)
qed

text \<open>A \<open>get\<close> that gets no answer, or an error for an answer, throws and leaves the value of the stub.\<close>

lemma failed_get_throws:
  assumes "w_properties c k = Some q" and "object_is_stub (object_of (pr_object q) c)"
    and "make_call (env_lib C) (env_floats C) (ob_service (object_of (pr_object q) c))
           (ob_path (object_of (pr_object q) c)) get_key
           [(T_string, V_string (pr_interface q)), (T_string, V_string (pr_name q))] = Inr call"
    and "conn_send_and_block (env_conn C) call 30000 (bus_conn (w_bus c)) = ((None, se), d)"
  shows "\<exists>c'. property_get C k c = (Inl (throw_error_text se), c') \<and> w_properties c' = w_properties c"
  using assms
  by (simp add: property_get_def with_property_def invoke_method_synchronously_def on_bus_def on_conn_def
      zoom_def lift_res_def bind_eff_def send_with_reply_and_block_for_at_most_def to_c_int_def
      properties_timeout_def)

section \<open>Two processes\<close>

text \<open>A connection over the libdbus of lists that answers with the given functions and does nothing else,
  for the witnesses.\<close>

definition pipe_connection ::
  "(list_message \<Rightarrow> 'd \<Rightarrow> 'd) \<Rightarrow> (list_message \<Rightarrow> 'd \<Rightarrow> list_message \<times> 'd) \<Rightarrow> ('d, list_message, unit) connection" where
  "pipe_connection send block =
     \<lparr>conn_open_private = (\<lambda>a d. ((True, None), d)), conn_get_private = (\<lambda>n d. ((True, None), d)),
      conn_add_filter = (\<lambda>d. d), conn_remove_filter = (\<lambda>d. d), conn_close = (\<lambda>d. d),
      conn_unref = (\<lambda>d. d), conn_set_exit_on_disconnect = (\<lambda>b d. d),
      conn_send = (\<lambda>m d. (Some 1, send m d)),
      conn_send_and_block = (\<lambda>m n d. case block m d of (reply, d) \<Rightarrow> (answer_of list_libdbus reply, d)),
      conn_send_with_reply = (\<lambda>m n d. ((True, None), d)),
      conn_add_match = (\<lambda>r d. (None, d)), conn_remove_match = (\<lambda>r d. (None, d)),
      conn_request_name = (\<lambda>n f d. ((1, None), d)), conn_release_name = (\<lambda>n d. ((1, None), d)),
      conn_name_has_owner = (\<lambda>n d. (True, d)),
      conn_try_register_path = (\<lambda>p obj d. ((True, None), d)), conn_unregister_path = (\<lambda>p d. d)\<rparr>"

definition plain_env ::
  "('d, list_message, unit) connection \<Rightarrow> (list_message, dval list, unit, 'd, unit, unit, unit) env" where
  "plain_env K = \<lparr>env_lib = list_libdbus, env_conn = K, env_floats = sample_conversions,
     env_user = (\<lambda>h m. return_eff ()), env_signal = (\<lambda>g m. return_eff ()), env_store = (\<lambda>old new. new)\<rparr>"

lemma plain_env_simps [simp]:
  "env_lib (plain_env K) = list_libdbus" "env_conn (plain_env K) = K"
  "env_floats (plain_env K) = sample_conversions" "env_store (plain_env K) old new = new"
  by (simp_all add: plain_env_def)

lemma list_writes_keeping:
  assumes "\<And>m f. P m \<Longrightarrow> P (m\<lparr>lm_frames := f\<rparr>)"
  shows "writes list_libdbus (\<lambda>c r. True) (\<lambda>m st. list_wden m st \<and> P m)"
  using assms by (auto simp: writes_def list_libdbus_def list_wden_def list_append_def list_open_def
      list_close_def)

lemma list_stores_keeping: "stores list_libdbus list_den (\<lambda>m st. list_wden m st \<and> P m)"
  using list_stores unfolding stores_def by (auto simp: list_libdbus_def)

lemma list_makes_call: "makes_call list_libdbus (\<lambda>c r. True) list_den key"
  unfolding makes_call_def
proof (intro allI)
  fix destination path
  let ?m = "(new_list_message 1)\<lparr>lm_destination := Some destination, lm_path := Some path,
      lm_interface := Some (fst key), lm_member := Some (snd key)\<rparr>"
  let ?P = "\<lambda>m. lm_interface m = Some (fst key) \<and> lm_member m = Some (snd key)"
  show "\<exists>m w cden. message_new_method_call list_libdbus destination path (fst key) (snd key) = Some m
      \<and> writes list_libdbus (\<lambda>c r. True) cden \<and> stores list_libdbus list_den cden \<and> cden m [(w, None, [])]
      \<and> (\<forall>m st. cden m st \<longrightarrow> message_get_interface list_libdbus m = Some (fst key)
          \<and> message_get_member list_libdbus m = Some (snd key))"
    by (intro exI [of _ ?m] exI [of _ "()"] exI [of _ "\<lambda>m st. list_wden m st \<and> ?P m"] conjI
        list_writes_keeping list_stores_keeping)
      (auto simp: list_libdbus_def list_wden_def new_list_message_def member_key_def msg_interface_def
        msg_member_def string_from_chars_def)
qed

lemma list_rpc: "rpc_library list_libdbus (\<lambda>c r. True) list_den"
proof -
  have "makes_return list_libdbus (\<lambda>c r. True) list_den"
    unfolding makes_return_def
  proof (rule allI)
    fix call
    show "\<exists>m w wden. message_new_method_return list_libdbus call = Some m
        \<and> writes list_libdbus (\<lambda>c r. True) wden \<and> stores list_libdbus list_den wden \<and> wden m [(w, None, [])]
        \<and> (\<forall>m st. wden m st \<longrightarrow> message_get_type list_libdbus m = 2)"
      by (intro exI [of _ "new_list_message 2"] exI [of _ "()"]
          exI [of _ "\<lambda>m st. list_wden m st \<and> lm_type m = 2"] conjI list_writes_keeping list_stores_keeping)
        (auto simp: list_libdbus_def list_wden_def new_list_message_def msg_type_def message_type_of_def)
  qed
  moreover have "makes_error list_libdbus"
    by (simp add: makes_error_def list_libdbus_def new_list_message_def msg_type_def message_type_of_def)
  ultimately show ?thesis
    by (simp add: rpc_library_def list_makes_call list_reads)
qed

text \<open>A process with one object and one property, made by the constructors.\<close>

definition empty_world :: "'d \<Rightarrow> ('d, unit, dval list, unit) world" where
  "empty_world d = \<lparr>w_bus = constructed_bus d, w_objects = (\<lambda>n. None), w_properties = (\<lambda>n. None)\<rparr>"

definition sample_world :: "service \<Rightarrow> bool \<Rightarrow> 'd \<Rightarrow> ('d, unit, dval list, unit) world" where
  "sample_world service writable d = snd (then_eff (construct_object 0 service ''/x'')
     (make_property 0 0 \<lparr>pd_interface = ''x.Y'', pd_name = ''P'', pd_type = T_string, pd_writable = writable\<rparr>)
     (empty_world d))"

lemmas world_run_simps = sample_world_def empty_world_def construct_object_def make_property_def
  constructed_bus_def new_bus_def new_router_def put_object_def new_object_def on_bus_def on_object_def
  on_signal_router_def install_method_handler_def if_alive_def object_of_def zoom_def then_eff_def
  bind_eff_def return_eff_def install_route_run put_route_def object_is_stub_def

lemma sample_world_simps [simp]:
  "bus_conn (w_bus (sample_world service b d)) = d"
  "w_properties (sample_world service b d) 0 = Some \<lparr>pr_object = 0, pr_interface = ''x.Y'', pr_name = ''P'',
     pr_type = T_string, pr_writable = b, pr_value = V_string []\<rparr>"
  "object_is_stub (object_of 0 (sample_world service b d)) = service_stub service"
  by (simp_all add: world_run_simps)

lemma sample_world_serves:
  "\<not> service_stub service \<Longrightarrow> serves_property (sample_world service b d) 0 (''x.Y'', ''P'') 0"
  unfolding serves_property_def
  by (simp add: world_run_simps get_key_def set_key_def properties_interface_def)

definition server_env ::
  "(list_message, dval list, unit, list_message list, unit, unit, unit) env" where
  "server_env = plain_env (pipe_connection (\<lambda>m d. m # d) (\<lambda>m d. (m, d)))"

definition client_env where
  "client_env = plain_env (pipe_connection (\<lambda>m d. d)
     (\<lambda>call s. let s = snd (on_new_message server_env 0 call s) in (hd (bus_conn (w_bus s)), s)))"

abbreviation sample_server ::
  "bool \<Rightarrow> string \<Rightarrow> (list_message list, unit, dval list, unit) world" where
  "sample_server b v \<equiv> (sample_world \<lparr>service_name = ''x.S'', service_stub = False\<rparr> b [])
     \<lparr>w_properties := [0 \<mapsto> \<lparr>pr_object = 0, pr_interface = ''x.Y'', pr_name = ''P'', pr_type = T_string,
        pr_writable = b, pr_value = V_string v\<rparr>]\<rparr>"

abbreviation sample_client ::
  "bool \<Rightarrow> string \<Rightarrow> ((list_message list, unit, dval list, unit) world, unit, dval list, unit) world" where
  "sample_client b v \<equiv> sample_world (use_service ''x.S'') True (sample_server b v)"

lemma sample_server_serves: "serves_property (sample_server b v) 0 (''x.Y'', ''P'') 0"
  using sample_world_serves [of "\<lparr>service_name = ''x.S'', service_stub = False\<rparr>" b "[]"]
  by (simp add: serves_property_def)

lemma sample_posts: "posts (env_conn server_env) (\<lambda>d. d)"
  by (simp add: posts_def server_env_def pipe_connection_def)

lemma sample_connected: "connected (env_lib server_env) (env_conn client_env) (\<lambda>d. d) (\<lambda>d. d) (on_new_message server_env 0)"
  by (simp add: connected_def client_env_def server_env_def pipe_connection_def Let_def)

lemma sample_envs:
  "env_lib server_env = list_libdbus" "env_lib client_env = env_lib server_env"
  "env_floats client_env = env_floats server_env" "env_store client_env old new = new"
  "env_store server_env old new = new"
  "rpc_library (env_lib server_env) (\<lambda>c r. True) list_den"
  by (simp_all add: server_env_def client_env_def list_rpc)

definition sample_property :: "bool \<Rightarrow> string \<Rightarrow> dval list dbus_property" where
  "sample_property b v = \<lparr>pr_object = 0, pr_interface = ''x.Y'', pr_name = ''P'', pr_type = T_string,
     pr_writable = b, pr_value = V_string v\<rparr>"

theorem remote_get_reads_value_witness:
  "\<exists>c'. property_get client_env 0 (sample_client False ''hi'') = (Inr (V_string ''hi''), c')"
  using remote_get_reads_value [where E = server_env and C = client_env and c = "sample_client False ''hi''"
      and ob = 0 and n = 0 and k = 0 and p = "sample_property False ''hi''" and q = "sample_property True []"
      and server = "\<lambda>d. d", OF sample_envs(6,2,3) sample_posts sample_connected]
    sample_server_serves [of False "''hi''"]
  by (auto simp: sample_property_def same_property_def property_strings_ok_def string_ok_def
      transportable_def use_service_def sample_envs(1))

theorem remote_set_writes_value_witness:
  "\<exists>c'. property_set client_env 0 (V_string ''v'') (sample_client True ''hi'') = (Inr (), c')
     \<and> w_properties (bus_conn (w_bus c')) 0 = Some (sample_property True ''v'')"
  using remote_set_writes_value [where E = server_env and C = client_env and c = "sample_client True ''hi''"
      and ob = 0 and n = 0 and k = 0 and p = "sample_property True ''hi''" and q = "sample_property True []"
      and server = "\<lambda>d. d" and v = "V_string ''v''", OF sample_envs(6,2,3) sample_posts sample_connected]
    sample_server_serves [of True "''hi''"]
  by (auto simp: sample_property_def same_property_def property_strings_ok_def string_ok_def
      transportable_def use_service_def sample_envs(1,4,5))

theorem refused_set_throws_witness:
  "\<exists>c'. property_set client_env 0 (V_string ''v'') (sample_client False ''hi'')
        = (Inl (Runtime_error ''org.freedesktop.DBus.Properties.NotWritableError: Pis not writable''), c')
     \<and> w_properties (bus_conn (w_bus c')) 0 = Some (sample_property False ''hi'')
     \<and> w_properties c' 0 = Some (sample_property True [])"
  using refused_set_throws [where E = server_env and C = client_env and c = "sample_client False ''hi''"
      and ob = 0 and n = 0 and k = 0 and p = "sample_property False ''hi''" and q = "sample_property True []"
      and server = "\<lambda>d. d" and v = "V_string ''v''", OF sample_envs(6,2,3) sample_posts sample_connected]
    sample_server_serves [of False "''hi''"]
  by (auto simp: sample_property_def same_property_def property_strings_ok_def string_ok_def
      transportable_def use_service_def sample_envs(1) properties_interface_def)

end
