(* ===== verification/Signal_Properties.thy ===== *)
theory Signal_Properties
  imports Dbus_Signal
begin

text \<open>
  Signals and the match rules of the daemon; which handlers a message reaches.
\<close>

section \<open>Running the operations\<close>

text \<open>The text of the rule that a signal adds for some arguments.\<close>

definition rule_text :: "'h typed_signal \<Rightarrow> match_args \<Rightarrow> string" where
  "rule_text g a = c_str (as_string (with_sender (with_path ((sig_rule g)\<lparr>rule_args := a\<rparr>) (sig_path g))
     (service_name (sig_service g))))"

definition with_rule_args :: "match_args \<Rightarrow> ('h, 'r, 'd) signal_world \<Rightarrow> ('h, 'r, 'd) signal_world" where
  "with_rule_args a s = s\<lparr>sw_signal := sw_signal s\<lparr>sig_rule := (sig_rule (sw_signal s))\<lparr>rule_args := a\<rparr>\<rparr>\<rparr>"

lemma add_rule_for_args_run:
  "add_rule_for_args K a s =
     (case conn_add_match K (rule_text (sw_signal s) a) (sw_conn s) of (se, d) \<Rightarrow>
        (if error_is_set se then Inl (throw_error_text se) else Inr (), with_rule_args a s\<lparr>sw_conn := d\<rparr>))"
  by (simp add: add_rule_for_args_def on_sw_signal_def zoom_def rule_for_args_def set_args_def
      bind_eff_def on_sw_conn_def object_add_match_def service_add_match_def add_match_def
      rule_text_def with_rule_args_def split: prod.split)

lemma remove_rule_for_args_run:
  "remove_rule_for_args K a s =
     (case conn_remove_match K (rule_text (sw_signal s) a) (sw_conn s) of (se, d) \<Rightarrow>
        (if error_is_set se then Inl (throw_error_text se) else Inr (), with_rule_args a s\<lparr>sw_conn := d\<rparr>))"
  by (simp add: remove_rule_for_args_def on_sw_signal_def zoom_def rule_for_args_def set_args_def
      bind_eff_def on_sw_conn_def object_remove_match_def service_remove_match_def remove_match_def
      rule_text_def with_rule_args_def split: prod.split)

lemma rule_text_update [simp]:
  "rule_text (g\<lparr>sig_rule := (sig_rule g)\<lparr>rule_args := a\<rparr>\<rparr>) = rule_text g"
  "rule_text (g\<lparr>sig_handlers := hs\<rparr>) = rule_text g"
  "rule_text (g\<lparr>sig_next_token := n\<rparr>) = rule_text g"
  "rule_text (g\<lparr>sig_guard := b\<rparr>) = rule_text g"
  by (simp_all add: rule_text_def fun_eq_iff)

text \<open>The state after the insertion of a handler and the state after an erasure.\<close>

definition inserted :: "'h \<Rightarrow> match_args \<Rightarrow> ('h, 'r, 'd) signal_world \<Rightarrow> ('h, 'r, 'd) signal_world" where
  "inserted h a s = s\<lparr>sw_signal := snd (insert_handler h a (sw_signal s))\<rparr>"

definition erased :: "nat \<Rightarrow> ('h, 'r, 'd) signal_world \<Rightarrow> ('h, 'r, 'd) signal_world" where
  "erased token s = s\<lparr>sw_signal := sw_signal s
     \<lparr>sig_handlers := filter (\<lambda>e. fst e \<noteq> token) (sig_handlers (sw_signal s))\<rparr>\<rparr>"

abbreviation keys_of :: "('h, 'r, 'd) signal_world \<Rightarrow> match_args set" where
  "keys_of s \<equiv> (\<lambda>e. fst (snd e)) ` set (sig_handlers (sw_signal s))"

lemma has_key_iff: "has_key k hs \<longleftrightarrow> k \<in> (\<lambda>e. fst (snd e)) ` set hs"
  by (auto simp: has_key_def)

lemma connect_run:
  assumes "\<not> sig_guard (sw_signal s)"
  shows "connect_with_match_args K h a s =
     (if a \<in> keys_of s then (Inr (sig_next_token (sw_signal s)), inserted h a s)
      else (case conn_add_match K (rule_text (sw_signal s) a) (sw_conn s) of (se, d) \<Rightarrow>
        (if error_is_set se then Inl (throw_error_text se) else Inr (sig_next_token (sw_signal s)),
         with_rule_args a (inserted h a s)\<lparr>sw_conn := d\<rparr>)))"
  using assms
  by (simp add: connect_with_match_args_def with_handlers_def guarded_def has_key_iff on_sw_signal_def
      zoom_def insert_handler_def bind_eff_def then_eff_def add_rule_for_args_run return_eff_def
      inserted_def with_rule_args_def Let_def split: prod.split)

lemma disconnect_run:
  assumes "\<not> sig_guard (sw_signal s)"
    and "find (\<lambda>e. fst e = token) (sig_handlers (sw_signal s)) = Some (n, a, h)"
  shows "signal_disconnect K token s =
     (if a \<in> keys_of (erased token s) then (Inr (), erased token s)
      else (case conn_remove_match K (rule_text (sw_signal s) a) (sw_conn s) of (se, d) \<Rightarrow>
        (if error_is_set se then Inl (throw_error_text se) else Inr (),
         with_rule_args a (erased token s)\<lparr>sw_conn := d\<rparr>)))"
  using assms
  by (simp add: signal_disconnect_def with_handlers_def guarded_def has_key_iff on_sw_signal_def
      zoom_def bind_eff_def then_eff_def remove_rule_for_args_run return_eff_def
      erased_def with_rule_args_def Let_def split: prod.split)

section \<open>The daemon has one rule for each key\<close>

text \<open>What the daemon promises about match rules: it counts them.\<close>

definition counts_rules :: "('d, 'm, 'p) connection \<Rightarrow> ('d \<Rightarrow> string multiset) \<Rightarrow> bool" where
  "counts_rules K rules \<longleftrightarrow>
     (\<forall>r d. rules (snd (conn_add_match K r d))
        = (if fst (conn_add_match K r d) = None then rules d + {#r#} else rules d))
     \<and> (\<forall>r d. rules (snd (conn_remove_match K r d))
        = (if fst (conn_remove_match K r d) = None then rules d - {#r#} else rules d))"

datatype 'h subscription = Connect 'h match_args | Disconnect nat

fun subscription_step ::
  "('d, 'm, 'p) connection \<Rightarrow> 'h subscription \<Rightarrow> (('h, 'r, 'd) signal_world, unit) eff" where
  "subscription_step K (Connect h a) = then_eff (connect_with_match_args K h a) (return_eff ())"
| "subscription_step K (Disconnect token) = signal_disconnect K token"

definition rules_for :: "('h, 'r, 'd) signal_world \<Rightarrow> string multiset" where
  "rules_for s = image_mset (rule_text (sw_signal s)) (mset_set (keys_of s))"

definition fresh_tokens :: "('h, 'r, 'd) signal_world \<Rightarrow> bool" where
  "fresh_tokens s \<longleftrightarrow> distinct (map fst (sig_handlers (sw_signal s)))
     \<and> (\<forall>e \<in> set (sig_handlers (sw_signal s)). fst e < sig_next_token (sw_signal s))"

definition consistent :: "('d \<Rightarrow> string multiset) \<Rightarrow> string multiset \<Rightarrow> ('h, 'r, 'd) signal_world \<Rightarrow> bool"
  where
  "consistent rules before s \<longleftrightarrow>
     \<not> sig_guard (sw_signal s) \<and> sorted (map (\<lambda>e. fst (snd e)) (sig_handlers (sw_signal s)))
     \<and> fresh_tokens s \<and> rules (sw_conn s) = before + rules_for s"

lemma handlers_insert_set [simp]: "set (handlers_insert e hs) = insert e (set hs)"
  unfolding handlers_insert_def
  by (metis (no_types, lifting) Un_insert_right list.simps(15) set_append takeWhile_dropWhile_id)

lemma handlers_insert_sorted:
  assumes "sorted (map (\<lambda>e. fst (snd e)) hs)"
  shows "sorted (map (\<lambda>e. fst (snd e)) (handlers_insert x hs))"
  using assms
proof (induction hs)
  case (Cons y hs)
  then show ?case by (fastforce simp: handlers_insert_def dest: set_takeWhileD set_dropWhileD)
qed (simp add: handlers_insert_def)

lemma inserted_simps [simp]:
  "keys_of (inserted h a s) = insert a (keys_of s)"
  "sw_conn (inserted h a s) = sw_conn s"
  "rule_text (sw_signal (inserted h a s)) = rule_text (sw_signal s)"
  "sig_guard (sw_signal (inserted h a s)) = sig_guard (sw_signal s)"
  by (simp_all add: inserted_def insert_handler_def Let_def)

lemma with_rule_args_simps [simp]:
  "sig_handlers (sw_signal (with_rule_args a s)) = sig_handlers (sw_signal s)"
  "sig_guard (sw_signal (with_rule_args a s)) = sig_guard (sw_signal s)"
  "rule_text (sw_signal (with_rule_args a s)) = rule_text (sw_signal s)"
  "sw_conn (with_rule_args a s) = sw_conn s"
  "sw_router (with_rule_args a s) = sw_router s"
  by (simp_all add: with_rule_args_def)

lemma handlers_insert_distinct:
  assumes "distinct (map fst hs)" and "\<forall>e \<in> set hs. fst e < n" and "fst x = n"
  shows "distinct (map fst (handlers_insert x hs))"
proof -
  let ?P = "\<lambda>y. \<not> fst (snd x) < fst (snd y)"
  have "distinct (map fst (takeWhile ?P hs @ dropWhile ?P hs))" using assms(1) by simp
  moreover have "fst e \<noteq> fst x" if "e \<in> set (takeWhile ?P hs) \<union> set (dropWhile ?P hs)" for e
    using that assms(2,3) set_takeWhileD set_dropWhileD by (metis UnE nat_neq_iff)
  ultimately show ?thesis
    unfolding handlers_insert_def by (auto simp del: takeWhile_dropWhile_id) (metis UnI1 UnI2 fst_conv)+
qed

lemma fresh_inserted: "fresh_tokens s \<Longrightarrow> fresh_tokens (inserted h a s)"
  using handlers_insert_distinct [of "sig_handlers (sw_signal s)" "sig_next_token (sw_signal s)"]
  by (auto simp: fresh_tokens_def inserted_def insert_handler_def Let_def less_Suc_eq)

lemma fresh_with_rule_args [simp]: "fresh_tokens (with_rule_args a s) = fresh_tokens s"
  by (simp add: fresh_tokens_def with_rule_args_def)

lemma fresh_conn [simp]: "fresh_tokens (s\<lparr>sw_conn := d\<rparr>) = fresh_tokens s"
  by (simp add: fresh_tokens_def)

lemma fresh_erased: "fresh_tokens s \<Longrightarrow> fresh_tokens (erased t s)"
  by (auto simp: fresh_tokens_def erased_def distinct_map_filter)

lemma rules_for_update [simp]:
  "rules_for (with_rule_args a s) = rules_for s" "rules_for (s\<lparr>sw_conn := d\<rparr>) = rules_for s"
  by (simp_all add: rules_for_def)

lemma connect_consistent:
  assumes "counts_rules K rules" and "consistent rules before s"
    and "connect_with_match_args K h a s = (Inr t, s')"
  shows "consistent rules before s'"
proof -
  have g: "\<not> sig_guard (sw_signal s)" and sorted: "sorted (map (\<lambda>e. fst (snd e)) (sig_handlers (sw_signal s)))"
    and r: "rules (sw_conn s) = before + rules_for s" and fresh: "fresh_tokens s"
    using assms(2) by (simp_all add: consistent_def)
  have sorted': "sorted (map (\<lambda>e. fst (snd e)) (sig_handlers (sw_signal (inserted h a s))))"
    using handlers_insert_sorted [OF sorted] by (simp add: inserted_def insert_handler_def Let_def)
  show ?thesis
  proof (cases "a \<in> keys_of s")
    case True
    then have "rules_for (inserted h a s) = rules_for s"
      by (simp add: rules_for_def insert_absorb)
    moreover have "s' = inserted h a s"
      using assms(3) connect_run [OF g, of K h a] True by simp
    ultimately show ?thesis
      using r g sorted' fresh_inserted [OF fresh] by (simp add: consistent_def)
  next
    case False
    obtain se d where c: "conn_add_match K (rule_text (sw_signal s) a) (sw_conn s) = (se, d)"
      by (cases "conn_add_match K (rule_text (sw_signal s) a) (sw_conn s)")
    then have se: "se = None" and s': "s' = with_rule_args a (inserted h a s)\<lparr>sw_conn := d\<rparr>"
      using assms(3) connect_run [OF g, of K h a] False by (auto simp: error_is_set_def split: if_splits)
    have "rules d = rules (sw_conn s) + {#rule_text (sw_signal s) a#}"
      using assms(1) c se unfolding counts_rules_def by (metis fst_conv snd_conv)
    moreover have "rules_for s' = rules_for s + {#rule_text (sw_signal s) a#}"
      using False by (simp add: s' rules_for_def)
    ultimately show ?thesis
      using r g sorted' fresh_inserted [OF fresh] by (simp add: consistent_def s')
  qed
qed

lemma erased_simps [simp]:
  "sw_conn (erased t s) = sw_conn s" "rule_text (sw_signal (erased t s)) = rule_text (sw_signal s)"
  "sig_guard (sw_signal (erased t s)) = sig_guard (sw_signal s)"
  by (simp_all add: erased_def)

lemma sorted_map_filter: "sorted (map f xs) \<Longrightarrow> sorted (map f (filter P xs))"
  by (induction xs) auto

lemma find_member: "find P xs = Some x \<Longrightarrow> x \<in> set xs \<and> P x"
  by (induction xs) (auto split: if_splits)

lemma keys_without:
  assumes "distinct (map fst xs)" and "(n, k, h) \<in> set xs"
  shows "(\<lambda>e. fst (snd e)) ` set xs
     = insert k ((\<lambda>e. fst (snd e)) ` set (filter (\<lambda>e. fst e \<noteq> n) xs))"
  using assms
proof (induction xs)
  case (Cons x xs)
  show ?case
  proof (cases "fst x = n")
    case True
    then have "n \<notin> fst ` set xs" using Cons.prems(1) by auto
    then have "filter (\<lambda>e. fst e \<noteq> n) xs = xs" and "(n, k, h) \<notin> set xs"
      by (auto simp: filter_id_conv) force+
    then show ?thesis using True Cons.prems(2) by (cases x) auto
  next
    case False
    then have "(n, k, h) \<in> set xs" using Cons.prems(2) by auto
    then show ?thesis using False Cons by auto
  qed
qed simp

lemma disconnect_consistent:
  assumes "counts_rules K rules" and "consistent rules before s"
    and "signal_disconnect K token s = (Inr t, s')"
  shows "consistent rules before s'"
proof -
  have g: "\<not> sig_guard (sw_signal s)" and sorted: "sorted (map (\<lambda>e. fst (snd e)) (sig_handlers (sw_signal s)))"
    and r: "rules (sw_conn s) = before + rules_for s" and fresh: "fresh_tokens s"
    using assms(2) by (simp_all add: consistent_def)
  have sorted': "sorted (map (\<lambda>e. fst (snd e)) (sig_handlers (sw_signal (erased token s))))"
    using sorted_map_filter [OF sorted] by (simp add: erased_def)
  obtain n a h where f: "find (\<lambda>e. fst e = token) (sig_handlers (sw_signal s)) = Some (n, a, h)"
    using assms(3) g
    by (auto simp: signal_disconnect_def with_handlers_def guarded_def split: option.splits)
  have e: "(token, a, h) \<in> set (sig_handlers (sw_signal s))"
    using find_member [OF f] by auto
  have keys: "keys_of s = insert a (keys_of (erased token s))"
  proof -
    have "distinct (map fst (sig_handlers (sw_signal s)))"
      using fresh by (simp add: fresh_tokens_def)
    from keys_without [OF this e] show ?thesis by (simp add: erased_def)
  qed
  show ?thesis
  proof (cases "a \<in> keys_of (erased token s)")
    case True
    then have "rules_for (erased token s) = rules_for s"
      using keys by (simp add: rules_for_def insert_absorb)
    moreover have "s' = erased token s"
      using assms(3) disconnect_run [OF g f, of K] True by simp
    ultimately show ?thesis
      using r g sorted' fresh_erased [OF fresh] by (simp add: consistent_def)
  next
    case False
    obtain se d where c: "conn_remove_match K (rule_text (sw_signal s) a) (sw_conn s) = (se, d)"
      by (cases "conn_remove_match K (rule_text (sw_signal s) a) (sw_conn s)")
    then have se: "se = None" and s': "s' = with_rule_args a (erased token s)\<lparr>sw_conn := d\<rparr>"
      using assms(3) disconnect_run [OF g f, of K] False by (auto simp: error_is_set_def split: if_splits)
    have "rules d = rules (sw_conn s) - {#rule_text (sw_signal s) a#}"
      using assms(1) c se unfolding counts_rules_def by (metis fst_conv snd_conv)
    moreover have "rules_for s = rules_for s' + {#rule_text (sw_signal s) a#}"
      using False keys by (simp add: s' rules_for_def)
    ultimately show ?thesis
      using r g sorted' fresh_erased [OF fresh] by (simp add: consistent_def s')
  qed
qed

lemma subscriptions_consistent:
  assumes "counts_rules K rules"
  shows "consistent rules before s \<Longrightarrow> each_eff (subscription_step K) ops s = (Inr (), s')
     \<Longrightarrow> consistent rules before s'"
proof (induction ops arbitrary: s)
  case (Cons p ops)
  obtain s1 where 1: "subscription_step K p s = (Inr (), s1)"
    and 2: "each_eff (subscription_step K) ops s1 = (Inr (), s')"
    using Cons.prems(2) by (auto simp: then_eff_def bind_eff_def split: prod.splits sum.splits)
  have "consistent rules before s1"
  proof (cases p)
    case (Connect h a)
    then obtain t where "connect_with_match_args K h a s = (Inr t, s1)"
      using 1 by (auto simp: then_eff_def bind_eff_def return_eff_def split: prod.splits sum.splits)
    then show ?thesis by (rule connect_consistent [OF assms Cons.prems(1)])
  next
    case (Disconnect token)
    then show ?thesis using 1 disconnect_consistent [OF assms Cons.prems(1)] by auto
  qed
  then show ?case using 2 by (rule Cons.IH)
qed (simp add: return_eff_def)

lemma distinct_remdups_adj: "sorted xs \<Longrightarrow> distinct (remdups_adj xs)"
  by (induction xs rule: remdups_adj.induct) auto

lemma remdups_adj_sorted_set: "sorted xs \<Longrightarrow> mset (remdups_adj xs) = mset_set (set xs)"
  using distinct_remdups_adj [of xs] mset_set_set [of "remdups_adj xs"] by simp

lemma remove_each_rule:
  assumes "counts_rules K rules" and "\<And>r d. fst (conn_remove_match K r d) = None"
  shows "\<exists>s'. each_eff (\<lambda>a. ignore_exceptions (remove_rule_for_args K a)) ks s = (Inr (), s')
     \<and> rules (sw_conn s') = rules (sw_conn s) - image_mset (rule_text (sw_signal s)) (mset ks)
     \<and> sw_router s' = sw_router s"
proof (induction ks arbitrary: s)
  case (Cons a ks)
  define d where "d = snd (conn_remove_match K (rule_text (sw_signal s) a) (sw_conn s))"
  let ?s1 = "with_rule_args a s\<lparr>sw_conn := d\<rparr>"
  have "conn_remove_match K (rule_text (sw_signal s) a) (sw_conn s) = (None, d)"
    using assms(2) unfolding d_def by (metis prod.collapse)
  then have "ignore_exceptions (remove_rule_for_args K a) s = (Inr (), ?s1)"
    by (simp add: ignore_exceptions_def catch_eff_def remove_rule_for_args_run error_is_set_def)
  moreover have "rules d = rules (sw_conn s) - {#rule_text (sw_signal s) a#}"
    using assms unfolding counts_rules_def d_def by metis
  moreover obtain s' where "each_eff (\<lambda>a. ignore_exceptions (remove_rule_for_args K a)) ks ?s1 = (Inr (), s')"
    "rules (sw_conn s') = rules d - image_mset (rule_text (sw_signal s)) (mset ks)"
    "sw_router s' = sw_router s"
    using Cons.IH [of ?s1] by auto
  ultimately show ?case
    by (auto simp: then_eff_Inr)
qed (simp add: return_eff_def)

text \<open>A signal as its constructor leaves it.\<close>

definition fresh_signal :: "('h, 'r, 'd) signal_world \<Rightarrow> bool" where
  "fresh_signal s \<longleftrightarrow> \<not> sig_guard (sw_signal s) \<and> sig_handlers (sw_signal s) = []
     \<and> \<not> router_guard (sw_router s)"

text \<open>
  C5. The match rules of a signal. After any history of connecting and disconnecting handlers that
  returned normally, the daemon has, on top of the rules it had before, exactly one rule for each
  list of match arguments that a connected handler has: connecting a second handler with the same
  arguments adds none, disconnecting the last one takes it away. If the daemon refuses no removal,
  destroying the signal takes all of them away.
\<close>

theorem one_rule_per_arguments:
  assumes "counts_rules K rules" and "fresh_signal s0"
    and "each_eff (subscription_step K) ops s0 = (Inr (), s)"
  shows "rules (sw_conn s) = rules (sw_conn s0) + rules_for s
     \<and> ((\<forall>r d. fst (conn_remove_match K r d) = None) \<and> \<not> router_guard (sw_router s) \<longrightarrow>
        (\<exists>s'. destroy_signal K (return_eff ()) s = (Inr (), s')
           \<and> rules (sw_conn s') = rules (sw_conn s0)
           \<and> router_table (sw_router s') (sig_interface (sw_signal s), sig_name (sw_signal s)) = None))"
proof -
  have "consistent rules (rules (sw_conn s0)) s0"
    using assms(2) by (simp add: consistent_def fresh_signal_def rules_for_def fresh_tokens_def)
  then have c: "consistent rules (rules (sw_conn s0)) s"
    using subscriptions_consistent assms(1,3) by blast
  then have r: "rules (sw_conn s) = rules (sw_conn s0) + rules_for s"
    and sorted: "sorted (map (\<lambda>e. fst (snd e)) (sig_handlers (sw_signal s)))"
    by (simp_all add: consistent_def)
  moreover have "\<exists>s'. destroy_signal K (return_eff ()) s = (Inr (), s')
      \<and> rules (sw_conn s') = rules (sw_conn s0)
      \<and> router_table (sw_router s') (sig_interface (sw_signal s), sig_name (sw_signal s)) = None"
    if remove: "\<And>r d. fst (conn_remove_match K r d) = None" and "\<not> router_guard (sw_router s)"
  proof -
    let ?k = "(sig_interface (sw_signal s), sig_name (sw_signal s))"
    let ?s1 = "s\<lparr>sw_router := erase_route ?k (sw_router s)\<rparr>"
    have 1: "on_sw_router (uninstall_route ?k) s = (Inr (), ?s1)"
      using that(2) by (simp add: on_sw_router_def zoom_def uninstall_route_run)
    obtain s' where s': "each_eff (\<lambda>a. ignore_exceptions (remove_rule_for_args K a))
        (unique_keys (sig_handlers (sw_signal s))) ?s1 = (Inr (), s')"
      "rules (sw_conn s') = rules (sw_conn s)
         - image_mset (rule_text (sw_signal s)) (mset (unique_keys (sig_handlers (sw_signal s))))"
      "sw_router s' = erase_route ?k (sw_router s)"
      using remove_each_rule [OF assms(1) remove, where ks = "unique_keys (sig_handlers (sw_signal s))" and s = ?s1]
      by auto
    have "image_mset (rule_text (sw_signal s)) (mset (unique_keys (sig_handlers (sw_signal s)))) = rules_for s"
      using remdups_adj_sorted_set [OF sorted] by (simp add: unique_keys_def rules_for_def)
    then show ?thesis
      using 1 s' r
      by (simp add: destroy_signal_def noexcept_eff_def catch_eff_def then_eff_Inr return_eff_def
          erase_route_def)
  qed
  ultimately show ?thesis by blast
qed

text \<open>A daemon that is nothing but its match rules, for the witnesses; \<open>full\<close> daemons refuse.\<close>

definition counting_connection :: "bool \<Rightarrow> (string multiset, 'm, 'p) connection" where
  "counting_connection full =
     \<lparr>conn_open_private = (\<lambda>a d. ((True, None), d)), conn_get_private = (\<lambda>n d. ((True, None), d)),
      conn_add_filter = (\<lambda>d. d), conn_remove_filter = (\<lambda>d. d), conn_close = (\<lambda>d. d),
      conn_unref = (\<lambda>d. d), conn_set_exit_on_disconnect = (\<lambda>b d. d),
      conn_send = (\<lambda>m d. (Some 1, d)), conn_send_and_block = (\<lambda>m n d. ((None, None), d)),
      conn_send_with_reply = (\<lambda>m n d. ((True, None), d)),
      conn_add_match = (\<lambda>r d. if full then (Some (''e'', ''full''), d) else (None, d + {#r#})),
      conn_remove_match = (\<lambda>r d. (None, d - {#r#})),
      conn_request_name = (\<lambda>n f d. ((1, None), d)), conn_release_name = (\<lambda>n d. ((1, None), d)),
      conn_name_has_owner = (\<lambda>n d. (True, d)),
      conn_try_register_path = (\<lambda>p obj d. ((True, None), d)), conn_unregister_path = (\<lambda>p d. d)\<rparr>"

lemma counting_connection_counts: "counts_rules (counting_connection full) (\<lambda>d. d)"
  by (simp add: counts_rules_def counting_connection_def)

definition sample_signal :: "(nat, nat, string multiset) signal_world" where
  "sample_signal = \<lparr>sw_signal = new_typed_signal (use_service ''x.S'') ''/a'' ''x.Y'' ''N'',
     sw_router = new_router, sw_conn = {#}\<rparr>"

lemma sample_signal_fresh: "fresh_signal sample_signal"
  by (simp add: fresh_signal_def sample_signal_def new_typed_signal_def new_router_def)

theorem one_rule_per_arguments_witness:
  "\<exists>s. each_eff (subscription_step (counting_connection False :: (string multiset, unit, unit) connection))
        [Connect 1 [], Connect 2 [], Disconnect 0] sample_signal = (Inr (), s)
     \<and> size (sw_conn s) = 1"
proof -
  let ?K = "counting_connection False :: (string multiset, unit, unit) connection"
  obtain s where s: "each_eff (subscription_step ?K) [Connect 1 [], Connect 2 [], Disconnect 0] sample_signal
      = (Inr (), s)" and k: "keys_of s = {[]}"
    by (simp add: then_eff_def bind_eff_def connect_run sample_signal_def new_typed_signal_def
        inserted_def insert_handler_def Let_def handlers_insert_def counting_connection_def error_is_set_def
        with_rule_args_def return_eff_def signal_disconnect_def with_handlers_def guarded_def has_key_iff
        on_sw_signal_def zoom_def)
  show ?thesis
    using one_rule_per_arguments [OF counting_connection_counts sample_signal_fresh s] k s
    by (simp add: rules_for_def) (simp add: sample_signal_def)
qed

section \<open>A subscription that fails\<close>

text \<open>
  A subscription that fails poisons its arguments. When the daemon refuses the rule, connecting
  throws, but the handler stays in the table; from then on a handler connected with the same
  arguments is taken without any error, although the daemon is not asked for the rule again and has
  none.
\<close>

lemma failed_subscription_is_silent:
  assumes "\<not> sig_guard (sw_signal s)" and "a \<notin> keys_of s"
    and "conn_add_match K (rule_text (sw_signal s) a) (sw_conn s) = (Some (n, t), d)"
  shows "\<exists>s1. connect_with_match_args K h a s = (Inl (Runtime_error (n @ '': '' @ t)), s1)
     \<and> sw_conn s1 = d
     \<and> (\<forall>h'. \<exists>token s2. connect_with_match_args K h' a s1 = (Inr token, s2) \<and> sw_conn s2 = d)"
proof -
  let ?s1 = "with_rule_args a (inserted h a s)\<lparr>sw_conn := d\<rparr>"
  have "connect_with_match_args K h a s = (Inl (Runtime_error (n @ '': '' @ t)), ?s1)"
    using assms connect_run [OF assms(1), of K h a] by (simp add: error_is_set_def)
  moreover have "connect_with_match_args K h' a ?s1 = (Inr (sig_next_token (sw_signal ?s1)), inserted h' a ?s1)"
    for h'
    using assms(1) connect_run [of ?s1 K h' a] by simp
  ultimately show ?thesis by (intro exI [of _ ?s1]) simp
qed

lemma failed_subscription_is_silent_sample:
  "\<exists>s1. connect_with_match_args (counting_connection True :: (string multiset, unit, unit) connection)
        7 [(0, ''x'')] sample_signal = (Inl (Runtime_error ''e: full''), s1)
     \<and> sw_conn s1 = {#}
     \<and> (\<forall>h'. \<exists>token s2. connect_with_match_args
          (counting_connection True :: (string multiset, unit, unit) connection) h' [(0, ''x'')] s1
          = (Inr token, s2) \<and> sw_conn s2 = {#})"
  using failed_subscription_is_silent [of sample_signal "[(0, ''x'')]"
      "counting_connection True :: (string multiset, unit, unit) connection" "''e''" "''full''" "{#}" 7]
  by (simp add: sample_signal_def new_typed_signal_def counting_connection_def)

section \<open>Which handlers a message reaches\<close>

lemma wind_reads:
  assumes "reads L den"
  shows "den i ds \<Longrightarrow> \<forall>d \<in> set ds. dtype d \<noteq> 0 \<Longrightarrow> den (wind L n i) (drop n ds)"
proof (induction n arbitrary: i ds)
  case (Suc n)
  show ?case
  proof (cases ds)
    case Nil
    then show ?thesis using Suc.prems reader_type_end [OF assms] by simp
  next
    case (Cons d ds')
    then have "reader_type L i \<noteq> At_invalid" "den (iter_next L i) ds'"
      using Suc.prems reader_type_den [OF assms] reads_next [OF assms] argument_type_of_invalid_iff
      by auto
    then show ?thesis using Suc.IH [of "iter_next L i" ds'] Suc.prems(2) Cons by (simp add: reader_pop_def)
  qed
qed simp

definition string_argument :: "dval list \<Rightarrow> 64 word \<Rightarrow> string option" where
  "string_argument ds index =
     (if unat index < length ds then
        (case ds ! unat index of
           D_basic c (Raw_str s) \<Rightarrow> if c = at_code At_string then Some s else None
         | _ \<Rightarrow> None)
      else None)"

text \<open>Values as libdbus has them: a type code that is not 0, and text for strings.\<close>

definition proper :: "dval list \<Rightarrow> bool" where
  "proper ds \<longleftrightarrow> (\<forall>d \<in> set ds. dtype d \<noteq> 0 \<and> (dtype d = at_code At_string \<longrightarrow>
     (\<exists>s. d = D_basic (at_code At_string) (Raw_str s))))"

definition carries :: "('m, 'i, 'w) libdbus \<Rightarrow> ('i \<Rightarrow> dval list \<Rightarrow> bool) \<Rightarrow> 'm \<Rightarrow> dval list \<Rightarrow> bool" where
  "carries L den msg ds \<longleftrightarrow> fst (iter_init L msg) \<and> den (snd (iter_init L msg)) ds \<and> proper ds"

lemma carries_reader: "carries L den msg ds \<Longrightarrow> msg_reader L msg = Inr (snd (iter_init L msg))"
  by (cases "iter_init L msg") (simp add: carries_def msg_reader_def)

lemma argument_string_run:
  assumes "reads L den" and "carries L den msg ds"
  shows "case string_argument ds index of
      Some s \<Rightarrow> argument_string L msg index = Inr s
    | None \<Rightarrow> (\<exists>txt. argument_string L msg index = Inl (Runtime_error txt))"
proof -
  obtain i where i: "msg_reader L msg = Inr i" "den i ds"
    using carries_reader [OF assms(2)] assms(2) by (simp add: carries_def)
  let ?j = "wind L (unat index) i"
  have j: "den ?j (drop (unat index) ds)"
    using wind_reads [OF assms(1) i(2)] assms(2) by (simp add: carries_def proper_def)
  have bad: "\<exists>txt. argument_string L msg index = Inl (Runtime_error txt)" if "reader_type L ?j \<noteq> At_string"
    using that i(1) by (simp add: argument_string_def pop_string_def ensure_then)
  show ?thesis
  proof (cases "unat index < length ds")
    case False
    then have "reader_type L ?j = At_invalid" using j reader_type_end [OF assms(1)] by simp
    then show ?thesis using bad False by (simp add: string_argument_def)
  next
    case True
    then have d: "den ?j (ds ! unat index # drop (Suc (unat index)) ds)"
      using j by (simp add: Cons_nth_drop_Suc)
    show ?thesis
    proof (cases "dtype (ds ! unat index) = at_code At_string")
      case t: True
      then obtain s where s: "ds ! unat index = D_basic (at_code At_string) (Raw_str s)"
        using assms(2) True unfolding carries_def proper_def by (meson nth_mem)
      then have "pop_string L ?j = (Inr (Some s), iter_next L ?j)"
        using pop_string_ok [OF assms(1)] d by metis
      then show ?thesis
        using True s i(1) by (simp add: string_argument_def argument_string_def string_from_chars_def
            del: at_code.simps)
    next
      case f: False
      then have "reader_type L ?j \<noteq> At_string"
        using reader_type_den [OF assms(1) d] argument_type_of_eq_iff
        by (metis at_code_argument_type_of)
      moreover have "string_argument ds index = None"
        using f by (auto simp: string_argument_def split: dval.split raw.split)
      ultimately show ?thesis using bad by simp
    qed
  qed
qed

lemma match_loop_run:
  assumes "reads L den" and "carries L den msg ds"
    and "\<forall>(index, v) \<in> set args. string_argument ds index \<noteq> None"
  shows "match_loop L msg matched args
     = Inr (matched \<and> (\<forall>(index, v) \<in> set args. string_argument ds index = Some v))"
  using assms(3)
proof (induction args arbitrary: matched)
  case (Cons a args)
  obtain index v where a: "a = (index, v)" by (cases a)
  then obtain s where s: "string_argument ds index = Some s" using Cons.prems by auto
  then have "argument_string L msg index = Inr s"
    using argument_string_run [OF assms(1,2), of index] by simp
  then show ?case using Cons a s by auto
qed simp

text \<open>The arguments of an entry are strings of the message, and have the values it asks for.\<close>

definition answerable :: "dval list \<Rightarrow> nat \<times> match_args \<times> 'h \<Rightarrow> bool" where
  "answerable ds e \<longleftrightarrow> (\<forall>(index, v) \<in> set (fst (snd e)). string_argument ds index \<noteq> None)"

definition matches :: "dval list \<Rightarrow> nat \<times> match_args \<times> 'h \<Rightarrow> bool" where
  "matches ds e \<longleftrightarrow> (\<forall>(index, v) \<in> set (fst (snd e)). string_argument ds index = Some v)"

lemma call_handler_run:
  assumes "reads L den" and "carries L den msg ds" and "answerable ds e"
  shows "call_handler L call msg v e = (if matches ds e then call (snd (snd e)) v else return_eff ())"
  using match_loop_run [OF assms(1,2)] assms(3)
  by (simp add: fun_eq_iff call_handler_def lift_res_def bind_eff_def answerable_def matches_def)

lemma call_handlers_run:
  assumes "reads L den" and "carries L den msg ds" and "\<forall>e \<in> set es. answerable ds e"
  shows "each_eff (call_handler L call msg v) es
     = each_eff (\<lambda>e. call (snd (snd e)) v) (filter (matches ds) es)"
  using assms(3) by (induction es) (simp_all add: call_handler_run [OF assms(1,2)])

lemma signal_message_run:
  assumes "reads L den" and "carries L den msg ds"
    and "fst (stream_in L F t (default_val t) (snd (iter_init L msg))) = Inr v"
    and "\<forall>e \<in> set (sig_handlers (sw_signal s)). answerable ds e"
  shows "signal_message L F t call msg s =
     noexcept_eff (catch_eff
       (with_handlers (\<lambda>s. each_eff (\<lambda>e. call (snd (snd e)) v)
          (filter (matches ds) (sig_handlers (sw_signal s))) s))
       (\<lambda>e. if is_runtime_error e then return_eff () else throw_eff e)) s"
proof -
  have "msg_reader L msg = Inr (snd (iter_init L msg))"
    by (rule carries_reader [OF assms(2)])
  moreover have "with_handlers (\<lambda>s. each_eff (call_handler L call msg v) (sig_handlers (sw_signal s)) s) s
     = with_handlers (\<lambda>s. each_eff (\<lambda>e. call (snd (snd e)) v)
          (filter (matches ds) (sig_handlers (sw_signal s))) s) s"
    using call_handlers_run [OF assms(1,2,4), of call v] by (simp add: with_handlers_def guarded_def)
  ultimately show ?thesis
    using assms(3) by (simp add: signal_message_def noexcept_eff_def catch_eff_def lift_res_def
        bind_eff_def)
qed

text \<open>
  C11. A signal reaches exactly the handlers whose match arguments it has. If all arguments that
  the connected handlers ask for are strings of the message, the handlers called are, in the order of
  their keys and with the decoded value, those for which each asked argument has the asked value;
  handlers without arguments are called always.
\<close>

theorem signal_reaches_matching:
  assumes "reads L den" and "carries L den msg ds"
    and "fst (stream_in L F t (default_val t) (snd (iter_init L msg))) = Inr v"
    and "\<forall>e \<in> set (sig_handlers (sw_signal s)). answerable ds e"
  shows "signal_message L F t call msg s =
     noexcept_eff (catch_eff
       (with_handlers (\<lambda>s. each_eff (\<lambda>e. call (snd (snd e)) v)
          (filter (matches ds) (sig_handlers (sw_signal s))) s))
       (\<lambda>e. if is_runtime_error e then return_eff () else throw_eff e)) s"
  by (rule signal_message_run [OF assms])

text \<open>A message with the strings \<open>x\<close> and \<open>z\<close>, and a signal with three handlers; calling one
  records its number.\<close>

definition sample_message :: list_message where
  "sample_message = (new_list_message 4)\<lparr>lm_frames := [(None, [D_basic 115 (Raw_str ''x''), D_basic 115 (Raw_str ''z'')])]\<rparr>"

definition busy_signal :: "(nat \<times> match_args \<times> nat) list \<Rightarrow> (nat, nat, nat list) signal_world" where
  "busy_signal hs = \<lparr>sw_signal = (new_typed_signal (use_service ''x.S'') ''/a'' ''x.Y'' ''N'')\<lparr>sig_handlers := hs\<rparr>,
     sw_router = new_router, sw_conn = []\<rparr>"

definition record_call :: "nat \<Rightarrow> 'v \<Rightarrow> ((nat, nat, nat list) signal_world, unit) eff" where
  "record_call h v s = (Inr (), s\<lparr>sw_conn := sw_conn s @ [h]\<rparr>)"

lemma sample_message_carries:
  "carries list_libdbus list_den sample_message [D_basic 115 (Raw_str ''x''), D_basic 115 (Raw_str ''z'')]"
  by (simp add: carries_def list_libdbus_def sample_message_def list_den_def list_body_def proper_def)

lemma sample_message_decodes:
  "fst (stream_in list_libdbus sample_conversions T_string (default_val T_string)
     (snd (iter_init list_libdbus sample_message))) = Inr (V_string ''x'')"
proof -
  have i: "snd (iter_init list_libdbus sample_message) = [D_basic 115 (Raw_str ''x''), D_basic 115 (Raw_str ''z'')]"
    by (simp add: list_libdbus_def sample_message_def list_body_def)
  have "pop_string list_libdbus [D_basic 115 (Raw_str ''x''), D_basic 115 (Raw_str ''z'')]
      = (Inr (Some ''x''), iter_next list_libdbus [D_basic 115 (Raw_str ''x''), D_basic 115 (Raw_str ''z'')])"
    using pop_string_ok [OF list_reads, of _ "''x''" "[D_basic 115 (Raw_str ''z'')]"] by (simp add: list_den_def)
  then show ?thesis
    by (simp add: i stream_in_def codec_string_decode_def bind_eff_def return_eff_def)
qed

theorem signal_reaches_matching_witness:
  "sw_conn (snd (signal_message list_libdbus sample_conversions T_string record_call sample_message
     (busy_signal [(0, [], 1), (1, [(0, ''x'')], 2), (2, [(0, ''x''), (1, ''y'')], 3)]))) = [1, 2]"
proof -
  let ?s = "busy_signal [(0, [], 1), (1, [(0, ''x'')], 2), (2, [(0, ''x''), (1, ''y'')], 3)]"
  let ?ds = "[D_basic 115 (Raw_str ''x''), D_basic 115 (Raw_str ''z'')]"
  have "\<forall>e \<in> set (sig_handlers (sw_signal ?s)). answerable ?ds e"
    by (simp add: busy_signal_def new_typed_signal_def answerable_def string_argument_def)
  from signal_reaches_matching [OF list_reads sample_message_carries sample_message_decodes this]
  show ?thesis
    by (simp add: busy_signal_def new_typed_signal_def matches_def string_argument_def noexcept_eff_def
        catch_eff_def with_handlers_def guarded_def then_eff_def bind_eff_def record_call_def return_eff_def)
qed

lemma match_loop_fails:
  assumes "reads L den" and "carries L den msg ds"
    and "\<exists>(index, v) \<in> set args. string_argument ds index = None"
  shows "\<exists>txt. match_loop L msg matched args = Inl (Runtime_error txt)"
  using assms(3)
proof (induction args arbitrary: matched)
  case (Cons a args)
  obtain index v where a: "a = (index, v)" by (cases a)
  show ?case
  proof (cases "string_argument ds index")
    case None
    then show ?thesis using argument_string_run [OF assms(1,2), of index] a by auto
  next
    case (Some s)
    then have "argument_string L msg index = Inr s"
      using argument_string_run [OF assms(1,2), of index] by simp
    then show ?thesis using Cons a Some by auto
  qed
qed simp

text \<open>
  One handler can starve the others. If an entry asks for an argument that the message does not
  have, or that is not a string, reading it throws; the exception is caught outside of the loop over
  the handlers. So neither that entry nor any of those behind it is called, whatever they ask for,
  and the signal reports nothing to its caller.
\<close>

lemma unanswerable_entry_starves_others:
  assumes "reads L den" and "carries L den msg ds"
    and "fst (stream_in L F t (default_val t) (snd (iter_init L msg))) = Inr v"
    and "sig_handlers (sw_signal s) = hs @ e # behind"
    and "\<forall>x \<in> set hs. answerable ds x" and "\<not> answerable ds e"
    and "with_handlers (each_eff (\<lambda>x. call (snd (snd x)) v) (filter (matches ds) hs)) s = (Inr (), s')"
  shows "signal_message L F t call msg s = (Inr (), s')"
proof -
  obtain why where "match_loop L msg True (fst (snd e)) = Inl (Runtime_error why)"
    using match_loop_fails [OF assms(1,2), of "fst (snd e)" True] assms(6)
    by (auto simp: answerable_def)
  then have e: "call_handler L call msg v e u = (Inl (Runtime_error why), u)" for u
    by (simp add: call_handler_def lift_res_def bind_eff_def)
  have g: "\<not> sig_guard (sw_signal s)"
    using assms(7) by (auto simp: with_handlers_def guarded_def split: if_splits)
  let ?locked = "s\<lparr>sw_signal := sw_signal s\<lparr>sig_guard := True\<rparr>\<rparr>"
  obtain u where u: "each_eff (\<lambda>x. call (snd (snd x)) v) (filter (matches ds) hs) ?locked = (Inr (), u)"
    "s' = u\<lparr>sw_signal := sw_signal u\<lparr>sig_guard := False\<rparr>\<rparr>"
    using assms(7) g by (auto simp: with_handlers_def guarded_def split: prod.splits)
  have "each_eff (call_handler L call msg v) (hs @ e # behind) ?locked = (Inl (Runtime_error why), u)"
    using u(1) e call_handlers_run [OF assms(1,2,5), of call v]
    by (simp add: each_eff_append then_eff_Inr then_eff_Inl)
  then have "with_handlers (\<lambda>s. each_eff (call_handler L call msg v) (sig_handlers (sw_signal s)) s) s
      = (Inl (Runtime_error why), s')"
    using g assms(4) u(2) by (simp add: with_handlers_def guarded_def)
  then show ?thesis
    using assms(3) carries_reader [OF assms(2)]
    by (simp add: signal_message_def noexcept_eff_def catch_eff_def lift_res_def bind_eff_def return_eff_def)
qed

lemma unanswerable_entry_starves_others_sample:
  "sw_conn (snd (signal_message list_libdbus sample_conversions T_string record_call sample_message
     (busy_signal [(0, [], 1), (1, [(2, [])], 2), (2, [(2, ''y'')], 3)]))) = [1]
   \<and> sw_conn (snd (signal_message list_libdbus sample_conversions T_string record_call sample_message
     (busy_signal [(0, [(0, ''x''), (5, ''q'')], 1), (1, [(1, ''z'')], 2)]))) = []"
proof -
  let ?ds = "[D_basic 115 (Raw_str ''x''), D_basic 115 (Raw_str ''z'')]"
  let ?s = "busy_signal [(0, [], 1), (1, [(2, [])], 2), (2, [(2, ''y'')], 3)]"
  let ?t = "busy_signal [(0, [(0, ''x''), (5, ''q'')], 1), (1, [(1, ''z'')], 2)]"
  note defs = busy_signal_def new_typed_signal_def answerable_def matches_def string_argument_def
    with_handlers_def guarded_def then_eff_def bind_eff_def record_call_def return_eff_def
  have 1: "with_handlers (each_eff (\<lambda>x. record_call (snd (snd x)) (V_string ''x'')) (filter (matches ?ds) [(0, [], 1)])) ?s
      = (Inr (), ?s\<lparr>sw_conn := [1]\<rparr>)"
    and 2: "with_handlers (each_eff (\<lambda>x. record_call (snd (snd x)) (V_string ''x'')) (filter (matches ?ds) [])) ?t
      = (Inr (), ?t)"
    by (simp_all add: defs)
  have "signal_message list_libdbus sample_conversions T_string record_call sample_message ?s
      = (Inr (), ?s\<lparr>sw_conn := [1]\<rparr>)"
    by (rule unanswerable_entry_starves_others [where call = record_call, OF list_reads sample_message_carries
          sample_message_decodes _ _ _ 1, where e = "(1, [(2, [])], 2)" and behind = "[(2, [(2, ''y'')], 3)]"])
       (simp_all add: defs)
  moreover have "signal_message list_libdbus sample_conversions T_string record_call sample_message ?t = (Inr (), ?t)"
    by (rule unanswerable_entry_starves_others [where call = record_call, OF list_reads sample_message_carries
          sample_message_decodes _ _ _ 2, where e = "(0, [(0, ''x''), (5, ''q'')], 1)" and behind = "[(1, [(1, ''z'')], 2)]"])
       (simp_all add: defs)
  ultimately show ?thesis by (simp add: busy_signal_def)
qed

end
