(* ===== verification/Object_Properties.thy ===== *)
theory Object_Properties
  imports Remote_Properties Signal_Properties
begin

text \<open>
  Objects: what a change that another process announces does to the properties, and what happens when
  objects, properties and signals are created and destroyed in an unlucky order.
\<close>

section \<open>Changes that are announced\<close>

definition changed_property ::
  "('m, 'i, 'w, 'd, 'p, 'h, 'e) env \<Rightarrow> 'i cval \<Rightarrow> 'i dbus_property \<Rightarrow> 'i dbus_property" where
  "changed_property E v p =
     (case fst (variant_as (env_lib E) (env_floats E) (pr_type p) v) of
        Inl e \<Rightarrow> p | Inr x \<Rightarrow> p\<lparr>pr_value := env_store E (pr_value p) x\<rparr>)"

text \<open>Reading the variant as the type of the property it is for gives a value or throws.\<close>

definition decodable ::
  "('m, 'i, 'w, 'd, 'p, 'h, 'e) env \<Rightarrow> 'h dbus_object \<Rightarrow> (nat \<Rightarrow> 'i dbus_property option)
     \<Rightarrow> string \<times> string \<Rightarrow> 'i cval \<Rightarrow> bool" where
  "decodable E b P key v \<longleftrightarrow> (\<forall>p q e. ob_changed_vtable b key = Some p \<and> P p = Some q
     \<and> fst (variant_as (env_lib E) (env_floats E) (pr_type q) v) = Inl e \<longrightarrow> is_exception e)"

definition announces ::
  "('m, 'i, 'w, 'd, 'p, 'h, 'e) env \<Rightarrow> 'h dbus_object \<Rightarrow> (nat \<Rightarrow> 'i dbus_property option) \<Rightarrow> string
     \<Rightarrow> ('i cval \<times> 'i cval) list \<Rightarrow> bool" where
  "announces E b P interface changed \<longleftrightarrow> distinct (map fst changed)
     \<and> (\<forall>(k, v) \<in> set changed. \<exists>name. k = V_string name \<and> decodable E b P (interface, name) v)"

lemma changed_property_type [simp]: "pr_type (changed_property E v q) = pr_type q"
  by (simp add: changed_property_def split: sum.split)

text \<open>One entry of the dictionary.\<close>

definition change_step ::
  "('m, 'i, 'w, 'd, 'p, 'h, 'e) env \<Rightarrow> nat \<Rightarrow> string \<Rightarrow> 'i cval \<times> 'i cval \<Rightarrow> (('d, 'h, 'i, 'e) world, unit) eff"
  where
  "change_step E n interface = (\<lambda>(k, v) s.
     case k of
       V_string name \<Rightarrow>
         (case ob_changed_vtable (object_of n s) (interface, name) of
            None \<Rightarrow> (Inr (), s)
          | Some p \<Rightarrow> if w_properties s p = None then (Inr (), s) else handle_changed E p v s)
     | _ \<Rightarrow> ill_typed s)"

lemma on_properties_changed_each:
  "on_properties_changed E n (V_tuple [V_string interface, V_map changed, invalidated])
     = each_eff (change_step E n interface) changed"
  by (simp add: on_properties_changed_def change_step_def)

text \<open>What the entries make of the properties.\<close>

definition change_property ::
  "('m, 'i, 'w, 'd, 'p, 'h, 'e) env \<Rightarrow> 'h dbus_object \<Rightarrow> string \<times> string \<Rightarrow> 'i cval
     \<Rightarrow> (nat \<Rightarrow> 'i dbus_property option) \<Rightarrow> nat \<Rightarrow> 'i dbus_property option" where
  "change_property E b key v P =
     (case ob_changed_vtable b key of
        None \<Rightarrow> P
      | Some p \<Rightarrow> P(p := map_option (changed_property E v) (P p)))"

fun change_properties ::
  "('m, 'i, 'w, 'd, 'p, 'h, 'e) env \<Rightarrow> 'h dbus_object \<Rightarrow> string \<Rightarrow> ('i cval \<times> 'i cval) list
     \<Rightarrow> (nat \<Rightarrow> 'i dbus_property option) \<Rightarrow> nat \<Rightarrow> 'i dbus_property option" where
  "change_properties E b interface [] P = P"
| "change_properties E b interface ((k, v) # changed) P =
     change_properties E b interface changed
       (case k of V_string name \<Rightarrow> change_property E b (interface, name) v P | _ \<Rightarrow> P)"

lemma change_property_type: "map_option pr_type (change_property E b key v P p) = map_option pr_type (P p)"
  by (simp add: change_property_def option.map_comp comp_def split: option.split)

lemma change_step_run:
  assumes "w_objects s n = Some b" and "decodable E b (w_properties s) (interface, name) v"
  shows "change_step E n interface (V_string name, v) s =
     (Inr (), s\<lparr>w_properties := change_property E b (interface, name) v (w_properties s)\<rparr>)"
proof -
  have "handle_changed E p v s = (Inr (), s\<lparr>w_properties := (w_properties s)(p \<mapsto> changed_property E v q)\<rparr>)"
    if p: "ob_changed_vtable b (interface, name) = Some p" and q: "w_properties s p = Some q" for p q
  proof (cases "fst (variant_as (env_lib E) (env_floats E) (pr_type q) v)")
    case (Inl e)
    moreover have "s\<lparr>w_properties := (w_properties s)(p \<mapsto> q)\<rparr> = s" using q by (simp add: fun_upd_idem)
    ultimately show ?thesis
      using p q assms(2) by (auto simp: handle_changed_def with_property_def catch_eff_def bind_eff_def
          lift_res_def changed_property_def return_eff_def decodable_def)
  next
    case (Inr x)
    then show ?thesis
      using q by (simp add: handle_changed_def with_property_def catch_eff_def bind_eff_def
          lift_res_def changed_property_def super_set_def)
  qed
  then show ?thesis
    using assms(1)
    by (auto simp: change_step_def object_of_def change_property_def fun_upd_idem split: option.split)
qed

lemma decodable_change:
  assumes "decodable E b P key v"
  shows "decodable E b (change_property E b key' u P) key v"
  unfolding decodable_def
proof (intro allI impI)
  fix p q e
  assume a: "ob_changed_vtable b key = Some p \<and> change_property E b key' u P p = Some q
     \<and> fst (variant_as (env_lib E) (env_floats E) (pr_type q) v) = Inl e"
  then obtain q' where "P p = Some q'" and "pr_type q' = pr_type q"
    using change_property_type [of E b key' u P p] by (cases "P p") auto
  then show "is_exception e" using assms a unfolding decodable_def by metis
qed

lemma change_steps_run:
  "w_objects s n = Some b \<Longrightarrow> announces E b (w_properties s) interface changed
     \<Longrightarrow> each_eff (change_step E n interface) changed s =
       (Inr (), s\<lparr>w_properties := change_properties E b interface changed (w_properties s)\<rparr>)"
proof (induction changed arbitrary: s)
  case (Cons kv changed)
  obtain name v where kv: "kv = (V_string name, v)" and v: "decodable E b (w_properties s) (interface, name) v"
    using Cons.prems(2) by (auto simp: announces_def)
  let ?s = "s\<lparr>w_properties := change_property E b (interface, name) v (w_properties s)\<rparr>"
  have "announces E b (w_properties ?s) interface changed"
    using Cons.prems(2) by (fastforce simp: announces_def intro: decodable_change)
  then have "each_eff (change_step E n interface) changed ?s =
      (Inr (), ?s\<lparr>w_properties := change_properties E b interface changed (w_properties ?s)\<rparr>)"
    using Cons.prems(1) by (intro Cons.IH) simp_all
  then show ?case
    using change_step_run [OF Cons.prems(1) v] by (simp add: kv then_eff_Inr)
qed (simp add: return_eff_def)

text \<open>A property is entered under one name.\<close>

definition entered_once :: "'h dbus_object \<Rightarrow> bool" where
  "entered_once b \<longleftrightarrow> (\<forall>k k' p. ob_changed_vtable b k = Some p \<and> ob_changed_vtable b k' = Some p \<longrightarrow> k = k')"

text \<open>One entry leaves a property alone that is entered under another name.\<close>

lemma change_property_other:
  "(\<And>name. k = V_string name \<Longrightarrow> ob_changed_vtable b (interface, name) \<noteq> Some p)
     \<Longrightarrow> (case k of V_string name \<Rightarrow> change_property E b (interface, name) v P | _ \<Rightarrow> P) p = P p"
  by (auto simp: change_property_def split: cval.split option.split)

lemma change_properties_other:
  "\<forall>name v. (V_string name, v) \<in> set changed \<longrightarrow> ob_changed_vtable b (interface, name) \<noteq> Some p
     \<Longrightarrow> change_properties E b interface changed P p = P p"
proof (induction changed arbitrary: P)
  case (Cons kv changed)
  obtain k v where kv: "kv = (k, v)" by (cases kv)
  have "(case k of V_string name \<Rightarrow> change_property E b (interface, name) v P | _ \<Rightarrow> P) p = P p"
    by (rule change_property_other) (use Cons.prems kv in auto)
  moreover have "\<forall>name v. (V_string name, v) \<in> set changed \<longrightarrow> ob_changed_vtable b (interface, name) \<noteq> Some p"
    using Cons.prems by (metis list.set_intros(2))
  ultimately show ?case
    using Cons.IH by (simp add: kv)
qed simp

lemma change_properties_named:
  assumes "entered_once b" and "ob_changed_vtable b (interface, name) = Some p"
  shows "distinct (map fst changed) \<Longrightarrow> (V_string name, v) \<in> set changed
     \<Longrightarrow> change_properties E b interface changed P p = map_option (changed_property E v) (P p)"
proof (induction changed arbitrary: P)
  case (Cons kv changed)
  have once: "name' = name" if "ob_changed_vtable b (interface, name') = Some p" for name'
    using assms that unfolding entered_once_def by blast
  show ?case
  proof (cases "kv = (V_string name, v)")
    case True
    then have "(V_string name, u) \<notin> set changed" for u
      using Cons.prems(1) by force
    then have "change_properties E b interface changed P' p = P' p" for P'
      by (intro change_properties_other) (metis once)
    then show ?thesis
      using True assms(2) by (simp add: change_property_def)
  next
    case False
    obtain k u where kv: "kv = (k, u)" by (cases kv)
    then have "(V_string name, v) \<in> set changed" and k: "k \<noteq> V_string name"
      using False Cons.prems by force+
    moreover have "(case k of V_string name' \<Rightarrow> change_property E b (interface, name') u P | _ \<Rightarrow> P) p = P p"
      by (rule change_property_other) (use k once in auto)
    ultimately show ?thesis
      using Cons.IH Cons.prems(1) by (simp add: kv)
  qed
qed simp

lemma changes_run:
  assumes "w_objects s n = Some b" and "announces E b (w_properties s) interface changed" and "entered_once b"
  shows "\<exists>s'. each_eff (change_step E n interface) changed s = (Inr (), s')
     \<and> w_bus s' = w_bus s \<and> w_objects s' = w_objects s
     \<and> (\<forall>name v p q. (V_string name, v) \<in> set changed \<and> ob_changed_vtable b (interface, name) = Some p
          \<and> w_properties s p = Some q \<longrightarrow> w_properties s' p = Some (changed_property E v q))
     \<and> (\<forall>p. (\<forall>name v. (V_string name, v) \<in> set changed \<longrightarrow> ob_changed_vtable b (interface, name) \<noteq> Some p)
          \<longrightarrow> w_properties s' p = w_properties s p)"
proof (intro exI conjI allI impI)
  show "each_eff (change_step E n interface) changed s =
      (Inr (), s\<lparr>w_properties := change_properties E b interface changed (w_properties s)\<rparr>)" (is "_ = (_, ?s)")
    by (rule change_steps_run [OF assms(1,2)])
  show "w_properties ?s p = Some (changed_property E v q)"
    if "(V_string name, v) \<in> set changed \<and> ob_changed_vtable b (interface, name) = Some p
      \<and> w_properties s p = Some q" for name v p q
    using that assms(2) change_properties_named [OF assms(3), of interface name p changed v E]
    by (simp add: announces_def)
  show "w_properties ?s p = w_properties s p"
    if "\<forall>name v. (V_string name, v) \<in> set changed \<longrightarrow> ob_changed_vtable b (interface, name) \<noteq> Some p" for p
    using change_properties_other [OF that] by simp
qed simp_all

text \<open>
  C27. A change that is announced reaches the properties it names, and no other. When
  \<open>PropertiesChanged\<close> arrives with a dictionary, every living property of the object that is entered for
  one of the names gets the value of its variant, stored as \<open>core::Property\<close> stores it; a property whose
  value does not decode at its type keeps its value and hinders no other; names without a property
  are skipped, and all other properties are unchanged. What the list of invalidated names says has no
  effect.
\<close>

theorem changes_reach_named_properties:
  assumes "w_objects s n = Some b" and "announces E b (w_properties s) interface changed"
    and "entered_once b"
  shows "\<exists>s'. on_properties_changed E n (V_tuple [V_string interface, V_map changed, invalidated]) s = (Inr (), s')
     \<and> w_bus s' = w_bus s \<and> w_objects s' = w_objects s
     \<and> (\<forall>name v p q. (V_string name, v) \<in> set changed \<and> ob_changed_vtable b (interface, name) = Some p
          \<and> w_properties s p = Some q \<longrightarrow> w_properties s' p = Some (changed_property E v q))
     \<and> (\<forall>p. (\<forall>name v. (V_string name, v) \<in> set changed \<longrightarrow> ob_changed_vtable b (interface, name) \<noteq> Some p)
          \<longrightarrow> w_properties s' p = w_properties s p)"
  unfolding on_properties_changed_each by (rule changes_run [OF assms])

text \<open>An object with two properties; one is announced with a value, the other with a variant of another
  type.\<close>

definition two_properties :: "(unit, unit, dval list, unit) world" where
  "two_properties = (sample_world (use_service ''x.S'') True ())
     \<lparr>w_objects := [0 \<mapsto> (new_object (use_service ''x.S'') ''/x'')
        \<lparr>ob_changed_vtable := [(''x.Y'', ''P'') \<mapsto> 0, (''x.Y'', ''Q'') \<mapsto> 1]\<rparr>],
      w_properties := [0 \<mapsto> sample_property True ''p'', 1 \<mapsto> sample_property True ''q'']\<rparr>"

abbreviation received_variant_of :: "dval \<Rightarrow> dval list cval" where
  "received_variant_of d \<equiv> V_variant None True (Some [d]) []"

lemma sample_variants:
  "fst (variant_as list_libdbus sample_conversions T_string (received_variant_of (D_basic 115 (Raw_str v))))
     = Inr (V_string v)"
  "\<exists>why. fst (variant_as list_libdbus sample_conversions T_string (received_variant_of (D_basic 105 r)))
     = Inl (Runtime_error why)"
proof -
  have "list_den [D_basic 115 (Raw_str v)] ([D_basic (at_code At_string) (Raw_str v)] @ [])"
    by (simp add: list_den_def)
  then obtain x j where "stream_in list_libdbus sample_conversions T_string (default_val T_string)
      [D_basic 115 (Raw_str v)] = (Inr x, j)" and "x = V_string v"
    by (rule yields_run [OF yields_string [OF list_reads]])
  then show "fst (variant_as list_libdbus sample_conversions T_string (received_variant_of (D_basic 115 (Raw_str v))))
      = Inr (V_string v)"
    by (simp add: variant_as_def)
  have "reader_type list_libdbus [D_basic 105 r] = At_int32"
    by (simp add: reader_type_def list_libdbus_def argument_type_of_eq_iff)
  then show "\<exists>why. fst (variant_as list_libdbus sample_conversions T_string (received_variant_of (D_basic 105 r)))
      = Inl (Runtime_error why)"
    by (simp add: variant_as_def stream_in_def codec_string_decode_def pop_string_def ensure_then bind_eff_def)
qed

theorem changes_reach_named_properties_witness:
  "\<exists>s'. on_properties_changed (plain_env (pipe_connection (\<lambda>m d. d) (\<lambda>m d. (m, d)))) 0
       (V_tuple [V_string ''x.Y'', V_map [(V_string ''P'', received_variant_of (D_basic 115 (Raw_str ''new''))),
          (V_string ''Q'', received_variant_of (D_basic 105 (Raw32 7)))], V_vector []]) two_properties
       = (Inr (), s')
     \<and> w_properties s' 0 = Some (sample_property True ''new'') \<and> w_properties s' 1 = Some (sample_property True ''q'')"
proof -
  let ?E = "plain_env (pipe_connection (\<lambda>m d. d) (\<lambda>m d. (m, d))) ::
      (list_message, dval list, unit, unit, unit, unit, unit) env"
  let ?b = "(new_object (use_service ''x.S'') ''/x'')
      \<lparr>ob_changed_vtable := [(''x.Y'', ''P'') \<mapsto> 0, (''x.Y'', ''Q'') \<mapsto> 1]\<rparr> :: unit dbus_object"
  let ?changed = "[(V_string ''P'', received_variant_of (D_basic 115 (Raw_str ''new''))),
      (V_string ''Q'', received_variant_of (D_basic 105 (Raw32 7)))]"
  obtain why where why: "fst (variant_as list_libdbus sample_conversions T_string
      (received_variant_of (D_basic 105 (Raw32 7)))) = Inl (Runtime_error why)"
    using sample_variants(2) by blast
  have 1: "w_objects two_properties 0 = Some ?b" by (simp add: two_properties_def)
  have 2: "announces ?E ?b (w_properties two_properties) ''x.Y'' ?changed"
    using why by (auto simp: announces_def decodable_def two_properties_def sample_property_def
        sample_variants(1) split: if_splits)
  have 3: "entered_once ?b" by (auto simp: entered_once_def split: if_splits)
  from changes_reach_named_properties [OF 1 2 3, where invalidated = "V_vector []"]
  show ?thesis
  proof (elim exE conjE, goal_cases)
    case (1 s')
    note upd = 1(4) [rule_format]
    have "w_properties s' 0 = Some (sample_property True ''new'')"
      by (subst upd [of "''P''" "received_variant_of (D_basic 115 (Raw_str ''new''))" 0 "sample_property True ''p''"])
        (simp_all add: two_properties_def changed_property_def sample_property_def sample_variants(1))
    moreover have "w_properties s' 1 = Some (sample_property True ''q'')"
      by (subst upd [of "''Q''" "received_variant_of (D_basic 105 (Raw32 7))" 1 "sample_property True ''q''"])
        (simp_all add: two_properties_def changed_property_def sample_property_def why)
    ultimately show ?case using 1(1) by blast
  qed
qed

section \<open>Two objects with one path\<close>

lemma construct_object_run:
  assumes "\<not> router_guard (bus_signal_router (w_bus s))"
  obtains s' b where "construct_object n service path s = (Inr (), s')"
    and "bus_type_router (w_bus s') = bus_type_router (w_bus s)"
    and "bus_signal_router (w_bus s') = put_route path n (bus_signal_router (w_bus s))"
    and "w_objects s' = (w_objects s)(n \<mapsto> b)" and "ob_path b = path" and "ob_service b = service"
  using assms that
  by (cases "service_stub service")
    (simp_all add: construct_object_def put_object_def new_object_def on_bus_def on_object_def
      on_signal_router_def install_method_handler_def if_alive_def object_of_def zoom_def then_eff_def
      bind_eff_def install_route_run new_router_def put_route_def)

lemma object_destructor_run:
  assumes "w_objects s n = Some b" and "\<not> router_guard (bus_signal_router (w_bus s))"
  obtains s' where "object_destructor E n s = (Inr (), s')"
    and "bus_type_router (w_bus s') = bus_type_router (w_bus s)"
    and "bus_signal_router (w_bus s') = erase_route (ob_path b) (bus_signal_router (w_bus s))"
    and "w_objects s' = (w_objects s)(n := None)"
proof -
  let ?rule = "with_sender (with_path properties_changed_rule (ob_path b)) (service_name (ob_service b))"
  obtain se d where d: "conn_remove_match (env_conn E) (c_str (as_string ?rule))
      (conn_unregister_path (env_conn E) (c_str (ob_path b)) (bus_conn (w_bus s))) = (se, d)"
    by fastforce
  let ?s = "s\<lparr>w_bus := w_bus s\<lparr>bus_signal_router := erase_route (ob_path b) (bus_signal_router (w_bus s)),
      bus_conn := d\<rparr>, w_objects := (w_objects s)(n := None)\<rparr>"
  have "object_destructor E n s = (Inr (), ?s)"
    using assms d
    by (cases se) (auto simp: object_destructor_def noexcept_eff_def catch_eff_def if_alive_def object_of_def
        Let_def then_eff_def bind_eff_def on_bus_def on_signal_router_def on_conn_def zoom_def
        uninstall_route_run unregister_object_path_def ignore_exceptions_def object_remove_match_def
        service_remove_match_def remove_match_def error_is_set_def return_eff_def)
  then show thesis using that [of ?s] by simp
qed

text \<open>
  Two objects with one path share one route. When a second object is made for a path and the first
  one is destroyed, the destructor takes away the route that by then belongs to the second: the
  second object is alive, but no signal for its path reaches it any more, and the bus says nothing.
\<close>

lemma second_object_loses_route:
  assumes "wired (w_bus s)" and "first \<noteq> second" and "msg_path (env_lib E) msg = Inr path"
  shows "\<exists>s'. then_eff (construct_object first service path)
           (then_eff (construct_object second service' path) (object_destructor E first)) s = (Inr (), s')
     \<and> w_objects s' second \<noteq> None \<and> filter_message E (Some msg) s' = (Inr Not_yet_handled, s')"
proof -
  have g: "\<not> router_guard (bus_signal_router (w_bus s))" using assms(1) by (simp add: wired_def)
  obtain s1 b1 where 1: "construct_object first service path s = (Inr (), s1)"
    "bus_type_router (w_bus s1) = bus_type_router (w_bus s)"
    "bus_signal_router (w_bus s1) = put_route path first (bus_signal_router (w_bus s))"
    "w_objects s1 = (w_objects s)(first \<mapsto> b1)" "ob_path b1 = path" "ob_service b1 = service"
    by (rule construct_object_run [OF g])
  have g1: "\<not> router_guard (bus_signal_router (w_bus s1))" using g 1(3) by simp
  obtain s2 b2 where 2: "construct_object second service' path s1 = (Inr (), s2)"
    "bus_type_router (w_bus s2) = bus_type_router (w_bus s1)"
    "bus_signal_router (w_bus s2) = put_route path second (bus_signal_router (w_bus s1))"
    "w_objects s2 = (w_objects s1)(second \<mapsto> b2)" "ob_path b2 = path" "ob_service b2 = service'"
    by (rule construct_object_run [OF g1])
  have f: "w_objects s2 first = Some b1" using 1(4) 2(4) assms(2) by simp
  have g2: "\<not> router_guard (bus_signal_router (w_bus s2))" using g1 2(3) by simp
  obtain s3 where 3: "object_destructor E first s2 = (Inr (), s3)"
    "bus_type_router (w_bus s3) = bus_type_router (w_bus s2)"
    "bus_signal_router (w_bus s3) = erase_route (ob_path b1) (bus_signal_router (w_bus s2))"
    "w_objects s3 = (w_objects s2)(first := None)"
    by (rule object_destructor_run [OF f g2])
  have w: "wired (w_bus s3)" using assms(1) 1(2,3) 2(2,3) 3(2,3) by (simp add: wired_def)
  have "router_table (bus_signal_router (w_bus s3)) path = None"
    using 3(3) 1(5) by (simp add: erase_route_def)
  then have "filter_message E (Some msg) s3 = (Inr Not_yet_handled, s3)"
    using w assms(3)
    by (auto simp: filter_message_def static_handle_message_def from_raw_message_def construct_message_def
        bind_eff_def lift_res_def handle_message_run then_eff_def route_signal_run wired_def return_eff_def)
  moreover have "w_objects s3 second \<noteq> None" using 2(4) 3(4) assms(2) by simp
  ultimately show ?thesis using 1(1) 2(1) 3(1) by (simp add: then_eff_Inr)
qed

lemma second_object_loses_route_sample:
  "\<exists>s'. then_eff (construct_object 1 (use_service ''x.S'') ''/x'')
       (then_eff (construct_object 2 (use_service ''x.S'') ''/x'') (object_destructor server_env 1))
         (sample_world (use_service ''x.S'') True []) = (Inr (), s')
     \<and> filter_message server_env (Some (new_list_message 4\<lparr>lm_path := Some ''/x''\<rparr>)) s' = (Inr Not_yet_handled, s')"
proof -
  have 1: "wired (w_bus (sample_world (use_service ''x.S'') True []))"
    by (simp add: wired_def world_run_simps use_service_def)
  have 2: "msg_path (env_lib server_env) (new_list_message 4\<lparr>lm_path := Some ''/x''\<rparr>) = Inr ''/x''"
    by (simp add: sample_envs(1) msg_path_def string_from_chars_def list_libdbus_def make_object_path_def)
  show ?thesis
    using second_object_loses_route [OF 1 _ 2, of 1 2 "use_service ''x.S''" "use_service ''x.S''"] by auto
qed

section \<open>A signal whose constructor fails\<close>

text \<open>
  A signal without an argument that cannot be subscribed leaves a route to nothing. The
  constructor installs its route before it asks the daemon for the rule; when the daemon refuses, it
  throws, the signal does not exist, and its route, which refers to it, stays in the router of the
  object. (The signal with an argument adds no rule in its constructor.)
\<close>

lemma failed_void_signal_leaves_route:
  assumes "\<not> router_guard (vw_router s)" and "vw_signal s = new_void_signal service path interface name"
    and "conn_add_match K (c_str (as_string (with_sender (with_path (snd (set_member name
           (snd (set_interface interface (snd (set_type Mt_signal new_match_rule)))))) path)
           (service_name service)))) (vw_conn s) = (Some (e, t), d)"
  shows "\<exists>s'. construct_void_signal K route s = (Inl (Runtime_error (e @ '': '' @ t)), s')
     \<and> router_table (vw_router s') (interface, name) = Some route"
  using assms
  by (simp add: construct_void_signal_def then_eff_def bind_eff_def zoom_def install_route_run Let_def
      new_void_signal_def object_add_match_def service_add_match_def add_match_def error_is_set_def put_route_def)

lemma failed_void_signal_leaves_route_witness:
  "\<exists>s'. construct_void_signal (counting_connection True :: (string multiset, unit, unit) connection) (7 :: nat)
       \<lparr>vw_signal = (new_void_signal (use_service ''x.S'') ''/x'' ''x.Y'' ''N'' :: nat void_signal),
         vw_router = new_router, vw_conn = {#}\<rparr> = (Inl (Runtime_error ''e: full''), s')
     \<and> router_table (vw_router s') (''x.Y'', ''N'') = Some 7"
  using failed_void_signal_leaves_route [of "\<lparr>vw_signal = (new_void_signal (use_service ''x.S'') ''/x'' ''x.Y'' ''N'' :: nat void_signal),
         vw_router = new_router, vw_conn = {#}\<rparr>" "use_service ''x.S''" "''/x''" "''x.Y''" "''N''"
      "counting_connection True :: (string multiset, unit, unit) connection" "''e''" "''full''" "{#}" 7]
  by (simp add: counting_connection_def new_router_def)

section \<open>One cache for all services\<close>

text \<open>A signal that is in use is not made a second time.\<close>

lemma get_signal_in_use:
  assumes "w_objects w n = Some ob" and "\<not> cache_guard c"
    and "cache_find c (ob_path ob, fst sig, snd sig) = Some (q, conn)" and "alive W w q"
  shows "get_signal W n sig g construct (c, w) = (Inr q, (c, w))"
  using assms
  by (simp add: get_signal_def make_signal_cached_def retrieve_run bind_eff_def weak_lock_def return_eff_def)

lemma get_signal_first:
  assumes "w_objects w n = Some ob" and "\<not> cache_guard c"
    and "cache_find c (ob_path ob, fst sig, snd sig) = None" and "construct w = (Inr (), w')"
  obtains c' w'' where "get_signal W n sig g construct (c, w) = (Inr g, (c', w''))"
    and "cache_find c' (ob_path ob, fst sig, snd sig) = Some (g, fst (connect_slot W g (ob_path ob, fst sig, snd sig) w'))"
    and "w'' = snd (connect_slot W g (ob_path ob, fst sig, snd sig) w')"
  using assms
  by (simp add: get_signal_def make_signal_cached_def retrieve_run insert_run bind_eff_def then_eff_def
      on_world_def zoom_def return_eff_def entries.lookup_add)

text \<open>What touches no property and no object but \<open>n\<close>.\<close>

definition only_object :: "nat \<Rightarrow> (('d, 'h, 'i, 'e) world, 'a) eff \<Rightarrow> bool" where
  "only_object n e \<longleftrightarrow> (\<forall>w. w_properties (snd (e w)) = w_properties w
     \<and> (\<forall>m. m \<noteq> n \<longrightarrow> w_objects (snd (e w)) m = w_objects w m))"

lemma only_object_then:
  assumes "only_object n e" and "only_object n e'"
  shows "only_object n (then_eff e e')"
  unfolding only_object_def
proof (rule allI)
  fix w
  obtain r w1 where w1: "e w = (r, w1)" by fastforce
  have 1: "w_properties w1 = w_properties w \<and> (\<forall>m. m \<noteq> n \<longrightarrow> w_objects w1 m = w_objects w m)"
    using assms(1) w1 unfolding only_object_def by (metis snd_conv)
  show "w_properties (snd (then_eff e e' w)) = w_properties w
      \<and> (\<forall>m. m \<noteq> n \<longrightarrow> w_objects (snd (then_eff e e' w)) m = w_objects w m)"
    using 1 w1 assms(2) by (cases r) (simp_all add: then_eff_def bind_eff_def only_object_def)
qed

lemma only_object_simps [simp]:
  "only_object n (on_object n e1)" "only_object n (on_bus e2)" "only_object n (return_eff x)"
  by (simp_all add: only_object_def on_object_def if_alive_def on_bus_def zoom_def put_object_def
      return_eff_def split: option.split prod.split)

lemma watch_changes_frame: "only_object n (watch_changes E n p D)"
proof -
  have "\<exists>e. only_object n e \<and> watch_changes E n p D w = e w" for w
  proof (cases "w_objects w n")
    case None
    then show ?thesis
      by (intro exI [of _ "\<lambda>w. (fst (watch_changes E n p D w), w)"])
        (simp add: watch_changes_def if_alive_def only_object_def)
  next
    case (Some b)
    let ?ob = "object_of n w"
    show ?thesis
      unfolding watch_changes_def if_alive_def Let_def Some option.case
      by (rule exI, rule conjI [OF _ refl]) (auto intro!: only_object_then)
  qed
  then show ?thesis unfolding only_object_def by metis
qed

lemma make_property_stub:
  assumes "w_objects w n = Some b" and "service_stub (ob_service b)"
  shows "make_property n p D w = (Inr p, w\<lparr>w_properties := (w_properties w)(p \<mapsto>
     \<lparr>pr_object = n, pr_interface = pd_interface D, pr_name = pd_name D, pr_type = pd_type D,
      pr_writable = pd_writable D, pr_value = default_val (pd_type D)\<rparr>)\<rparr>)"
  using assms
  by (simp add: make_property_def then_eff_def bind_eff_def if_alive_def object_of_def object_is_stub_def
      return_eff_def)

text \<open>The properties as the cache sees them: alive while they are in the world; connecting a slot leaves
  objects and properties as they are.\<close>

definition sees_properties ::
  "(('d, 'h, 'i, 'e) world, nat, cache_key, 'c) objects \<Rightarrow> bool" where
  "sees_properties W \<longleftrightarrow> (\<forall>w p. alive W w p = (w_properties w p \<noteq> None))
     \<and> (\<forall>p k w. w_objects (snd (connect_slot W p k w)) = w_objects w
          \<and> w_properties (snd (connect_slot W p k w)) = w_properties w)"

text \<open>
  A stub's property can belong to another service. The key of the cache has the path, the interface
  and the name, but not the service. When two stubs have the same path in two services, the property
  that the second one returns is the property of the first: it is read from and set in the service of
  the first.
\<close>

lemma stub_property_of_other_service:
  assumes "sees_properties W" and "\<not> cache_guard c"
    and "cache_find c (ob_path b1, pd_interface D, pd_name D) = None"
    and "w_objects w first = Some b1" and "w_objects w second = Some b2" and "first \<noteq> second"
    and "ob_path b2 = ob_path b1" and "service_stub (ob_service b1)" and "service_stub (ob_service b2)"
    and "get_property W E first p D (c, w) = (Inr p, s)"
  shows "get_property W E second p' D s = (Inr p, s)
     \<and> (\<exists>q. w_properties (snd s) p = Some q \<and> pr_object q = first)"
proof -
  let ?key = "(ob_path b1, pd_interface D, pd_name D)"
  obtain w1 q where w1: "make_property first p D w = (Inr p, w1)" "w_objects w1 = w_objects w"
    and q: "w_properties w1 p = Some q" "pr_object q = first"
    using make_property_stub [OF assms(4,8), of p D] by simp
  obtain conn w2 where w2: "connect_slot W p ?key w1 = (conn, w2)" by fastforce
  have w2': "w_objects w2 = w_objects w" "w_properties w2 = w_properties w1"
    using assms(1) w2 w1(2) unfolding sees_properties_def by (metis snd_conv)+
  let ?c = "cache_put ?key (p, conn) c"
  obtain r w3 where w3: "watch_changes E first p D w2 = (r, w3)" by fastforce
  have "get_property W E first p D (c, w) =
      catch_eff (then_eff (on_world (watch_changes E first p D)) (return_eff p))
        (\<lambda>e. then_eff (destroy_object W p) (throw_eff e)) (?c, w2)"
    using assms(2,3,4,8) w1(1) w2
    by (simp add: get_property_def object_of_def object_is_stub_def Let_def retrieve_run insert_run
        bind_eff_def then_eff_def on_world_def zoom_def)
  also have "\<dots> = (case r of Inl e \<Rightarrow> then_eff (destroy_object W p) (throw_eff e) (?c, w3)
      | Inr u \<Rightarrow> (Inr p, (?c, w3)))"
    using w3 by (simp add: catch_eff_def then_eff_def bind_eff_def on_world_def zoom_def return_eff_def
        split: sum.split)
  finally have s: "s = (?c, w3)"
    using assms(10) by (auto simp: then_eff_def bind_eff_def throw_eff_def split: sum.splits prod.splits)
  have o3: "w_objects w3 second = Some b2" and p3: "w_properties w3 p = Some q"
    using watch_changes_frame [of first E p D] assms(5,6) w2' q(1) w3 unfolding only_object_def
    by (metis snd_conv)+
  have find: "cache_find ?c ?key = Some (p, conn)" by (simp add: entries.lookup_add)
  have "get_property W E second p' D s = (Inr p, s)"
    using assms(1,2,7,9) o3 p3 find
    by (simp add: s get_property_def object_of_def object_is_stub_def Let_def retrieve_run bind_eff_def
        weak_lock_def sees_properties_def return_eff_def)
  then show ?thesis using p3 q(2) s by simp
qed

definition world_objects ::
  "(('d, 'h, 'i, 'e) world, nat, cache_key, nat) objects" where
  "world_objects = \<lparr>alive = (\<lambda>w p. w_properties w p \<noteq> None), slots_of = (\<lambda>w p. []),
     connect_slot = (\<lambda>p k w. (0, w)), disconnect_slot = (\<lambda>c w. w), create_object = (\<lambda>p w. w),
     end_object = (\<lambda>p w. w\<lparr>w_properties := (w_properties w)(p := None)\<rparr>)\<rparr>"

lemma world_objects_connect [simp]: "connect_slot world_objects p k w = (0, w)"
  by (simp add: world_objects_def)

lemma stub_property_of_other_service_witness:
  "\<exists>s. get_property world_objects server_env 1 5 \<lparr>pd_interface = ''x.Y'', pd_name = ''P'', pd_type = T_string,
         pd_writable = True\<rparr> (new_cache, (sample_world (use_service ''x.A'') True [])
           \<lparr>w_objects := [1 \<mapsto> new_object (use_service ''x.A'') ''/x'', 2 \<mapsto> new_object (use_service ''x.B'') ''/x'']\<rparr>)
       = (Inr 5, s)
     \<and> get_property world_objects server_env 2 6 \<lparr>pd_interface = ''x.Y'', pd_name = ''P'', pd_type = T_string,
         pd_writable = True\<rparr> s = (Inr 5, s)"
proof -
  let ?D = "\<lparr>pd_interface = ''x.Y'', pd_name = ''P'', pd_type = T_string, pd_writable = True\<rparr>"
  let ?w = "(sample_world (use_service ''x.A'') True [])\<lparr>w_objects :=
      [1 \<mapsto> new_object (use_service ''x.A'') ''/x'', 2 \<mapsto> new_object (use_service ''x.B'') ''/x'']\<rparr>
      :: (list_message list, unit, dval list, unit) world"
  have "sees_properties (world_objects :: ((list_message list, unit, dval list, unit) world, nat, cache_key, nat) objects)"
    by (simp add: sees_properties_def world_objects_def)
  moreover obtain s where s: "get_property world_objects server_env 1 5 ?D (new_cache, ?w) = (Inr 5, s)"
    by (simp add: get_property_def object_of_def object_is_stub_def Let_def retrieve_run insert_run new_cache_def
        bind_eff_def then_eff_def on_world_def zoom_def make_property_stub new_object_def use_service_def
        watch_changes_def if_alive_def on_bus_def on_conn_def on_object_def object_add_match_def
        service_add_match_def add_match_def server_env_def pipe_connection_def error_is_set_def return_eff_def
        catch_eff_def put_object_def cache_find_def)
  ultimately show ?thesis
    using stub_property_of_other_service [of world_objects new_cache "new_object (use_service ''x.A'') ''/x''" ?D
        ?w 1 2 "new_object (use_service ''x.B'') ''/x''" server_env 5 s 6]
    by (auto simp: new_cache_def cache_find_def new_object_def use_service_def)
qed

end
