(* ===== verification/Executor.thy ===== *)
theory Executor
  imports Dbus_Prelude "HOL-Library.Word"
begin

text \<open>
  The event loop that runs a bus: src/core/dbus/asio/executor.cpp with the traits of
  include/core/dbus/traits. libdbus announces watches on file descriptors and timeouts; for each the
  executor makes an object that waits in boost's \<open>io_service\<close>.

  Both libraries are parameters: a state \<open>'a\<close> with the operations of the record \<open>event_lib\<close>. The
  objects \<open>Watch\<close> and \<open>Timeout\<close> are numbered; what libdbus keeps for a watch or timeout
  (\<open>dbus_watch_set_data\<close>) is the number of the object in the \<open>Holder\<close>, which owns it. A waiting operation
  holds its object weakly.
\<close>

unbundle bit_operations_syntax

section \<open>State\<close>

record ('t, 'v, 'a) executor =
  ex_loop :: 'a
  ex_watches :: "nat \<Rightarrow> 'v option"
  ex_timeouts :: "nat \<Rightarrow> 't option"
  ex_watch_data :: "'v \<Rightarrow> nat option"
  ex_timeout_data :: "'t \<Rightarrow> nat option"
  ex_next :: nat

text \<open>
  A function that returns \<open>string option\<close> beside the state throws when there is a string. What libdbus
  does when it handles a watch or a timeout, or dispatches, may reach the executor again.
\<close>

record ('t, 'v, 'a) event_lib =
  el_watch_enabled :: "'v \<Rightarrow> 'a \<Rightarrow> bool"
  el_watch_fd :: "'v \<Rightarrow> 'a \<Rightarrow> int"
  el_watch_flags :: "'v \<Rightarrow> 'a \<Rightarrow> 32 word"
  el_watch_handle :: "'v \<Rightarrow> 32 word \<Rightarrow> (('t, 'v, 'a) executor, bool) eff"
  el_timeout_enabled :: "'t \<Rightarrow> 'a \<Rightarrow> bool"
  el_timeout_interval :: "'t \<Rightarrow> 'a \<Rightarrow> int"
  el_timeout_handle :: "'t \<Rightarrow> (('t, 'v, 'a) executor, unit) eff"
  el_dispatch_status :: "'a \<Rightarrow> int"
  el_dispatch :: "(('t, 'v, 'a) executor, unit) eff"
  el_set_watch_functions :: "'a \<Rightarrow> bool \<times> 'a"
  el_set_timeout_functions :: "'a \<Rightarrow> bool \<times> 'a"
  el_set_wakeup_function :: "'a \<Rightarrow> 'a"
  el_timer_expires :: "nat \<Rightarrow> int \<Rightarrow> 'a \<Rightarrow> 'a"
  el_timer_wait :: "nat \<Rightarrow> 'a \<Rightarrow> 'a"
  el_timer_cancel :: "nat \<Rightarrow> 'a \<Rightarrow> string option \<times> 'a"
  el_assign :: "nat \<Rightarrow> int \<Rightarrow> 'a \<Rightarrow> string option \<times> 'a"
  el_read :: "nat \<Rightarrow> 'a \<Rightarrow> 'a"
  el_write :: "nat \<Rightarrow> 'a \<Rightarrow> 'a"
  el_cancel :: "nat \<Rightarrow> 'a \<Rightarrow> string option \<times> 'a"
  el_release :: "nat \<Rightarrow> 'a \<Rightarrow> 'a"
  el_post_dispatch :: "'a \<Rightarrow> 'a"
  el_run :: "'a \<Rightarrow> 'a"
  el_stop :: "'a \<Rightarrow> 'a"

definition on_loop :: "('a \<Rightarrow> 'a) \<Rightarrow> (('t, 'v, 'a) executor, unit) eff" where
  "on_loop f s = (Inr (), s\<lparr>ex_loop := f (ex_loop s)\<rparr>)"

definition on_loop_throwing :: "('a \<Rightarrow> string option \<times> 'a) \<Rightarrow> (('t, 'v, 'a) executor, unit) eff" where
  "on_loop_throwing f s = (case f (ex_loop s) of (failed, a) \<Rightarrow>
     ((case failed of None \<Rightarrow> Inr () | Some why \<Rightarrow> Inl (Runtime_error why)), s\<lparr>ex_loop := a\<rparr>))"

text \<open>How an operation of boost ends.\<close>

datatype error_code = Success | Operation_aborted | Other_error

section \<open>The traits\<close>

definition is_timeout_enabled :: "('t, 'v, 'a) event_lib \<Rightarrow> 't \<Rightarrow> 'a \<Rightarrow> bool" where
  [simp]: "is_timeout_enabled V t a = el_timeout_enabled V t a"

definition get_timeout_interval :: "('t, 'v, 'a) event_lib \<Rightarrow> 't \<Rightarrow> 'a \<Rightarrow> int" where
  [simp]: "get_timeout_interval V t a = el_timeout_interval V t a"

definition invoke_timeout_handler :: "('t, 'v, 'a) event_lib \<Rightarrow> 't \<Rightarrow> (('t, 'v, 'a) executor, unit) eff" where
  [simp]: "invoke_timeout_handler V t = el_timeout_handle V t"

definition is_watch_enabled :: "('t, 'v, 'a) event_lib \<Rightarrow> 'v \<Rightarrow> 'a \<Rightarrow> bool" where
  [simp]: "is_watch_enabled V w a = el_watch_enabled V w a"

definition get_watch_unix_fd :: "('t, 'v, 'a) event_lib \<Rightarrow> 'v \<Rightarrow> 'a \<Rightarrow> int" where
  [simp]: "get_watch_unix_fd V w a = el_watch_fd V w a"

definition invoke_watch_handler_for_event ::
  "('t, 'v, 'a) event_lib \<Rightarrow> 'v \<Rightarrow> 32 word \<Rightarrow> (('t, 'v, 'a) executor, bool) eff" where
  [simp]: "invoke_watch_handler_for_event V w event = el_watch_handle V w event"

definition readable_event :: "32 word" where
  "readable_event = 1"

definition writeable_event :: "32 word" where
  "writeable_event = 2"

definition error_event :: "32 word" where
  "error_event = 4"

definition hangup_event :: "32 word" where
  "hangup_event = 8"

definition monitors_readable :: "('t, 'v, 'a) event_lib \<Rightarrow> 'v \<Rightarrow> 'a \<Rightarrow> bool" where
  "monitors_readable V w a \<longleftrightarrow> el_watch_flags V w a AND readable_event \<noteq> 0"

definition monitors_writable :: "('t, 'v, 'a) event_lib \<Rightarrow> 'v \<Rightarrow> 'a \<Rightarrow> bool" where
  "monitors_writable V w a \<longleftrightarrow> el_watch_flags V w a AND writeable_event \<noteq> 0"

section \<open>Timeouts\<close>

definition construct_timeout :: "'t option \<Rightarrow> (('t, 'v, 'a) executor, nat) eff" where
  "construct_timeout timeout s =
     (case timeout of
        None \<Rightarrow> (Inl (Runtime_error ''Precondition violated: timeout has to be non-null''), s)
      | Some t \<Rightarrow> (Inr (ex_next s), s\<lparr>ex_timeouts := (ex_timeouts s)(ex_next s \<mapsto> t), ex_next := Suc (ex_next s)\<rparr>))"

definition timeout_of :: "nat \<Rightarrow> ('t \<Rightarrow> (('t, 'v, 'a) executor, 'b) eff) \<Rightarrow> (('t, 'v, 'a) executor, 'b) eff" where
  "timeout_of n f s =
     (case ex_timeouts s n of
        None \<Rightarrow> (Inl (Undefined_behaviour ''timeout used after its destruction''), s)
      | Some t \<Rightarrow> f t s)"

definition timeout_start :: "('t, 'v, 'a) event_lib \<Rightarrow> nat \<Rightarrow> (('t, 'v, 'a) executor, unit) eff" where
  "timeout_start V n = timeout_of n (\<lambda>t s.
     if \<not> is_timeout_enabled V t (ex_loop s) then (Inr (), s)
     else then_eff (on_loop (el_timer_expires V n (get_timeout_interval V t (ex_loop s))))
            (on_loop (el_timer_wait V n)) s)"

definition timeout_cancel :: "('t, 'v, 'a) event_lib \<Rightarrow> nat \<Rightarrow> (('t, 'v, 'a) executor, unit) eff" where
  "timeout_cancel V n = timeout_of n (\<lambda>t. catch_eff (on_loop_throwing (el_timer_cancel V n)) (\<lambda>e. return_eff ()))"

definition on_timeout ::
  "('t, 'v, 'a) event_lib \<Rightarrow> nat \<Rightarrow> error_code \<Rightarrow> (('t, 'v, 'a) executor, unit) eff" where
  "on_timeout V n ec = timeout_of n (\<lambda>t.
     if ec = Operation_aborted then return_eff ()
     else if ec \<noteq> Success then return_eff ()
     else invoke_timeout_handler V t)"

text \<open>What the timer calls; \<open>wp.lock()\<close> is null when the object is gone.\<close>

definition timer_done ::
  "('t, 'v, 'a) event_lib \<Rightarrow> nat \<Rightarrow> error_code \<Rightarrow> (('t, 'v, 'a) executor, unit) eff" where
  "timer_done V n ec s = (if ex_timeouts s n = None then (Inr (), s) else on_timeout V n ec s)"

section \<open>Watches\<close>

definition construct_watch :: "'v option \<Rightarrow> (('t, 'v, 'a) executor, nat) eff" where
  "construct_watch watch s =
     (case watch of
        None \<Rightarrow> (Inl (Runtime_error ''Precondition violated: watch has to be non-null''), s)
      | Some w \<Rightarrow> (Inr (ex_next s), s\<lparr>ex_watches := (ex_watches s)(ex_next s \<mapsto> w), ex_next := Suc (ex_next s)\<rparr>))"

definition watch_of :: "nat \<Rightarrow> ('v \<Rightarrow> (('t, 'v, 'a) executor, 'b) eff) \<Rightarrow> (('t, 'v, 'a) executor, 'b) eff" where
  "watch_of n f s =
     (case ex_watches s n of
        None \<Rightarrow> (Inl (Undefined_behaviour ''watch used after its destruction''), s)
      | Some w \<Rightarrow> f w s)"

definition watch_restart :: "('t, 'v, 'a) event_lib \<Rightarrow> nat \<Rightarrow> (('t, 'v, 'a) executor, unit) eff" where
  "watch_restart V n = watch_of n (\<lambda>w s.
     then_eff (if monitors_readable V w (ex_loop s) then on_loop (el_read V n) else return_eff ())
       (\<lambda>s. if monitors_writable V w (ex_loop s) then on_loop (el_write V n) s else (Inr (), s)) s)"

definition watch_start :: "('t, 'v, 'a) event_lib \<Rightarrow> nat \<Rightarrow> (('t, 'v, 'a) executor, unit) eff" where
  "watch_start V n = watch_of n (\<lambda>w s.
     then_eff (on_loop_throwing (el_assign V n (get_watch_unix_fd V w (ex_loop s)))) (watch_restart V n) s)"

definition watch_cancel :: "('t, 'v, 'a) event_lib \<Rightarrow> nat \<Rightarrow> (('t, 'v, 'a) executor, unit) eff" where
  "watch_cancel V n = watch_of n (\<lambda>w. catch_eff (on_loop_throwing (el_cancel V n)) (\<lambda>e. return_eff ()))"

text \<open>The destructor is \<open>noexcept\<close>.\<close>

definition watch_destroy :: "('t, 'v, 'a) event_lib \<Rightarrow> nat \<Rightarrow> (('t, 'v, 'a) executor, unit) eff" where
  "watch_destroy V n =
     then_eff (catch_eff (then_eff (on_loop_throwing (el_cancel V n)) (on_loop (el_release V n)))
         (\<lambda>e. throw_eff Terminate))
       (\<lambda>s. (Inr (), s\<lparr>ex_watches := (ex_watches s)(n := None)\<rparr>))"

text \<open>When handling a watch frees it, \<open>restart\<close> asks for the flags of a watch that is gone.\<close>

definition on_stream_descriptor_event ::
  "('t, 'v, 'a) event_lib \<Rightarrow> nat \<Rightarrow> 32 word \<Rightarrow> error_code \<Rightarrow> (('t, 'v, 'a) executor, unit) eff" where
  "on_stream_descriptor_event V n event ec = watch_of n (\<lambda>w.
     if ec = Operation_aborted then return_eff ()
     else if ec \<noteq> Success then then_eff (invoke_watch_handler_for_event V w error_event) (return_eff ())
     else bind_eff (invoke_watch_handler_for_event V w event) (\<lambda>handled.
            if \<not> handled then throw_eff (Runtime_error ''Insufficient memory while handling watch event'')
            else watch_restart V n))"

definition read_done ::
  "('t, 'v, 'a) event_lib \<Rightarrow> nat \<Rightarrow> error_code \<Rightarrow> (('t, 'v, 'a) executor, unit) eff" where
  "read_done V n ec s =
     (if ex_watches s n = None then (Inr (), s) else on_stream_descriptor_event V n readable_event ec s)"

definition write_done ::
  "('t, 'v, 'a) event_lib \<Rightarrow> nat \<Rightarrow> error_code \<Rightarrow> (('t, 'v, 'a) executor, unit) eff" where
  "write_done V n ec s =
     (if ex_watches s n = None then (Inr (), s) else on_stream_descriptor_event V n writeable_event ec s)"

section \<open>What libdbus calls\<close>

text \<open>\<open>dbus_watch_set_data\<close> frees what it kept before.\<close>

definition set_watch_data ::
  "('t, 'v, 'a) event_lib \<Rightarrow> 'v \<Rightarrow> nat option \<Rightarrow> (('t, 'v, 'a) executor, unit) eff" where
  "set_watch_data V w holder s =
     then_eff (case ex_watch_data s w of None \<Rightarrow> return_eff () | Some old \<Rightarrow> watch_destroy V old)
       (\<lambda>s. (Inr (), s\<lparr>ex_watch_data := (ex_watch_data s)(w := holder)\<rparr>)) s"

definition set_timeout_data ::
  "'t \<Rightarrow> nat option \<Rightarrow> (('t, 'v, 'a) executor, unit) eff" where
  "set_timeout_data t holder s =
     (let s = (case ex_timeout_data s t of
                 None \<Rightarrow> s | Some old \<Rightarrow> s\<lparr>ex_timeouts := (ex_timeouts s)(old := None)\<rparr>) in
      (Inr (), s\<lparr>ex_timeout_data := (ex_timeout_data s)(t := holder)\<rparr>))"

definition on_dbus_add_watch :: "('t, 'v, 'a) event_lib \<Rightarrow> 'v \<Rightarrow> (('t, 'v, 'a) executor, bool) eff" where
  "on_dbus_add_watch V w s =
     (if \<not> el_watch_enabled V w (ex_loop s) then (Inr True, s)
      else bind_eff (construct_watch (Some w)) (\<lambda>n.
        then_eff (set_watch_data V w (Some n)) (then_eff (watch_start V n) (return_eff True))) s)"

definition on_dbus_remove_watch :: "('t, 'v, 'a) event_lib \<Rightarrow> 'v \<Rightarrow> (('t, 'v, 'a) executor, unit) eff" where
  "on_dbus_remove_watch V w s =
     (case ex_watch_data s w of None \<Rightarrow> (Inr (), s) | Some n \<Rightarrow> watch_cancel V n s)"

definition on_dbus_watch_toggled :: "('t, 'v, 'a) event_lib \<Rightarrow> 'v \<Rightarrow> (('t, 'v, 'a) executor, unit) eff" where
  "on_dbus_watch_toggled V w s =
     (case ex_watch_data s w of
        None \<Rightarrow> (Inr (), s)
      | Some n \<Rightarrow> if el_watch_enabled V w (ex_loop s) then watch_restart V n s else watch_cancel V n s)"

definition on_dbus_add_timeout :: "('t, 'v, 'a) event_lib \<Rightarrow> 't \<Rightarrow> (('t, 'v, 'a) executor, bool) eff" where
  "on_dbus_add_timeout V t =
     bind_eff (construct_timeout (Some t)) (\<lambda>n.
       then_eff (set_timeout_data t (Some n)) (then_eff (timeout_start V n) (return_eff True)))"

definition on_dbus_remove_timeout :: "('t, 'v, 'a) event_lib \<Rightarrow> 't \<Rightarrow> (('t, 'v, 'a) executor, unit) eff" where
  "on_dbus_remove_timeout V t s =
     (case ex_timeout_data s t of
        None \<Rightarrow> (Inl (Undefined_behaviour ''no holder''), s)
      | Some n \<Rightarrow> timeout_cancel V n s)"

definition on_dbus_timeout_toggled :: "('t, 'v, 'a) event_lib \<Rightarrow> 't \<Rightarrow> (('t, 'v, 'a) executor, unit) eff" where
  "on_dbus_timeout_toggled V t s =
     (case ex_timeout_data s t of
        None \<Rightarrow> (Inl (Undefined_behaviour ''no holder''), s)
      | Some n \<Rightarrow> timeout_start V n s)"

definition on_dbus_wakeup_event_loop :: "('t, 'v, 'a) event_lib \<Rightarrow> (('t, 'v, 'a) executor, unit) eff" where
  "on_dbus_wakeup_event_loop V = on_loop (el_post_dispatch V)"

text \<open>What was posted, when its turn comes; 0 is \<open>DBUS_DISPATCH_DATA_REMAINS\<close>.\<close>

definition dispatch_all :: "('t, 'v, 'a) event_lib \<Rightarrow> (('t, 'v, 'a) executor, unit) eff" where
  "dispatch_all V = loop_eff (\<lambda>s. el_dispatch_status V (ex_loop s) = 0) (\<lambda>_. el_dispatch V) ()"

section \<open>The executor\<close>

definition new_executor :: "'a \<Rightarrow> ('t, 'v, 'a) executor" where
  "new_executor a = \<lparr>ex_loop = a, ex_watches = (\<lambda>n. None), ex_timeouts = (\<lambda>n. None),
     ex_watch_data = (\<lambda>w. None), ex_timeout_data = (\<lambda>t. None), ex_next = 0\<rparr>"

text \<open>\<open>bus\<close> says whether the pointer to the bus is not null.\<close>

definition construct_executor :: "('t, 'v, 'a) event_lib \<Rightarrow> bool \<Rightarrow> 'a \<Rightarrow> (exn + ('t, 'v, 'a) executor) \<times> 'a" where
  "construct_executor V bus a =
     (if \<not> bus then (Inl (Runtime_error ''Precondition violated, cannot construct executor for null bus.''), a)
      else (case el_set_watch_functions V a of
              (False, a) \<Rightarrow> (Inl (Runtime_error ''Problem installing watch functions.''), a)
            | (True, a) \<Rightarrow>
                (case el_set_timeout_functions V a of
                   (False, a) \<Rightarrow> (Inl (Runtime_error ''Problem installing timeout functions.''), a)
                 | (True, a) \<Rightarrow>
                     (let a = el_set_wakeup_function V a in (Inr (new_executor a), a)))))"

text \<open>\<open>make_executor\<close>, with the event loop of the process (a static variable) or one that is given.\<close>

definition make_executor_on :: "('t, 'v, 'a) event_lib \<Rightarrow> bool \<Rightarrow> 'a \<Rightarrow> (exn + ('t, 'v, 'a) executor) \<times> 'a" where
  "make_executor_on V bus io = construct_executor V bus io"

definition make_executor :: "('t, 'v, 'a) event_lib \<Rightarrow> 'a \<Rightarrow> bool \<Rightarrow> (exn + ('t, 'v, 'a) executor) \<times> 'a" where
  "make_executor V static_io bus = make_executor_on V bus static_io"

definition executor_run :: "('t, 'v, 'a) event_lib \<Rightarrow> (('t, 'v, 'a) executor, unit) eff" where
  "executor_run V = on_loop (el_run V)"

definition executor_stop :: "('t, 'v, 'a) event_lib \<Rightarrow> (('t, 'v, 'a) executor, unit) eff" where
  "executor_stop V = on_loop (el_stop V)"

definition destroy_executor :: "('t, 'v, 'a) event_lib \<Rightarrow> (('t, 'v, 'a) executor, unit) eff" where
  "destroy_executor V = executor_stop V"

section \<open>Draining the queue\<close>

text \<open>
  C30. Waking the event loop drains the queue. If every dispatch takes something away from what libdbus
  has to dispatch, the function that was posted returns, and when it does, no data remains; what every
  dispatch keeps is kept.
\<close>

theorem wakeup_drains_queue:
  fixes V :: "('t, 'v, 'a) event_lib"
  assumes "\<And>s. el_dispatch_status V (ex_loop s) = 0
     \<Longrightarrow> \<exists>s'. el_dispatch V s = (Inr (), s') \<and> queue s' < (queue s :: nat) \<and> (I s \<longrightarrow> I s')"
  shows "\<exists>s'. dispatch_all V s = (Inr (), s') \<and> el_dispatch_status V (ex_loop s') \<noteq> 0 \<and> (I s \<longrightarrow> I s')"
proof (induction "queue s" arbitrary: s rule: less_induct)
  case less
  show ?case
  proof (cases "el_dispatch_status V (ex_loop s) = 0")
    case True
    then obtain s1 where 1: "el_dispatch V s = (Inr (), s1)" "queue s1 < queue s" "I s \<longrightarrow> I s1"
      using assms by blast
    obtain s' where s': "dispatch_all V s1 = (Inr (), s')" "el_dispatch_status V (ex_loop s') \<noteq> 0" "I s1 \<longrightarrow> I s'"
      using less [OF 1(2)] by blast
    have "dispatch_all V s = (Inr (), s')"
      unfolding dispatch_all_def
      by (rule loop_eff_step [of "\<lambda>s. el_dispatch_status V (ex_loop s) = 0" s _ _ _ s1])
        (use True 1(1) s'(1) in \<open>simp_all add: dispatch_all_def\<close>)
    then show ?thesis using s' 1(3) by blast
  qed (simp add: dispatch_all_def loop_eff_stop)
qed

section \<open>A timeout that is disabled\<close>

text \<open>
  A timeout that is disabled fires all the same. After an enabled timeout was added, disabling it
  (\<open>a'\<close> is the state in which libdbus calls \<open>toggled\<close>) does not cancel the timer that runs, and when it
  expires the handler of the disabled timeout is called.
\<close>

lemma disabled_timeout_fires:
  assumes "ex_timeout_data s t = None" and "el_timeout_enabled V t (ex_loop s)"
    and "on_dbus_add_timeout V t s = (r, s1)" and "\<not> el_timeout_enabled V t a'"
  shows "on_dbus_timeout_toggled V t (s1\<lparr>ex_loop := a'\<rparr>) = (Inr (), s1\<lparr>ex_loop := a'\<rparr>)
     \<and> timer_done V (ex_next s) Success (s1\<lparr>ex_loop := a''\<rparr>) = el_timeout_handle V t (s1\<lparr>ex_loop := a''\<rparr>)
     \<and> ex_loop s1 = el_timer_wait V (ex_next s)
         (el_timer_expires V (ex_next s) (el_timeout_interval V t (ex_loop s)) (ex_loop s))"
  using assms
  by (auto simp: on_dbus_add_timeout_def construct_timeout_def set_timeout_data_def timeout_start_def timeout_of_def on_loop_def
      then_eff_def bind_eff_def return_eff_def Let_def on_dbus_timeout_toggled_def timer_done_def on_timeout_def)

section \<open>How often a watch waits\<close>

text \<open>
  \<open>out a n\<close> is the number of operations that the object \<open>n\<close> waits for. What is used of the libraries:
  starting an operation adds one, cancelling ends all of them, and neither touches the watches. While
  libdbus handles an event it may call the executor again, any number of times: it may enable and
  disable watches, the one that is handled included, and add and remove them.
\<close>

definition keeps_watches :: "('t, 'v, 'a) event_lib \<Rightarrow> 'a \<Rightarrow> 'a \<Rightarrow> bool" where
  "keeps_watches V a a' \<longleftrightarrow> (\<forall>w. el_watch_enabled V w a' = el_watch_enabled V w a
     \<and> el_watch_flags V w a' = el_watch_flags V w a)"

definition same_objects :: "('t, 'v, 'a) executor \<Rightarrow> ('t, 'v, 'a) executor \<Rightarrow> bool" where
  "same_objects s s' \<longleftrightarrow> ex_watches s' = ex_watches s \<and> ex_watch_data s' = ex_watch_data s \<and> ex_next s' = ex_next s"

text \<open>One call of libdbus: it adds a watch, enables or disables it, removes it and frees its data; or something
  else changes. \<open>a'\<close> is the state in which the executor is called. The set has the object whose watch is toggled.\<close>

inductive watch_call ::
  "('t, 'v, 'a) event_lib \<Rightarrow> ('a \<Rightarrow> nat \<Rightarrow> nat) \<Rightarrow> nat set \<Rightarrow> ('t, 'v, 'a) executor \<Rightarrow> ('t, 'v, 'a) executor \<Rightarrow> bool"
  for V out where
  call_add: "ex_watch_data s w = None \<Longrightarrow> on_dbus_add_watch V w s = (Inr True, s') \<Longrightarrow> watch_call V out {} s s'"
| call_toggle: "el_watch_enabled V w a' = (\<not> el_watch_enabled V w (ex_loop s))
    \<Longrightarrow> (\<And>w'. w' \<noteq> w \<Longrightarrow> el_watch_enabled V w' a' = el_watch_enabled V w' (ex_loop s))
    \<Longrightarrow> (\<And>w'. el_watch_flags V w' a' = el_watch_flags V w' (ex_loop s))
    \<Longrightarrow> out a' = out (ex_loop s)
    \<Longrightarrow> on_dbus_watch_toggled V w (s\<lparr>ex_loop := a'\<rparr>) = (Inr (), s')
    \<Longrightarrow> watch_call V out (set_option (ex_watch_data s w)) s s'"
| call_remove: "then_eff (on_dbus_remove_watch V w) (set_watch_data V w None) s = (Inr (), s')
    \<Longrightarrow> watch_call V out {} s s'"
| call_other: "out a' = out (ex_loop s) \<Longrightarrow> keeps_watches V (ex_loop s) a'
    \<Longrightarrow> watch_call V out {} s (s\<lparr>ex_loop := a'\<rparr>)"

inductive watch_calls ::
  "('t, 'v, 'a) event_lib \<Rightarrow> ('a \<Rightarrow> nat \<Rightarrow> nat) \<Rightarrow> nat set \<Rightarrow> ('t, 'v, 'a) executor \<Rightarrow> ('t, 'v, 'a) executor \<Rightarrow> bool"
  for V out where
  calls_none: "watch_calls V out {} s s"
| calls_more: "watch_calls V out T s s1 \<Longrightarrow> watch_call V out T' s1 s2 \<Longrightarrow> watch_calls V out (T \<union> T') s s2"

definition counts_operations :: "('t, 'v, 'a) event_lib \<Rightarrow> ('a \<Rightarrow> nat \<Rightarrow> nat) \<Rightarrow> bool" where
  "counts_operations V out \<longleftrightarrow>
     (\<forall>n a. out (el_read V n a) = (out a)(n := Suc (out a n)) \<and> keeps_watches V a (el_read V n a))
     \<and> (\<forall>n a. out (el_write V n a) = (out a)(n := Suc (out a n)) \<and> keeps_watches V a (el_write V n a))
     \<and> (\<forall>n a. out (snd (el_cancel V n a)) = (out a)(n := 0) \<and> keeps_watches V a (snd (el_cancel V n a)))
     \<and> (\<forall>n a. out (el_release V n a) = out a \<and> keeps_watches V a (el_release V n a))
     \<and> (\<forall>n fd a. out (snd (el_assign V n fd a)) = out a \<and> keeps_watches V a (snd (el_assign V n fd a)))
     \<and> (\<forall>w event s. \<exists>T. watch_calls V out T s (snd (el_watch_handle V w event s)))"

text \<open>What boost calls when an operation ends.\<close>

definition operation_done ::
  "('t, 'v, 'a) event_lib \<Rightarrow> bool \<Rightarrow> nat \<Rightarrow> error_code \<Rightarrow> (('t, 'v, 'a) executor, unit) eff" where
  "operation_done V reading n ec = (if reading then read_done V n ec else write_done V n ec)"

definition event_of :: "bool \<Rightarrow> 32 word" where
  "event_of reading = (if reading then readable_event else writeable_event)"

text \<open>
  What can happen to watches. Libdbus calls; an operation ends well, with the calls that libdbus makes while
  it handles the event; an operation that was cancelled had ended before, so that its event is
  handled late; an operation ends with an error. \<open>S\<close> are the objects that were toggled while they were handled, or
  handled late; \<open>X\<close> are those of which an operation failed.
\<close>

inductive watch_reachable ::
  "('t, 'v, 'a) event_lib \<Rightarrow> ('a \<Rightarrow> nat \<Rightarrow> nat) \<Rightarrow> nat set \<Rightarrow> nat set \<Rightarrow> ('t, 'v, 'a) executor \<Rightarrow> bool" for V out where
  reach_start: "out a = (\<lambda>n. 0) \<Longrightarrow> watch_reachable V out {} {} (new_executor a)"
| reach_call: "watch_reachable V out S X s \<Longrightarrow> watch_call V out T s s' \<Longrightarrow> watch_reachable V out S X s'"
| reach_done: "watch_reachable V out S X s \<Longrightarrow> ex_watches s n = Some w
    \<Longrightarrow> out (ex_loop s) n > 0 \<Longrightarrow> out a' = (out (ex_loop s))(n := out (ex_loop s) n - 1)
    \<Longrightarrow> keeps_watches V (ex_loop s) a'
    \<Longrightarrow> watch_calls V out T (s\<lparr>ex_loop := a'\<rparr>) (snd (el_watch_handle V w (event_of reading) (s\<lparr>ex_loop := a'\<rparr>)))
    \<Longrightarrow> operation_done V reading n Success (s\<lparr>ex_loop := a'\<rparr>) = (Inr (), s')
    \<Longrightarrow> watch_reachable V out (if n \<in> T then insert n S else S) X s'"
| reach_late: "watch_reachable V out S X s \<Longrightarrow> ex_watches s n = Some w
    \<Longrightarrow> watch_calls V out T s (snd (el_watch_handle V w (event_of reading) s))
    \<Longrightarrow> operation_done V reading n Success s = (Inr (), s') \<Longrightarrow> watch_reachable V out (insert n S) X s'"
| reach_failed: "watch_reachable V out S X s \<Longrightarrow> ex_watches s n = Some w
    \<Longrightarrow> out (ex_loop s) n > 0 \<Longrightarrow> out a' = (out (ex_loop s))(n := out (ex_loop s) n - 1)
    \<Longrightarrow> keeps_watches V (ex_loop s) a'
    \<Longrightarrow> watch_calls V out T (s\<lparr>ex_loop := a'\<rparr>) (snd (el_watch_handle V w error_event (s\<lparr>ex_loop := a'\<rparr>)))
    \<Longrightarrow> operation_done V reading n Other_error (s\<lparr>ex_loop := a'\<rparr>) = (Inr (), s')
    \<Longrightarrow> watch_reachable V out S (insert n X) s'"

definition one_direction :: "('t, 'v, 'a) event_lib \<Rightarrow> 'v \<Rightarrow> 'a \<Rightarrow> bool" where
  "one_direction V w a \<longleftrightarrow> monitors_readable V w a \<noteq> monitors_writable V w a"

text \<open>How often an object may wait: once if its watch is enabled, else not at all; with a weaker claim, at least
  once if it is enabled.\<close>

definition waits_as :: "bool \<Rightarrow> bool \<Rightarrow> nat \<Rightarrow> bool" where
  "waits_as weak enabled k \<longleftrightarrow> (if weak then enabled \<longrightarrow> 1 \<le> k else k = (if enabled then 1 else 0))"

definition watch_inv ::
  "('t, 'v, 'a) event_lib \<Rightarrow> ('a \<Rightarrow> nat \<Rightarrow> nat) \<Rightarrow> nat set \<Rightarrow> nat set \<Rightarrow> ('t, 'v, 'a) executor \<Rightarrow> bool" where
  "watch_inv V out S X s \<longleftrightarrow>
     (\<forall>n w. ex_watches s n = Some w \<longleftrightarrow> ex_watch_data s w = Some n)
     \<and> (\<forall>n w. ex_watches s n = Some w \<longrightarrow> n < ex_next s)
     \<and> (\<forall>n. ex_watches s n = None \<longrightarrow> out (ex_loop s) n = 0)
     \<and> (\<forall>n w. ex_watches s n = Some w \<and> one_direction V w (ex_loop s) \<and> n \<notin> X
          \<longrightarrow> waits_as (n \<in> S) (el_watch_enabled V w (ex_loop s)) (out (ex_loop s) n))"

lemma keeps_watches_refl [simp]: "keeps_watches V a a"
  by (simp add: keeps_watches_def)

lemma keeps_watches_trans: "keeps_watches V a b \<Longrightarrow> keeps_watches V b c \<Longrightarrow> keeps_watches V a c"
  by (simp add: keeps_watches_def)

lemma keeps_watches_monitors:
  assumes "keeps_watches V a a'"
  shows "monitors_readable V w a' = monitors_readable V w a" "monitors_writable V w a' = monitors_writable V w a"
    "one_direction V w a' = one_direction V w a" "el_watch_enabled V w a' = el_watch_enabled V w a"
  using assms by (simp_all add: keeps_watches_def monitors_readable_def monitors_writable_def one_direction_def)

text \<open>\<open>restart\<close> adds one operation for each direction.\<close>

definition directions :: "('t, 'v, 'a) event_lib \<Rightarrow> 'v \<Rightarrow> 'a \<Rightarrow> nat" where
  "directions V w a = (if monitors_readable V w a then 1 else 0) + (if monitors_writable V w a then 1 else 0)"

lemma one_direction_directions: "one_direction V w a \<Longrightarrow> directions V w a = 1"
  by (auto simp: one_direction_def directions_def)

lemma watch_restart_run:
  assumes "counts_operations V out" and "ex_watches s n = Some w"
  obtains s' where "watch_restart V n s = (Inr (), s')" and "same_objects s s'"
    and "out (ex_loop s') = (out (ex_loop s))(n := out (ex_loop s) n + directions V w (ex_loop s))"
    and "keeps_watches V (ex_loop s) (ex_loop s')"
proof -
  let ?a1 = "if monitors_readable V w (ex_loop s) then el_read V n (ex_loop s) else ex_loop s"
  let ?a2 = "if monitors_writable V w ?a1 then el_write V n ?a1 else ?a1"
  have k1: "keeps_watches V (ex_loop s) ?a1" and k2: "keeps_watches V ?a1 ?a2"
    using assms(1) by (simp_all add: counts_operations_def)
  have "watch_restart V n s = (Inr (), s\<lparr>ex_loop := ?a2\<rparr>)"
    using assms(2) by (simp add: watch_restart_def watch_of_def then_eff_def bind_eff_def on_loop_def return_eff_def)
  moreover have "out ?a2 = (out (ex_loop s))(n := out (ex_loop s) n + directions V w (ex_loop s))"
    using assms(1) keeps_watches_monitors(2) [OF k1, of w]
    by (auto simp: counts_operations_def directions_def)
  ultimately show thesis
    using that [of "s\<lparr>ex_loop := ?a2\<rparr>"] keeps_watches_trans [OF k1 k2] by (simp add: same_objects_def)
qed

lemma watch_cancel_run:
  assumes "counts_operations V out" and "ex_watches s n = Some w"
  obtains s' where "watch_cancel V n s = (Inr (), s')" and "same_objects s s'"
    and "out (ex_loop s') = (out (ex_loop s))(n := 0)" and "keeps_watches V (ex_loop s) (ex_loop s')"
proof -
  obtain failed a where a: "el_cancel V n (ex_loop s) = (failed, a)" by fastforce
  then have "watch_cancel V n s = (Inr (), s\<lparr>ex_loop := a\<rparr>)"
    using assms(2) by (simp add: watch_cancel_def watch_of_def catch_eff_def on_loop_throwing_def return_eff_def
        split: option.split)
  moreover have "out a = (out (ex_loop s))(n := 0)" and "keeps_watches V (ex_loop s) a"
    using assms(1) a unfolding counts_operations_def by (metis snd_conv)+
  ultimately show thesis
    using that [of "s\<lparr>ex_loop := a\<rparr>"] by (simp add: same_objects_def)
qed

lemma watch_invD:
  assumes "watch_inv V out S X s" and "ex_watches s n = Some w" and "one_direction V w (ex_loop s)" and "n \<notin> X"
  shows "waits_as (n \<in> S) (el_watch_enabled V w (ex_loop s)) (out (ex_loop s) n)"
  using assms unfolding watch_inv_def by blast

lemma watch_inv_except: "watch_inv V out S X s \<Longrightarrow> watch_inv V out S (insert n X) s"
  unfolding watch_inv_def by blast

text \<open>A change that concerns one object only, of which nothing is claimed before.\<close>

lemma watch_inv_update:
  assumes "watch_inv V out S (insert n X) s" and "same_objects s s'" and "ex_watches s n = Some w"
    and "\<And>m. m \<noteq> n \<Longrightarrow> out (ex_loop s') m = out (ex_loop s) m \<and> (m \<in> S' \<longleftrightarrow> m \<in> S)"
    and "\<And>w'. w' \<noteq> w \<Longrightarrow> el_watch_enabled V w' (ex_loop s') = el_watch_enabled V w' (ex_loop s)"
    and "\<And>w'. w' \<noteq> w \<Longrightarrow> one_direction V w' (ex_loop s') = one_direction V w' (ex_loop s)"
    and "one_direction V w (ex_loop s') \<Longrightarrow> n \<notin> X
      \<Longrightarrow> waits_as (n \<in> S') (el_watch_enabled V w (ex_loop s')) (out (ex_loop s') n)"
  shows "watch_inv V out S' X s'"
proof -
  have other: "w' \<noteq> w" if "ex_watches s m = Some w'" "m \<noteq> n" for m w'
    using assms(1,3) that unfolding watch_inv_def by (metis option.inject)
  have "waits_as (m \<in> S') (el_watch_enabled V w' (ex_loop s')) (out (ex_loop s') m)"
    if m: "ex_watches s m = Some w'" "one_direction V w' (ex_loop s')" "m \<notin> X" for m w'
  proof (cases "m = n")
    case True
    then show ?thesis using m assms(3,7) by simp
  next
    case False
    then have "w' \<noteq> w" using other m(1) by blast
    moreover have "waits_as (m \<in> S) (el_watch_enabled V w' (ex_loop s)) (out (ex_loop s) m)"
      using watch_invD [OF assms(1) m(1)] assms(6) m(2,3) \<open>w' \<noteq> w\<close> False by simp
    ultimately show ?thesis using assms(4,5) False by simp
  qed
  moreover have "out (ex_loop s') m = 0" if "ex_watches s m = None" for m
    using assms(1,3,4) that unfolding watch_inv_def by (metis option.distinct(1))
  ultimately show ?thesis
    using assms(1,2) unfolding watch_inv_def same_objects_def by simp
qed

text \<open>What each callback of libdbus does to the tables and the operations.\<close>

lemma add_watch_run:
  assumes "counts_operations V out" and "ex_watch_data s w = None" and "el_watch_enabled V w (ex_loop s)"
    and "on_dbus_add_watch V w s = (Inr True, s')"
  shows "ex_watches s' = (ex_watches s)(ex_next s \<mapsto> w) \<and> ex_watch_data s' = (ex_watch_data s)(w \<mapsto> ex_next s)
     \<and> ex_next s' = Suc (ex_next s) \<and> keeps_watches V (ex_loop s) (ex_loop s')
     \<and> out (ex_loop s') = (out (ex_loop s))(ex_next s := out (ex_loop s) (ex_next s) + directions V w (ex_loop s))"
proof -
  let ?n = "ex_next s"
  obtain failed a where a: "el_assign V ?n (el_watch_fd V w (ex_loop s)) (ex_loop s) = (failed, a)" by fastforce
  have oa: "out a = out (ex_loop s)" and ka: "keeps_watches V (ex_loop s) a"
    using assms(1) a unfolding counts_operations_def by (metis snd_conv)+
  let ?s1 = "s\<lparr>ex_watches := (ex_watches s)(?n \<mapsto> w), ex_next := Suc ?n,
      ex_watch_data := (ex_watch_data s)(w \<mapsto> ?n), ex_loop := a\<rparr>"
  obtain s2 where s2: "watch_restart V ?n ?s1 = (Inr (), s2)" "same_objects ?s1 s2"
    "out (ex_loop s2) = (out a)(?n := out a ?n + directions V w a)" "keeps_watches V a (ex_loop s2)"
    using watch_restart_run [OF assms(1), of ?s1 ?n w] by auto
  have "s' = s2"
    using assms(2-4) a s2(1)
    by (simp add: on_dbus_add_watch_def construct_watch_def set_watch_data_def watch_start_def watch_of_def
        on_loop_throwing_def then_eff_def bind_eff_def return_eff_def Let_def split: option.splits)
  then show ?thesis
    using s2 oa keeps_watches_trans [OF ka s2(4)] keeps_watches_monitors [OF ka]
    by (simp add: same_objects_def directions_def)
qed

lemma remove_watch_run:
  assumes "counts_operations V out" and "ex_watch_data s w = Some n" and "ex_watches s n = Some w"
    and "then_eff (on_dbus_remove_watch V w) (set_watch_data V w None) s = (Inr (), s')"
  shows "ex_watches s' = (ex_watches s)(n := None) \<and> ex_watch_data s' = (ex_watch_data s)(w := None)
     \<and> ex_next s' = ex_next s \<and> keeps_watches V (ex_loop s) (ex_loop s') \<and> out (ex_loop s') = (out (ex_loop s))(n := 0)"
proof -
  obtain s1 where s1: "watch_cancel V n s = (Inr (), s1)" "same_objects s s1"
    "out (ex_loop s1) = (out (ex_loop s))(n := 0)" "keeps_watches V (ex_loop s) (ex_loop s1)"
    using watch_cancel_run [OF assms(1,3)] by blast
  obtain failed a where a: "el_cancel V n (ex_loop s1) = (failed, a)" by fastforce
  have oa: "out a = (out (ex_loop s1))(n := 0)" and ka: "keeps_watches V (ex_loop s1) a"
    using assms(1) a unfolding counts_operations_def by (metis snd_conv)+
  let ?a = "el_release V n a"
  have or: "out ?a = out a" and kr: "keeps_watches V a ?a"
    using assms(1) unfolding counts_operations_def by blast+
  have data: "ex_watch_data s1 w = Some n" using assms(2) s1(2) by (simp add: same_objects_def)
  have "s' = s1\<lparr>ex_loop := ?a, ex_watches := (ex_watches s)(n := None), ex_watch_data := (ex_watch_data s)(w := None)\<rparr>"
    using assms(2,4) s1(1,2) a data
    by (auto simp: on_dbus_remove_watch_def set_watch_data_def watch_destroy_def catch_eff_def then_eff_def
        bind_eff_def return_eff_def throw_eff_def on_loop_throwing_def on_loop_def same_objects_def
        split: option.splits)
  then show ?thesis
    using s1(2,3) oa or keeps_watches_trans [OF s1(4) keeps_watches_trans [OF ka kr]]
    by (simp add: same_objects_def)
qed

lemma toggle_watch_run:
  assumes "counts_operations V out" and "ex_watch_data s w = Some n" and "ex_watches s n = Some w"
    and "on_dbus_watch_toggled V w s = (Inr (), s')"
  shows "same_objects s s' \<and> keeps_watches V (ex_loop s) (ex_loop s')
     \<and> out (ex_loop s') = (out (ex_loop s))
         (n := if el_watch_enabled V w (ex_loop s) then out (ex_loop s) n + directions V w (ex_loop s) else 0)"
proof (cases "el_watch_enabled V w (ex_loop s)")
  case True
  then show ?thesis
    using watch_restart_run [OF assms(1,3)] assms(2,4) by (simp add: on_dbus_watch_toggled_def) (metis prod.inject)
next
  case False
  then show ?thesis
    using watch_cancel_run [OF assms(1,3)] assms(2,4) by (simp add: on_dbus_watch_toggled_def) (metis prod.inject)
qed

text \<open>No callback breaks the invariant.\<close>

lemma inv_add:
  assumes "counts_operations V out" and "watch_inv V out S X s" and "ex_watch_data s w = None"
    and "on_dbus_add_watch V w s = (Inr True, s')"
  shows "watch_inv V out S X s'"
proof (cases "el_watch_enabled V w (ex_loop s)")
  case False
  then show ?thesis using assms(2,4) by (simp add: on_dbus_add_watch_def)
next
  case True
  let ?n = "ex_next s"
  note run = add_watch_run [OF assms(1,3) True assms(4)]
  note k = keeps_watches_monitors [OF conjunct1 [OF conjunct2 [OF conjunct2 [OF conjunct2 [OF run]]]]]
  have fresh: "ex_watches s ?n = None" "out (ex_loop s) ?n = 0"
    using assms(2) unfolding watch_inv_def by (metis less_irrefl option.exhaust)+
  have w: "ex_watches s m \<noteq> Some w" for m using assms(2,3) unfolding watch_inv_def by (metis option.distinct(1))
  have "waits_as (m \<in> S) (el_watch_enabled V w' (ex_loop s')) (out (ex_loop s') m)"
    if "ex_watches s' m = Some w'" "one_direction V w' (ex_loop s')" "m \<notin> X" for m w'
  proof (cases "m = ?n")
    case eq: True
    then show ?thesis using that True run fresh k by (simp add: one_direction_directions waits_as_def)
  next
    case False
    then show ?thesis using that run k watch_invD [OF assms(2)] by simp
  qed
  moreover have "out (ex_loop s') m = 0" if "ex_watches s' m = None" for m
    using assms(2) that run unfolding watch_inv_def by (auto split: if_splits)
  moreover have "ex_watches s' m = Some w' \<longleftrightarrow> ex_watch_data s' w' = Some m" for m w'
    using assms(2,3) run fresh(1) w unfolding watch_inv_def by auto
  moreover have "m < ex_next s'" if "ex_watches s' m = Some w'" for m w'
    using assms(2) that run unfolding watch_inv_def by (auto split: if_splits intro: less_SucI)
  ultimately show ?thesis unfolding watch_inv_def by blast
qed

lemma inv_toggle:
  assumes "counts_operations V out" and "watch_inv V out S X s"
    and "el_watch_enabled V w a' = (\<not> el_watch_enabled V w (ex_loop s))"
    and "\<And>w'. w' \<noteq> w \<Longrightarrow> el_watch_enabled V w' a' = el_watch_enabled V w' (ex_loop s)"
    and "\<And>w'. el_watch_flags V w' a' = el_watch_flags V w' (ex_loop s)"
    and "out a' = out (ex_loop s)"
    and "on_dbus_watch_toggled V w (s\<lparr>ex_loop := a'\<rparr>) = (Inr (), s')"
  shows "watch_inv V out S X s'"
proof -
  let ?s = "s\<lparr>ex_loop := a'\<rparr>"
  have dir: "one_direction V w' a' = one_direction V w' (ex_loop s)" for w'
    using assms(5) by (simp add: one_direction_def monitors_readable_def monitors_writable_def)
  show ?thesis
  proof (cases "ex_watch_data s w")
    case None
    then have s': "s' = ?s" using assms(7) by (simp add: on_dbus_watch_toggled_def)
    have "w' \<noteq> w" if "ex_watches s m = Some w'" for m w'
      using None assms(2) that unfolding watch_inv_def by (metis option.distinct(1))
    then show ?thesis
      using assms(2,4,6) dir unfolding s' watch_inv_def by auto
  next
    case (Some n)
    then have n: "ex_watches s n = Some w" using assms(2) by (simp add: watch_inv_def)
    have run: "same_objects s s'" "keeps_watches V a' (ex_loop s')"
      "out (ex_loop s') = (out a')(n := if el_watch_enabled V w a' then out a' n + directions V w a' else 0)"
      using toggle_watch_run [OF assms(1) _ _ assms(7), of n] Some n by (simp_all add: same_objects_def)
    show ?thesis
    proof (rule watch_inv_update [OF watch_inv_except [OF assms(2)] run(1) n])
      assume "one_direction V w (ex_loop s')" and x: "n \<notin> X"
      then have d: "one_direction V w (ex_loop s)" "directions V w a' = 1"
        using keeps_watches_monitors(3) [OF run(2)] dir one_direction_directions [of V w a'] by simp_all
      show "waits_as (n \<in> S) (el_watch_enabled V w (ex_loop s')) (out (ex_loop s') n)"
        using watch_invD [OF assms(2) n d(1) x] run(3) assms(3,6) d(2) keeps_watches_monitors(4) [OF run(2)]
        by (auto simp: waits_as_def split: if_splits)
    qed (use run assms(3,4,6) dir keeps_watches_monitors [OF run(2)] in simp_all)
  qed
qed

lemma inv_remove:
  assumes "counts_operations V out" and "watch_inv V out S X s"
    and "then_eff (on_dbus_remove_watch V w) (set_watch_data V w None) s = (Inr (), s')"
  shows "watch_inv V out S X s'"
proof (cases "ex_watch_data s w")
  case None
  then have "s' = s" using assms(3)
    by (simp add: on_dbus_remove_watch_def set_watch_data_def then_eff_def bind_eff_def return_eff_def fun_upd_idem)
  then show ?thesis using assms(2) by simp
next
  case (Some n)
  then have n: "ex_watches s n = Some w" using assms(2) by (simp add: watch_inv_def)
  note run = remove_watch_run [OF assms(1) Some n assms(3)]
  note k = keeps_watches_monitors [OF conjunct1 [OF conjunct2 [OF conjunct2 [OF conjunct2 [OF run]]]]]
  have only: "m = n" if "ex_watches s m = Some w" for m
    using assms(2) Some that unfolding watch_inv_def by (metis option.inject)
  have alone: "w' = w" if "ex_watch_data s w' = Some n" for w'
    using assms(2) n that unfolding watch_inv_def by (metis option.inject)
  have "ex_watches s' m = Some w' \<longleftrightarrow> ex_watch_data s' w' = Some m" for m w'
    using assms(2) only alone run unfolding watch_inv_def by auto
  moreover have "m < ex_next s'" if "ex_watches s' m = Some w'" for m w'
    using assms(2) that run unfolding watch_inv_def by (auto split: if_splits)
  moreover have "out (ex_loop s') m = 0" if "ex_watches s' m = None" for m
    using assms(2) that run unfolding watch_inv_def by (simp split: if_splits)
  moreover have "waits_as (m \<in> S) (el_watch_enabled V w' (ex_loop s')) (out (ex_loop s') m)"
    if "ex_watches s' m = Some w'" "one_direction V w' (ex_loop s')" "m \<notin> X" for m w'
    using that run k watch_invD [OF assms(2)] by (simp split: if_splits)
  ultimately show ?thesis unfolding watch_inv_def by blast
qed

text \<open>What calls of libdbus leave as it was: an object that is there afterwards and is not new was there before, and
  waits as before unless it was toggled.\<close>

definition calls_frame ::
  "('t, 'v, 'a) event_lib \<Rightarrow> ('a \<Rightarrow> nat \<Rightarrow> nat) \<Rightarrow> nat set \<Rightarrow> ('t, 'v, 'a) executor \<Rightarrow> ('t, 'v, 'a) executor \<Rightarrow> bool" where
  "calls_frame V out T s s' \<longleftrightarrow> ex_next s \<le> ex_next s'
     \<and> (\<forall>w. el_watch_flags V w (ex_loop s') = el_watch_flags V w (ex_loop s))
     \<and> (\<forall>n w. ex_watches s' n = Some w \<and> n < ex_next s \<longrightarrow> ex_watches s n = Some w
          \<and> (n \<notin> T \<longrightarrow> out (ex_loop s') n = out (ex_loop s) n
               \<and> el_watch_enabled V w (ex_loop s') = el_watch_enabled V w (ex_loop s)))"

lemma calls_frame_trans:
  assumes "calls_frame V out T s s1" and "calls_frame V out T' s1 s2"
  shows "calls_frame V out (T \<union> T') s s2"
  unfolding calls_frame_def
proof (intro conjI allI impI)
  show "ex_next s \<le> ex_next s2" using assms by (simp add: calls_frame_def)
  show "el_watch_flags V w (ex_loop s2) = el_watch_flags V w (ex_loop s)" for w using assms by (simp add: calls_frame_def)
  fix n w
  assume n: "ex_watches s2 n = Some w \<and> n < ex_next s"
  have next1: "n < ex_next s1" using assms(1) n unfolding calls_frame_def by (blast intro: less_le_trans)
  have n1: "ex_watches s1 n = Some w" using assms(2) n next1 unfolding calls_frame_def by blast
  show "ex_watches s n = Some w" using assms(1) n n1 unfolding calls_frame_def by blast
  assume t: "n \<notin> T \<union> T'"
  have 1: "out (ex_loop s1) n = out (ex_loop s) n \<and> el_watch_enabled V w (ex_loop s1) = el_watch_enabled V w (ex_loop s)"
    using assms(1) n n1 t unfolding calls_frame_def by blast
  have 2: "out (ex_loop s2) n = out (ex_loop s1) n \<and> el_watch_enabled V w (ex_loop s2) = el_watch_enabled V w (ex_loop s1)"
    using assms(2) n next1 t unfolding calls_frame_def by blast
  show "out (ex_loop s2) n = out (ex_loop s) n" using 1 2 by simp
  show "el_watch_enabled V w (ex_loop s2) = el_watch_enabled V w (ex_loop s)" using 1 2 by simp
qed

lemma frame_toggle:
  assumes "counts_operations V out" and "watch_inv V out S X s"
    and "\<And>w'. w' \<noteq> w \<Longrightarrow> el_watch_enabled V w' a' = el_watch_enabled V w' (ex_loop s)"
    and "\<And>w'. el_watch_flags V w' a' = el_watch_flags V w' (ex_loop s)"
    and "out a' = out (ex_loop s)"
    and "on_dbus_watch_toggled V w (s\<lparr>ex_loop := a'\<rparr>) = (Inr (), s')"
  shows "calls_frame V out (set_option (ex_watch_data s w)) s s'"
proof (cases "ex_watch_data s w")
  case None
  then have s': "s' = s\<lparr>ex_loop := a'\<rparr>" using assms(6) by (simp add: on_dbus_watch_toggled_def)
  have "w' \<noteq> w" if "ex_watches s m = Some w'" for m w'
    using None assms(2) that unfolding watch_inv_def by (metis option.distinct(1))
  then show ?thesis using assms(3-5) s' by (auto simp: calls_frame_def)
next
  case (Some n)
  then have n: "ex_watches s n = Some w" using assms(2) by (simp add: watch_inv_def)
  have only: "w' \<noteq> w" if "ex_watches s m = Some w'" "m \<noteq> n" for m w'
    using assms(2) n that unfolding watch_inv_def by (metis option.inject)
  have run: "same_objects s s'" "keeps_watches V a' (ex_loop s')"
      "\<And>m. m \<noteq> n \<Longrightarrow> out (ex_loop s') m = out a' m"
    using toggle_watch_run [OF assms(1) _ _ assms(6), of n] Some n by (simp_all add: same_objects_def)
  show ?thesis
    using run assms(3-5) only Some by (auto simp: calls_frame_def same_objects_def keeps_watches_def)
qed

lemma call_effect:
  assumes "counts_operations V out" and "watch_call V out T s s'" and "watch_inv V out S X s"
  shows "watch_inv V out S X s' \<and> calls_frame V out T s s'"
  using assms(2)
proof cases
  case (call_add w)
  have "calls_frame V out {} s s'"
  proof (cases "el_watch_enabled V w (ex_loop s)")
    case True
    show ?thesis
      using add_watch_run [OF assms(1) call_add(2) True call_add(3)]
      by (auto simp: calls_frame_def keeps_watches_def split: if_splits)
  next
    case False
    then show ?thesis using call_add(3) by (simp add: on_dbus_add_watch_def calls_frame_def)
  qed
  then show ?thesis using inv_add [OF assms(1,3) call_add(2,3)] call_add(1) by simp
next
  case (call_toggle w a')
  show ?thesis
    using inv_toggle [OF assms(1,3) call_toggle(2-6)] frame_toggle [OF assms(1,3) call_toggle(3-6)] call_toggle(1)
    by simp
next
  case (call_remove w)
  have "calls_frame V out {} s s'"
  proof (cases "ex_watch_data s w")
    case None
    then have "s' = s" using call_remove(2)
      by (simp add: on_dbus_remove_watch_def set_watch_data_def then_eff_def bind_eff_def return_eff_def fun_upd_idem)
    then show ?thesis by (simp add: calls_frame_def)
  next
    case (Some n)
    then have "ex_watches s n = Some w" using assms(3) by (simp add: watch_inv_def)
    then show ?thesis
      using remove_watch_run [OF assms(1) Some _ call_remove(2)]
      by (auto simp: calls_frame_def keeps_watches_def split: if_splits)
  qed
  then show ?thesis using inv_remove [OF assms(1,3) call_remove(2)] call_remove(1) by simp
next
  case (call_other a')
  have "watch_inv V out S X (s\<lparr>ex_loop := a'\<rparr>)"
    using assms(3) call_other(3) keeps_watches_monitors [OF call_other(4)] unfolding watch_inv_def by simp
  then show ?thesis using call_other by (simp add: calls_frame_def keeps_watches_def)
qed

lemma calls_effect:
  assumes "counts_operations V out"
  shows "watch_calls V out T s s' \<Longrightarrow> watch_inv V out S X s \<Longrightarrow> watch_inv V out S X s' \<and> calls_frame V out T s s'"
proof (induction rule: watch_calls.induct)
  case (calls_none s)
  then show ?case by (simp add: calls_frame_def)
next
  case (calls_more T s s1 T' s2)
  then show ?case using call_effect [OF assms calls_more.hyps(2)] by (blast intro: calls_frame_trans)
qed

text \<open>An event that ended well: libdbus handles it, and the watch waits again.\<close>

lemma event_run:
  assumes "counts_operations V out" and "watch_inv V out S (insert n X) s" and "ex_watches s n = Some w"
    and "watch_calls V out T s (snd (el_watch_handle V w (event_of reading) s))"
    and "operation_done V reading n Success s = (Inr (), s')"
  obtains s1 where "watch_inv V out S (insert n X) s1" and "calls_frame V out T s s1" and "ex_watches s1 n = Some w"
    and "same_objects s1 s'" and "keeps_watches V (ex_loop s1) (ex_loop s')"
    and "out (ex_loop s') = (out (ex_loop s1))(n := out (ex_loop s1) n + directions V w (ex_loop s1))"
proof -
  obtain handled s1 where h: "el_watch_handle V w (event_of reading) s = (handled, s1)" by fastforce
  have 1: "watch_inv V out S (insert n X) s1" "calls_frame V out T s s1"
    using calls_effect [OF assms(1,4,2)] h by simp_all
  have "on_stream_descriptor_event V n (event_of reading) Success s = (Inr (), s')"
    using assms(3,5) by (auto simp: operation_done_def event_of_def read_done_def write_done_def split: if_splits)
  then have r: "watch_restart V n s1 = (Inr (), s')"
    using assms(3) h
    by (auto simp: on_stream_descriptor_event_def watch_of_def bind_eff_def throw_eff_def split: sum.splits if_splits)
  then obtain w1 where w1: "ex_watches s1 n = Some w1"
    by (auto simp: watch_restart_def watch_of_def split: option.splits)
  moreover have "n < ex_next s" using assms(2,3) unfolding watch_inv_def by blast
  ultimately have n1: "ex_watches s1 n = Some w" using 1(2) assms(3) unfolding calls_frame_def by fastforce
  show thesis
    by (rule watch_restart_run [OF assms(1) n1]) (use that 1 n1 r in simp)
qed

lemma calls_frame_direction:
  "calls_frame V out T s s' \<Longrightarrow> one_direction V w (ex_loop s') = one_direction V w (ex_loop s)"
  by (simp add: calls_frame_def one_direction_def monitors_readable_def monitors_writable_def)

lemma inv_event:
  assumes "counts_operations V out" and "watch_inv V out S (insert n X) s" and "ex_watches s n = Some w"
    and "watch_calls V out T s (snd (el_watch_handle V w (event_of reading) s))"
    and "operation_done V reading n Success s = (Inr (), s')"
    and "\<And>m. m \<noteq> n \<Longrightarrow> m \<in> S' \<longleftrightarrow> m \<in> S"
    and "n \<notin> X \<Longrightarrow> n \<notin> S' \<Longrightarrow> one_direction V w (ex_loop s) \<Longrightarrow> n \<notin> T \<and> out (ex_loop s) n = 0
      \<and> el_watch_enabled V w (ex_loop s)"
  shows "watch_inv V out S' X s'"
proof -
  obtain s1 where i: "watch_inv V out S (insert n X) s1" and f: "calls_frame V out T s s1"
    and n1: "ex_watches s1 n = Some w" and o: "same_objects s1 s'" and k: "keeps_watches V (ex_loop s1) (ex_loop s')"
    and u: "out (ex_loop s') = (out (ex_loop s1))(n := out (ex_loop s1) n + directions V w (ex_loop s1))"
    by (rule event_run [OF assms(1-5)])
  have "n < ex_next s" using assms(2,3) unfolding watch_inv_def by blast
  then have same: "n \<notin> T \<Longrightarrow> out (ex_loop s1) n = out (ex_loop s) n
      \<and> el_watch_enabled V w (ex_loop s1) = el_watch_enabled V w (ex_loop s)"
    using f n1 unfolding calls_frame_def by blast
  show ?thesis
  proof (rule watch_inv_update [OF i o n1])
    assume "one_direction V w (ex_loop s')" and x: "n \<notin> X"
    then have d: "one_direction V w (ex_loop s)" "directions V w (ex_loop s1) = 1"
      using keeps_watches_monitors(3) [OF k] calls_frame_direction [OF f] one_direction_directions [of V w "ex_loop s1"]
      by simp_all
    show "waits_as (n \<in> S') (el_watch_enabled V w (ex_loop s')) (out (ex_loop s') n)"
      using assms(7) [OF x _ d(1)] same u d(2) keeps_watches_monitors(4) [OF k]
      by (cases "n \<in> S'") (simp_all add: waits_as_def)
  qed (use u assms(6) keeps_watches_monitors [OF k] in simp_all)
qed

text \<open>The object whose operation ended waits for one less.\<close>

lemma inv_ended:
  assumes "watch_inv V out S X s" and "ex_watches s n = Some w"
    and "out a' = (out (ex_loop s))(n := out (ex_loop s) n - 1)" and "keeps_watches V (ex_loop s) a'"
  shows "watch_inv V out S (insert n X) (s\<lparr>ex_loop := a'\<rparr>)"
proof (rule watch_inv_update [OF _ _ assms(2)])
  show "watch_inv V out S (insert n (insert n X)) s" using watch_inv_except [OF assms(1)] by simp
  show "same_objects s (s\<lparr>ex_loop := a'\<rparr>)" by (simp add: same_objects_def)
qed (use assms(3) keeps_watches_monitors [OF assms(4)] in simp_all)

lemma inv_done:
  assumes "counts_operations V out" and "watch_inv V out S X s" and "ex_watches s n = Some w"
    and "out (ex_loop s) n > 0" and "out a' = (out (ex_loop s))(n := out (ex_loop s) n - 1)"
    and "keeps_watches V (ex_loop s) a'"
    and "watch_calls V out T (s\<lparr>ex_loop := a'\<rparr>) (snd (el_watch_handle V w (event_of reading) (s\<lparr>ex_loop := a'\<rparr>)))"
    and "operation_done V reading n Success (s\<lparr>ex_loop := a'\<rparr>) = (Inr (), s')"
  shows "watch_inv V out (if n \<in> T then insert n S else S) X s'"
proof (rule inv_event [OF assms(1) inv_ended [OF assms(2,3,5,6)] _ assms(7,8)])
  show "ex_watches (s\<lparr>ex_loop := a'\<rparr>) n = Some w" using assms(3) by simp
  assume x: "n \<notin> X" and t: "n \<notin> (if n \<in> T then insert n S else S)" and d: "one_direction V w (ex_loop (s\<lparr>ex_loop := a'\<rparr>))"
  then have "one_direction V w (ex_loop s)" using keeps_watches_monitors(3) [OF assms(6)] by simp
  then show "n \<notin> T \<and> out (ex_loop (s\<lparr>ex_loop := a'\<rparr>)) n = 0 \<and> el_watch_enabled V w (ex_loop (s\<lparr>ex_loop := a'\<rparr>))"
    using watch_invD [OF assms(2,3) _ x] t assms(4,5) keeps_watches_monitors(4) [OF assms(6)]
    by (auto simp: waits_as_def split: if_splits)
qed auto

lemma inv_late:
  assumes "counts_operations V out" and "watch_inv V out S X s" and "ex_watches s n = Some w"
    and "watch_calls V out T s (snd (el_watch_handle V w (event_of reading) s))"
    and "operation_done V reading n Success s = (Inr (), s')"
  shows "watch_inv V out (insert n S) X s'"
  by (rule inv_event [OF assms(1) watch_inv_except [OF assms(2)] assms(3-5)]) auto

lemma inv_failed:
  assumes "counts_operations V out" and "watch_inv V out S X s" and "ex_watches s n = Some w"
    and "out a' = (out (ex_loop s))(n := out (ex_loop s) n - 1)" and "keeps_watches V (ex_loop s) a'"
    and "watch_calls V out T (s\<lparr>ex_loop := a'\<rparr>) (snd (el_watch_handle V w error_event (s\<lparr>ex_loop := a'\<rparr>)))"
    and "operation_done V reading n Other_error (s\<lparr>ex_loop := a'\<rparr>) = (Inr (), s')"
  shows "watch_inv V out S (insert n X) s'"
proof -
  have "s' = snd (el_watch_handle V w error_event (s\<lparr>ex_loop := a'\<rparr>))"
    using assms(3,7)
    by (auto simp: operation_done_def read_done_def write_done_def on_stream_descriptor_event_def watch_of_def
        then_eff_def bind_eff_def return_eff_def split: if_splits prod.splits sum.splits)
  then show ?thesis
    using calls_effect [OF assms(1,6) inv_ended [OF assms(2-5)]] by simp
qed

text \<open>A watch on both directions starts two operations for each one that ends, so they become more and
  more, even when libdbus does nothing while it handles the event.\<close>

lemma dual_watch_multiplies:
  assumes "counts_operations V out" and "ex_watches s n = Some w" and "directions V w (ex_loop s) = 2"
    and "out a' = (out (ex_loop s))(n := out (ex_loop s) n - 1)" and "out (ex_loop s) n > 0"
    and "keeps_watches V (ex_loop s) a'" and "el_watch_handle V w readable_event = return_eff True"
    and "read_done V n Success (s\<lparr>ex_loop := a'\<rparr>) = (Inr (), s')"
  shows "out (ex_loop s') n = Suc (out (ex_loop s) n)"
proof -
  have d: "directions V w a' = 2" using assms(3) keeps_watches_monitors [OF assms(6)] by (simp add: directions_def)
  have "watch_restart V n (s\<lparr>ex_loop := a'\<rparr>) = (Inr (), s')"
    using assms(2,7,8)
    by (simp add: read_done_def on_stream_descriptor_event_def watch_of_def bind_eff_def return_eff_def)
  moreover obtain s2 where "watch_restart V n (s\<lparr>ex_loop := a'\<rparr>) = (Inr (), s2)"
      and "out (ex_loop s2) = (out a')(n := out a' n + directions V w a')"
    by (rule watch_restart_run [OF assms(1), of "s\<lparr>ex_loop := a'\<rparr>" n w]) (use assms(2) in simp_all)
  ultimately have "out (ex_loop s') = (out a')(n := out a' n + directions V w a')" by simp
  then show ?thesis using assms(4,5) d by simp
qed

text \<open>A watch that libdbus disables while it handles its event waits for another one all the same.\<close>

lemma disabled_while_handled:
  assumes "counts_operations V out" and "ex_watches s n = Some w"
    and "el_watch_handle V w event s = (Inr True, s1)" and "ex_watches s1 n = Some w"
    and "\<not> el_watch_enabled V w (ex_loop s1)" and "one_direction V w (ex_loop s1)"
  obtains s' where "on_stream_descriptor_event V n event Success s = (Inr (), s')"
    and "\<not> el_watch_enabled V w (ex_loop s')" and "out (ex_loop s') n = Suc (out (ex_loop s1) n)"
proof (rule watch_restart_run [OF assms(1,4)])
  fix s'
  assume s': "watch_restart V n s1 = (Inr (), s')" "keeps_watches V (ex_loop s1) (ex_loop s')"
    "out (ex_loop s') = (out (ex_loop s1))(n := out (ex_loop s1) n + directions V w (ex_loop s1))"
  have "on_stream_descriptor_event V n event Success s = (Inr (), s')"
    using assms(2,3) s'(1) by (simp add: on_stream_descriptor_event_def watch_of_def bind_eff_def)
  then show thesis
    using that s'(2,3) assms(5) keeps_watches_monitors(4) [OF s'(2)] one_direction_directions [OF assms(6)] by simp
qed

text \<open>A watch that libdbus removes while it handles its event is asked for its flags after its end.\<close>

lemma removed_while_handled:
  assumes "ex_watches s n = Some w" and "el_watch_handle V w event s = (Inr True, s1)" and "ex_watches s1 n = None"
  shows "fst (on_stream_descriptor_event V n event Success s)
     = Inl (Undefined_behaviour ''watch used after its destruction'')"
  using assms by (simp add: on_stream_descriptor_event_def watch_of_def bind_eff_def watch_restart_def)

text \<open>A watch that was disabled when it was added has no object, so enabling it later starts nothing.\<close>

lemma watch_added_disabled_is_lost:
  assumes "ex_watch_data s w = None" and "\<not> el_watch_enabled V w (ex_loop s)"
  shows "then_eff (on_dbus_add_watch V w)
      (\<lambda>s. on_dbus_watch_toggled V w (s\<lparr>ex_loop := a'\<rparr>)) s = (Inr (), s\<lparr>ex_loop := a'\<rparr>)"
  using assms by (simp add: on_dbus_add_watch_def on_dbus_watch_toggled_def then_eff_def bind_eff_def)

lemma inv_reachable:
  assumes "counts_operations V out" and "watch_reachable V out S X s"
  shows "watch_inv V out S X s"
  using assms(2)
proof induction
  case (reach_start a)
  then show ?case by (simp add: watch_inv_def new_executor_def)
next
  case (reach_call S X s T s')
  then show ?case using call_effect [OF assms(1)] by blast
next
  case (reach_done S X s n w a' T reading s')
  show ?case by (rule inv_done [OF assms(1) reach_done.IH reach_done.hyps(2-)])
next
  case (reach_late S X s n w T reading s')
  show ?case by (rule inv_late [OF assms(1) reach_late.IH reach_late.hyps(2-)])
next
  case (reach_failed S X s n w a' T reading s')
  show ?case by (rule inv_failed [OF assms(1) reach_failed.IH reach_failed.hyps(2,4-)])
qed


section \<open>A small event loop\<close>

text \<open>The watches and timeouts that are enabled, the operations of each object, and the number of
  messages to dispatch, for the witnesses.\<close>

type_synonym small_loop = "nat set \<times> (nat \<Rightarrow> nat) \<times> nat"

definition small_events :: "(nat, nat, small_loop) event_lib" where
  "small_events =
     \<lparr>el_watch_enabled = (\<lambda>w a. w \<in> fst a), el_watch_fd = (\<lambda>w a. 3), el_watch_flags = (\<lambda>w a. 1),
      el_watch_handle = (\<lambda>w event. return_eff True),
      el_timeout_enabled = (\<lambda>t a. t \<in> fst a), el_timeout_interval = (\<lambda>t a. 100),
      el_timeout_handle = (\<lambda>t. throw_eff (Runtime_error ''handled'')),
      el_dispatch_status = (\<lambda>a. if snd (snd a) = 0 then 1 else 0),
      el_dispatch = on_loop (\<lambda>(e, out, q). (e, out, q - 1)),
      el_set_watch_functions = (\<lambda>a. (True, a)), el_set_timeout_functions = (\<lambda>a. (True, a)),
      el_set_wakeup_function = (\<lambda>a. a), el_timer_expires = (\<lambda>n d a. a), el_timer_wait = (\<lambda>n a. a),
      el_timer_cancel = (\<lambda>n a. (None, a)), el_assign = (\<lambda>n fd a. (None, a)),
      el_read = (\<lambda>n (e, out, q). (e, out(n := Suc (out n)), q)),
      el_write = (\<lambda>n (e, out, q). (e, out(n := Suc (out n)), q)),
      el_cancel = (\<lambda>n (e, out, q). (None, (e, out(n := 0), q))), el_release = (\<lambda>n a. a),
      el_post_dispatch = (\<lambda>a. a), el_run = (\<lambda>a. a), el_stop = (\<lambda>a. a)\<rparr>"

abbreviation outstanding :: "small_loop \<Rightarrow> nat \<Rightarrow> nat" where
  "outstanding a \<equiv> fst (snd a)"

theorem wakeup_drains_queue_witness:
  "\<exists>s'. dispatch_all small_events (new_executor ({}, \<lambda>n. 0, 3)) = (Inr (), s') \<and> snd (snd (ex_loop s')) = 0"
proof -
  have "\<exists>s'. dispatch_all small_events (new_executor ({}, \<lambda>n. 0, 3)) = (Inr (), s')
      \<and> el_dispatch_status small_events (ex_loop s') \<noteq> 0 \<and> (True \<longrightarrow> True)"
    by (rule wakeup_drains_queue [where queue = "\<lambda>s. snd (snd (ex_loop s))"])
      (auto simp: small_events_def on_loop_def split: if_splits prod.split)
  then show ?thesis by (auto simp: small_events_def split: if_splits)
qed

lemma disabled_timeout_fires_witness:
  "\<exists>s1. on_dbus_add_timeout small_events 7 (new_executor ({7}, \<lambda>n. 0, 0)) = (Inr True, s1)
     \<and> timer_done small_events 0 Success (s1\<lparr>ex_loop := ({}, \<lambda>n. 0, 0)\<rparr>)
         = (Inl (Runtime_error ''handled''), s1\<lparr>ex_loop := ({}, \<lambda>n. 0, 0)\<rparr>)"
proof -
  let ?s = "new_executor ({7}, \<lambda>n. 0, 0) :: (nat, nat, small_loop) executor"
  obtain s1 where s1: "on_dbus_add_timeout small_events 7 ?s = (Inr True, s1)"
    by (simp add: on_dbus_add_timeout_def construct_timeout_def set_timeout_data_def timeout_start_def timeout_of_def on_loop_def
        then_eff_def bind_eff_def return_eff_def Let_def new_executor_def small_events_def)
  have "ex_timeout_data ?s 7 = None" "el_timeout_enabled small_events 7 (ex_loop ?s)"
      "\<not> el_timeout_enabled small_events 7 ({}, \<lambda>n. 0, 0)"
    by (simp_all add: new_executor_def small_events_def)
  then show ?thesis
    using disabled_timeout_fires [OF _ _ s1, of "({}, \<lambda>n. 0, 0)" "({}, \<lambda>n. 0, 0)"] s1
    by (simp add: new_executor_def small_events_def throw_eff_def)
qed

text \<open>The same loop with a libdbus that disables a watch while it handles its event.\<close>

definition disabling_handle :: "nat \<Rightarrow> 32 word \<Rightarrow> ((nat, nat, small_loop) executor, bool) eff" where
  "disabling_handle w event s =
     (if w \<in> fst (ex_loop s)
      then (case on_dbus_watch_toggled small_events w (s\<lparr>ex_loop := (fst (ex_loop s) - {w}, snd (ex_loop s))\<rparr>) of
              (Inr _, s') \<Rightarrow> (Inr True, s')
            | _ \<Rightarrow> (Inr True, s))
      else (Inr True, s))"

definition disabling_events :: "(nat, nat, small_loop) event_lib" where
  "disabling_events = small_events\<lparr>el_watch_handle := disabling_handle\<rparr>"

lemma disabling_events_toggled: "on_dbus_watch_toggled disabling_events = on_dbus_watch_toggled small_events"
proof -
  have restart: "watch_restart disabling_events = watch_restart small_events"
    by (simp add: fun_eq_iff watch_restart_def monitors_readable_def monitors_writable_def disabling_events_def
        cong: if_cong)
  have cancel: "watch_cancel disabling_events = watch_cancel small_events"
    by (simp add: fun_eq_iff watch_cancel_def disabling_events_def)
  have enabled: "el_watch_enabled disabling_events = el_watch_enabled small_events"
    by (simp add: disabling_events_def)
  show ?thesis by (rule ext)+ (simp only: on_dbus_watch_toggled_def is_watch_enabled_def restart cancel enabled)
qed

lemma disabling_events_calls: "\<exists>T. watch_calls disabling_events outstanding T s (snd (disabling_handle w event s))"
proof -
  let ?a = "(fst (ex_loop s) - {w}, snd (ex_loop s))"
  obtain r s' where r: "on_dbus_watch_toggled small_events w (s\<lparr>ex_loop := ?a\<rparr>) = (r, s')" by fastforce
  show ?thesis
  proof (cases "w \<in> fst (ex_loop s) \<and> r = Inr ()")
    case True
    have "watch_call disabling_events outstanding (set_option (ex_watch_data s w)) s s'"
    proof (rule call_toggle [of _ _ ?a])
      show "on_dbus_watch_toggled disabling_events w (s\<lparr>ex_loop := ?a\<rparr>) = (Inr (), s')"
        using True r by (simp add: disabling_events_toggled)
    qed (use True in \<open>simp_all add: disabling_events_def small_events_def\<close>)
    then show ?thesis using True r calls_more [OF calls_none] by (fastforce simp: disabling_handle_def)
  next
    case False
    then have "snd (disabling_handle w event s) = s" using r by (auto simp: disabling_handle_def split: sum.split)
    then show ?thesis using calls_none by metis
  qed
qed

lemma disabling_events_count: "counts_operations disabling_events outstanding"
  using disabling_events_calls
  by (auto simp: counts_operations_def disabling_events_def small_events_def keeps_watches_def split: prod.split)


end
