(* ===== verification/Dbus_Daemon.thy ===== *)
theory Dbus_Daemon
  imports Signal_Properties Remote_Properties
begin

text \<open>
  The proxy of the message bus daemon: src/core/dbus/dbus.cpp and src/core/dbus/service_watcher.cpp with
  their headers.

  \<open>DBus\<close> is the number of its stub object; a watcher is the number of its \<open>Private\<close>, which the handler
  keeps. \<open>core::Signal\<close> is of another library: \<open>emit h n\<close> emits the notification \<open>n\<close> of the watcher \<open>h\<close>.
\<close>

section \<open>The daemon\<close>

definition dbus_name :: string where
  "dbus_name = ''org.freedesktop.DBus''"

definition dbus_path :: string where
  "dbus_path = ''/org/freedesktop/DBus''"

definition dbus_interface :: string where
  "dbus_interface = ''org.freedesktop.DBus''"

text \<open>The interface of a method is \<open>traits::Service<DBus>::interface_name()\<close>, which is \<open>DBus::name()\<close>.\<close>

definition list_names_key :: "string \<times> string" where
  "list_names_key = (dbus_name, ''ListNames'')"

definition hello_key :: "string \<times> string" where
  "hello_key = (dbus_name, ''Hello'')"

definition process_id_key :: "string \<times> string" where
  "process_id_key = (dbus_name, ''GetConnectionUnixProcessID'')"

definition unix_user_key :: "string \<times> string" where
  "unix_user_key = (dbus_name, ''GetConnectionUnixUser'')"

definition daemon_timeout :: int where
  "daemon_timeout = 1000"

definition construct_dbus :: "nat \<Rightarrow> (('d, 'h, 'i, 'e) world, nat) eff" where
  "construct_dbus n = object_for_path n (use_service dbus_name) dbus_path"

text \<open>\<open>object->invoke_method_synchronously<Method, R>(args).value()\<close>.\<close>

definition value_of_call ::
  "('m, 'i, 'w, 'd, 'p, 'h, 'e) env \<Rightarrow> nat \<Rightarrow> string \<times> string \<Rightarrow> ctype \<Rightarrow> (ctype \<times> 'i cval) list
     \<Rightarrow> (('d, 'h, 'i, 'e) world, 'i cval) eff" where
  "value_of_call E n method t args = if_alive n (\<lambda>s.
     bind_eff (on_bus (on_conn (invoke_method_synchronously (env_lib E) (env_conn E) (env_floats E)
         (ob_service (object_of n s)) (ob_path (object_of n s)) method daemon_timeout t args)))
       (\<lambda>result. lift_res (value_of_result result)) s)"

definition list_names ::
  "('m, 'i, 'w, 'd, 'p, 'h, 'e) env \<Rightarrow> nat \<Rightarrow> (('d, 'h, 'i, 'e) world, 'i cval) eff" where
  "list_names E n = value_of_call E n list_names_key (T_vector T_string) []"

definition get_connection_unix_process_id ::
  "('m, 'i, 'w, 'd, 'p, 'h, 'e) env \<Rightarrow> nat \<Rightarrow> string \<Rightarrow> (('d, 'h, 'i, 'e) world, 'i cval) eff" where
  "get_connection_unix_process_id E n name =
     value_of_call E n process_id_key T_uint32 [(T_string, V_string name)]"

definition get_connection_unix_user ::
  "('m, 'i, 'w, 'd, 'p, 'h, 'e) env \<Rightarrow> nat \<Rightarrow> string \<Rightarrow> (('d, 'h, 'i, 'e) world, 'i cval) eff" where
  "get_connection_unix_user E n name =
     value_of_call E n unix_user_key T_uint32 [(T_string, V_string name)]"

definition hello ::
  "('m, 'i, 'w, 'd, 'p, 'h, 'e) env \<Rightarrow> nat \<Rightarrow> (('d, 'h, 'i, 'e) world, 'i cval) eff" where
  "hello E n = value_of_call E n hello_key T_string []"

section \<open>Service watchers\<close>

datatype watch_mode = Registration | Unregistration | Owner_change

datatype notification = Owner_changed string string | Service_registered | Service_unregistered

definition name_owner_changed_type :: ctype where
  "name_owner_changed_type = T_tuple [T_string, T_string, T_string]"

definition watcher_signal_handler ::
  "(nat \<Rightarrow> notification \<Rightarrow> ('s, unit) eff) \<Rightarrow> nat \<Rightarrow> 'i cval \<Rightarrow> ('s, unit) eff" where
  "watcher_signal_handler emit h args =
     (case args of
        V_tuple [V_string name, V_string old_owner, V_string new_owner] \<Rightarrow>
          then_eff (if old_owner = [] \<and> new_owner \<noteq> [] then emit h Service_registered else return_eff ())
         (then_eff (if old_owner \<noteq> [] \<and> new_owner = [] then emit h Service_unregistered else return_eff ())
            (emit h (Owner_changed old_owner new_owner)))
      | _ \<Rightarrow> ill_typed)"

definition watcher_match_args :: "string \<Rightarrow> watch_mode \<Rightarrow> match_args" where
  "watcher_match_args name mode = [(0, name)] @
     (case mode of Owner_change \<Rightarrow> [] | Registration \<Rightarrow> [(1, [])] | Unregistration \<Rightarrow> [(2, [])])"

definition watch_owner ::
  "('d, 'm, 'p) connection \<Rightarrow> nat \<Rightarrow> string \<Rightarrow> watch_mode \<Rightarrow> ((nat, 'r, 'd) signal_world, nat) eff" where
  "watch_owner K h name mode = connect_with_match_args K h (watcher_match_args name mode)"

text \<open>The constructor on the object with the path \<open>path\<close>: the signal comes out of the cache or is made
  by \<open>construct\<close> with the number \<open>g\<close>; \<open>at q\<close> runs an operation of the signal \<open>q\<close> in the world.\<close>

definition construct_service_watcher ::
  "('w, nat, cache_key, 'c) objects \<Rightarrow> (nat \<Rightarrow> ((nat, 'r, 'd) signal_world, nat) eff \<Rightarrow> ('w, nat) eff)
     \<Rightarrow> ('d, 'm, 'p) connection \<Rightarrow> string \<Rightarrow> nat \<Rightarrow> ('w, unit) eff \<Rightarrow> nat \<Rightarrow> string \<Rightarrow> watch_mode
     \<Rightarrow> ((cache_key, nat, 'c) cache \<times> 'w, nat) eff" where
  "construct_service_watcher W at K path g construct h name mode =
     bind_eff (make_signal_cached W (path, dbus_name, ''NameOwnerChanged'') g construct)
       (\<lambda>q. on_world (at q (watch_owner K h name mode)))"

text \<open>\<open>DBus::make_service_watcher\<close>; a watcher without a mode watches every change.\<close>

definition make_service_watcher ::
  "('w, nat, cache_key, 'c) objects \<Rightarrow> (nat \<Rightarrow> ((nat, 'r, 'd) signal_world, nat) eff \<Rightarrow> ('w, nat) eff)
     \<Rightarrow> ('d, 'm, 'p) connection \<Rightarrow> nat \<Rightarrow> ('w, unit) eff \<Rightarrow> nat \<Rightarrow> string \<Rightarrow> watch_mode option
     \<Rightarrow> ((cache_key, nat, 'c) cache \<times> 'w, nat) eff" where
  "make_service_watcher W at K g construct h name mode =
     construct_service_watcher W at K dbus_path g construct h name
       (case mode of None \<Rightarrow> Owner_change | Some m \<Rightarrow> m)"

end
