(* ===== verification/Daemon_Properties.thy ===== *)
theory Daemon_Properties
  imports Dbus_Daemon
begin

text \<open>
  What the watchers of a name are told, and what becomes of the answers of the daemon.
\<close>

section \<open>What a watcher asks for\<close>

text \<open>The abstract view: which changes a watcher is concerned by, and what it says about one.\<close>

fun concerned :: "string \<Rightarrow> string \<Rightarrow> string \<Rightarrow> nat \<times> string \<times> watch_mode \<Rightarrow> bool" where
  "concerned changed old new (h, name, mode) \<longleftrightarrow> name = changed
     \<and> (mode = Registration \<longrightarrow> old = []) \<and> (mode = Unregistration \<longrightarrow> new = [])"

definition notifications :: "string \<Rightarrow> string \<Rightarrow> notification list" where
  "notifications old new = (if old = [] \<and> new \<noteq> [] then [Service_registered] else [])
     @ (if old \<noteq> [] \<and> new = [] then [Service_unregistered] else []) @ [Owner_changed old new]"

definition watch_step :: "('d, 'm, 'p) connection \<Rightarrow> nat \<times> string \<times> watch_mode \<Rightarrow> ((nat, 'r, 'd) signal_world, unit) eff"
  where
  "watch_step K w = then_eff (watch_owner K (fst w) (fst (snd w)) (snd (snd w))) (return_eff ())"

text \<open>A message of the daemon about the owner of a name.\<close>

abbreviation owner_message :: "string \<Rightarrow> string \<Rightarrow> string \<Rightarrow> dval list" where
  "owner_message changed old new \<equiv> map (\<lambda>s. D_basic (at_code At_string) (Raw_str s)) [changed, old, new]"

lemma owner_message_arguments:
  "string_argument (owner_message changed old new) 0 = Some changed"
  "string_argument (owner_message changed old new) 1 = Some old"
  "string_argument (owner_message changed old new) 2 = Some new"
  by (simp_all add: string_argument_def)

lemma watcher_entry:
  assumes "fst (snd e) = watcher_match_args name mode"
  shows "answerable (owner_message changed old new) e"
    and "matches (owner_message changed old new) e \<longleftrightarrow> concerned changed old new (h, name, mode)"
  using assms owner_message_arguments [of changed old new]
  by (cases mode; force simp: answerable_def matches_def watcher_match_args_def)+

lemma decode_owner_message:
  assumes "reads L den" and "den i (owner_message changed old new)"
  shows "fst (stream_in L F name_owner_changed_type (default_val name_owner_changed_type) i)
     = Inr (V_tuple [V_string changed, V_string old, V_string new])"
proof -
  note y = yields_run [OF yields_string [OF assms(1)]]
  obtain i1 where 1: "stream_in L F T_string (V_string []) i = (Inr (V_string changed), i1)"
    and d1: "den i1 (map (\<lambda>s. D_basic (at_code At_string) (Raw_str s)) [old, new])"
    using y [of i changed] assms(2) by (metis append_Cons append_Nil list.simps(9))
  obtain i2 where 2: "stream_in L F T_string (V_string []) i1 = (Inr (V_string old), i2)"
    and d2: "den i2 (map (\<lambda>s. D_basic (at_code At_string) (Raw_str s)) [new])"
    using y [of i1 old] d1 by (metis append_Cons append_Nil list.simps(9))
  obtain i3 where 3: "stream_in L F T_string (V_string []) i2 = (Inr (V_string new), i3)"
    using y [of i2 new] d2 by (metis append_Nil2 list.simps(8,9))
  show ?thesis
    using 1 2 3
    by (simp add: stream_in_def name_owner_changed_type_def codec_tuple_decode_def bind_eff_def return_eff_def
        eval_nat_numeral del: codec_string_decode_def)
qed

section \<open>Watchers that share a signal\<close>

abbreviation asked :: "nat \<times> string \<times> watch_mode \<Rightarrow> match_args \<times> nat" where
  "asked w \<equiv> (watcher_match_args (fst (snd w)) (snd (snd w)), fst w)"

abbreviation entries :: "(nat, 'r, 'd) signal_world \<Rightarrow> (match_args \<times> nat) multiset" where
  "entries s \<equiv> image_mset snd (mset (sig_handlers (sw_signal s)))"

lemma handlers_insert_mset: "mset (handlers_insert e hs) = add_mset e (mset hs)"
  by (simp add: handlers_insert_def) (metis mset_append takeWhile_dropWhile_id)

lemma watch_step_run:
  assumes "\<not> sig_guard (sw_signal s)" and "watch_step K w s = (Inr (), s')"
  shows "\<not> sig_guard (sw_signal s') \<and> entries s' = add_mset (asked w) (entries s)"
proof -
  obtain token where "connect_with_match_args K (fst w) (fst (asked w)) s = (Inr token, s')"
    using assms(2) by (auto simp: watch_step_def watch_owner_def then_eff_def bind_eff_def return_eff_def
        split: prod.splits sum.splits)
  then show ?thesis
    using assms(1)
    by (auto simp: connect_run inserted_def insert_handler_def Let_def with_rule_args_def handlers_insert_mset
        split: if_splits prod.splits)
qed

lemma watch_steps_run:
  assumes "\<not> sig_guard (sw_signal s)" and "each_eff (watch_step K) ws s = (Inr (), s')"
  shows "\<not> sig_guard (sw_signal s') \<and> entries s' = mset (map asked ws) + entries s"
  using assms
proof (induction ws arbitrary: s)
  case (Cons w ws)
  obtain s1 where "watch_step K w s = (Inr (), s1)" and "each_eff (watch_step K) ws s1 = (Inr (), s')"
    using Cons.prems(2) by (auto simp: then_eff_def bind_eff_def split: prod.splits sum.splits)
  then show ?case using Cons.IH [of s1] watch_step_run Cons.prems(1) by fastforce
qed (simp add: return_eff_def)

lemma watchers_entries:
  assumes "entries s = mset (map asked ws)"
  shows "\<forall>e \<in> set (sig_handlers (sw_signal s)). answerable (owner_message changed old new) e"
    and "mset (map (\<lambda>e. snd (snd e)) (filter (matches (owner_message changed old new)) (sig_handlers (sw_signal s))))
       = mset (map fst (filter (concerned changed old new) ws))"
proof -
  let ?ds = "owner_message changed old new" and ?hs = "sig_handlers (sw_signal s)"
  have from_watcher: "\<exists>w \<in> set ws. snd e = asked w" if "e \<in> set ?hs" for e
  proof -
    have "snd e \<in># entries s" using that by simp
    then show ?thesis using assms by auto
  qed
  show "\<forall>e \<in> set ?hs. answerable ?ds e"
    using from_watcher watcher_entry(1) by (metis fst_conv)
  obtain M where m: "matches ?ds = (\<lambda>e :: nat \<times> match_args \<times> nat. M (snd e))"
    by (rule that [of "\<lambda>a. matches ?ds (0, a)"]) (simp add: fun_eq_iff matches_def)
  have c: "M (asked w) = concerned changed old new w" for w
    using watcher_entry(2) [of "(0, asked w)" "fst (snd w)" "snd (snd w)" changed old new "fst w"] m by simp
  have "mset (map (\<lambda>e. snd (snd e)) (filter (matches ?ds) ?hs)) = image_mset snd (filter_mset M (entries s))"
    unfolding m by (simp add: filter_mset_image_mset image_mset.compositionality comp_def)
  also have "\<dots> = image_mset fst (filter_mset (concerned changed old new) (mset ws))"
    using assms by (simp add: filter_mset_image_mset image_mset.compositionality comp_def c)
  finally show "mset (map (\<lambda>e. snd (snd e)) (filter (matches ?ds) ?hs))
      = mset (map fst (filter (concerned changed old new) ws))"
    by simp
qed

text \<open>\<open>log\<close> lists the notifications that were emitted, each with its watcher.\<close>

definition logs_notifications ::
  "(nat \<Rightarrow> notification \<Rightarrow> ((nat, 'r, 'd) signal_world, unit) eff) \<Rightarrow> ('d \<Rightarrow> (nat \<times> notification) list) \<Rightarrow> bool"
  where
  "logs_notifications emit log \<longleftrightarrow> (\<forall>h n s. \<exists>d. emit h n s = (Inr (), s\<lparr>sw_conn := d\<rparr>)
     \<and> log d = log (sw_conn s) @ [(h, n)])"

lemma then_return_right: "then_eff m (return_eff ()) = m"
  by (simp add: fun_eq_iff then_eff_def bind_eff_def return_eff_def split: prod.split sum.split)

lemma handler_emits:
  "watcher_signal_handler emit h (V_tuple [V_string changed, V_string old, V_string new])
     = each_eff (emit h) (notifications old new)"
  by (simp add: watcher_signal_handler_def notifications_def then_return_right)

lemma emissions_logged:
  assumes "logs_notifications emit log"
  shows "\<exists>d. each_eff (emit h) ns s = (Inr (), s\<lparr>sw_conn := d\<rparr>) \<and> log d = log (sw_conn s) @ map (Pair h) ns"
proof (induction ns arbitrary: s)
  case Nil
  show ?case by (intro exI [of _ "sw_conn s"]) (simp add: return_eff_def)
next
  case (Cons n ns)
  obtain d where d: "emit h n s = (Inr (), s\<lparr>sw_conn := d\<rparr>)" "log d = log (sw_conn s) @ [(h, n)]"
    using assms unfolding logs_notifications_def by blast
  obtain d' where "each_eff (emit h) ns (s\<lparr>sw_conn := d\<rparr>) = (Inr (), s\<lparr>sw_conn := d'\<rparr>)"
      "log d' = log d @ map (Pair h) ns"
    using Cons.IH [of "s\<lparr>sw_conn := d\<rparr>"] by auto
  then show ?case using d by (intro exI [of _ d']) (simp add: then_eff_Inr)
qed

lemma handlers_notify:
  assumes "logs_notifications emit log"
  shows "\<exists>d. each_eff (\<lambda>e. watcher_signal_handler emit (snd (snd e))
         (V_tuple [V_string changed, V_string old, V_string new])) es s = (Inr (), s\<lparr>sw_conn := d\<rparr>)
     \<and> log d = log (sw_conn s) @ concat (map (\<lambda>h. map (Pair h) (notifications old new)) (map (\<lambda>e. snd (snd e)) es))"
  unfolding handler_emits
proof (induction es arbitrary: s)
  case Nil
  show ?case by (intro exI [of _ "sw_conn s"]) (simp add: return_eff_def)
next
  case (Cons e es)
  let ?all = "each_eff (\<lambda>e. each_eff (emit (snd (snd e))) (notifications old new))"
  obtain d where d: "each_eff (emit (snd (snd e))) (notifications old new) s = (Inr (), s\<lparr>sw_conn := d\<rparr>)"
      "log d = log (sw_conn s) @ map (Pair (snd (snd e))) (notifications old new)"
    using emissions_logged [OF assms] by blast
  obtain d' where "?all es (s\<lparr>sw_conn := d\<rparr>) = (Inr (), s\<lparr>sw_conn := d'\<rparr>)"
      "log d' = log d @ concat (map (\<lambda>h. map (Pair h) (notifications old new)) (map (\<lambda>e. snd (snd e)) es))"
    using Cons.IH [of "s\<lparr>sw_conn := d\<rparr>"] by auto
  then show ?case using d by (intro exI [of _ d']) (simp add: then_eff_Inr comp_def)
qed

text \<open>
  C9. Watchers are told of the changes they watch, and of no others. When the daemon announces a
  change of the owner of a name, exactly the watchers of that name are told (those for registration only
  when there was no owner before, those for unregistration only when there is none now): each
  announces the registration or unregistration it is, if it is one, and then the change.
\<close>

theorem watchers_notified:
  fixes L :: "('m, 'i, 'w) libdbus"
  assumes "reads L den" and "carries L den msg (owner_message changed old new)"
    and "fresh_signal s0" and "each_eff (watch_step K) ws s0 = (Inr (), s)"
    and "logs_notifications emit log"
  shows "\<exists>hs s'. signal_message L F name_owner_changed_type (watcher_signal_handler emit) msg s = (Inr (), s')
     \<and> mset hs = mset (map fst (filter (concerned changed old new) ws))
     \<and> log (sw_conn s') = log (sw_conn s) @ concat (map (\<lambda>h. map (Pair h) (notifications old new)) hs)"
proof -
  let ?ds = "owner_message changed old new" and ?v = "V_tuple [V_string changed, V_string old, V_string new] :: 'i cval"
  let ?es = "filter (matches ?ds) (sig_handlers (sw_signal s))"
  have "\<not> sig_guard (sw_signal s)" and e: "entries s = mset (map asked ws)"
    using watch_steps_run [OF _ assms(4)] assms(3) by (simp_all add: fresh_signal_def)
  obtain d where d: "each_eff (\<lambda>e. watcher_signal_handler emit (snd (snd e)) ?v) ?es
        (s\<lparr>sw_signal := sw_signal s\<lparr>sig_guard := True\<rparr>\<rparr>)
      = (Inr (), s\<lparr>sw_signal := sw_signal s\<lparr>sig_guard := True\<rparr>, sw_conn := d\<rparr>)"
    "log d = log (sw_conn s) @ concat (map (\<lambda>h. map (Pair h) (notifications old new)) (map (\<lambda>e. snd (snd e)) ?es))"
    using handlers_notify [OF assms(5), of changed old new ?es "s\<lparr>sw_signal := sw_signal s\<lparr>sig_guard := True\<rparr>\<rparr>"]
    by auto
  have "msg_reader L msg = Inr (snd (iter_init L msg))"
    by (rule carries_reader [OF assms(2)])
  moreover have "fst (stream_in L F name_owner_changed_type (default_val name_owner_changed_type)
      (snd (iter_init L msg))) = Inr ?v"
    by (rule decode_owner_message [OF assms(1)]) (use assms(2) in \<open>simp add: carries_def\<close>)
  moreover have "with_handlers (\<lambda>s. each_eff (call_handler L (watcher_signal_handler emit) msg ?v)
        (sig_handlers (sw_signal s)) s) s
      = (Inr (), s\<lparr>sw_signal := sw_signal s\<lparr>sig_guard := False\<rparr>, sw_conn := d\<rparr>)"
    using d(1) \<open>\<not> sig_guard (sw_signal s)\<close> call_handlers_run [OF assms(1,2) watchers_entries(1) [OF e],
        of "watcher_signal_handler emit" ?v]
    by (simp add: with_handlers_def guarded_def)
  ultimately have "signal_message L F name_owner_changed_type (watcher_signal_handler emit) msg s
      = (Inr (), s\<lparr>sw_signal := sw_signal s\<lparr>sig_guard := False\<rparr>, sw_conn := d\<rparr>)"
    by (simp add: signal_message_def noexcept_eff_def catch_eff_def lift_res_def bind_eff_def)
  then show ?thesis
    using watchers_entries(2) [OF e, of changed old new] d(2)
    by (intro exI [of _ "map (\<lambda>e. snd (snd e)) ?es"] exI [of _ "s\<lparr>sw_signal := sw_signal s\<lparr>sig_guard := False\<rparr>, sw_conn := d\<rparr>"])
      simp
qed

section \<open>Asking the daemon\<close>

lemma stream_in_uint32:
  fixes L :: "('m, 'i, 'w) libdbus"
  assumes "reads L den" and "den i [D_basic (at_code At_uint32) (Raw32 u)]"
  shows "fst (stream_in L F T_uint32 (default_val T_uint32) i) = Inr (V_uint32 u)"
proof -
  let ?v = "V_uint32 u :: 'i cval"
  have "yields den (decode L F T_uint32 (default_val T_uint32)) (dvals_of F T_uint32 ?v) (received F den ?v)"
    by (rule decode_yields [OF assms(1)]) simp_all
  then obtain x i' where "stream_in L F T_uint32 (default_val T_uint32) i = (Inr x, i')"
    and "received F den (V_uint32 u) x"
    using yields_run [of den "decode L F T_uint32 (default_val T_uint32)" _ _ i "[]"] assms(2)
    unfolding stream_in_def by (metis append_Nil2 dvals_of.simps(6))
  then show ?thesis using received_no_variant [of F den "V_uint32 u" x T_uint32] by simp
qed

text \<open>
  The user of a connection is what the daemon answers. The call that is sent asks
  \<open>GetConnectionUnixUser\<close> with the name; if the daemon answers with a number, that is the result. If it
  answers with an error, as it does when nobody has the name, this is thrown.
\<close>

lemma unix_user_of_answer:
  fixes C :: "('m, 'i, 'w, 'd, 'p, 'h, 'e) env"
  assumes "reads (env_lib C) den" and "makes_call (env_lib C) ok den unix_user_key" and "string_ok ok name"
    and "w_objects c n = Some ob"
    and "\<forall>call d. \<exists>d'. conn_send_and_block (env_conn C) call 1000 d = (answer_of (env_lib C) (daemon call), d')"
  shows "\<exists>call i r c'. get_connection_unix_user C n name c = (r, c')
     \<and> member_key (env_lib C) call = Inr unix_user_key
     \<and> msg_reader (env_lib C) call = Inr i \<and> den i [D_basic (at_code At_string) (Raw_str name)]
     \<and> (msg_type (env_lib C) (daemon call) = Mt_method_return
          \<and> carries (env_lib C) den (daemon call) [D_basic (at_code At_uint32) (Raw32 u)]
        \<longrightarrow> r = Inr (V_uint32 u))
     \<and> (msg_type (env_lib C) (daemon call) = Mt_error
        \<longrightarrow> r = Inl (throw_error_text (set_error_from_message (env_lib C) (daemon call))))"
proof -
  let ?L = "env_lib C" and ?args = "[(T_string, V_string name)] :: (ctype \<times> 'i cval) list"
  have e: "emits cden (encode_message ?L (env_floats C) ?args) None [] [D_basic (at_code At_string) (Raw_str name)]"
    if "writes ?L ok cden" for cden :: "'m \<Rightarrow> 'w frame list \<Rightarrow> bool"
    using emits_then [OF emits_string [OF that assms(3)] emits_return]
    by (simp only: encode_message.simps append_Nil2)
  obtain call i where call: "make_call ?L (env_floats C) (ob_service ob) (ob_path ob) unix_user_key ?args = Inr call"
      "member_key ?L call = Inr unix_user_key" "msg_reader ?L call = Inr i"
      "den i [D_basic (at_code At_string) (Raw_str name)]"
    by (rule make_call_ok [OF assms(2) _ _ e]) (simp_all add: unix_user_key_def dbus_name_def)
  obtain d' where d': "conn_send_and_block (env_conn C) call 1000 (bus_conn (w_bus c)) = (answer_of ?L (daemon call), d')"
    using assms(5) by blast
  let ?result = "if msg_type ?L (daemon call) = Mt_error then Inl (throw_error_text (set_error_from_message ?L (daemon call)))
      else result_from_message ?L (env_floats C) T_uint32 (daemon call)"
  let ?r = "case ?result of Inl x \<Rightarrow> Inl x | Inr result \<Rightarrow> value_of_result result"
  have "invoke_method_synchronously ?L (env_conn C) (env_floats C) (ob_service ob) (ob_path ob) unix_user_key
      daemon_timeout T_uint32 ?args (bus_conn (w_bus c)) = (?result, d')"
    using call(1) d'
    by (simp add: invoke_method_synchronously_def lift_res_def bind_eff_def daemon_timeout_def to_c_int_def
        send_with_reply_and_block_for_at_most_def from_raw_message_def construct_message_def answer_of_def)
  then have "get_connection_unix_user C n name c = (?r, c\<lparr>w_bus := w_bus c\<lparr>bus_conn := d'\<rparr>\<rparr>)"
    using assms(4)
    by (simp add: get_connection_unix_user_def value_of_call_def if_alive_def object_of_def bind_eff_def
        lift_res_def on_bus_conn_run split: sum.split)
  moreover have "?r = Inr (V_uint32 u)" if "msg_type ?L (daemon call) = Mt_method_return"
      "carries ?L den (daemon call) [D_basic (at_code At_uint32) (Raw32 u)]"
    using stream_in_uint32 [OF assms(1), of _ u "env_floats C"] carries_reader [OF that(2)] that
    by (simp add: result_from_message_def value_of_result_def carries_def Let_def)
  moreover have "?r = Inl (throw_error_text (set_error_from_message ?L (daemon call)))"
    if "msg_type ?L (daemon call) = Mt_error"
    using that by simp
  ultimately show ?thesis using call(2-4) by blast
qed

section \<open>A small daemon\<close>

text \<open>The name \<open>x.S\<close> gets its first owner, with three watchers; emitting is writing to the log.\<close>

definition owner_change :: list_message where
  "owner_change = (new_list_message 4)\<lparr>lm_frames := [(None, owner_message ''x.S'' [] '':1.7'')]\<rparr>"

definition log_emission ::
  "nat \<Rightarrow> notification \<Rightarrow> ((nat, nat, (nat \<times> notification) list) signal_world, unit) eff" where
  "log_emission h n s = (Inr (), s\<lparr>sw_conn := sw_conn s @ [(h, n)]\<rparr>)"

definition daemon_signal :: "(nat, nat, (nat \<times> notification) list) signal_world" where
  "daemon_signal = \<lparr>sw_signal = new_typed_signal (use_service dbus_name) dbus_path dbus_name ''NameOwnerChanged'',
     sw_router = new_router, sw_conn = []\<rparr>"

abbreviation quiet_connection :: "((nat \<times> notification) list, list_message, unit) connection" where
  "quiet_connection \<equiv> pipe_connection (\<lambda>m d. d) (\<lambda>m d. (m, d))"

theorem watchers_notified_witness:
  "\<exists>s s'. each_eff (watch_step quiet_connection)
        [(1, ''x.S'', Unregistration), (2, ''x.S'', Registration), (3, ''x.T'', Owner_change)] daemon_signal = (Inr (), s)
     \<and> signal_message list_libdbus sample_conversions name_owner_changed_type (watcher_signal_handler log_emission)
         owner_change s = (Inr (), s')
     \<and> sw_conn s' = [(2, Service_registered), (2, Owner_changed [] '':1.7'')]"
proof -
  let ?ws = "[(1, ''x.S'', Unregistration), (2, ''x.S'', Registration), (3, ''x.T'', Owner_change)]"
  obtain s where s: "each_eff (watch_step quiet_connection) ?ws daemon_signal = (Inr (), s)" and c: "sw_conn s = []"
    by (simp add: then_eff_def bind_eff_def watch_step_def watch_owner_def connect_run daemon_signal_def
        new_typed_signal_def inserted_def insert_handler_def Let_def pipe_connection_def error_is_set_def
        with_rule_args_def return_eff_def watcher_match_args_def handlers_insert_def)
  have f: "fresh_signal daemon_signal"
    by (simp add: fresh_signal_def daemon_signal_def new_typed_signal_def new_router_def)
  have m: "carries list_libdbus list_den owner_change (owner_message ''x.S'' [] '':1.7'')"
    by (simp add: carries_def list_libdbus_def owner_change_def list_den_def list_body_def proper_def)
  have l: "logs_notifications log_emission (\<lambda>d. d)"
    by (simp add: logs_notifications_def log_emission_def)
  obtain hs s' where r: "signal_message list_libdbus sample_conversions name_owner_changed_type
        (watcher_signal_handler log_emission) owner_change s = (Inr (), s')"
      "mset hs = mset (map fst (filter (concerned ''x.S'' [] '':1.7'') ?ws))"
      "sw_conn s' = sw_conn s @ concat (map (\<lambda>h. map (Pair h) (notifications [] '':1.7'')) hs)"
    using watchers_notified [OF list_reads m f s l, of sample_conversions] by blast
  have "hs = [2]" using r(2) by simp
  then have "sw_conn s' = [(2, Service_registered), (2, Owner_changed [] '':1.7'')]"
    using r(3) c by (simp add: notifications_def)
  then show ?thesis using s r(1) by blast
qed

lemma unix_user_of_answer_witness:
  "\<exists>c'. get_connection_unix_user (plain_env (pipe_connection (\<lambda>m d. d) (\<lambda>m d. ((new_list_message 2)
         \<lparr>lm_frames := [(None, [D_basic 117 (Raw32 1000)])]\<rparr>, d)))) 0 ''x.S''
       (snd (construct_dbus 0 (empty_world ()))) = (Inr (V_uint32 1000), c')"
proof -
  let ?m = "(new_list_message 2)\<lparr>lm_frames := [(None, [D_basic 117 (Raw32 1000)])]\<rparr>"
  let ?C = "plain_env (pipe_connection (\<lambda>m d. d) (\<lambda>m d. (?m, d)))"
  let ?c = "snd (construct_dbus 0 (empty_world ()))"
  obtain ob where ob: "w_objects ?c 0 = Some ob"
    by (simp add: construct_dbus_def object_for_path_def use_service_def world_run_simps)
  have l: "reads (env_lib ?C) list_den" "makes_call (env_lib ?C) (\<lambda>c r. True) list_den unix_user_key"
      "string_ok (\<lambda>c r. True) ''x.S''"
    by (simp_all add: list_reads list_makes_call string_ok_def)
  have d: "\<forall>call d. \<exists>d'. conn_send_and_block (env_conn ?C) call 1000 d = (answer_of (env_lib ?C) ((\<lambda>call. ?m) call), d')"
    by (simp add: pipe_connection_def)
  have "carries list_libdbus list_den ?m [D_basic 117 (Raw32 1000)]" "msg_type list_libdbus ?m = Mt_method_return"
    by (simp_all add: carries_def list_libdbus_def list_den_def list_body_def proper_def msg_type_def
        message_type_of_def new_list_message_def)
  then show ?thesis
    using unix_user_of_answer [OF l ob d, of 1000] by auto
qed

end
