(* ===== verification/Method_Calls.thy ===== *)
theory Method_Calls
  imports Remote_Properties
begin

text \<open>
  Calling a method of another process: the call with its arguments, the way to the handler that was
  installed for the method, and the reply.
\<close>

section \<open>A handler\<close>

text \<open>What the user of the library writes for a method, as in src/tests/service_test.cpp: read the
  arguments, compute, and send a reply with the result.\<close>

definition answer_with ::
  "('m, 'i, 'w, 'd, 'p, 'h, 'e) env \<Rightarrow> ctype list \<Rightarrow> ctype \<Rightarrow> ('i cval list \<Rightarrow> 'i cval) \<Rightarrow> 'm
     \<Rightarrow> (('d, 'h, 'i, 'e) world, unit) eff" where
  "answer_with E ts t f msg =
     bind_eff (lift_res (msg_reader (env_lib E) msg)) (\<lambda>reader.
     bind_eff (lift_res (fst (decode_message (env_lib E) (env_floats E) (map (\<lambda>t. (t, default_val t)) ts) reader)))
       (\<lambda>vs. bind_eff (lift_res (make_method_return (env_lib E) msg)) (\<lambda>reply.
         case stream_out (env_lib E) (env_floats E) t (f vs) (msg_writer (env_lib E) reply) of
           (Inl e, w) \<Rightarrow> throw_eff e
         | (Inr _, w) \<Rightarrow> send_message E (snd w))))"

text \<open>What can be sent as one value or several.\<close>

definition payload ::
  "('m, 'i, 'w) libdbus \<Rightarrow> float_conversions \<Rightarrow> (int \<Rightarrow> raw \<Rightarrow> bool) \<Rightarrow> (ctype \<times> 'i cval) list \<Rightarrow> bool" where
  "payload L F ok args \<longleftrightarrow> sendable_args args \<and> list_all (dval_ok ok) (args_dvals F args)
     \<and> list_all (clean L F \<circ> snd) args"

text \<open>A value that arrives: as received, and equal to the one sent when the type has no variant.\<close>

definition arrives ::
  "float_conversions \<Rightarrow> ('i \<Rightarrow> dval list \<Rightarrow> bool) \<Rightarrow> ctype \<times> 'i cval \<Rightarrow> 'i cval \<Rightarrow> bool" where
  "arrives F den p v \<longleftrightarrow> received F den (snd p) v \<and> (no_variant (fst p) \<longrightarrow> v = snd p)"

lemma received_args_arrive:
  assumes "list_all2 (\<lambda>p. received F den (snd p)) args vs" and "sendable_args args"
  shows "list_all2 (arrives F den) args vs"
  using assms by (induction rule: list_all2_induct) (auto simp: sendable_args_def arrives_def received_no_variant)

lemma args_dvals_nonempty: "args \<noteq> [] \<Longrightarrow> sendable_args args \<Longrightarrow> args_dvals F args \<noteq> []"
  using dvals_nonempty by (cases args) (auto simp: args_dvals_def sendable_args_def)

lemma call_with_args:
  assumes "reads L den" and "makes_call L ok den key" and "c_str (fst key) = fst key" and "c_str (snd key) = snd key"
    and "args \<noteq> []" and "payload L F ok args"
  obtains call i vs i' where "make_call L F service path key args = Inr call" and "member_key L call = Inr key"
    and "msg_reader L call = Inr i"
    and "decode_message L F (map (\<lambda>t. (t, default_val t)) (map fst args)) i = (Inr vs, i')"
    and "list_all2 (arrives F den) args vs"
proof -
  have p: "sendable_args args" "list_all (dval_ok ok) (args_dvals F args)" "list_all (clean L F \<circ> snd) args"
    using assms(6) by (simp_all add: payload_def)
  have e: "emits cden (encode_message L F args) None [] (args_dvals F args)" if "writes L ok cden"
    for cden :: "'a \<Rightarrow> 'c frame list \<Rightarrow> bool"
    by (rule encode_message_emits [OF that p(1,2)])
  obtain call i where call: "make_call L F service path key args = Inr call" "member_key L call = Inr key"
      "msg_reader L call = Inr i" and i: "den i (args_dvals F args @ [])"
    by (rule make_call_ok [OF assms(2-4) e args_dvals_nonempty [OF assms(5) p(1)]]) simp_all
  have m: "map (\<lambda>t. (t, default_val t)) (map fst args) = map (\<lambda>(t, v). (t, default_val t)) args"
    by (simp add: case_prod_beta)
  obtain vs i' where d: "decode_message L F (map (\<lambda>(t, v). (t, default_val t)) args) i = (Inr vs, i')"
    and vs: "list_all2 (\<lambda>p. received F den (snd p)) args vs"
    by (rule yields_run [OF decode_message_yields [OF assms(1) p(1,3)] i])
  show thesis
    by (rule that [OF call _ received_args_arrive [OF vs p(1)]]) (simp only: m d)
qed

lemma answer_with_ok:
  assumes "reads (env_lib E) den" and "makes_return (env_lib E) ok den" and "posts (env_conn E) outbox"
    and "msg_reader (env_lib E) msg = Inr i"
    and "decode_message (env_lib E) (env_floats E) (map (\<lambda>t. (t, default_val t)) ts) i = (Inr vs, i')"
    and "payload (env_lib E) (env_floats E) ok [(t, f vs)]"
  obtains s' x where "answer_with E ts t f msg s = (Inr (), s')" and "w_properties s' = w_properties s"
    and "w_objects s' = w_objects s"
    and "result_from_message (env_lib E) (env_floats E) t (hd (outbox (bus_conn (w_bus s'))))
         = Inr \<lparr>result_error = error_init, result_value = Some x\<rparr>"
    and "arrives (env_floats E) den (t, f vs) x"
    and "msg_type (env_lib E) (hd (outbox (bus_conn (w_bus s')))) = Mt_method_return"
proof -
  let ?L = "env_lib E" and ?F = "env_floats E"
  have p: "multi_type t" "sendable t (f vs)" "list_all (dval_ok ok) (dvals_of ?F t (f vs))" "clean ?L ?F (f vs)"
    using assms(6) by (simp_all add: payload_def sendable_args_def args_dvals_def)
  obtain m w wden where m: "message_new_method_return ?L msg = Some m"
    and wden: "writes ?L ok wden" "stores ?L den wden" "wden m [(w, None, [])]"
    and keep: "\<forall>m st. wden m st \<longrightarrow> msg_type ?L m = Mt_method_return"
    using assms(2) reply_types(1) unfolding makes_return_def by metis
  have "wden m [(iter_init_append ?L m, None, [])]"
    using wden(2,3) unfolding stores_def by blast
  then obtain w' m' where e: "encode ?L ?F t (f vs) (iter_init_append ?L m, m) = (Inr (), (w', m'))"
    and wd: "wden m' [(w', None, [] @ dvals_of ?F t (f vs))]"
    by (rule emits_run [OF encode_emits [OF wden(1) p(1-3)]])
  obtain j where j: "msg_reader ?L m' = Inr j" and "den j (dvals_of ?F t (f vs) @ [])"
    using msg_reader_ok [OF wden(2) wd] dvals_nonempty [OF p(1,2)] by auto
  then obtain x j' where x: "decode ?L ?F t (default_val t) j = (Inr x, j')" "received ?F den (f vs) x"
    by - (rule yields_run [OF decode_yields [OF assms(1) p(1,2,4)]])
  have "result_from_message ?L ?F t m' = Inr \<lparr>result_error = error_init, result_value = Some x\<rparr>"
    using j x(1) keep wd by (auto simp: result_from_message_def new_result_def Let_def stream_in_def)
  moreover obtain s' where s': "send_message E m' s = (Inr (), s')" "hd (outbox (bus_conn (w_bus s'))) = m'"
      "w_properties s' = w_properties s" "w_objects s' = w_objects s"
    using send_message_run [OF assms(3)] by metis
  moreover have "answer_with E ts t f msg s = send_message E m' s"
    using assms(4,5) m e
    by (simp add: answer_with_def make_method_return_def construct_message_def lift_res_def bind_eff_def
        msg_writer_def stream_out_def)
  moreover have "arrives ?F den (t, f vs) x"
    using x(2) received_no_variant [OF x(2) p(2)] by (simp add: arrives_def)
  moreover have "msg_type ?L m' = Mt_method_return" using keep wd by blast
  ultimately show thesis using that by simp
qed

section \<open>The call\<close>

lemma remote_call_run:
  fixes E :: "('m, 'i, 'w, 'd, 'p, 'h, 'e) env" and C :: "('m, 'i, 'w, 'c, 'q, 'g, 'f) env"
  assumes "reads (env_lib E) den" and "makes_call (env_lib E) ok den key" and "makes_return (env_lib E) ok den"
    and "c_str (fst key) = fst key" and "c_str (snd key) = snd key"
    and "env_lib C = env_lib E" and "env_floats C = env_floats E"
    and "posts (env_conn E) outbox" and "connected (env_lib E) (env_conn C) server outbox (on_new_message E ob)"
    and "w_objects (server (bus_conn (w_bus c))) ob = Some b" and "\<not> router_guard (ob_method_router b)"
    and "router_table (ob_method_router b) key = Some (Route_user h)"
    and "env_user E h = answer_with E (map fst args) t f"
    and "args \<noteq> []" and "payload (env_lib E) (env_floats E) ok args"
    and "\<forall>vs. list_all2 (arrives (env_floats E) den) args vs \<longrightarrow> payload (env_lib E) (env_floats E) ok [(t, f vs)]"
  obtains vs x c' where
    "on_bus (on_conn (invoke_method_synchronously (env_lib C) (env_conn C) (env_floats C) service path key timeout t
        args)) c = (Inr \<lparr>result_error = error_init, result_value = Some x\<rparr>, c')"
    and "list_all2 (arrives (env_floats E) den) args vs" and "arrives (env_floats E) den (t, f vs) x"
    and "w_properties (server (bus_conn (w_bus c'))) = w_properties (server (bus_conn (w_bus c)))"
    and "w_objects (server (bus_conn (w_bus c'))) = w_objects (server (bus_conn (w_bus c)))"
    and "w_objects c' = w_objects c"
proof -
  let ?s = "server (bus_conn (w_bus c))"
  obtain call i vs i' where call: "make_call (env_lib E) (env_floats E) service path key args = Inr call"
      "member_key (env_lib E) call = Inr key" "msg_reader (env_lib E) call = Inr i"
      "decode_message (env_lib E) (env_floats E) (map (\<lambda>t. (t, default_val t)) (map fst args)) i = (Inr vs, i')"
    and vs: "list_all2 (arrives (env_floats E) den) args vs"
    by (rule call_with_args [OF assms(1,2,4,5,14,15)])
  have pl: "payload (env_lib E) (env_floats E) ok [(t, f vs)]" using assms(16) vs by blast
  obtain s' x where s': "answer_with E (map fst args) t f call ?s = (Inr (), s')"
      "w_properties s' = w_properties ?s" "w_objects s' = w_objects ?s"
      "result_from_message (env_lib E) (env_floats E) t (hd (outbox (bus_conn (w_bus s'))))
         = Inr \<lparr>result_error = error_init, result_value = Some x\<rparr>"
    and x: "arrives (env_floats E) den (t, f vs) x"
    and mt: "msg_type (env_lib E) (hd (outbox (bus_conn (w_bus s')))) = Mt_method_return"
    by (rule answer_with_ok [where f = f, OF assms(1,3,8) call(3,4) pl])
  have "on_new_message E ob call ?s = (Inr True, s')"
    using assms(11-13) call(2) s'(1) unfolding on_new_message_def
    by (simp add: route_in_object_run [OF assms(10)] run_method_route_def then_eff_Inr return_eff_def)
  from call_reaches [OF assms(9) call(1) this mt, of timeout "result_from_message (env_lib E) (env_floats E) t"]
  show thesis
    using that s'(2-4) vs x unfolding invoke_method_synchronously_def assms(6,7) by metis
qed

text \<open>
  C2. A method of another process is called like a function. The call of a stub is routed to the handler
  that the serving object has installed for the method; every argument arrives there (equal to the one
  passed when its type has no variant), and what the handler computes from them is the value of
  the result, which is no error. This holds for arguments and results of all types that have a
  signature.
\<close>

theorem remote_call_computes:
  fixes E :: "('m, 'i, 'w, 'd, 'p, 'h, 'e) env" and C :: "('m, 'i, 'w, 'c, 'q, 'g, 'f) env"
  assumes "reads (env_lib E) den" and "makes_call (env_lib E) ok den key" and "makes_return (env_lib E) ok den"
    and "c_str (fst key) = fst key" and "c_str (snd key) = snd key"
    and "env_lib C = env_lib E" and "env_floats C = env_floats E"
    and "posts (env_conn E) outbox" and "connected (env_lib E) (env_conn C) server outbox (on_new_message E ob)"
    and "w_objects (server (bus_conn (w_bus c))) ob = Some b" and "\<not> router_guard (ob_method_router b)"
    and "router_table (ob_method_router b) key = Some (Route_user h)"
    and "env_user E h = answer_with E (map fst args) t f"
    and "args \<noteq> []" and "payload (env_lib E) (env_floats E) ok args"
    and "\<forall>vs. list_all2 (arrives (env_floats E) den) args vs \<longrightarrow> payload (env_lib E) (env_floats E) ok [(t, f vs)]"
  shows "\<exists>vs x c'.
     on_bus (on_conn (invoke_method_synchronously (env_lib C) (env_conn C) (env_floats C) service path key timeout t
        args)) c = (Inr \<lparr>result_error = error_init, result_value = Some x\<rparr>, c')
     \<and> list_all2 (arrives (env_floats E) den) args vs \<and> arrives (env_floats E) den (t, f vs) x
     \<and> w_properties (server (bus_conn (w_bus c'))) = w_properties (server (bus_conn (w_bus c)))"
  using remote_call_run [OF assms, where service = service and path = path and timeout = timeout] by metis

text \<open>A service that adds two numbers; the handler is installed by \<open>install_method_handler\<close>.\<close>

definition add_numbers :: "dval list cval list \<Rightarrow> dval list cval" where
  "add_numbers vs = (case vs of [V_int32 a, V_int32 b] \<Rightarrow> V_int32 (a + b) | _ \<Rightarrow> V_int32 0)"

definition adder_env :: "(list_message, dval list, unit, list_message list, unit, unit, unit) env" where
  "adder_env = server_env\<lparr>env_user := \<lambda>h. answer_with server_env [T_int32, T_int32] T_int32 add_numbers\<rparr>"

definition adder :: "(list_message list, unit, dval list, unit) world" where
  "adder = snd (then_eff (construct_object 0 \<lparr>service_name = ''x.S'', service_stub = False\<rparr> ''/x'')
     (install_method_handler 0 (''x.Y'', ''Add'') (Route_user ())) (empty_world []))"

definition adder_client where
  "adder_client = plain_env (pipe_connection (\<lambda>m d. d)
     (\<lambda>call s. let s = snd (on_new_message adder_env 0 call s) in (hd (bus_conn (w_bus s)), s)))"

theorem remote_call_computes_witness:
  "\<exists>c'. on_bus (on_conn (invoke_method_synchronously (env_lib adder_client) (env_conn adder_client)
        (env_floats adder_client) (use_service ''x.S'') ''/x'' (''x.Y'', ''Add'') 1000 T_int32
        [(T_int32, V_int32 40), (T_int32, V_int32 2)])) (empty_world adder)
     = (Inr \<lparr>result_error = error_init, result_value = Some (V_int32 42)\<rparr>, c')"
proof -
  let ?args = "[(T_int32, V_int32 40), (T_int32, V_int32 2)] :: (ctype \<times> dval list cval) list"
  have env: "env_lib adder_env = list_libdbus" "env_floats adder_env = sample_conversions"
      "env_conn adder_env = env_conn server_env" "env_lib adder_client = env_lib adder_env"
      "env_floats adder_client = env_floats adder_env"
    by (simp_all add: adder_env_def adder_client_def server_env_def)
  have m: "send_message adder_env = send_message server_env"
    by (simp add: fun_eq_iff send_message_def env(3))
  have "env_lib server_env = env_lib adder_env" "env_floats server_env = env_floats adder_env"
    by (simp_all add: adder_env_def)
  then have "answer_with adder_env ts t f = answer_with server_env ts t f" for ts t f
    by (simp only: fun_eq_iff answer_with_def m simp_thms)
  then have user: "env_user adder_env () = answer_with adder_env (map fst ?args) T_int32 add_numbers"
    by (simp add: adder_env_def)
  have r: "reads (env_lib adder_env) list_den" "makes_call (env_lib adder_env) (\<lambda>c r. True) list_den (''x.Y'', ''Add'')"
      "makes_return (env_lib adder_env) (\<lambda>c r. True) list_den"
    using list_rpc by (simp_all add: env list_makes_call rpc_library_def)
  have conn: "connected (env_lib adder_env) (env_conn adder_client) (\<lambda>d. d) (\<lambda>d. d) (on_new_message adder_env 0)"
    by (simp add: connected_def adder_client_def pipe_connection_def Let_def env)
  have po: "posts (env_conn adder_env) (\<lambda>d. d)" using sample_posts by (simp add: env)
  have c: "bus_conn (w_bus (empty_world adder)) = adder"
    by (simp add: empty_world_def constructed_bus_def new_bus_def)
  obtain b where b: "w_objects adder 0 = Some b" "\<not> router_guard (ob_method_router b)"
      "router_table (ob_method_router b) (''x.Y'', ''Add'') = Some (Route_user ())"
    by (simp add: adder_def world_run_simps get_key_def set_key_def)
  have a: "payload (env_lib adder_env) (env_floats adder_env) (\<lambda>c r. True) ?args"
    by (simp add: payload_def sendable_args_def args_dvals_def)
  have f: "\<forall>vs. list_all2 (arrives (env_floats adder_env) list_den) ?args vs
      \<longrightarrow> vs = [V_int32 40, V_int32 2]"
    by (auto simp: list_all2_Cons1 arrives_def)
  have g: "payload (env_lib adder_env) (env_floats adder_env) (\<lambda>c r. True) [(T_int32, add_numbers [V_int32 40, V_int32 2])]"
    by (simp add: payload_def sendable_args_def args_dvals_def add_numbers_def)
  show ?thesis
    using remote_call_computes [where E = adder_env and C = adder_client and c = "empty_world adder" and ob = 0
        and server = "\<lambda>d. d" and args = ?args and f = add_numbers and t = T_int32 and service = "use_service ''x.S''"
        and path = "''/x''" and timeout = 1000,
        OF r _ _ env(4,5) po conn _ b(2,3) user _ a] b(1) c f g
    by (fastforce simp: arrives_def add_numbers_def)
qed

section \<open>Asynchronous calls\<close>

lemma asynchronous_call_inv:
  assumes "elsewhere P run"
    and "invoke_method_asynchronously L K F P run service path key timeout c args d = (Inr pending, d')"
  shows "call_inv P [c] pending"
proof -
  obtain msg s0 where "send_with_reply_and_timeout K P run msg timeout d = (Inr s0, d')"
    and t: "then_call run c s0 = (Inr (), pending)"
    using assms(2)
    by (auto simp: invoke_method_asynchronously_def bind_eff_def lift_res_def throw_eff_def return_eff_def
        split: prod.splits sum.splits)
  then obtain p where "create_pending_call P run (Some p) = Inr s0"
    by (auto simp: send_with_reply_and_timeout_def split: prod.splits if_splits option.splits)
  then have "call_inv P [] s0" by (rule create_inv [OF assms(1)])
  then show ?thesis using then_call_inv [OF assms(1), of "[]" s0 c] t by (metis append_Nil Pair_inject)
qed

text \<open>Making the call and installing the continuation, up to any later history.\<close>

lemma asynchronous_call_made:
  assumes "elsewhere P run"
    and "make_call L F service path key args = Inr msg"
    and "conn_send_with_reply K msg (to_c_int timeout) d = ((True, Some p), d')"
    and "fst (call_set_notify P p)"
  obtains s0 pending where "create_pending_call P run (Some p) = Inr s0"
    and "call_step P run (Then c) s0 = (Inr (), pending)"
    and "invoke_method_asynchronously L K F P run service path key timeout c args d = (Inr pending, d')"
proof -
  obtain s0 where s0: "create_pending_call P run (Some p) = Inr s0" and inv: "call_inv P [] s0"
    by (rule create_call [OF assms(1,4)])
  obtain pending where t: "then_call run c s0 = (Inr (), pending)"
    by (rule then_call_inv [OF assms(1) inv])
  have "invoke_method_asynchronously L K F P run service path key timeout c args d = (Inr pending, d')"
    using assms(2,3) s0 t
    by (simp add: invoke_method_asynchronously_def lift_res_def bind_eff_def send_with_reply_and_timeout_def
        return_eff_def)
  then show thesis using that s0 t by simp
qed

text \<open>One continuation, installed when the call is made, is called with the reply that is noticed.\<close>

lemma calls_one: "installed es = [] \<Longrightarrow>
    calls w [c] es = (case noticed w es of None \<Rightarrow> [] | Some m \<Rightarrow> [(c, m)])"
  by (induction w "[c]" es rule: calls.induct) (auto split: awaiting.splits)

lemma calls_installed_first:
  assumes "installed es = []"
  shows "calls w [] (Notify True # Then c # es)
     = (case noticed w (Notify True # es) of None \<Rightarrow> [] | Some m \<Rightarrow> [(c, m)])"
  using assms calls_one [OF assms] by (simp split: awaiting.splits)

lemma asynchronous_call_run:
  assumes "elsewhere P run" and "keeps_reply P M there"
    and "make_call L F service path key args = Inr msg"
    and "conn_send_with_reply K msg (to_c_int timeout) d = ((True, Some p), d')"
    and "fst (call_set_notify P p)"
    and "installed es = []" and "may_happen M there es"
  obtains pending s where
    "invoke_method_asynchronously L K F P run service path key timeout c args d = (Inr pending, d')"
    and "each_eff (call_step P run) es pending = (Inr (), s)" and "\<not> pc_guard s"
    and "pc_message s = noticed (there (snd (call_set_notify P p))) (Notify True # es)"
    and "pc_log s = (case noticed (there (snd (call_set_notify P p))) (Notify True # es) of
       None \<Rightarrow> [] | Some m \<Rightarrow> [(c, m)])"
proof -
  let ?w = "there (snd (call_set_notify P p))"
  obtain s0 pending where s0: "create_pending_call P run (Some p) = Inr s0"
    and t: "call_step P run (Then c) s0 = (Inr (), pending)"
    and i: "invoke_method_asynchronously L K F P run service path key timeout c args d = (Inr pending, d')"
    by (rule asynchronous_call_made [OF assms(1,3-5)])
  have "may_happen M there (Then c # es)" using assms(7) by (simp add: may_happen_def)
  then obtain s where s: "each_eff (call_step P run) (Then c # es) s0 = (Inr (), s)" "\<not> pc_guard s"
      "pc_message s = noticed ?w (Notify True # Then c # es)" "pc_log s = calls ?w [] (Notify True # Then c # es)"
    using created_history [OF assms(1,2) s0] by blast
  show thesis
  proof (rule that [OF i])
    show "each_eff (call_step P run) es pending = (Inr (), s)"
      using s(1) t by (simp add: then_eff_Inr del: call_step.simps)
    show "pc_message s = noticed ?w (Notify True # es)" using s(3) by (simp split: awaiting.splits)
  qed (use s(2,4) calls_installed_first [OF assms(6)] in simp_all)
qed

lemma results_elsewhere:
  assumes "\<forall>c r s. deliver c r s = (Inr (), s)"
    and "\<forall>m. handed_out P m \<longrightarrow> (\<exists>r. result_from_message L F t m = Inr r)"
  shows "elsewhere P (run_result_continuation L F t deliver)"
  using assms by (fastforce simp: elsewhere_def run_result_continuation_def lift_res_def bind_eff_def)

text \<open>
  C21. An asynchronous call delivers its result once. Let libdbus send the call and hand out a pending call
  whose callback can be set up, let the replies it hands out (those in \<open>M\<close>) be readable as results, and let the function that
  takes the result return. Then, whatever happens to the call afterwards (arrival of the reply, callbacks of
  libdbus at any time and in any number, cancellation), the call is made, nothing throws or locks up, and the
  continuation has been called exactly once, with the reply, if the reply was here when the call was wrapped
  (before the continuation was installed) or libdbus called back while it was here, and never otherwise.
\<close>

theorem asynchronous_call_delivers_once:
  assumes "\<forall>c r s. deliver c r s = (Inr (), s)"
    and "\<forall>m. handed_out P m \<longrightarrow> (\<exists>r. result_from_message L F t m = Inr r)"
    and "keeps_reply P M there"
    and "make_call L F service path key args = Inr msg"
    and "conn_send_with_reply K msg (to_c_int timeout) d = ((True, Some p), d')"
    and "fst (call_set_notify P p)"
    and "installed es = []" and "may_happen M there es"
  shows "\<exists>pending s.
     invoke_method_asynchronously L K F P (run_result_continuation L F t deliver) service path key timeout c args d
       = (Inr pending, d')
     \<and> each_eff (call_step P (run_result_continuation L F t deliver)) es pending = (Inr (), s) \<and> \<not> pc_guard s
     \<and> pc_log s = (case noticed (there (snd (call_set_notify P p))) (Notify True # es) of
          None \<Rightarrow> [] | Some m \<Rightarrow> [(c, m)])"
  by (rule asynchronous_call_run [OF results_elsewhere [OF assms(1,2)] assms(3-8)]) blast

text \<open>A reply that cannot be read as the result makes the continuation throw. The exception leaves the
  function that libdbus called, the promise is not kept, and no other reply is looked at.\<close>

lemma unreadable_reply_escapes:
  assumes "\<not> pc_guard s" and "pc_state s = Pc_pending" and "pc_callback s = Some c"
    and "call_completed P (pc_raw s)" and "call_steal_reply P (pc_raw s) = (Some m, p')"
    and "result_from_message L F t m = Inl e"
  shows "\<exists>s'. on_pending_call_completed P (run_result_continuation L F t deliver) True s = (Inl e, s')
     \<and> pc_state s' = Pc_completed"
  using assms
  by (simp add: on_pending_call_completed_def with_pending_call_def guarded_def steal_and_notify_def
      is_pending_call_completed_def bind_eff_def lift_res_def from_raw_message_def construct_message_def
      notify_locked_def Let_def invoke_callback_def run_result_continuation_def)

text \<open>The adder again; libdbus hands out a reply with a sum, or an error.\<close>

definition sum_reply :: list_message where
  "sum_reply = (new_list_message 2)\<lparr>lm_frames := [(None, [D_basic 105 (Raw32 42)])]\<rparr>"

definition error_reply :: list_message where
  "error_reply = (new_list_message 3)\<lparr>lm_error := Some (''e'', ''no'')\<rparr>"

definition which_reply :: "bool \<Rightarrow> list_message" where
  "which_reply b = (if b then sum_reply else error_reply)"

definition one_reply :: "(bool awaiting, list_message) pending_lib" where
  "one_reply = \<lparr>call_completed = (\<lambda>p. p \<noteq> Awaiting),
     call_steal_reply = (\<lambda>p. case p of Here b \<Rightarrow> (Some (which_reply b), Over) | _ \<Rightarrow> (None, p)),
     call_set_notify = (\<lambda>p. (True, p)), call_cancel = give_up, call_arrive = (\<lambda>m. arrive (m = sum_reply))\<rparr>"

definition calling_connection :: "(unit, list_message, bool awaiting) connection" where
  "calling_connection =
     \<lparr>conn_open_private = (\<lambda>a d. ((True, None), d)), conn_get_private = (\<lambda>n d. ((True, None), d)),
      conn_add_filter = (\<lambda>d. d), conn_remove_filter = (\<lambda>d. d), conn_close = (\<lambda>d. d),
      conn_unref = (\<lambda>d. d), conn_set_exit_on_disconnect = (\<lambda>b d. d),
      conn_send = (\<lambda>m d. (Some 1, d)), conn_send_and_block = (\<lambda>m n d. ((None, None), d)),
      conn_send_with_reply = (\<lambda>m n d. ((True, Some Awaiting), d)),
      conn_add_match = (\<lambda>r d. (None, d)), conn_remove_match = (\<lambda>r d. (None, d)),
      conn_request_name = (\<lambda>n f d. ((1, None), d)), conn_release_name = (\<lambda>n d. ((1, None), d)),
      conn_name_has_owner = (\<lambda>n d. (True, d)),
      conn_try_register_path = (\<lambda>p obj d. ((True, None), d)), conn_unregister_path = (\<lambda>p d. d)\<rparr>"

abbreviation quiet_deliver ::
  "unit \<Rightarrow> dval list result \<Rightarrow> ((bool awaiting, list_message, unit) pending_call, unit) eff" where
  "quiet_deliver \<equiv> \<lambda>c r. return_eff ()"

lemma which_replies:
  "sum_reply \<noteq> error_reply" "msg_type list_libdbus sum_reply = Mt_method_return"
  "msg_type list_libdbus error_reply = Mt_error" "set_error_from_message list_libdbus error_reply = Some (''e'', ''no'')"
  by (simp_all add: sum_reply_def error_reply_def new_list_message_def msg_type_def message_type_of_def list_libdbus_def)

lemma one_reply_keeps: "keeps_reply one_reply {sum_reply, error_reply} (map_awaiting which_reply)"
  unfolding keeps_reply_def
proof (intro allI)
  fix p :: "bool awaiting"
  show "(\<forall>m. map_awaiting which_reply p = Here m \<longrightarrow> call_completed one_reply p
        \<and> (\<exists>p'. call_steal_reply one_reply p = (Some m, p') \<and> map_awaiting which_reply p' = Over))
     \<and> ((\<forall>m. map_awaiting which_reply p \<noteq> Here m) \<longrightarrow> call_completed one_reply p \<longrightarrow>
        (\<exists>p'. call_steal_reply one_reply p = (None, p') \<and> map_awaiting which_reply p' = map_awaiting which_reply p))
     \<and> (map_awaiting which_reply p \<noteq> Awaiting \<longrightarrow>
        map_awaiting which_reply (snd (call_set_notify one_reply p)) = map_awaiting which_reply p)
     \<and> map_awaiting which_reply (call_cancel one_reply p) = give_up (map_awaiting which_reply p)
     \<and> (\<forall>m \<in> {sum_reply, error_reply}.
        map_awaiting which_reply (call_arrive one_reply m p) = arrive m (map_awaiting which_reply p))"
    using which_replies(1) by (cases p) (auto simp: one_reply_def which_reply_def arrive_def give_up_def)
qed

lemma sum_reply_result:
  "result_from_message list_libdbus sample_conversions T_int32 sum_reply
     = Inr \<lparr>result_error = error_init, result_value = Some (V_int32 42)\<rparr>"
proof -
  have r: "msg_reader list_libdbus sum_reply = Inr [D_basic 105 (Raw32 42)]"
    by (simp add: msg_reader_def list_libdbus_def list_body_def sum_reply_def)
  have "list_den [D_basic 105 (Raw32 42)] (dvals_of sample_conversions T_int32 (V_int32 42) @ [])"
    by (simp add: list_den_def)
  then obtain x i where "decode list_libdbus sample_conversions T_int32 (default_val T_int32) [D_basic 105 (Raw32 42)]
      = (Inr x, i)" and x: "received sample_conversions list_den (V_int32 42) x"
    by (rule yields_run [OF decode_yields [OF list_reads], rotated 3]) simp_all
  then show ?thesis
    using r received_no_variant [OF x, of T_int32]
    by (simp add: result_from_message_def which_replies(2) new_result_def stream_in_def)
qed

lemma one_reply_readable:
  "\<forall>m. handed_out one_reply m \<longrightarrow> (\<exists>r. result_from_message list_libdbus sample_conversions T_int32 m = Inr r)"
proof -
  have "m \<in> {sum_reply, error_reply}" if h: "handed_out one_reply m" for m
  proof -
    obtain p p' where "call_steal_reply one_reply p = (Some m, p')" using h by (auto simp: handed_out_def)
    then show ?thesis by (cases p) (auto simp: one_reply_def which_reply_def split: if_splits)
  qed
  moreover have "\<exists>r. result_from_message list_libdbus sample_conversions T_int32 error_reply = Inr r"
    by (simp add: result_from_message_def which_replies(3) msg_error_def Let_def)
  ultimately show ?thesis using sum_reply_result by blast
qed

lemma sample_call:
  obtains call where "make_call list_libdbus sample_conversions (use_service ''x.S'') ''/x'' (''x.Y'', ''Add'')
      [(T_int32, V_int32 1)] = Inr call"
  by (rule call_with_args [where F = sample_conversions and args = "[(T_int32, V_int32 1)]"
        and service = "use_service ''x.S''" and path = "''/x''",
        OF list_reads list_makes_call [of "(''x.Y'', ''Add'')"]])
    (simp_all add: payload_def sendable_args_def args_dvals_def)

lemma sample_calling:
  "conn_send_with_reply calling_connection call n () = ((True, Some Awaiting), ())"
  "call_set_notify one_reply p = (True, p)" "call_arrive one_reply m = arrive (m = sum_reply)"
  by (simp_all add: calling_connection_def one_reply_def)

theorem asynchronous_call_delivers_once_witness:
  "\<exists>pending s. invoke_method_asynchronously list_libdbus calling_connection sample_conversions one_reply
         (run_result_continuation list_libdbus sample_conversions T_int32 quiet_deliver)
         (use_service ''x.S'') ''/x'' (''x.Y'', ''Add'') 1000 () [(T_int32, V_int32 1)] () = (Inr pending, ())
     \<and> each_eff (call_step one_reply (run_result_continuation list_libdbus sample_conversions T_int32 quiet_deliver))
         [Notify True, Arrive sum_reply, Notify True, Notify True] pending = (Inr (), s)
     \<and> pc_log s = [((), sum_reply)]"
proof -
  obtain call where call: "make_call list_libdbus sample_conversions (use_service ''x.S'') ''/x'' (''x.Y'', ''Add'')
      [(T_int32, V_int32 1)] = Inr call"
    by (rule sample_call)
  let ?es = "[Notify True, Arrive sum_reply, Notify True, Notify True] :: (bool awaiting, list_message, unit) call_event list"
  have n: "noticed (map_awaiting which_reply (snd (call_set_notify one_reply Awaiting))) (Notify True # ?es) = Some sum_reply"
    by (simp add: sample_calling arrive_def)
  have "may_happen {sum_reply, error_reply} (map_awaiting which_reply) ?es" by (simp add: may_happen_def)
  from asynchronous_call_delivers_once [where deliver = quiet_deliver and timeout = 1000, OF _ one_reply_readable one_reply_keeps call sample_calling(1) _ _ this]
  show ?thesis unfolding n by (auto simp: return_eff_def sample_calling(2) simp del: call_step.simps each_eff.simps)
qed

section \<open>Waiting for an asynchronous call\<close>

text \<open>
  \<open>transact_method\<close> waits on the future of an asynchronous call; \<open>es\<close> is what happens to the call while
  it waits. The promise is kept by the first call of the continuation whose reply can be read; without one
  the wait does not end (that the call is destroyed meanwhile, which would break the promise, is not
  modelled).
\<close>

definition future_get ::
  "('m, 'i, 'w) libdbus \<Rightarrow> float_conversions \<Rightarrow> ctype \<Rightarrow> ('p, 'm, 'c) pending_call \<Rightarrow> exn + 'i result" where
  "future_get L F t s =
     (case pc_log s of
        [] \<Rightarrow> Inl Diverges
      | (c, reply) # _ \<Rightarrow> (case result_from_message L F t reply of Inl e \<Rightarrow> Inl Diverges | Inr r \<Rightarrow> Inr r))"

definition transact_method ::
  "('m, 'i, 'w) libdbus \<Rightarrow> ('d, 'm, 'p) connection \<Rightarrow> float_conversions \<Rightarrow> ('p, 'm) pending_lib \<Rightarrow> service
     \<Rightarrow> string \<Rightarrow> string \<times> string \<Rightarrow> int \<Rightarrow> ctype \<Rightarrow> (ctype \<times> 'i cval) list \<Rightarrow> ('p, 'm, unit) call_event list
     \<Rightarrow> ('d, 'i result) eff" where
  "transact_method L K F P service path method timeout t args es =
     (let run = run_result_continuation L F t (\<lambda>c r. return_eff ()) in
      bind_eff (invoke_method_asynchronously L K F P run service path method timeout () args)
        (\<lambda>pending. lift_res (future_get L F t (snd (each_eff (call_step P run) es pending)))))"


text \<open>A connection on which every call is answered with a sum, and one on which with an error.\<close>

definition answering_peer :: "bool \<Rightarrow> (unit, list_message, unit) connection" where
  "answering_peer b = pipe_connection (\<lambda>m d. d) (\<lambda>m d. (which_reply b, d))"


end
