(* ===== verification/Proxies.thy ===== *)
theory Proxies
  imports Dbus_Object
begin

text \<open>
  The base classes of proxies and implementations: include/core/dbus/stub.h and
  include/core/dbus/skeleton.h, with \<open>Service::add_service<Interface>\<close> of include/core/dbus/service.h.
\<close>

text \<open>The state of \<open>add_service<Interface>\<close> is its static variable: the service, and the number of the
  bus it was added on. When the initialisation throws, the variable stays uninitialised.\<close>

definition add_service_for_interface ::
  "('d, 'm, 'p) connection \<Rightarrow> nat \<Rightarrow> string \<Rightarrow> request_name_flag option
     \<Rightarrow> ('d \<times> (nat \<times> service) option, nat \<times> service) eff" where
  "add_service_for_interface K bus name flags s =
     (case snd s of
        Some instance \<Rightarrow> (Inr instance, s)
      | None \<Rightarrow>
          (case add_service K name (case flags of None \<Rightarrow> default_service_flags | Some f \<Rightarrow> f) (fst s) of
             (Inl e, d) \<Rightarrow> (Inl e, (d, None))
           | (Inr new_service, d) \<Rightarrow> (Inr (bus, new_service), (d, Some (bus, new_service)))))"

definition construct_skeleton ::
  "('d, 'm, 'p) connection \<Rightarrow> nat \<Rightarrow> string \<Rightarrow> ('d \<times> (nat \<times> service) option, nat \<times> service) eff" where
  "construct_skeleton K bus name = add_service_for_interface K bus name None"

definition construct_stub ::
  "nat \<Rightarrow> string \<Rightarrow> (('d, 'h, 'i, 'e) world, service \<times> nat) eff" where
  "construct_stub n name =
     (let service = use_service name in
      bind_eff (root_object n service None) (\<lambda>root. return_eff (service, root)))"

text \<open>The static variable is one for all buses: a skeleton on a second bus gets the service that lives
  on the first, and the name is not requested on the second.\<close>

lemma second_skeleton_uses_first_bus:
  assumes "construct_skeleton K bus name (d, None) = (Inr s, (d1, instance))"
  shows "construct_skeleton K' other name (d2, instance) = (Inr s, (d2, instance)) \<and> fst s = bus"
  using assms
  by (auto simp: construct_skeleton_def add_service_for_interface_def split: prod.splits sum.splits)

end
