(* ===== verification/Signal_Delivery.thy ===== *)
theory Signal_Delivery
  imports Signal_Properties Method_Calls
begin

text \<open>
  A signal from the process that emits it to the handlers of the process that listens: what
  \<open>emit\<close> sends, the way through the filter of the bus and the routers of the bus and of the
  object, and the handlers of the signal.
\<close>

section \<open>Signals as messages\<close>

text \<open>What is used of libdbus: a new signal is empty, takes values and gives them back, and keeps its
  type, path, interface and member while values are written.\<close>

definition makes_signal ::
  "('m, 'i, 'w) libdbus \<Rightarrow> (int \<Rightarrow> raw \<Rightarrow> bool) \<Rightarrow> ('i \<Rightarrow> dval list \<Rightarrow> bool) \<Rightarrow> string
     \<Rightarrow> string \<times> string \<Rightarrow> bool" where
  "makes_signal L ok den path key \<longleftrightarrow> (\<exists>m w sden.
     message_new_signal L path (fst key) (snd key) = Some m
     \<and> writes L ok sden \<and> stores L den sden \<and> sden m [(w, None, [])]
     \<and> (\<forall>m st. sden m st \<longrightarrow> message_get_type L m = 4 \<and> message_get_path L m = Some path
          \<and> message_get_interface L m = Some (fst key) \<and> message_get_member L m = Some (snd key)))"

lemma signal_type: "message_get_type L m = 4 \<Longrightarrow> msg_type L m = Mt_signal"
  by (simp add: msg_type_def message_type_of_def)

lemma signal_path:
  "message_get_path L m = Some path \<Longrightarrow> validate_path L (c_str path) \<Longrightarrow> msg_path L m = Inr path"
  by (simp add: msg_path_def string_from_chars_def make_object_path_def)

lemma proper_append [simp]: "proper (ds @ es) \<longleftrightarrow> proper ds \<and> proper es"
  by (auto simp: proper_def)

lemma dvals_proper: "proper (dvals_of F t v)"
proof (induction F t v rule: dvals_of.induct)
  case (20 F t vs)
  then show ?case by (auto simp: proper_def split: ctype.split)
qed (auto simp: proper_def split: ctype.split option.split)

text \<open>The message that is sent, and what can be read from it.\<close>

lemma emit_signal_run:
  assumes "reads L den" and "makes_signal L ok den path key" and "posts K outbox"
    and "c_str path = path" and "c_str (fst key) = fst key" and "c_str (snd key) = snd key"
    and "payload L F ok [(t, v)]"
  obtains m d' x where "signal_emit L K F path key t v d = (Inr (), d')" and "outbox d' = m # outbox d"
    and "msg_type L m = Mt_signal" and "message_get_path L m = Some path" and "member_key L m = Inr key"
    and "carries L den m (dvals_of F t v)"
    and "fst (stream_in L F t (default_val t) (snd (iter_init L m))) = Inr x" and "arrives F den (t, v) x"
proof -
  have p: "multi_type t" "sendable t v" "clean L F v" "list_all (dval_ok ok) (args_dvals F [(t, v)])"
      "sendable_args [(t, v)]"
    using assms(7) by (simp_all add: payload_def sendable_args_def)
  have ds: "args_dvals F [(t, v)] = dvals_of F t v" by (simp add: args_dvals_def)
  obtain m w sden where m: "message_new_signal L path (fst key) (snd key) = Some m"
    and sden: "writes L ok sden" "stores L den sden" "sden m [(w, None, [])]"
    and keep: "\<forall>m st. sden m st \<longrightarrow> msg_type L m = Mt_signal \<and> message_get_path L m = Some path
          \<and> member_key L m = Inr key"
    using assms(2) signal_type member_key_ok unfolding makes_signal_def by metis
  have "sden m [(iter_init_append L m, None, [])]"
    using sden(2,3) unfolding stores_def by blast
  then obtain w' m' where e: "encode_message L F [(t, v)] (iter_init_append L m, m) = (Inr (), (w', m'))"
    and wd: "sden m' [(w', None, [] @ dvals_of F t v)]"
    by (rule emits_run [OF encode_message_emits [OF sden(1) p(5,4)], unfolded ds])
  have c: "carries L den m' (dvals_of F t v)"
    using sden(2) wd dvals_nonempty [OF p(1,2)] dvals_proper unfolding stores_def carries_def
    by (metis append_Nil)
  then have "den (snd (iter_init L m')) (dvals_of F t v @ [])" by (simp add: carries_def)
  then obtain x j where x: "decode L F t (default_val t) (snd (iter_init L m')) = (Inr x, j)" "received F den v x"
    by (rule yields_run [OF decode_yields [OF assms(1) p(1-3)]])
  obtain k d' where d': "conn_send K m' d = (Some k, d')" "outbox d' = m' # outbox d"
    using assms(3) unfolding posts_def by (metis not_None_eq prod.collapse)
  have "signal_emit L K F path key t v d = (Inr (), d')"
    using m e d'(1) assms(4-6)
    by (simp add: signal_emit_def emit_signal_def factory_make_signal_def make_signal_def construct_message_def lift_res_def
        bind_eff_def msg_writer_def then_eff_def bus_send_def return_eff_def)
  moreover have "arrives F den (t, v) x"
    using x(2) received_no_variant [OF x(2) p(2)] by (simp add: arrives_def)
  ultimately show thesis
    using that [of d' m' x] d'(2) keep wd c x(1) by (simp add: stream_in_def)
qed

section \<open>The way to the signal\<close>

text \<open>The world has an object at the path, whose router leads to the route \<open>r\<close>.\<close>

definition leads_to ::
  "('d, 'h, 'i, 'e) world \<Rightarrow> string \<Rightarrow> string \<times> string \<Rightarrow> nat \<Rightarrow> 'h dbus_object \<Rightarrow> object_route \<Rightarrow> bool" where
  "leads_to s path key n ob r \<longleftrightarrow> wired (w_bus s)
     \<and> router_table (bus_signal_router (w_bus s)) path = Some n \<and> w_objects s n = Some ob
     \<and> \<not> router_guard (ob_signal_router ob) \<and> router_table (ob_signal_router ob) key = Some r"

definition listens :: "('d, 'h, 'i, 'e) world \<Rightarrow> string \<Rightarrow> string \<times> string \<Rightarrow> nat \<Rightarrow> bool" where
  "listens s path key g \<longleftrightarrow> (\<exists>n ob. leads_to s path key n ob (Route_signal g))"

lemma filter_reaches_route:
  assumes "leads_to s path key n ob r" and "msg_type (env_lib E) m = Mt_signal" and "msg_path (env_lib E) m = Inr path"
    and "member_key (env_lib E) m = Inr key" and "run_object_route E n r m s = (Inr (), s')"
  shows "filter_message E (Some m) s = (Inr Not_yet_handled, s')"
proof -
  have w: "wired (w_bus s)" "router_table (bus_signal_router (w_bus s)) path = Some n"
    and ob: "w_objects s n = Some ob" "\<not> router_guard (ob_signal_router ob)"
      "router_table (ob_signal_router ob) key = Some r"
    using assms(1) unfolding leads_to_def by blast+
  have "object_signal E n m s = (Inr (), s')"
    unfolding object_signal_def using assms(4,5) ob(2,3)
    by (simp add: then_eff_def bind_eff_def route_in_object_run [OF ob(1)] return_eff_def)
  then have "route_signal w_bus (\<lambda>b s. s\<lparr>w_bus := b\<rparr>) (env_lib E) (object_signal E) m s = (Inr True, s')"
    using w assms(3)
    by (subst route_signal_run) (simp_all add: wired_def then_eff_def bind_eff_def return_eff_def)
  then show ?thesis
    using w(1) assms(2)
    by (simp add: filter_message_def static_handle_message_def from_raw_message_def construct_message_def
        lift_res_def bind_eff_def handle_message_run then_eff_def return_eff_def)
qed

lemma filter_reaches_signal:
  assumes "listens s path key g" and "msg_type (env_lib E) m = Mt_signal" and "msg_path (env_lib E) m = Inr path"
    and "member_key (env_lib E) m = Inr key" and "env_signal E g m s = (Inr (), s')"
  shows "filter_message E (Some m) s = (Inr Not_yet_handled, s')"
  using assms filter_reaches_route [of s path key _ _ "Route_signal g" E m s']
  by (auto simp: listens_def run_object_route_def)

text \<open>Handlers that return.\<close>

lemma each_call_returns:
  assumes "\<And>h v s. \<exists>s'. call h v s = (Inr (), s')"
  shows "\<exists>s'. each_eff (\<lambda>e. call (f e) v) es s = (Inr (), s')"
proof (induction es arbitrary: s)
  case (Cons e es)
  obtain s1 where "call (f e) v s = (Inr (), s1)" using assms by blast
  then show ?case using Cons.IH [of s1] by (simp add: then_eff_Inr)
qed (simp add: return_eff_def)

lemma signal_message_returns:
  assumes "reads L den" and "carries L den msg ds"
    and "fst (stream_in L F t (default_val t) (snd (iter_init L msg))) = Inr v"
    and "\<forall>e \<in> set (sig_handlers (sw_signal s)). answerable ds e" and "\<not> sig_guard (sw_signal s)"
    and "\<And>h v s. \<exists>s'. call h v s = (Inr (), s')"
  obtains s' where "signal_message L F t call msg s = (Inr (), s')"
    and "with_handlers (each_eff (\<lambda>e. call (snd (snd e)) v)
           (filter (matches ds) (sig_handlers (sw_signal s)))) s = (Inr (), s')"
proof -
  let ?each = "each_eff (\<lambda>e. call (snd (snd e)) v) (filter (matches ds) (sig_handlers (sw_signal s)))"
  have "\<exists>s'. with_handlers ?each s = (Inr (), s')"
  proof -
    obtain u where "?each (s\<lparr>sw_signal := sw_signal s\<lparr>sig_guard := True\<rparr>\<rparr>) = (Inr (), u)"
      using each_call_returns [of call "\<lambda>e. snd (snd e)", OF assms(6)] by blast
    then show ?thesis using assms(5) by (simp add: with_handlers_def guarded_def)
  qed
  then obtain s' where s': "with_handlers ?each s = (Inr (), s')" by blast
  moreover from this have "with_handlers (\<lambda>s. each_eff (\<lambda>e. call (snd (snd e)) v)
      (filter (matches ds) (sig_handlers (sw_signal s))) s) s = (Inr (), s')"
    by (simp add: with_handlers_def guarded_def split: if_splits prod.splits)
  ultimately show thesis
    using that [of s'] by (simp add: signal_message_run [OF assms(1-4)] noexcept_eff_def catch_eff_def)
qed

section \<open>Handlers that come back\<close>

text \<open>
  The handlers run under the mutex of the signal. A handler that connects another one to the signal that
  calls it, or disconnects itself, never returns; neither does one of a signal without an argument.
\<close>

lemma handler_connects_locks_up:
  assumes "reads L den" and "carries L den msg ds"
    and "fst (stream_in L F t (default_val t) (snd (iter_init L msg))) = Inr v"
    and "\<not> sig_guard (sw_signal s)" and "sig_handlers (sw_signal s) = (n, [], h) # es"
    and "call h v = then_eff (signal_connect K h') (return_eff ()) \<or> call h v = signal_disconnect K n"
  shows "fst (signal_message L F t call msg s) = Inl Deadlock"
proof -
  have "call h v s' = (Inl Deadlock, s')" if "sig_guard (sw_signal s')" for s'
    using assms(6) that
    by (auto simp: signal_connect_def connect_with_match_args_def signal_disconnect_def with_handlers_def
        guarded_def then_eff_def bind_eff_def)
  then show ?thesis
    using assms(3-5) carries_reader [OF assms(2)]
    by (simp add: signal_message_def lift_res_def bind_eff_def with_handlers_def guarded_def then_eff_def
        call_handler_def noexcept_eff_def catch_eff_def throw_eff_def)
qed

lemma void_handler_connects_locks_up:
  assumes "\<not> vs_guard (vw_signal s)" and "vs_handlers (vw_signal s) = (n, h) # es"
    and "call h = then_eff (void_connect h') (return_eff ()) \<or> call h = void_disconnect n"
  shows "fst (void_message call msg s) = Inl Deadlock"
proof -
  have "call h s' = (Inl Deadlock, s')" if "vs_guard (vw_signal s')" for s'
    using assms(3) that
    by (auto simp: void_connect_def void_disconnect_def with_void_handlers_def guarded_def then_eff_def bind_eff_def)
  then show ?thesis
    using assms(1,2) by (simp add: void_message_def with_void_handlers_def guarded_def then_eff_def bind_eff_def)
qed

section \<open>From the emission to the handlers\<close>

text \<open>
  C12. A signal that is emitted arrives. \<open>emit\<close> in one process sends one message. When the
  other process gets it, in which an object at the path of the emitting object has the signal, the
  filter of the bus and the two routers lead it to \<open>operator()\<close> of that signal (\<open>get\<close> and \<open>put\<close>
  find it in the process); there every handler whose match arguments the emitted value has is called
  once, in order, with the value that was emitted (equal to it when its type has no variant), and no
  other handler is. libdbus is told that the message is still to be handled.
\<close>

theorem emitted_signal_arrives:
  fixes C :: "('m, 'i, 'w, 'c, 'q, 'g, 'f) env" and K :: "('d, 'm, 'p) connection"
    and get :: "('c, 'g, 'i, 'f) world \<Rightarrow> ('k, 'r, 'x) signal_world"
  assumes "reads (env_lib C) den" and "makes_signal (env_lib C) ok den path key" and "posts K outbox"
    and "c_str path = path" and "c_str (fst key) = fst key" and "c_str (snd key) = snd key"
    and "validate_path (env_lib C) path" and "payload (env_lib C) (env_floats C) ok [(t, v)]"
    and "listens c path key g"
    and "env_signal C g = (\<lambda>msg. zoom get put (signal_message (env_lib C) (env_floats C) t call msg))"
    and "\<not> sig_guard (sw_signal (get c))" and "\<And>h v s. \<exists>s'. call h v s = (Inr (), s')"
    and "\<forall>e \<in> set (sig_handlers (sw_signal (get c))). answerable (dvals_of (env_floats C) t v) e"
  shows "\<exists>m d' x s'. signal_emit (env_lib C) K (env_floats C) path key t v d = (Inr (), d')
     \<and> outbox d' = m # outbox d \<and> arrives (env_floats C) den (t, v) x
     \<and> with_handlers (each_eff (\<lambda>e. call (snd (snd e)) x) (filter (matches (dvals_of (env_floats C) t v))
          (sig_handlers (sw_signal (get c))))) (get c) = (Inr (), s')
     \<and> filter_message C (Some m) c = (Inr Not_yet_handled, put s' c)"
proof -
  obtain m d' x where emit: "signal_emit (env_lib C) K (env_floats C) path key t v d = (Inr (), d')"
      "outbox d' = m # outbox d"
    and m: "msg_type (env_lib C) m = Mt_signal" "message_get_path (env_lib C) m = Some path"
      "member_key (env_lib C) m = Inr key" "carries (env_lib C) den m (dvals_of (env_floats C) t v)"
      "fst (stream_in (env_lib C) (env_floats C) t (default_val t) (snd (iter_init (env_lib C) m))) = Inr x"
    and x: "arrives (env_floats C) den (t, v) x"
    by (rule emit_signal_run [OF assms(1-6,8)])
  obtain s' where "signal_message (env_lib C) (env_floats C) t call m (get c) = (Inr (), s')"
    and s': "with_handlers (each_eff (\<lambda>e. call (snd (snd e)) x) (filter (matches (dvals_of (env_floats C) t v))
          (sig_handlers (sw_signal (get c))))) (get c) = (Inr (), s')"
    by (rule signal_message_returns [OF assms(1) m(4,5) assms(13,11,12)])
  then have "env_signal C g m c = (Inr (), put s' c)"
    by (simp add: assms(10) zoom_def)
  then have "filter_message C (Some m) c = (Inr Not_yet_handled, put s' c)"
    using filter_reaches_signal [OF assms(9) m(1) _ m(3)] signal_path [OF m(2)] assms(4,7) by simp
  then show ?thesis using emit x s' by blast
qed

text \<open>A process that listens with three handlers; the connection keeps the signal, whose own connection
  is the record of the calls.\<close>

definition note_call ::
  "nat \<Rightarrow> dval list cval \<Rightarrow> ((nat, nat, (nat \<times> dval list cval) list) signal_world, unit) eff" where
  "note_call h v s = (Inr (), s\<lparr>sw_conn := sw_conn s @ [(h, v)]\<rparr>)"

definition listening_signal :: "(nat, nat, (nat \<times> dval list cval) list) signal_world" where
  "listening_signal = \<lparr>sw_signal = (new_typed_signal (use_service ''x.S'') ''/a'' ''x.Y'' ''N'')
       \<lparr>sig_handlers := [(0, [], 1), (1, [(0, ''on'')], 2), (2, [(0, ''off'')], 3)]\<rparr>,
     sw_router = new_router, sw_conn = []\<rparr>"

definition listening_world where
  "listening_world = snd (then_eff (construct_object 0 (use_service ''x.S'') ''/a'')
     (on_object 0 (zoom ob_signal_router (\<lambda>t ob. ob\<lparr>ob_signal_router := t\<rparr>)
        (install_route (''x.Y'', ''N'') (Route_signal 0)))) (empty_world listening_signal))"

definition listening_env where
  "listening_env = (plain_env (pipe_connection (\<lambda>m d. d) (\<lambda>m d. (m, d))))
     \<lparr>env_signal := \<lambda>g msg. zoom (\<lambda>s. bus_conn (w_bus s)) (\<lambda>x s. s\<lparr>w_bus := w_bus s\<lparr>bus_conn := x\<rparr>\<rparr>)
        (signal_message list_libdbus sample_conversions T_string note_call msg)\<rparr>"

lemma list_makes_signal: "makes_signal list_libdbus (\<lambda>c r. True) list_den path key"
proof -
  let ?m = "(new_list_message 4)\<lparr>lm_path := Some path, lm_interface := Some (fst key), lm_member := Some (snd key)\<rparr>"
  let ?P = "\<lambda>m. lm_type m = 4 \<and> lm_path m = Some path \<and> lm_interface m = Some (fst key)
      \<and> lm_member m = Some (snd key)"
  show ?thesis
    unfolding makes_signal_def
    by (intro exI [of _ ?m] exI [of _ "()"] exI [of _ "\<lambda>m st. list_wden m st \<and> ?P m"] conjI
        list_writes_keeping list_stores_keeping)
      (auto simp: list_libdbus_def list_wden_def new_list_message_def)
qed

theorem emitted_signal_arrives_witness:
  "\<exists>m. signal_emit list_libdbus (pipe_connection (\<lambda>m d. m # d) (\<lambda>m d. (m, d)) :: (list_message list, list_message, unit) connection)
         sample_conversions ''/a'' (''x.Y'', ''N'') T_string (V_string ''on'') [] = (Inr (), [m])
     \<and> sw_conn (bus_conn (w_bus (snd (filter_message listening_env (Some m) listening_world))))
         = [(1, V_string ''on''), (2, V_string ''on'')]"
proof -
  let ?K = "pipe_connection (\<lambda>m d. m # d) (\<lambda>m d. (m, d)) :: (list_message list, list_message, unit) connection"
  let ?get = "\<lambda>s :: (_, unit, dval list, unit) world. bus_conn (w_bus s)"
  let ?put = "\<lambda>x s :: (_, unit, dval list, unit) world. s\<lparr>w_bus := w_bus s\<lparr>bus_conn := x\<rparr>\<rparr>"
  have env: "env_lib listening_env = list_libdbus" "env_floats listening_env = sample_conversions"
      "env_signal listening_env 0 = (\<lambda>msg. zoom ?get ?put (signal_message list_libdbus sample_conversions T_string note_call msg))"
    by (simp_all add: listening_env_def)
  have k: "posts ?K (\<lambda>d. d)" by (simp add: posts_def pipe_connection_def)
  have l: "listens listening_world ''/a'' (''x.Y'', ''N'') 0"
    unfolding listens_def leads_to_def
    by (simp add: listening_world_def world_run_simps use_service_def wired_def properties_changed_key_def
        properties_interface_def)
  have g: "?get listening_world = listening_signal"
    by (simp add: listening_world_def world_run_simps use_service_def)
  have "validate_path list_libdbus ''/a''" by (simp add: list_libdbus_def)
  moreover have "payload list_libdbus sample_conversions (\<lambda>c r. True) [(T_string, V_string ''on'')]"
    by (simp add: payload_def sendable_args_def args_dvals_def)
  moreover have "\<not> sig_guard (sw_signal listening_signal)"
      "\<forall>e \<in> set (sig_handlers (sw_signal listening_signal)).
         answerable (dvals_of sample_conversions T_string (V_string ''on'' :: dval list cval)) e"
    by (simp_all add: listening_signal_def new_typed_signal_def answerable_def string_argument_def)
  ultimately obtain m d' x s' where *: "signal_emit list_libdbus ?K sample_conversions ''/a'' (''x.Y'', ''N'')
        T_string (V_string ''on'') [] = (Inr (), d')" "d' = [m]"
      "arrives sample_conversions list_den (T_string, V_string ''on'') x"
      "with_handlers (each_eff (\<lambda>e. note_call (snd (snd e)) x)
         (filter (matches (dvals_of sample_conversions T_string (V_string ''on'' :: dval list cval)))
            (sig_handlers (sw_signal listening_signal)))) listening_signal = (Inr (), s')"
      "filter_message listening_env (Some m) listening_world = (Inr Not_yet_handled, ?put s' listening_world)"
    using emitted_signal_arrives [where C = listening_env and K = ?K and get = ?get and put = ?put and d = "[]"
        and call = note_call and t = T_string and v = "V_string ''on''", unfolded env(1,2),
        OF list_reads list_makes_signal k _ _ _ _ _ l env(3)]
    by (auto simp: note_call_def g)
  have x: "x = V_string ''on''" using *(3) by (simp add: arrives_def)
  have "sw_conn s' = [(1, V_string ''on''), (2, V_string ''on'')]"
    using *(4) unfolding x
    by (auto simp: listening_signal_def new_typed_signal_def matches_def string_argument_def with_handlers_def
        guarded_def then_eff_def bind_eff_def note_call_def return_eff_def)
  then show ?thesis using *(1,2,5) by (intro exI [of _ m]) simp
qed

end
