(* ===== verification/Object_Lifecycle.thy ===== *)
theory Object_Lifecycle
  imports Object_Properties
begin

text \<open>
  The objects of a bus over time: constructing, exporting and destroying them, in any order, and what
  becomes of the routes of the bus.
\<close>

section \<open>Histories\<close>

text \<open>No object that is alive has the path.\<close>

definition path_free :: "('d, 'h, 'i, 'e) world \<Rightarrow> string \<Rightarrow> bool" where
  "path_free s path \<longleftrightarrow> (\<forall>n b. w_objects s n = Some b \<longrightarrow> ob_path b \<noteq> path)"

text \<open>Everything else that leaves the routers of the bus and the paths of the objects alone.\<close>

definition same_routing :: "('d, 'h, 'i, 'e) world \<Rightarrow> ('d, 'h, 'i, 'e) world \<Rightarrow> bool" where
  "same_routing s s' \<longleftrightarrow> bus_type_router (w_bus s') = bus_type_router (w_bus s)
     \<and> bus_signal_router (w_bus s') = bus_signal_router (w_bus s)
     \<and> (\<forall>n. map_option ob_path (w_objects s' n) = map_option ob_path (w_objects s n))"

inductive object_step ::
  "('m, 'i, 'w, 'd, 'p, 'h, 'e) env \<Rightarrow> ('d, 'h, 'i, 'e) world \<Rightarrow> ('d, 'h, 'i, 'e) world \<Rightarrow> bool"
  for E where
  step_use: "w_objects s n = None \<Longrightarrow> path_free s path \<Longrightarrow> object_for_path n service path s = (r, s')
     \<Longrightarrow> object_step E s s'"
| step_add: "w_objects s n = None \<Longrightarrow> path_free s path
     \<Longrightarrow> service_add_object_for_path E n service path s = (r, s') \<Longrightarrow> object_step E s s'"
| step_destroy: "w_objects s n \<noteq> None \<Longrightarrow> object_destructor E n s = (r, s') \<Longrightarrow> object_step E s s'"
| step_other: "same_routing s s' \<Longrightarrow> object_step E s s'"

inductive object_reachable ::
  "('m, 'i, 'w, 'd, 'p, 'h, 'e) env \<Rightarrow> ('d, 'h, 'i, 'e) world \<Rightarrow> ('d, 'h, 'i, 'e) world \<Rightarrow> bool"
  for E s0 where
  objects_start: "object_reachable E s0 s0"
| objects_step: "object_reachable E s0 s \<Longrightarrow> object_step E s s' \<Longrightarrow> object_reachable E s0 s'"

text \<open>The routes of the bus are the paths of the objects that are alive.\<close>

definition routes_alive :: "('d, 'h, 'i, 'e) world \<Rightarrow> bool" where
  "routes_alive s \<longleftrightarrow> wired (w_bus s)
     \<and> (\<forall>path n. router_table (bus_signal_router (w_bus s)) path = Some n
          \<longleftrightarrow> (\<exists>b. w_objects s n = Some b \<and> ob_path b = path))"

lemma routes_alive_free: "routes_alive s \<Longrightarrow> \<not> router_guard (bus_signal_router (w_bus s))"
  by (simp add: routes_alive_def wired_def)

lemma routes_alive_put:
  assumes "routes_alive s" and "w_objects s n = None" and "path_free s path"
    and "bus_type_router (w_bus s') = bus_type_router (w_bus s)"
    and "bus_signal_router (w_bus s') = put_route path n (bus_signal_router (w_bus s))"
    and "w_objects s' = (w_objects s)(n \<mapsto> b)" and "ob_path b = path"
  shows "routes_alive s'"
  using assms by (auto simp: routes_alive_def wired_def put_route_def path_free_def)

lemma routes_alive_erase:
  assumes "routes_alive s" and "w_objects s n = Some b"
    and "bus_type_router (w_bus s') = bus_type_router (w_bus s)"
    and "bus_signal_router (w_bus s') = erase_route (ob_path b) (bus_signal_router (w_bus s))"
    and "w_objects s' = (w_objects s)(n := None)"
  shows "routes_alive s'"
proof -
  have t: "router_table (bus_signal_router (w_bus s)) path = Some k
      \<longleftrightarrow> (\<exists>b. w_objects s k = Some b \<and> ob_path b = path)" for path k
    using assms(1) by (simp add: routes_alive_def)
  have "router_table (bus_signal_router (w_bus s)) (ob_path b) = Some n" using assms(2) t by blast
  then have only: "k = n" if "w_objects s k = Some c" "ob_path c = ob_path b" for k c
    using that t [of "ob_path b" k] by auto
  have "router_table (erase_route (ob_path b) (bus_signal_router (w_bus s))) path = Some k
      \<longleftrightarrow> (\<exists>c. ((w_objects s)(n := None)) k = Some c \<and> ob_path c = path)" for path k
  proof (cases "path = ob_path b")
    case True
    then show ?thesis using only [of k] by (auto simp: erase_route_def)
  next
    case False
    then have "\<not> (k = n \<and> (\<exists>c. w_objects s k = Some c \<and> ob_path c = path))" using assms(2) by auto
    then show ?thesis using False t [of path k] by (auto simp: erase_route_def)
  qed
  moreover have "wired (w_bus s')"
    using assms(1,3,4) by (simp add: routes_alive_def wired_def)
  ultimately show ?thesis by (simp add: routes_alive_def assms(4,5))
qed

lemma routes_alive_other:
  assumes "routes_alive s" and "same_routing s s'"
  shows "routes_alive s'"
proof -
  have "(\<exists>b. w_objects s' n = Some b \<and> ob_path b = path) \<longleftrightarrow> (\<exists>b. w_objects s n = Some b \<and> ob_path b = path)"
    for n path
  proof -
    have "map_option ob_path (w_objects s' n) = Some path \<longleftrightarrow> map_option ob_path (w_objects s n) = Some path"
      using assms(2) by (simp add: same_routing_def)
    then show ?thesis by (simp add: map_option_eq_Some)
  qed
  then show ?thesis using assms by (simp add: routes_alive_def same_routing_def wired_def)
qed

lemma object_for_path_alive:
  assumes "routes_alive s" and "w_objects s n = None" and "path_free s path"
    and "object_for_path n service path s = (r, s')"
  shows "routes_alive s' \<and> (\<exists>b. w_objects s' n = Some b \<and> ob_path b = path)"
proof -
  obtain s1 b where 1: "construct_object n service path s = (Inr (), s1)"
    "bus_type_router (w_bus s1) = bus_type_router (w_bus s)"
    "bus_signal_router (w_bus s1) = put_route path n (bus_signal_router (w_bus s))"
    "w_objects s1 = (w_objects s)(n \<mapsto> b)" "ob_path b = path" "ob_service b = service"
    by (rule construct_object_run [OF routes_alive_free [OF assms(1)]])
  then have "s' = s1" using assms(4) by (simp add: object_for_path_def then_eff_Inr return_eff_def)
  then show ?thesis using routes_alive_put [OF assms(1-3) 1(2-5)] 1(4,5) by simp
qed

lemma destructor_alive:
  assumes "routes_alive s" and "w_objects s n \<noteq> None" and "object_destructor E n s = (r, s')"
  shows "routes_alive s'"
proof -
  obtain b where b: "w_objects s n = Some b" using assms(2) by blast
  obtain s1 where 1: "object_destructor E n s = (Inr (), s1)"
    "bus_type_router (w_bus s1) = bus_type_router (w_bus s)"
    "bus_signal_router (w_bus s1) = erase_route (ob_path b) (bus_signal_router (w_bus s))"
    "w_objects s1 = (w_objects s)(n := None)"
    by (rule object_destructor_run [OF b routes_alive_free [OF assms(1)]])
  then show ?thesis using assms(3) routes_alive_erase [OF assms(1) b 1(2-4)] by simp
qed

lemma service_add_object_alive:
  assumes "routes_alive s" and "w_objects s n = None" and "path_free s path"
    and "service_add_object_for_path E n service path s = (r, s')"
  shows "routes_alive s'"
proof -
  obtain s1 where 1: "construct_object n service path s = (Inr (), s1)"
    and s1: "routes_alive s1" "w_objects s1 n \<noteq> None"
  proof -
    obtain s1 b where "construct_object n service path s = (Inr (), s1)"
      using construct_object_run [OF routes_alive_free [OF assms(1)]] by metis
    then show thesis
      using that object_for_path_alive [OF assms(1-3), of service "Inr n" s1]
      by (auto simp: object_for_path_def then_eff_Inr return_eff_def)
  qed
  obtain q d where q: "register_object_for_path (env_conn E) path n (bus_conn (w_bus s1)) = (q, d)" by fastforce
  let ?s2 = "s1\<lparr>w_bus := w_bus s1\<lparr>bus_conn := d\<rparr>\<rparr>"
  have 2: "routes_alive ?s2" by (rule routes_alive_other [OF s1(1)]) (simp add: same_routing_def)
  have reg: "on_bus (on_conn (register_object_for_path (env_conn E) path n)) s1 = (q, ?s2)"
    by (rule on_bus_conn_run) (rule q)
  obtain x s3 where 3: "object_destructor E n ?s2 = (x, s3)" by fastforce
  have "s' = ?s2 \<or> s' = s3"
    using assms(4) 1 reg 3
    by (cases q; cases x)
      (auto simp: service_add_object_for_path_def then_eff_def bind_eff_def catch_eff_def return_eff_def throw_eff_def)
  then show ?thesis using 2 destructor_alive [OF 2 _ 3] s1(2) by auto
qed

lemma object_step_alive: "object_step E s s' \<Longrightarrow> routes_alive s \<Longrightarrow> routes_alive s'"
proof (induction rule: object_step.induct)
  case (step_use s n path service r s')
  then show ?case using object_for_path_alive by blast
qed (auto intro: service_add_object_alive destructor_alive routes_alive_other)

lemma objects_alive:
  assumes "fst (construct_bus_well_known K k d) = Inr (w_bus s0)" and "w_objects s0 = (\<lambda>n. None)"
    and "object_reachable E s0 s"
  shows "routes_alive s"
  using assms(3)
proof (induction rule: object_reachable.induct)
  case objects_start
  then show ?case using construct_bus_well_known_run [OF assms(1)] assms(2) by (simp add: routes_alive_def)
next
  case (objects_step s s')
  then show ?case using object_step_alive by blast
qed

text \<open>What the filter of the bus does with a signal.\<close>

lemma filter_message_run:
  assumes "wired (w_bus s)" and "msg_type (env_lib E) msg = Mt_signal" and "msg_path (env_lib E) msg = Inr path"
  shows "filter_message E (Some msg) s =
     (case router_table (bus_signal_router (w_bus s)) path of
        None \<Rightarrow> (Inr Not_yet_handled, s)
      | Some n \<Rightarrow> then_eff (object_signal E n msg) (return_eff Not_yet_handled) s)"
  using assms
  by (auto simp: filter_message_def static_handle_message_def from_raw_message_def construct_message_def
      bind_eff_def lift_res_def handle_message_run then_eff_def route_signal_run wired_def return_eff_def
      split: option.split prod.split sum.split)

text \<open>
  C13. Signals reach the objects that are alive. On a bus that was constructed, after any history of
  making objects by \<open>object_for_path\<close> and \<open>add_object_for_path\<close> (which may fail and destroy the object
  again), of destroying them, and of anything else that leaves routes and paths alone, if no object was
  made at a path of one that was alive, then a signal goes to the object that is alive at its path, and
  to nothing when there is none: no route is lost and none leads to an object that was destroyed.
\<close>

theorem routes_lead_to_living:
  assumes "fst (construct_bus_well_known (env_conn E) k d) = Inr (w_bus s0)" and "w_objects s0 = (\<lambda>n. None)"
    and "object_reachable E s0 s"
    and "msg_type (env_lib E) msg = Mt_signal" and "msg_path (env_lib E) msg = Inr path"
  shows "(\<forall>n b. w_objects s n = Some b \<and> ob_path b = path \<longrightarrow>
        filter_message E (Some msg) s = then_eff (object_signal E n msg) (return_eff Not_yet_handled) s)
     \<and> (path_free s path \<longrightarrow> filter_message E (Some msg) s = (Inr Not_yet_handled, s))"
proof -
  have inv: "routes_alive s" by (rule objects_alive [OF assms(1-3)])
  then have w: "wired (w_bus s)" by (simp add: routes_alive_def)
  have t: "router_table (bus_signal_router (w_bus s)) path = Some n
      \<longleftrightarrow> (\<exists>b. w_objects s n = Some b \<and> ob_path b = path)" for n
    using inv by (simp add: routes_alive_def)
  show ?thesis
  proof (intro conjI allI impI)
    fix n b
    assume "w_objects s n = Some b \<and> ob_path b = path"
    then have "router_table (bus_signal_router (w_bus s)) path = Some n" using t by blast
    then show "filter_message E (Some msg) s = then_eff (object_signal E n msg) (return_eff Not_yet_handled) s"
      by (simp add: filter_message_run [OF w assms(4,5)])
  next
    assume "path_free s path"
    then have "router_table (bus_signal_router (w_bus s)) path \<noteq> Some n" for n
      using t [of n] by (auto simp: path_free_def)
    then have "router_table (bus_signal_router (w_bus s)) path = None" by fast
    then show "filter_message E (Some msg) s = (Inr Not_yet_handled, s)"
      by (simp add: filter_message_run [OF w assms(4,5)])
  qed
qed

theorem routes_lead_to_living_witness:
  "\<exists>s. object_reachable server_env (empty_world []) s \<and> w_objects s 1 = None \<and> w_objects s 2 \<noteq> None
     \<and> filter_message server_env (Some (new_list_message 4\<lparr>lm_path := Some ''/x''\<rparr>)) s
         = then_eff (object_signal server_env 2 (new_list_message 4\<lparr>lm_path := Some ''/x''\<rparr>))
             (return_eff Not_yet_handled) s"
proof -
  let ?m = "new_list_message 4\<lparr>lm_path := Some ''/x''\<rparr>" and ?S = "use_service ''x.S''"
  let ?s0 = "empty_world [] :: (list_message list, unit, dval list, unit) world"
  have b: "fst (construct_bus_well_known (env_conn server_env) 0 []) = Inr (w_bus ?s0)" "w_objects ?s0 = (\<lambda>n. None)"
    by (simp_all add: construct_bus_well_known_eq server_env_def pipe_connection_def empty_world_def Let_def)
  obtain r1 s1 where 1: "object_for_path 1 ?S ''/x'' ?s0 = (r1, s1)" by fastforce
  have i0: "routes_alive ?s0" by (rule objects_alive [OF b objects_start])
  have f0: "path_free ?s0 ''/x''" using b(2) by (simp add: path_free_def)
  have i1: "routes_alive s1" "\<exists>b. w_objects s1 1 = Some b \<and> ob_path b = ''/x''"
    using object_for_path_alive [OF i0 _ f0 1] b(2) by simp_all
  have o1: "w_objects s1 n = None" if "n \<noteq> 1" for n
    using 1 that by (auto simp: object_for_path_def world_run_simps use_service_def)
  obtain b1 where b1: "w_objects s1 1 = Some b1" using i1(2) by blast
  obtain s2 where 2: "object_destructor server_env 1 s1 = (Inr (), s2)" "w_objects s2 = (w_objects s1)(1 := None)"
    by (rule object_destructor_run [OF b1 routes_alive_free [OF i1(1)]])
  have o2: "w_objects s2 n = None" for n using 2(2) o1 by simp
  then have f2: "path_free s2 ''/x''" by (simp add: path_free_def)
  have i2: "routes_alive s2" by (rule destructor_alive [OF i1(1) _ 2(1)]) (use b1 in simp)
  obtain r3 s3 where 3: "object_for_path 2 ?S ''/x'' s2 = (r3, s3)" by fastforce
  have i3: "\<exists>b. w_objects s3 2 = Some b \<and> ob_path b = ''/x''"
    using object_for_path_alive [OF i2 o2 f2 3] by simp
  obtain s4 b4 where 4: "construct_object 2 ?S ''/x'' s2 = (Inr (), s4)" "w_objects s4 = (w_objects s2)(2 \<mapsto> b4)"
    by (rule construct_object_run [OF routes_alive_free [OF i2]])
  then have n3: "w_objects s3 1 = None"
    using 3 o2 by (simp add: object_for_path_def then_eff_Inr return_eff_def)
  have r: "object_reachable server_env ?s0 s3"
  proof (rule objects_step [OF objects_step [OF objects_step [OF objects_start]]])
    show "object_step server_env ?s0 s1" by (rule step_use [OF _ f0 1]) (simp add: b(2))
    show "object_step server_env s1 s2" by (rule step_destroy [OF _ 2(1)]) (use b1 in simp)
    show "object_step server_env s2 s3" by (rule step_use [OF o2 f2 3])
  qed
  have m: "msg_type (env_lib server_env) ?m = Mt_signal" "msg_path (env_lib server_env) ?m = Inr ''/x''"
    by (simp_all add: sample_envs(1) msg_type_def message_type_of_def msg_path_def string_from_chars_def
        list_libdbus_def make_object_path_def new_list_message_def)
  show ?thesis
    using routes_lead_to_living [OF b r m] i3 n3 r by (intro exI [of _ s3]) auto
qed

end
