(* ===== verification/Benchmark.thy ===== *)
theory Benchmark
  imports Method_Calls Proxies
begin

text \<open>
  The benchmark: src/examples/benchmark/benchmark\_service.h and src/examples/benchmark/main.cpp, a
  program that uses the library on both sides of the bus, with the templates that construct its two ends
  (include/core/dbus/announcer.h and include/core/dbus/resolver.h).

  The service and the client are the two branches of a fork. What the program measures and prints is not
  modelled; of the pipe on which the client waits until the service is there, only what is made of the
  results of the system calls is.
\<close>

section \<open>The interface\<close>

definition benchmark_interface :: string where
  "benchmark_interface = ''org.freedesktop.dbus.benchmark.Service''"

definition method_int64_key :: "string \<times> string" where
  "method_int64_key = (benchmark_interface, ''MethodInt64'')"

definition method_vector_int32_key :: "string \<times> string" where
  "method_vector_int32_key = (benchmark_interface, ''MethodVectorInt32'')"

definition method_int64_timeout :: int where
  "method_int64_timeout = 1000"

definition method_vector_int32_timeout :: int where
  "method_vector_int32_timeout = 1000"

definition benchmark_path :: string where
  "benchmark_path = ''/core/dbus/benchmark/Service''"

section \<open>The service\<close>

text \<open>\<open>BenchmarkService\<close> gives back what it gets.\<close>

definition method_int64 :: "'i cval \<Rightarrow> 'i cval" where
  "method_int64 arg = arg"

definition method_vector_int32 :: "'i cval \<Rightarrow> 'i cval" where
  "method_vector_int32 arg = arg"

datatype benchmark_method = Method_int64 | Method_vector_int32

definition handle_method_int64 ::
  "('m, 'i, 'w, 'd, 'p, 'h, 'e) env \<Rightarrow> 'm \<Rightarrow> (('d, 'h, 'i, 'e) world, unit) eff" where
  "handle_method_int64 E msg =
     bind_eff (lift_res (msg_reader (env_lib E) msg)) (\<lambda>reader.
     bind_eff (lift_res (fst (stream_in (env_lib E) (env_floats E) T_int64 (default_val T_int64) reader))) (\<lambda>arg.
       let out = method_int64 arg in
       bind_eff (lift_res (make_method_return (env_lib E) msg)) (\<lambda>reply.
         case stream_out (env_lib E) (env_floats E) T_int64 out (msg_writer (env_lib E) reply) of
           (Inl e, w) \<Rightarrow> throw_eff e
         | (Inr _, w) \<Rightarrow> send_message E (snd w))))"

definition handle_method_vector_int32 ::
  "('m, 'i, 'w, 'd, 'p, 'h, 'e) env \<Rightarrow> 'm \<Rightarrow> (('d, 'h, 'i, 'e) world, unit) eff" where
  "handle_method_vector_int32 E msg =
     bind_eff (lift_res (msg_reader (env_lib E) msg)) (\<lambda>reader.
     bind_eff (lift_res (fst (stream_in (env_lib E) (env_floats E) (T_vector T_int32)
         (default_val (T_vector T_int32)) reader))) (\<lambda>arg.
       let out = method_vector_int32 arg in
       bind_eff (lift_res (make_method_return (env_lib E) msg)) (\<lambda>reply.
         case stream_out (env_lib E) (env_floats E) (T_vector T_int32) out (msg_writer (env_lib E) reply) of
           (Inl e, w) \<Rightarrow> throw_eff e
         | (Inr _, w) \<Rightarrow> send_message E (snd w))))"

text \<open>What the two routes call.\<close>

definition benchmark_handler ::
  "('m, 'i, 'w, 'd, 'p, 'h, 'e) env \<Rightarrow> benchmark_method \<Rightarrow> 'm \<Rightarrow> (('d, 'h, 'i, 'e) world, unit) eff" where
  "benchmark_handler E h msg =
     (case h of Method_int64 \<Rightarrow> handle_method_int64 E msg
      | Method_vector_int32 \<Rightarrow> handle_method_vector_int32 E msg)"

text \<open>The state of a constructor of a skeleton: the world and the static variable of \<open>add_service\<close>.\<close>

type_synonym ('d, 'i, 'e) service_process =
  "('d, benchmark_method, 'i, 'e) world \<times> (nat \<times> service) option"

definition on_connection_and_static ::
  "('d \<times> (nat \<times> service) option, 'a) eff \<Rightarrow> (('d, 'i, 'e) service_process, 'a) eff" where
  "on_connection_and_static e = zoom (\<lambda>s. (bus_conn (w_bus (fst s)), snd s))
     (\<lambda>(d, instance) s. ((fst s)\<lparr>w_bus := w_bus (fst s)\<lparr>bus_conn := d\<rparr>\<rparr>, instance)) e"

definition on_process ::
  "(('d, benchmark_method, 'i, 'e) world, 'a) eff \<Rightarrow> (('d, 'i, 'e) service_process, 'a) eff" where
  "on_process e = zoom fst (\<lambda>w s. (w, snd s)) e"

definition export_benchmark ::
  "('m, 'i, 'w, 'd, 'p, benchmark_method, 'e) env \<Rightarrow> nat \<Rightarrow> service
     \<Rightarrow> (('d, benchmark_method, 'i, 'e) world, nat) eff" where
  "export_benchmark E n service =
     bind_eff (service_add_object_for_path E n service benchmark_path) (\<lambda>ob.
       then_eff (install_method_handler ob method_int64_key (Route_user Method_int64))
      (then_eff (install_method_handler ob method_vector_int32_key (Route_user Method_vector_int32))
         (return_eff ob)))"

definition construct_benchmark_skeleton ::
  "('m, 'i, 'w, 'd, 'p, benchmark_method, 'e) env \<Rightarrow> nat \<Rightarrow> nat \<Rightarrow> (('d, 'i, 'e) service_process, nat) eff" where
  "construct_benchmark_skeleton E bus n =
     bind_eff (on_connection_and_static (construct_skeleton (env_conn E) bus benchmark_interface))
       (\<lambda>(_, service). on_process (export_benchmark E n service))"

definition announce_service_on_bus :: "('b \<Rightarrow> 'a \<Rightarrow> ('s, 'x) eff) \<Rightarrow> 'b \<Rightarrow> 'a \<Rightarrow> ('s, 'x) eff" where
  "announce_service_on_bus implementation connection args = implementation connection args"

definition announce_benchmark ::
  "('m, 'i, 'w, 'd, 'p, benchmark_method, 'e) env \<Rightarrow> nat \<Rightarrow> nat \<Rightarrow> (('d, 'i, 'e) service_process, nat) eff" where
  "announce_benchmark E bus n = announce_service_on_bus (construct_benchmark_skeleton E) bus n"

section \<open>The stub\<close>

definition construct_benchmark_stub ::
  "nat \<Rightarrow> nat \<Rightarrow> (('d, 'h, 'i, 'e) world, nat) eff" where
  "construct_benchmark_stub root n =
     bind_eff (construct_stub root benchmark_interface) (\<lambda>(service, _). object_for_path n service benchmark_path)"

definition value_or_throw :: "'i result \<Rightarrow> exn + 'i cval" where
  "value_or_throw result =
     (if result_is_error result then Inl (throw_error_text (result_error result)) else value_of_result result)"

definition stub_method_int64 ::
  "('m, 'i, 'w, 'd, 'p, 'h, 'e) env \<Rightarrow> nat \<Rightarrow> 'i cval \<Rightarrow> (('d, 'h, 'i, 'e) world, 'i cval) eff" where
  "stub_method_int64 C n arg = if_alive n (\<lambda>s.
     bind_eff (on_bus (on_conn (invoke_method_synchronously (env_lib C) (env_conn C) (env_floats C)
         (ob_service (object_of n s)) (ob_path (object_of n s)) method_int64_key method_int64_timeout T_int64
         [(T_int64, arg)])))
       (\<lambda>result. lift_res (value_or_throw result)) s)"

definition stub_method_vector_int32 ::
  "('m, 'i, 'w, 'd, 'p, 'h, 'e) env \<Rightarrow> nat \<Rightarrow> 'i cval \<Rightarrow> (('d, 'h, 'i, 'e) world, 'i cval) eff" where
  "stub_method_vector_int32 C n arg = if_alive n (\<lambda>s.
     bind_eff (on_bus (on_conn (invoke_method_synchronously (env_lib C) (env_conn C) (env_floats C)
         (ob_service (object_of n s)) (ob_path (object_of n s)) method_vector_int32_key method_vector_int32_timeout
         (T_vector T_int32) [(T_vector T_int32, arg)])))
       (\<lambda>result. lift_res (value_or_throw result)) s)"

definition resolve_service_on_bus :: "('b \<Rightarrow> ('s, 'x) eff) \<Rightarrow> 'b \<Rightarrow> ('s, 'x) eff" where
  "resolve_service_on_bus stub bus = stub bus"

section \<open>The program\<close>

definition default_value :: "32 word" where
  "default_value = 42"

definition iteration_count :: nat where
  "iteration_count = 10000"

definition element_count :: nat where
  "element_count = 100"

text \<open>Both branches have a connection to the session bus of their own.\<close>

definition the_session_bus ::
  "('d, 'm, 'p) connection \<Rightarrow> 'd \<Rightarrow> (exn + ('d, 'h, 'e) bus) \<times> 'd" where
  "the_session_bus K d = construct_bus_well_known K (well_known_bus_code Session_bus) d"

lemma the_session_bus_free:
  "fst (the_session_bus K d) = Inr b \<Longrightarrow> \<not> router_guard (bus_signal_router b)"
  using construct_bus_well_known_run [of K _ d b] by (auto simp: the_session_bus_def wired_def)

text \<open>The process of the client: its world, and as histories the values that calls of methods gave back and
  the processes that were killed.\<close>

record ('d, 'h, 'i, 'e) client_run =
  cl_world :: "('d, 'h, 'i, 'e) world"
  cl_values :: "'i cval list"
  cl_killed :: "int list"

definition on_world :: "(('d, 'h, 'i, 'e) world, 'a) eff \<Rightarrow> (('d, 'h, 'i, 'e) client_run, 'a) eff" where
  "on_world e = zoom cl_world (\<lambda>w s. s\<lparr>cl_world := w\<rparr>) e"

definition calling :: "(('d, 'h, 'i, 'e) world, 'i cval) eff \<Rightarrow> (('d, 'h, 'i, 'e) client_run, 'i cval) eff" where
  "calling e = bind_eff (on_world e) (\<lambda>v s. (Inr v, s\<lparr>cl_values := cl_values s @ [v]\<rparr>))"

text \<open>\<open>kill(pid, SIGKILL)\<close>, whose result is not looked at.\<close>

definition kill_process :: "int \<Rightarrow> (('d, 'h, 'i, 'e) client_run, unit) eff" where
  "kill_process pid s = (Inr (), s\<lparr>cl_killed := cl_killed s @ [pid]\<rparr>)"

text \<open>The two loops of the client, \<open>n\<close> iterations of them; the first one leaves with \<open>EXIT_FAILURE\<close>.\<close>

fun int64_loop ::
  "('m, 'i, 'w, 'd, 'p, 'h, 'e) env \<Rightarrow> nat \<Rightarrow> nat \<Rightarrow> (('d, 'h, 'i, 'e) client_run, bool) eff" where
  "int64_loop C stub 0 = return_eff True"
| "int64_loop C stub (Suc n) =
     bind_eff (calling (stub_method_int64 C stub (V_int64 (scast default_value)))) (\<lambda>v.
       if v \<noteq> V_int64 (scast default_value) then return_eff False else int64_loop C stub n)"

fun vector_loop ::
  "('m, 'i, 'w, 'd, 'p, 'h, 'e) env \<Rightarrow> nat \<Rightarrow> 'i cval \<Rightarrow> nat \<Rightarrow> (('d, 'h, 'i, 'e) client_run, unit) eff" where
  "vector_loop C stub v 0 = return_eff ()"
| "vector_loop C stub v (Suc n) = then_eff (calling (stub_method_vector_int32 C stub v)) (vector_loop C stub v n)"

definition exit_success :: int where "exit_success = 0"

definition exit_failure :: int where "exit_failure = 1"

text \<open>\<open>CrossProcessSync\<close>: the argument is the result of \<open>pipe\<close>, \<open>write\<close> or \<open>read\<close>.\<close>

definition construct_cross_process_sync :: "int \<Rightarrow> string \<Rightarrow> exn + unit" where
  "construct_cross_process_sync rc why = (if rc < 0 then Inl (Runtime_error why) else Inr ())"

definition signal_ready :: "int \<Rightarrow> string \<Rightarrow> exn + unit" where
  "signal_ready rc why = (if rc = 0 then Inl (Runtime_error why) else Inr ())"

definition wait_for_signal_ready :: "int \<Rightarrow> string \<Rightarrow> exn + unit" where
  "wait_for_signal_ready rc why = (if rc = 0 then Inl (Runtime_error why) else Inr ())"

text \<open>The two system calls report an error by -1, which passes for success.\<close>

lemma failed_call_unnoticed: "signal_ready (-1) why = Inr () \<and> wait_for_signal_ready (-1) why = Inr ()"
  by (simp add: signal_ready_def wait_for_signal_ready_def)

text \<open>The client, once it has its bus; \<open>ready\<close> is the result of reading from the pipe. When a number comes back
  wrong the client leaves without ending the service.\<close>

definition benchmark_client ::
  "('m, 'i, 'w, 'd, 'p, 'h, 'e) env \<Rightarrow> int \<Rightarrow> string \<Rightarrow> int \<Rightarrow> (('d, 'h, 'i, 'e) client_run, int) eff" where
  "benchmark_client C ready why pid =
     then_eff (lift_res (wait_for_signal_ready ready why))
     (bind_eff (on_world (resolve_service_on_bus (construct_benchmark_stub 0) 1)) (\<lambda>stub.
      bind_eff (int64_loop C stub iteration_count) (\<lambda>ok.
        if \<not> ok then return_eff exit_failure
        else then_eff (vector_loop C stub (V_vector (replicate element_count (V_int32 default_value))) iteration_count)
            (then_eff (kill_process pid) (return_eff exit_success)))))"

text \<open>\<open>fork_and_run\<close> after the fork that yielded \<open>pid\<close>; \<open>why\<close> is the text for \<open>errno\<close>, and \<open>kill\<close> the signal
  to the process \<open>pid\<close>. What the branch throws ends it as a failure.\<close>

definition is_child :: "int \<Rightarrow> bool" where
  "is_child pid \<longleftrightarrow> pid = 0"

definition fork_and_run ::
  "int \<Rightarrow> string \<Rightarrow> ('s, int) eff \<Rightarrow> (int \<Rightarrow> ('s, int) eff) \<Rightarrow> (int \<Rightarrow> ('s, unit) eff) \<Rightarrow> ('s, int) eff" where
  "fork_and_run pid why child parent kill =
     (if pid < 0 then throw_eff (Runtime_error (''Could not fork child: '' @ why))
      else catch_eff (if is_child pid then child else parent pid)
        (\<lambda>e. if is_exception e then then_eff (kill pid) (return_eff exit_failure) else throw_eff e))"

text \<open>When the child throws, \<open>pid\<close> is 0: the signal goes to the whole process group.\<close>

lemma child_failure_signals_group:
  assumes "child s = (Inl e, s')" and "is_exception e"
  shows "fork_and_run 0 why child parent kill s = then_eff (kill 0) (return_eff exit_failure) s'"
  using assms by (simp add: fork_and_run_def is_child_def catch_eff_def)

section \<open>What the two ends do\<close>

lemma decode_one:
  "fst (decode_message L F [(t, v)] i) = (case fst (stream_in L F t v i) of Inl e \<Rightarrow> Inl e | Inr x \<Rightarrow> Inr [x])"
  by (simp add: stream_in_def bind_eff_def return_eff_def split: prod.split sum.split)

lemma handlers_answer:
  "handle_method_int64 E = answer_with E [T_int64] T_int64 (\<lambda>vs. method_int64 (hd vs))"
  "handle_method_vector_int32 E = answer_with E [T_vector T_int32] (T_vector T_int32) (\<lambda>vs. method_vector_int32 (hd vs))"
  by (auto simp: fun_eq_iff handle_method_int64_def handle_method_vector_int32_def answer_with_def decode_one
      bind_eff_def lift_res_def Let_def simp del: decode_message.simps split: sum.split)

text \<open>The object of the service, as the constructor of the skeleton leaves it.\<close>

definition serves_benchmark :: "('d, benchmark_method, 'i, 'e) world \<Rightarrow> nat \<Rightarrow> bool" where
  "serves_benchmark s ob \<longleftrightarrow> (\<exists>b. w_objects s ob = Some b \<and> \<not> router_guard (ob_method_router b)
     \<and> router_table (ob_method_router b) method_int64_key = Some (Route_user Method_int64)
     \<and> router_table (ob_method_router b) method_vector_int32_key = Some (Route_user Method_vector_int32))"

lemma construct_object_methods:
  assumes "\<not> router_guard (bus_signal_router (w_bus s))" and "construct_object n service path s = (r, s')"
  obtains b where "w_objects s' n = Some b" and "\<not> router_guard (ob_method_router b)"
  using assms that
  by (cases "service_stub service")
    (auto simp: construct_object_def put_object_def new_object_def on_bus_def on_object_def
      on_signal_router_def install_method_handler_def if_alive_def object_of_def zoom_def then_eff_def
      bind_eff_def install_route_run new_router_def put_route_def)

lemma install_method_handler_run:
  assumes "w_objects s n = Some b" and "\<not> router_guard (ob_method_router b)"
  shows "install_method_handler n key r s =
     (Inr (), put_object n (b\<lparr>ob_method_router := put_route key r (ob_method_router b)\<rparr>) s)"
  using assms
  by (simp add: install_method_handler_def on_object_def if_alive_def object_of_def zoom_def install_route_run)

lemma service_add_object_run:
  assumes "\<not> router_guard (bus_signal_router (w_bus s))"
    and "service_add_object_for_path E n service path s = (Inr ob, s')"
  obtains b where "ob = n" and "w_objects s' n = Some b" and "\<not> router_guard (ob_method_router b)"
proof -
  obtain r s1 where 1: "construct_object n service path s = (r, s1)" by fastforce
  obtain b where b: "w_objects s1 n = Some b" "\<not> router_guard (ob_method_router b)"
    by (rule construct_object_methods [OF assms(1) 1])
  obtain q d where q: "register_object_for_path (env_conn E) path n (bus_conn (w_bus s1)) = (q, d)" by fastforce
  have "on_bus (on_conn (register_object_for_path (env_conn E) path n)) s1
      = (q, s1\<lparr>w_bus := w_bus s1\<lparr>bus_conn := d\<rparr>\<rparr>)"
    by (rule on_bus_conn_run) (rule q)
  then have "ob = n \<and> s' = s1\<lparr>w_bus := w_bus s1\<lparr>bus_conn := d\<rparr>\<rparr>"
    using assms(2) 1
    by (cases r; cases q) (auto simp: service_add_object_for_path_def then_eff_def bind_eff_def catch_eff_def
        return_eff_def throw_eff_def split: prod.splits sum.splits)
  then show thesis using that b by simp
qed

lemma announce_serves:
  assumes "\<not> router_guard (bus_signal_router (w_bus s))"
    and "announce_benchmark E bus n (s, instance) = (Inr ob, (s', instance'))"
  shows "ob = n \<and> serves_benchmark s' n"
proof -
  have "\<exists>service d. export_benchmark E n service (s\<lparr>w_bus := w_bus s\<lparr>bus_conn := d\<rparr>\<rparr>) = (Inr ob, s')"
    using assms(2)
    by (auto simp: announce_benchmark_def announce_service_on_bus_def construct_benchmark_skeleton_def
        bind_eff_def on_connection_and_static_def on_process_def zoom_def split: prod.splits sum.splits) blast
  then obtain service d where add: "export_benchmark E n service (s\<lparr>w_bus := w_bus s\<lparr>bus_conn := d\<rparr>\<rparr>) = (Inr ob, s')"
    by blast
  let ?s1 = "s\<lparr>w_bus := w_bus s\<lparr>bus_conn := d\<rparr>\<rparr>"
  obtain k s2 where 2: "service_add_object_for_path E n service benchmark_path ?s1 = (Inr k, s2)"
    using add by (auto simp: export_benchmark_def bind_eff_def split: prod.splits sum.splits)
  have g: "\<not> router_guard (bus_signal_router (w_bus ?s1))" using assms(1) by simp
  obtain b where b: "k = n" "w_objects s2 n = Some b" "\<not> router_guard (ob_method_router b)"
    by (rule service_add_object_run [OF g 2])
  let ?b = "b\<lparr>ob_method_router := put_route method_int64_key (Route_user Method_int64) (ob_method_router b)\<rparr>"
  have 3: "install_method_handler n method_int64_key (Route_user Method_int64) s2 = (Inr (), put_object n ?b s2)"
    by (rule install_method_handler_run [OF b(2,3)])
  have "install_method_handler n method_vector_int32_key (Route_user Method_vector_int32) (put_object n ?b s2)
      = (Inr (), put_object n (?b\<lparr>ob_method_router := put_route method_vector_int32_key
          (Route_user Method_vector_int32) (ob_method_router ?b)\<rparr>) (put_object n ?b s2))"
    by (rule install_method_handler_run) (simp_all add: put_object_def b(3))
  then show ?thesis
    using add 2 b 3
    by (simp add: export_benchmark_def bind_eff_Inr then_eff_Inr return_eff_def)
      (auto simp: serves_benchmark_def put_object_def put_route_def method_int64_key_def method_vector_int32_key_def)
qed

text \<open>The link between the two processes: what is used of libdbus, and the connection of the client.\<close>

definition benchmark_link ::
  "('m, 'i, 'w, 'd, 'p, benchmark_method, 'e) env \<Rightarrow> ('m, 'i, 'w, 'c, 'q, 'g, 'f) env
     \<Rightarrow> (int \<Rightarrow> raw \<Rightarrow> bool) \<Rightarrow> ('i \<Rightarrow> dval list \<Rightarrow> bool) \<Rightarrow> ('d \<Rightarrow> 'm list)
     \<Rightarrow> ('c \<Rightarrow> ('d, benchmark_method, 'i, 'e) world) \<Rightarrow> nat \<Rightarrow> bool" where
  "benchmark_link E C ok den outbox server ob \<longleftrightarrow> reads (env_lib E) den
     \<and> makes_call (env_lib E) ok den method_int64_key \<and> makes_call (env_lib E) ok den method_vector_int32_key
     \<and> makes_return (env_lib E) ok den \<and> env_lib C = env_lib E \<and> env_floats C = env_floats E
     \<and> posts (env_conn E) outbox \<and> connected (env_lib E) (env_conn C) server outbox (on_new_message E ob)
     \<and> env_user E = benchmark_handler E"

lemma benchmark_key_strings [simp]:
  "c_str (fst method_int64_key) = fst method_int64_key" "c_str (snd method_int64_key) = snd method_int64_key"
  "c_str (fst method_vector_int32_key) = fst method_vector_int32_key"
  "c_str (snd method_vector_int32_key) = snd method_vector_int32_key"
  by (simp_all add: method_int64_key_def method_vector_int32_key_def benchmark_interface_def)

lemma one_arrives: "no_variant t \<Longrightarrow> list_all2 (arrives F den) [(t, v)] vs \<Longrightarrow> vs = [v]"
  by (auto simp: list_all2_Cons1 arrives_def)

text \<open>A call of a method whose handler gives back its argument.\<close>

lemma echo_call:
  assumes "benchmark_link E C ok den outbox server ob" and "makes_call (env_lib E) ok den key"
    and "c_str (fst key) = fst key" and "c_str (snd key) = snd key"
    and "w_objects (server (bus_conn (w_bus c))) ob = Some sb" and "\<not> router_guard (ob_method_router sb)"
    and "router_table (ob_method_router sb) key = Some (Route_user h)"
    and "benchmark_handler E h = answer_with E [t] t hd" and "no_variant t"
    and "payload (env_lib E) (env_floats E) ok [(t, v)]"
  obtains c' where "on_bus (on_conn (invoke_method_synchronously (env_lib C) (env_conn C) (env_floats C)
        service path key timeout t [(t, v)])) c = (Inr \<lparr>result_error = error_init, result_value = Some v\<rparr>, c')"
    and "w_objects c' = w_objects c"
    and "w_objects (server (bus_conn (w_bus c'))) = w_objects (server (bus_conn (w_bus c)))"
proof -
  have l: "reads (env_lib E) den" "makes_return (env_lib E) ok den"
      "env_lib C = env_lib E" "env_floats C = env_floats E" "posts (env_conn E) outbox"
      "connected (env_lib E) (env_conn C) server outbox (on_new_message E ob)" "env_user E = benchmark_handler E"
    using assms(1) by (simp_all add: benchmark_link_def)
  have u: "env_user E h = answer_with E (map fst [(t, v)]) t hd" using l(7) assms(8) by simp
  have answer: "\<forall>vs. list_all2 (arrives (env_floats E) den) [(t, v)] vs
      \<longrightarrow> payload (env_lib E) (env_floats E) ok [(t, hd vs)]"
    using one_arrives [OF assms(9)] assms(10) by fastforce
  obtain vs x c' where "on_bus (on_conn (invoke_method_synchronously (env_lib C) (env_conn C) (env_floats C)
        service path key timeout t [(t, v)])) c = (Inr \<lparr>result_error = error_init, result_value = Some x\<rparr>, c')"
    and x: "list_all2 (arrives (env_floats E) den) [(t, v)] vs" "arrives (env_floats E) den (t, hd vs) x"
    and "w_objects (server (bus_conn (w_bus c'))) = w_objects (server (bus_conn (w_bus c)))"
      "w_objects c' = w_objects c"
    by (rule remote_call_run [OF l(1) assms(2) l(2) assms(3,4) l(3-6) assms(5-7) u _ assms(10) answer]) simp
  moreover have "x = v" using x one_arrives [OF assms(9) x(1)] assms(9) by (simp add: arrives_def)
  ultimately show thesis using that by simp
qed

lemma handlers_echo:
  "benchmark_handler E Method_int64 = answer_with E [T_int64] T_int64 hd"
  "benchmark_handler E Method_vector_int32 = answer_with E [T_vector T_int32] (T_vector T_int32) hd"
  by (simp_all add: benchmark_handler_def fun_eq_iff handlers_answer method_int64_def method_vector_int32_def)

lemma stub_method_int64_run:
  assumes "benchmark_link E C ok den outbox server ob" and "serves_benchmark (server (bus_conn (w_bus c))) ob"
    and "w_objects c n = Some b" and "payload (env_lib E) (env_floats E) ok [(T_int64, v)]"
  obtains c' where "stub_method_int64 C n v c = (Inr v, c')" and "w_objects c' = w_objects c"
    and "serves_benchmark (server (bus_conn (w_bus c'))) ob"
proof -
  obtain sb where sb: "w_objects (server (bus_conn (w_bus c))) ob = Some sb" "\<not> router_guard (ob_method_router sb)"
      "router_table (ob_method_router sb) method_int64_key = Some (Route_user Method_int64)"
    using assms(2) unfolding serves_benchmark_def by blast
  have mc: "makes_call (env_lib E) ok den method_int64_key" using assms(1) by (simp add: benchmark_link_def)
  obtain c' where run: "on_bus (on_conn (invoke_method_synchronously (env_lib C) (env_conn C) (env_floats C)
        (ob_service b) (ob_path b) method_int64_key method_int64_timeout T_int64 [(T_int64, v)])) c
      = (Inr \<lparr>result_error = error_init, result_value = Some v\<rparr>, c')"
    and keep: "w_objects c' = w_objects c"
      "w_objects (server (bus_conn (w_bus c'))) = w_objects (server (bus_conn (w_bus c)))"
    by (rule echo_call [OF assms(1) mc benchmark_key_strings(1,2) sb handlers_echo(1) _ assms(4)]) simp
  have "stub_method_int64 C n v c = (Inr v, c')"
    using run assms(3)
    by (simp add: stub_method_int64_def if_alive_def object_of_def bind_eff_Inr lift_res_def value_or_throw_def
        result_is_error_def error_init_def error_is_set_def value_of_result_def)
  then show thesis using that keep assms(2) by (simp add: serves_benchmark_def)
qed

lemma stub_method_vector_int32_run:
  assumes "benchmark_link E C ok den outbox server ob" and "serves_benchmark (server (bus_conn (w_bus c))) ob"
    and "w_objects c n = Some b" and "payload (env_lib E) (env_floats E) ok [(T_vector T_int32, v)]"
  obtains c' where "stub_method_vector_int32 C n v c = (Inr v, c')" and "w_objects c' = w_objects c"
    and "serves_benchmark (server (bus_conn (w_bus c'))) ob"
proof -
  obtain sb where sb: "w_objects (server (bus_conn (w_bus c))) ob = Some sb" "\<not> router_guard (ob_method_router sb)"
      "router_table (ob_method_router sb) method_vector_int32_key = Some (Route_user Method_vector_int32)"
    using assms(2) unfolding serves_benchmark_def by blast
  have mc: "makes_call (env_lib E) ok den method_vector_int32_key" using assms(1) by (simp add: benchmark_link_def)
  obtain c' where run: "on_bus (on_conn (invoke_method_synchronously (env_lib C) (env_conn C) (env_floats C)
        (ob_service b) (ob_path b) method_vector_int32_key method_vector_int32_timeout (T_vector T_int32)
        [(T_vector T_int32, v)])) c = (Inr \<lparr>result_error = error_init, result_value = Some v\<rparr>, c')"
    and keep: "w_objects c' = w_objects c"
      "w_objects (server (bus_conn (w_bus c'))) = w_objects (server (bus_conn (w_bus c)))"
    by (rule echo_call [OF assms(1) mc benchmark_key_strings(3,4) sb handlers_echo(2) _ assms(4)]) simp
  have "stub_method_vector_int32 C n v c = (Inr v, c')"
    using run assms(3)
    by (simp add: stub_method_vector_int32_def if_alive_def object_of_def bind_eff_Inr lift_res_def
        value_or_throw_def result_is_error_def error_init_def error_is_set_def value_of_result_def)
  then show thesis using that keep assms(2) by (simp add: serves_benchmark_def)
qed

text \<open>The loops of the client, for any number of iterations: every call gives back what was passed.\<close>

lemma calling_run:
  "e (cl_world c) = (Inr v, w) \<Longrightarrow> calling e c = (Inr v, c\<lparr>cl_world := w, cl_values := cl_values c @ [v]\<rparr>)"
  by (simp add: calling_def on_world_def zoom_def bind_eff_Inr)

lemma int64_loop_run:
  fixes c :: "('c, 'g, 'i, 'f) client_run"
  assumes "benchmark_link E C ok den outbox server ob"
    and "payload (env_lib E) (env_floats E) ok [(T_int64, V_int64 (scast default_value))]"
  shows "serves_benchmark (server (bus_conn (w_bus (cl_world c)))) ob \<Longrightarrow> w_objects (cl_world c) stub = Some b
     \<Longrightarrow> \<exists>w. int64_loop C stub n c = (Inr True, c\<lparr>cl_world := w,
            cl_values := cl_values c @ replicate n (V_int64 (scast default_value))\<rparr>)
          \<and> w_objects w = w_objects (cl_world c) \<and> serves_benchmark (server (bus_conn (w_bus w))) ob"
proof (induction n arbitrary: c)
  case 0
  then show ?case by (intro exI [of _ "cl_world c"]) (simp add: return_eff_def)
next
  case (Suc n)
  let ?v = "V_int64 (scast default_value) :: 'i cval"
  obtain w where w: "stub_method_int64 C stub ?v (cl_world c) = (Inr ?v, w)"
      "w_objects w = w_objects (cl_world c)" "serves_benchmark (server (bus_conn (w_bus w))) ob"
    by (rule stub_method_int64_run [OF assms(1) Suc.prems assms(2)])
  let ?c = "c\<lparr>cl_world := w, cl_values := cl_values c @ [?v]\<rparr>"
  obtain w' where "int64_loop C stub n ?c = (Inr True, ?c\<lparr>cl_world := w',
        cl_values := cl_values ?c @ replicate n ?v\<rparr>)"
      "w_objects w' = w_objects w" "serves_benchmark (server (bus_conn (w_bus w'))) ob"
    using Suc.IH [of ?c] w Suc.prems(2) by auto
  then show ?case
    using calling_run [where e = "stub_method_int64 C stub ?v" and c = c, OF w(1)] w(2) by (intro exI [of _ w']) (simp add: bind_eff_Inr)
qed

lemma vector_loop_run:
  fixes c :: "('c, 'g, 'i, 'f) client_run"
  assumes "benchmark_link E C ok den outbox server ob" and "payload (env_lib E) (env_floats E) ok [(T_vector T_int32, v)]"
  shows "serves_benchmark (server (bus_conn (w_bus (cl_world c)))) ob \<Longrightarrow> w_objects (cl_world c) stub = Some b
     \<Longrightarrow> \<exists>w. vector_loop C stub v n c = (Inr (), c\<lparr>cl_world := w, cl_values := cl_values c @ replicate n v\<rparr>)"
proof (induction n arbitrary: c)
  case 0
  then show ?case by (intro exI [of _ "cl_world c"]) (simp add: return_eff_def)
next
  case (Suc n)
  obtain w where w: "stub_method_vector_int32 C stub v (cl_world c) = (Inr v, w)"
      "w_objects w = w_objects (cl_world c)" "serves_benchmark (server (bus_conn (w_bus w))) ob"
    by (rule stub_method_vector_int32_run [OF assms(1) Suc.prems assms(2)])
  let ?c = "c\<lparr>cl_world := w, cl_values := cl_values c @ [v]\<rparr>"
  obtain w' where "vector_loop C stub v n ?c = (Inr (), ?c\<lparr>cl_world := w', cl_values := cl_values ?c @ replicate n v\<rparr>)"
    using Suc.IH [of ?c] w Suc.prems(2) by auto
  then show ?case using calling_run [where e = "stub_method_vector_int32 C stub v" and c = c, OF w(1)] by (intro exI [of _ w']) (simp add: then_eff_Inr)
qed

lemma construct_object_conn:
  assumes "\<not> router_guard (bus_signal_router (w_bus s))"
  obtains s' b where "construct_object n service path s = (Inr (), s')" and "w_objects s' n = Some b"
    and "bus_conn (w_bus s') = bus_conn (w_bus s)" and "\<not> router_guard (bus_signal_router (w_bus s'))"
  using assms that
  by (cases "service_stub service")
    (simp_all add: construct_object_def put_object_def new_object_def on_bus_def on_object_def
      on_signal_router_def install_method_handler_def if_alive_def object_of_def zoom_def then_eff_def
      bind_eff_def install_route_run new_router_def put_route_def)

lemma construct_benchmark_stub_run:
  assumes "\<not> router_guard (bus_signal_router (w_bus c))"
  obtains c' b where "construct_benchmark_stub root n c = (Inr n, c')" and "w_objects c' n = Some b"
    and "bus_conn (w_bus c') = bus_conn (w_bus c)"
proof -
  let ?S = "use_service benchmark_interface"
  obtain c1 b1 where 1: "construct_object root ?S object_path_root c = (Inr (), c1)"
      "bus_conn (w_bus c1) = bus_conn (w_bus c)" "\<not> router_guard (bus_signal_router (w_bus c1))"
    by (rule construct_object_conn [OF assms])
  obtain c2 b2 where 2: "construct_object n ?S benchmark_path c1 = (Inr (), c2)" "w_objects c2 n = Some b2"
      "bus_conn (w_bus c2) = bus_conn (w_bus c1)"
    by (rule construct_object_conn [OF 1(3)])
  show thesis
    by (rule that [of c2 b2]) (use 1 2 in \<open>simp_all add: construct_benchmark_stub_def construct_stub_def Let_def
      root_object_def object_for_path_def bind_eff_def then_eff_def return_eff_def\<close>)
qed

text \<open>
  C15. The benchmark succeeds. When the service was announced on the bus of one process and the connection
  of the other leads to it, the client constructs its stub and makes ten thousand calls of either method, and the
  values that these calls gave back are, in order, ten thousand times the number and ten thousand
  times the vector that were passed; then it kills the service, that process only, and the program ends with
  \<open>EXIT_SUCCESS\<close>. This holds for every libdbus that keeps the promises used and takes the values that are sent.
\<close>

theorem benchmark_succeeds:
  fixes E :: "('m, 'i, 'w, 'd, 'p, benchmark_method, 'e) env" and C :: "('m, 'i, 'w, 'c, 'q, 'g, 'f) env"
  assumes "benchmark_link E C ok den outbox server ob"
    and "announce_benchmark E bus ob (s0, None) = (Inr ob, (s, instance))"
    and "fst (the_session_bus (env_conn E) d0) = Inr (w_bus s0)" and "fst (the_session_bus (env_conn C) d) = Inr (w_bus c)"
    and "server (bus_conn (w_bus c)) = s"
    and "payload (env_lib E) (env_floats E) ok [(T_int64, V_int64 42)]"
    and "payload (env_lib E) (env_floats E) ok [(T_vector T_int32, V_vector (replicate 100 (V_int32 42)))]"
    and "0 < pid" and "ready \<noteq> 0"
  shows "\<exists>w. fork_and_run pid why child (benchmark_client C ready why') kill_process
       \<lparr>cl_world = c, cl_values = [], cl_killed = []\<rparr>
     = (Inr 0, \<lparr>cl_world = w,
          cl_values = replicate 10000 (V_int64 42) @ replicate 10000 (V_vector (replicate 100 (V_int32 42))),
          cl_killed = [pid]\<rparr>)"
proof -
  let ?c = "\<lparr>cl_world = c, cl_values = [], cl_killed = []\<rparr>"
  let ?v = "V_vector (replicate element_count (V_int32 default_value))"
  obtain c1 b where 1: "construct_benchmark_stub 0 1 c = (Inr 1, c1)" "w_objects c1 1 = Some b"
      "bus_conn (w_bus c1) = bus_conn (w_bus c)"
    by (rule construct_benchmark_stub_run [OF the_session_bus_free [OF assms(4)]])
  have v: "payload (env_lib E) (env_floats E) ok [(T_int64, V_int64 (scast default_value))]"
      "payload (env_lib E) (env_floats E) ok [(T_vector T_int32, ?v)]"
    using assms(6,7) by (simp_all add: default_value_def element_count_def)
  have "serves_benchmark (server (bus_conn (w_bus c1))) ob"
    using announce_serves [OF the_session_bus_free [OF assms(3)] assms(2)] assms(5) 1(3) by simp
  then obtain w2 where 2: "int64_loop C 1 iteration_count (?c\<lparr>cl_world := c1\<rparr>)
        = (Inr True, ?c\<lparr>cl_world := w2, cl_values := replicate iteration_count (V_int64 (scast default_value))\<rparr>)"
      "w_objects w2 = w_objects c1" "serves_benchmark (server (bus_conn (w_bus w2))) ob"
    using int64_loop_run [OF assms(1) v(1), of "?c\<lparr>cl_world := c1\<rparr>" 1 b] 1(2) by auto
  let ?c2 = "?c\<lparr>cl_world := w2, cl_values := replicate iteration_count (V_int64 (scast default_value))\<rparr>"
  obtain w3 where 3: "vector_loop C 1 ?v iteration_count ?c2
      = (Inr (), ?c2\<lparr>cl_world := w3, cl_values := cl_values ?c2 @ replicate iteration_count ?v\<rparr>)"
    using vector_loop_run [OF assms(1) v(2), of ?c2 1 b] 1(2) 2(2,3) by auto
  have wait: "lift_res (wait_for_signal_ready ready why') ?c = (Inr (), ?c)"
    using assms(9) by (simp add: wait_for_signal_ready_def lift_res_def)
  have stub: "on_world (resolve_service_on_bus (construct_benchmark_stub 0) 1) ?c = (Inr 1, ?c\<lparr>cl_world := c1\<rparr>)"
    using 1(1) by (simp add: on_world_def zoom_def resolve_service_on_bus_def)
  have "benchmark_client C ready why' pid ?c = (Inr 0, ?c2\<lparr>cl_world := w3,
      cl_values := cl_values ?c2 @ replicate iteration_count ?v, cl_killed := [pid]\<rparr>)"
    using wait stub 2(1) 3
    by (simp add: benchmark_client_def bind_eff_Inr then_eff_Inr return_eff_def kill_process_def exit_success_def)
  then show ?thesis
    using assms(8)
    by (simp add: fork_and_run_def is_child_def catch_eff_def iteration_count_def element_count_def default_value_def)
qed

text \<open>Both processes, over the libdbus of lists.\<close>

definition benchmark_base ::
  "(list_message, dval list, unit, list_message list, unit, benchmark_method, unit) env" where
  "benchmark_base = \<lparr>env_lib = list_libdbus, env_conn = pipe_connection (\<lambda>m d. m # d) (\<lambda>m d. (m, d)),
     env_floats = sample_conversions, env_user = (\<lambda>h m. return_eff ()), env_signal = (\<lambda>g m. return_eff ()),
     env_store = (\<lambda>old new. new)\<rparr>"

definition benchmark_server where
  "benchmark_server = benchmark_base\<lparr>env_user := benchmark_handler benchmark_base\<rparr>"

definition empty_process :: "(list_message list, benchmark_method, dval list, unit) world" where
  "empty_process = \<lparr>w_bus = constructed_bus [], w_objects = (\<lambda>n. None), w_properties = (\<lambda>n. None)\<rparr>"

definition benchmark_process where
  "benchmark_process = fst (snd (announce_benchmark benchmark_server 0 0 (empty_process, None)))"

definition benchmark_caller where
  "benchmark_caller = plain_env (pipe_connection (\<lambda>m d. d)
     (\<lambda>call s. let s = snd (on_new_message benchmark_server 0 call s) in (hd (bus_conn (w_bus s)), s)))"

theorem benchmark_succeeds_witness:
  "\<exists>w. fork_and_run 7 [] (return_eff 0) (benchmark_client benchmark_caller 4 []) kill_process
       \<lparr>cl_world = empty_world benchmark_process, cl_values = [], cl_killed = []\<rparr>
     = (Inr 0, \<lparr>cl_world = w,
          cl_values = replicate 10000 (V_int64 42) @ replicate 10000 (V_vector (replicate 100 (V_int32 42))),
          cl_killed = [7]\<rparr>)"
proof -
  have env: "env_lib benchmark_server = list_libdbus" "env_floats benchmark_server = sample_conversions"
      "env_conn benchmark_server = pipe_connection (\<lambda>m d. m # d) (\<lambda>m d. (m, d))"
      "env_lib benchmark_base = list_libdbus" "env_floats benchmark_base = sample_conversions"
      "env_conn benchmark_base = pipe_connection (\<lambda>m d. m # d) (\<lambda>m d. (m, d))"
      "env_lib benchmark_caller = list_libdbus" "env_floats benchmark_caller = sample_conversions"
    by (simp_all add: benchmark_server_def benchmark_base_def benchmark_caller_def)
  have m: "send_message benchmark_server = send_message benchmark_base"
    by (simp add: fun_eq_iff send_message_def env)
  have "answer_with benchmark_server ts t f = answer_with benchmark_base ts t f" for ts t f
    by (simp only: fun_eq_iff answer_with_def m env simp_thms)
  then have "benchmark_handler benchmark_server h = benchmark_handler benchmark_base h" for h
    by (cases h) (simp_all only: handlers_echo)
  then have "benchmark_handler benchmark_server = benchmark_handler benchmark_base" by (rule ext)
  then have user: "env_user benchmark_server = benchmark_handler benchmark_server"
    by (simp add: benchmark_server_def)
  have conn: "connected (env_lib benchmark_server) (env_conn benchmark_caller) (\<lambda>d. d) (\<lambda>d. d)
      (on_new_message benchmark_server 0)"
    by (simp add: connected_def env benchmark_caller_def pipe_connection_def Let_def)
  have link: "benchmark_link benchmark_server benchmark_caller (\<lambda>c r. True) list_den (\<lambda>d. d) (\<lambda>d. d) 0"
    using list_rpc conn user
    by (simp add: benchmark_link_def env list_makes_call list_reads rpc_library_def posts_def pipe_connection_def)
  have g: "fst (the_session_bus (env_conn benchmark_server) []) = Inr (w_bus empty_process)"
    by (simp add: the_session_bus_def construct_bus_well_known_eq env pipe_connection_def empty_process_def Let_def)
  obtain s i where a: "announce_benchmark benchmark_server 0 0 (empty_process, None) = (Inr 0, (s, i))"
    by (simp add: announce_benchmark_def announce_service_on_bus_def construct_benchmark_skeleton_def
        on_connection_and_static_def on_process_def construct_skeleton_def add_service_for_interface_def
        add_service_def error_is_set_def export_benchmark_def service_add_object_for_path_def catch_eff_def
        on_conn_def register_object_for_path_def env pipe_connection_def Let_def empty_process_def world_run_simps
        split: prod.split)
  then have "s = benchmark_process" by (simp add: benchmark_process_def)
  then have server: "(\<lambda>d. d) (bus_conn (w_bus (empty_world benchmark_process))) = s"
    by (simp add: empty_world_def constructed_bus_def new_bus_def)
  have c: "fst (the_session_bus (env_conn benchmark_caller) benchmark_process) = Inr (w_bus (empty_world benchmark_process))"
    by (simp add: the_session_bus_def construct_bus_well_known_eq benchmark_caller_def pipe_connection_def empty_world_def Let_def)
  have p: "payload (env_lib benchmark_server) (env_floats benchmark_server) (\<lambda>c r. True) [(T_int64, V_int64 42)]"
      "payload (env_lib benchmark_server) (env_floats benchmark_server) (\<lambda>c r. True)
         [(T_vector T_int32, V_vector (replicate 100 (V_int32 42)))]"
    by (simp_all add: payload_def sendable_args_def args_dvals_def list_all_iff)
  show ?thesis
    by (rule benchmark_succeeds [OF link a g c server p]) simp_all
qed

end
