(* ===== verification/Example_Clients.thy ===== *)
theory Example_Clients
  imports Object_Properties Method_Calls
begin

text \<open>
  The interfaces that the example clients declare: src/examples/upower/upower.h,
  src/examples/geoclue/geoclue.h and src/examples/ofono/main.cpp, and the macros that declare such
  structs (include/core/dbus/macros.h). A struct becomes a description: the name of its interface
  (\<open>traits::Service<Interface>::interface_name()\<close>), its own name, and the types and times it fixes. That a
  property is \<open>readable\<close> is true of all of them, and is used nowhere.
\<close>

section \<open>Descriptions\<close>

record method_description =
  md_interface :: string
  md_name :: string
  md_timeout :: int

record signal_description =
  sd_interface :: string
  sd_name :: string
  sd_argument :: "ctype option"

definition dbus_cpp_method_with_timeout :: "string \<Rightarrow> string \<Rightarrow> int \<Rightarrow> method_description" where
  "dbus_cpp_method_with_timeout name itf timeout = \<lparr>md_interface = itf, md_name = name, md_timeout = timeout\<rparr>"

definition dbus_cpp_method :: "string \<Rightarrow> string \<Rightarrow> method_description" where
  "dbus_cpp_method name itf = dbus_cpp_method_with_timeout name itf 2000"

definition dbus_cpp_signal :: "string \<Rightarrow> string \<Rightarrow> ctype option \<Rightarrow> signal_description" where
  "dbus_cpp_signal name itf argument = \<lparr>sd_interface = itf, sd_name = name, sd_argument = argument\<rparr>"

definition dbus_cpp_readable_property :: "string \<Rightarrow> string \<Rightarrow> ctype \<Rightarrow> property_description" where
  "dbus_cpp_readable_property name itf t = \<lparr>pd_interface = itf, pd_name = name, pd_type = t, pd_writable = False\<rparr>"

definition dbus_cpp_writable_property :: "string \<Rightarrow> string \<Rightarrow> ctype \<Rightarrow> property_description" where
  "dbus_cpp_writable_property name itf t = \<lparr>pd_interface = itf, pd_name = name, pd_type = t, pd_writable = True\<rparr>"

section \<open>UPower\<close>

definition upower_interface :: string where
  "upower_interface = ''org.freedesktop.UPower''"

definition upower_device_interface :: string where
  "upower_device_interface = ''org.freedesktop.UPower.Device''"

definition upower_properties :: "property_description list" where
  "upower_properties = map (\<lambda>(name, t). dbus_cpp_readable_property name upower_interface t)
     [(''DaemonVersion'', T_string), (''CanSuspend'', T_boolean), (''CanHibernate'', T_boolean),
      (''OnBattery'', T_boolean), (''OnLowBattery'', T_boolean), (''LidIsClosed'', T_boolean),
      (''LidIsPresent'', T_boolean)]"

definition upower_signals :: "signal_description list" where
  "upower_signals = map (\<lambda>(name, t). dbus_cpp_signal name upower_interface t)
     [(''DeviceAdded'', Some T_object_path), (''DeviceRemoved'', Some T_object_path),
      (''DeviceChanged'', Some T_string), (''Changed'', None), (''Sleeping'', None), (''Resuming'', None)]"

definition upower_enumerate_devices :: method_description where
  "upower_enumerate_devices = dbus_cpp_method_with_timeout ''EnumerateDevices'' upower_interface 1000"

definition upower_device_get_history :: method_description where
  "upower_device_get_history = dbus_cpp_method_with_timeout ''GetHistory'' upower_device_interface 1000"

definition upower_device_get_statistics :: method_description where
  "upower_device_get_statistics = dbus_cpp_method_with_timeout ''GetStatistics'' upower_device_interface 1000"

text \<open>The properties of a device, in two halves.\<close>

definition upower_device_identity :: "property_description list" where
  "upower_device_identity = map (\<lambda>(name, t). dbus_cpp_readable_property name upower_device_interface t)
     [(''NativePath'', T_string), (''Vendor'', T_string), (''Model'', T_string), (''Serial'', T_string),
      (''UpdateTime'', T_uint64), (''Type'', T_uint32), (''PowerSupply'', T_boolean), (''HasHistory'', T_boolean),
      (''HasStatistics'', T_boolean), (''Online'', T_boolean), (''Energy'', T_double), (''EnergyEmpty'', T_double),
      (''EnergyFull'', T_double), (''EnergyFullDesign'', T_double)]"

definition upower_device_state :: "property_description list" where
  "upower_device_state = map (\<lambda>(name, t). dbus_cpp_readable_property name upower_device_interface t)
     [(''EnergyRate'', T_double), (''Voltage'', T_double), (''TimeToEmpty'', T_int64), (''TimeToFull'', T_int64),
      (''Percentage'', T_double), (''IsPresent'', T_boolean), (''State'', T_uint32), (''IsRechargeable'', T_boolean),
      (''Capacity'', T_double), (''Technology'', T_uint32), (''RecallNotice'', T_boolean), (''RecallVendor'', T_string),
      (''RecallUrl'', T_string)]"

definition upower_device_signals :: "signal_description list" where
  "upower_device_signals = [dbus_cpp_signal ''Changed'' upower_device_interface None]"

section \<open>Geoclue and ofono\<close>

definition geoclue_interface :: string where
  "geoclue_interface = ''org.freedesktop.Geoclue''"

definition geoclue_master_interface :: string where
  "geoclue_master_interface = ''org.freedesktop.Geoclue.Master''"

definition geoclue_master_client_interface :: string where
  "geoclue_master_client_interface = ''org.freedesktop.Geoclue.MasterClient''"

definition geoclue_address_interface :: string where
  "geoclue_address_interface = ''org.freedesktop.Geoclue.Address''"

definition geoclue_position_interface :: string where
  "geoclue_position_interface = ''org.freedesktop.Geoclue.Position''"

definition geoclue_master_create :: method_description where
  "geoclue_master_create = dbus_cpp_method_with_timeout ''Create'' geoclue_master_interface 1000"

definition geoclue_master_client_methods :: "method_description list" where
  "geoclue_master_client_methods = map (\<lambda>name. dbus_cpp_method_with_timeout name geoclue_master_client_interface 1000)
     [''SetRequirements'', ''GetAddressProvider'', ''GetPositionProvider'']"

definition geoclue_get_address :: method_description where
  "geoclue_get_address = dbus_cpp_method_with_timeout ''GetAddress'' geoclue_address_interface 1000"

definition geoclue_get_position :: method_description where
  "geoclue_get_position = dbus_cpp_method_with_timeout ''GetPosition'' geoclue_position_interface 1000"

definition geoclue_position_changed :: signal_description where
  "geoclue_position_changed = dbus_cpp_signal ''PositionChanged'' geoclue_position_interface
     (Some (T_tuple [T_int32, T_int32, T_double, T_double, T_double, T_struct (T_tuple [T_int32, T_double, T_double])]))"

definition ofono_incoming_message :: signal_description where
  "ofono_incoming_message = dbus_cpp_signal ''IncomingMessage'' ''org.ofono.MessageManager''
     (Some (T_tuple [T_string, T_map T_string T_variant]))"

definition ofono_call_added :: signal_description where
  "ofono_call_added = dbus_cpp_signal ''CallAdded'' ''org.ofono.VoiceCallManager''
     (Some (T_tuple [T_object_path, T_map T_string T_variant]))"

section \<open>What the declarations say\<close>

abbreviation all_upower_properties :: "property_description list" where
  "all_upower_properties \<equiv> upower_properties @ upower_device_identity @ upower_device_state"

lemma upower_declarations:
  "\<forall>D \<in> set all_upower_properties. single_type (pd_type D) \<and> no_variant (pd_type D) \<and> \<not> pd_writable D"
  by (simp add: upower_properties_def upower_device_identity_def upower_device_state_def dbus_cpp_readable_property_def)

text \<open>Every declared property has a name of its own in its interface, so the cache of properties and the
  table of changes tell them apart.\<close>

lemma upower_keys_distinct: "distinct (map (\<lambda>D. (pd_interface D, pd_name D)) all_upower_properties)"
  by (simp add: upower_properties_def upower_device_identity_def upower_device_state_def dbus_cpp_readable_property_def
      upower_interface_def upower_device_interface_def)

text \<open>The types of the signals in the notation of D-Bus.\<close>

lemma example_signatures:
  "map (\<lambda>D. map_option signature (sd_argument D)) (upower_signals @ upower_device_signals)
     = [Some ''o'', Some ''o'', Some ''s'', None, None, None, None]"
  "map_option signature (sd_argument geoclue_position_changed) = Some ''iiddd(idd)''"
  "map_option signature (sd_argument ofono_incoming_message) = Some ''sa{sv}''"
  "map_option signature (sd_argument ofono_call_added) = Some ''oa{sv}''"
  by (simp_all add: upower_signals_def upower_device_signals_def geoclue_position_changed_def
      ofono_incoming_message_def ofono_call_added_def dbus_cpp_signal_def)

section \<open>Calling what is declared\<close>

text \<open>\<open>object->invoke_method_synchronously<Method, Result>(args...).value()\<close>.\<close>

definition call_declared ::
  "('m, 'i, 'w, 'd, 'p, 'h, 'e) env \<Rightarrow> nat \<Rightarrow> method_description \<Rightarrow> ctype \<Rightarrow> (ctype \<times> 'i cval) list
     \<Rightarrow> (('d, 'h, 'i, 'e) world, 'i cval) eff" where
  "call_declared C n D t args = if_alive n (\<lambda>s.
     bind_eff (on_bus (on_conn (invoke_method_synchronously (env_lib C) (env_conn C) (env_floats C)
         (ob_service (object_of n s)) (ob_path (object_of n s)) (md_interface D, md_name D) (md_timeout D) t args)))
       (\<lambda>result. lift_res (value_of_result result)) s)"

section \<open>Printing\<close>

definition newline :: string where
  "newline = [CHR 0x0A]"

definition tab :: string where
  "tab = [CHR 0x09]"

definition show_int :: "int \<Rightarrow> string" where
  "show_int i = (if i < 0 then ''-'' @ show_nat (nat (- i)) else show_nat (nat i))"

text \<open>What a stream prints for a value; without \<open>boolalpha\<close> a truth value is a number.\<close>

fun show_value :: "(64 word \<Rightarrow> string) \<Rightarrow> 'i cval \<Rightarrow> string" where
  "show_value show (V_string s) = s"
| "show_value show (V_boolean b) = (if b then ''1'' else ''0'')"
| "show_value show (V_int32 w) = show_int (sint w)"
| "show_value show (V_uint32 w) = show_nat (unat w)"
| "show_value show (V_uint64 w) = show_nat (unat w)"
| "show_value show (V_int64 w) = show_int (sint w)"
| "show_value show (V_double w) = show w"
| "show_value show (V_object_path s) = s"
| "show_value show v = []"

definition print :: "string \<Rightarrow> ('s \<times> string, unit) eff" where
  "print line s = (Inr (), (fst s, snd s @ line))"

definition in_process :: "('s, 'a) eff \<Rightarrow> ('s \<times> string, 'a) eff" where
  "in_process e = zoom fst (\<lambda>p s. (p, snd s)) e"

text \<open>A block that catches runtime errors and prints their text.\<close>

definition or_print_error ::
  "('s \<times> string, unit) eff \<Rightarrow> ('s \<times> string, unit) eff" where
  "or_print_error e = catch_eff e
     (\<lambda>x. if is_runtime_error x then print (exception_text x @ newline) else throw_eff x)"

section \<open>The position of Geoclue\<close>

text \<open>The struct of src/examples/geoclue/main.cpp, and the call whose value is tied to its fields; the last
  member of the tuple, the accuracy, is ignored.\<close>

record position =
  pos_fields :: "32 word"
  pos_timestamp :: "32 word"
  pos_latitude :: "64 word"
  pos_longitude :: "64 word"
  pos_altitude :: "64 word"

definition position_type :: ctype where
  "position_type = T_tuple [T_int32, T_int32, T_double, T_double, T_double,
     T_struct (T_tuple [T_int32, T_double, T_double])]"

definition tie_position :: "'i cval \<Rightarrow> exn + position" where
  "tie_position v =
     (case v of
        V_tuple [V_int32 f, V_int32 t, V_double la, V_double lo, V_double al, accuracy] \<Rightarrow>
          Inr \<lparr>pos_fields = f, pos_timestamp = t, pos_latitude = la, pos_longitude = lo, pos_altitude = al\<rparr>
      | _ \<Rightarrow> Inl (Undefined_behaviour ''ill typed''))"

definition geoclue_position ::
  "('m, 'i, 'w, 'd, 'p, 'h, 'e) env \<Rightarrow> nat \<Rightarrow> (('d, 'h, 'i, 'e) world, position) eff" where
  "geoclue_position C n =
     bind_eff (call_declared C n geoclue_get_position position_type []) (\<lambda>v. lift_res (tie_position v))"

text \<open>An answer with the values of a position gives the position.\<close>

lemma position_is_tied:
  assumes "reads (env_lib C) den" and "w_objects s n = Some b"
    and "make_call (env_lib C) (env_floats C) (ob_service b) (ob_path b)
           (md_interface geoclue_get_position, md_name geoclue_get_position) [] = Inr call"
    and "conn_send_and_block (env_conn C) call 1000 (bus_conn (w_bus s)) = ((Some m, e), d')"
    and "msg_type (env_lib C) m = Mt_method_return" and "msg_reader (env_lib C) m = Inr i"
    and "den i (dvals_of (env_floats C) position_type
           (V_tuple [V_int32 f, V_int32 t, V_double la, V_double lo, V_double al,
              V_struct (V_tuple [V_int32 l, V_double h, V_double v])] :: 'i cval))"
  shows "fst (geoclue_position (C :: ('m, 'i, 'w, 'd, 'p, 'h, 'e) env) n s)
     = Inr \<lparr>pos_fields = f, pos_timestamp = t, pos_latitude = la, pos_longitude = lo, pos_altitude = al\<rparr>"
proof -
  let ?v = "V_tuple [V_int32 f, V_int32 t, V_double la, V_double lo, V_double al,
              V_struct (V_tuple [V_int32 l, V_double h, V_double v])] :: 'i cval"
  have ty: "multi_type position_type" "sendable position_type ?v" "clean (env_lib C) (env_floats C) ?v"
      "no_variant position_type"
    by (simp_all add: position_type_def)
  have "den i (dvals_of (env_floats C) position_type ?v @ [])" using assms(7) by simp
  then obtain x j where x: "decode (env_lib C) (env_floats C) position_type (default_val position_type) i = (Inr x, j)"
      "received (env_floats C) den ?v x"
    by (rule yields_run [OF decode_yields [OF assms(1) ty(1-3)]])
  have "x = ?v" by (rule received_no_variant [OF x(2) ty(2,4)])
  then have r: "result_from_message (env_lib C) (env_floats C) position_type m
      = Inr \<lparr>result_error = error_init, result_value = Some ?v\<rparr>"
    using assms(5,6) x(1) by (simp add: result_from_message_def new_result_def Let_def stream_in_def)
  have run: "invoke_method_synchronously (env_lib C) (env_conn C) (env_floats C) (ob_service b) (ob_path b)
      (md_interface geoclue_get_position, md_name geoclue_get_position) (md_timeout geoclue_get_position)
      position_type [] (bus_conn (w_bus s)) = (Inr \<lparr>result_error = error_init, result_value = Some ?v\<rparr>, d')"
    using assms(3,4) r
    by (simp add: invoke_method_synchronously_def lift_res_def bind_eff_def send_with_reply_and_block_for_at_most_def
        from_raw_message_def construct_message_def geoclue_get_position_def dbus_cpp_method_with_timeout_def to_c_int_def)
  have "on_bus (on_conn (invoke_method_synchronously (env_lib C) (env_conn C) (env_floats C) (ob_service b) (ob_path b)
      (md_interface geoclue_get_position, md_name geoclue_get_position) (md_timeout geoclue_get_position)
      position_type [])) s = (Inr \<lparr>result_error = error_init, result_value = Some ?v\<rparr>,
        s\<lparr>w_bus := w_bus s\<lparr>bus_conn := d'\<rparr>\<rparr>)"
    by (rule on_bus_conn_run) (rule run)
  then show ?thesis
    using assms(2)
    by (simp add: geoclue_position_def call_declared_def if_alive_def object_of_def bind_eff_def lift_res_def value_of_result_def
        tie_position_def)
qed

section \<open>The Geoclue client\<close>

text \<open>\<open>main\<close> of src/examples/geoclue/main.cpp, from the first service on; the numbers are those of the three
  objects. \<open>announce\<close> connects a lambda that prints a line to a signal of an object, see \<open>upower_main\<close>.\<close>

definition address_type :: ctype where
  "address_type = T_tuple [T_int32, T_map T_string T_string, T_struct (T_tuple [T_int32, T_double, T_double])]"

definition print_position :: "(64 word \<Rightarrow> string) \<Rightarrow> position \<Rightarrow> ('s \<times> string, unit) eff" where
  "print_position show p = print (show_int (sint (pos_fields p)) @ '', '' @ show_int (sint (pos_timestamp p)) @ '', ''
     @ show (pos_latitude p) @ '', '' @ show (pos_longitude p) @ '', '' @ show (pos_altitude p) @ newline)"

fun print_address :: "(64 word \<Rightarrow> string) \<Rightarrow> 'i cval \<Rightarrow> ('s \<times> string, unit) eff" where
  "print_address show (V_tuple [timestamp, V_map pairs, accuracy]) =
     then_eff (print (show_value show timestamp @ newline))
       (each_eff (\<lambda>pair. print (show_value show (fst pair) @ '' -> '' @ show_value show (snd pair) @ newline)) pairs)"
| "print_address show v = ill_typed"

definition set_requirements ::
  "('m, 'i, 'w, 'd, 'p, 'h, 'e) env \<Rightarrow> nat \<Rightarrow> (('d, 'h, 'i, 'e) world, unit) eff" where
  "set_requirements C n = if_alive n (\<lambda>s.
     then_eff (on_bus (on_conn (invoke_void_method_synchronously (env_lib C) (env_conn C) (env_floats C)
         (ob_service (object_of n s)) (ob_path (object_of n s))
         (geoclue_master_client_interface, ''SetRequirements'') 1000
         [(T_int32, V_int32 1), (T_int32, V_int32 100), (T_boolean, V_boolean False),
          (T_int32, V_int32 (push_bit 10 1 - 1))])))
       (return_eff ()) s)"

definition geoclue_main ::
  "(64 word \<Rightarrow> string) \<Rightarrow> (nat \<Rightarrow> signal_description \<Rightarrow> string \<Rightarrow> (('d, 'h, 'i, 'e) world \<times> string, unit) eff)
     \<Rightarrow> ('m, 'i, 'w, 'd, 'p, 'h, 'e) env \<Rightarrow> nat \<Rightarrow> nat \<Rightarrow> nat \<Rightarrow> (('d, 'h, 'i, 'e) world \<times> string, unit) eff" where
  "geoclue_main show announce C provider master client =
     bind_eff (in_process (object_for_path provider (use_service ''org.freedesktop.Geoclue.Providers.UbuntuGeoIP'')
         ''/core/Geoclue/Providers/UbuntuGeoIP'')) (\<lambda>obj.
       then_eff (announce obj geoclue_position_changed
           (''core::Geoclue::Position::Signals::PositionChanged'' @ newline))
      (bind_eff (in_process (geoclue_position C obj)) (\<lambda>p.
         then_eff (print_position show p)
      (bind_eff (in_process (call_declared C obj geoclue_get_address address_type [])) (\<lambda>address.
         then_eff (print_address show address)
      (bind_eff (in_process (object_for_path master (use_service geoclue_master_interface) ''/core/Geoclue/Master'')) (\<lambda>obj.
       bind_eff (in_process (call_declared C obj geoclue_master_create T_object_path [])) (\<lambda>session_path.
       bind_eff (in_process (object_for_path client (use_service geoclue_master_interface)
           (show_value show session_path))) (\<lambda>obj.
         or_print_error (in_process (set_requirements C obj)))))))))))"

text \<open>A refusal of the requirements is thrown by the call that blocks, and its text is printed.\<close>

lemma refused_requirements_printed:
  assumes "w_objects s n = Some b"
    and "make_call (env_lib C) (env_floats C) (ob_service b) (ob_path b)
           (geoclue_master_client_interface, ''SetRequirements'')
           [(T_int32, V_int32 1), (T_int32, V_int32 100), (T_boolean, V_boolean False), (T_int32, V_int32 1023)] = Inr call"
    and "conn_send_and_block (env_conn C) call 1000 (bus_conn (w_bus s)) = ((None, Some (name, why)), d)"
  shows "or_print_error (in_process (set_requirements C n)) (s, out)
     = (Inr (), (s\<lparr>w_bus := w_bus s\<lparr>bus_conn := d\<rparr>\<rparr>, out @ c_str (name @ '': '' @ why) @ newline))"
  using assms
  by (simp add: or_print_error_def in_process_def set_requirements_def if_alive_def object_of_def zoom_def
      then_eff_def bind_eff_def catch_eff_def on_bus_def on_conn_def return_eff_def push_bit_eq_mult
      invoke_void_method_synchronously_def lift_res_def send_with_reply_and_block_for_at_most_def to_c_int_def
      print_def)

end
