(* ===== verification/Executor_Timers.thy ===== *)
theory Executor_Timers
  imports Executor
begin

text \<open>
  Histories of the timeouts of the executor (src/core/dbus/asio/executor.cpp): how often the timer of a
  timeout waits, and what happens when it expires.
\<close>

text \<open>
  \<open>out a n\<close> is the number of expiries that the timer of the object \<open>n\<close> waits for. What is used of boost:
  setting the time of a timer ends what it waits for, waiting adds one, and cancelling that returns ends all.
\<close>

definition counts_timers :: "('t, 'v, 'a) event_lib \<Rightarrow> ('a \<Rightarrow> nat \<Rightarrow> nat) \<Rightarrow> bool" where
  "counts_timers V out \<longleftrightarrow>
     (\<forall>n i a. out (el_timer_expires V n i a) = (out a)(n := 0))
     \<and> (\<forall>n a. out (el_timer_wait V n a) = (out a)(n := Suc (out a n)))
     \<and> (\<forall>n a. out (snd (el_timer_cancel V n a))
          = (if fst (el_timer_cancel V n a) = None then (out a)(n := 0) else out a))"

section \<open>Histories\<close>

text \<open>What libdbus calls, and timers that were cancelled; before \<open>toggled\<close> libdbus enables or disables timeouts.\<close>

inductive timer_call ::
  "('t, 'v, 'a) event_lib \<Rightarrow> ('a \<Rightarrow> nat \<Rightarrow> nat) \<Rightarrow> ('t, 'v, 'a) executor \<Rightarrow> ('t, 'v, 'a) executor \<Rightarrow> bool"
  for V out where
  call_add: "ex_timeout_data s t = None \<Longrightarrow> on_dbus_add_timeout V t s = (r, s') \<Longrightarrow> timer_call V out s s'"
| call_toggled: "out a' = out (ex_loop s) \<Longrightarrow> on_dbus_timeout_toggled V t (s\<lparr>ex_loop := a'\<rparr>) = (r, s')
    \<Longrightarrow> timer_call V out s s'"
| call_remove: "then_eff (on_dbus_remove_timeout V t) (set_timeout_data t None) s = (r, s')
    \<Longrightarrow> timer_call V out s s'"
| call_aborted: "timer_done V n Operation_aborted s = (r, s') \<Longrightarrow> timer_call V out s s'"

text \<open>A timer expires: it waits for one expiry less, and what it calls has libdbus call the executor again.\<close>

inductive timer_reachable ::
  "('t, 'v, 'a) event_lib \<Rightarrow> ('a \<Rightarrow> nat \<Rightarrow> nat) \<Rightarrow> ('t, 'v, 'a) executor \<Rightarrow> bool" for V out where
  timers_start: "out a = (\<lambda>n. 0) \<Longrightarrow> timer_reachable V out (new_executor a)"
| timers_call: "timer_reachable V out s \<Longrightarrow> timer_call V out s s' \<Longrightarrow> timer_reachable V out s'"
| timers_expire: "timer_reachable V out s \<Longrightarrow> out (ex_loop s) n > 0
    \<Longrightarrow> out a' = (out (ex_loop s))(n := out (ex_loop s) n - 1)
    \<Longrightarrow> timer_done V n Success (s\<lparr>ex_loop := a'\<rparr>) = (r, s') \<Longrightarrow> timer_reachable V out s'"

definition timer_inv :: "('a \<Rightarrow> nat \<Rightarrow> nat) \<Rightarrow> ('t, 'v, 'a) executor \<Rightarrow> bool" where
  "timer_inv out s \<longleftrightarrow>
     (\<forall>n t. ex_timeouts s n = Some t \<longleftrightarrow> ex_timeout_data s t = Some n)
     \<and> (\<forall>n t. ex_timeouts s n = Some t \<longrightarrow> n < ex_next s)
     \<and> (\<forall>n. out (ex_loop s) n \<le> 1)"

definition keeps_timers :: "('t, 'v, 'a) executor \<Rightarrow> ('t, 'v, 'a) executor \<Rightarrow> bool" where
  "keeps_timers s s' \<longleftrightarrow> ex_timeouts s' = ex_timeouts s \<and> ex_timeout_data s' = ex_timeout_data s \<and> ex_next s' = ex_next s"

lemma timer_inv_loop:
  "timer_inv out s \<Longrightarrow> keeps_timers s s' \<Longrightarrow> \<forall>n. out (ex_loop s') n \<le> 1 \<Longrightarrow> timer_inv out s'"
  by (simp add: timer_inv_def keeps_timers_def)

lemma timeout_start_run:
  assumes "counts_timers V out" and "ex_timeouts s n = Some t"
  obtains s' where "timeout_start V n s = (Inr (), s')" and "keeps_timers s s'"
    and "out (ex_loop s') = (if el_timeout_enabled V t (ex_loop s) then (out (ex_loop s))(n := 1) else out (ex_loop s))"
  by (rule that [of "if el_timeout_enabled V t (ex_loop s) then s\<lparr>ex_loop := el_timer_wait V n
        (el_timer_expires V n (el_timeout_interval V t (ex_loop s)) (ex_loop s))\<rparr> else s"])
    (use assms in \<open>simp_all add: timeout_start_def timeout_of_def on_loop_def then_eff_def bind_eff_def
      counts_timers_def keeps_timers_def\<close>)

lemma timeout_cancel_run:
  assumes "counts_timers V out" and "ex_timeouts s n = Some t"
  obtains s' where "timeout_cancel V n s = (Inr (), s')" and "keeps_timers s s'"
    and "out (ex_loop s') = out (ex_loop s) \<or> out (ex_loop s') = (out (ex_loop s))(n := 0)"
proof -
  obtain f a where a: "el_timer_cancel V n (ex_loop s) = (f, a)" by fastforce
  have o: "out a = out (ex_loop s) \<or> out a = (out (ex_loop s))(n := 0)"
    using assms(1) a unfolding counts_timers_def by (metis fst_conv snd_conv)
  show thesis
    by (rule that [of "s\<lparr>ex_loop := a\<rparr>"])
      (use assms(2) a o in \<open>auto simp: timeout_cancel_def timeout_of_def catch_eff_def on_loop_throwing_def
        return_eff_def keeps_timers_def split: option.splits\<close>)
qed

text \<open>A timeout that is new: the object, its holder and its timer.\<close>

lemma add_timeout_run:
  assumes "counts_timers V out" and "timer_inv out s" and "ex_timeout_data s t = None"
  obtains s' where "on_dbus_add_timeout V t s = (Inr True, s')" and "timer_inv out s'"
    and "ex_timeout_data s' t = Some (ex_next s)"
    and "el_timeout_enabled V t (ex_loop s) \<Longrightarrow> out (ex_loop s') (ex_next s) = 1"
proof -
  let ?n = "ex_next s"
  let ?s = "s\<lparr>ex_timeouts := (ex_timeouts s)(?n \<mapsto> t), ex_next := Suc ?n,
      ex_timeout_data := (ex_timeout_data s)(t \<mapsto> ?n)\<rparr>"
  obtain s' where s': "timeout_start V ?n ?s = (Inr (), s')" "keeps_timers ?s s'"
      "out (ex_loop s') = (if el_timeout_enabled V t (ex_loop s) then (out (ex_loop s))(?n := 1) else out (ex_loop s))"
    by (rule timeout_start_run [OF assms(1), of ?s ?n t]) simp_all
  have run: "on_dbus_add_timeout V t s = (Inr True, s')"
    using s'(1) assms(3)
    by (simp add: on_dbus_add_timeout_def construct_timeout_def set_timeout_data_def bind_eff_def then_eff_def
        return_eff_def Let_def)
  have fresh: "ex_timeouts s ?n = None"
    using assms(2) unfolding timer_inv_def by (metis less_irrefl option.exhaust)
  have new: "ex_timeouts s m \<noteq> Some t" "ex_timeout_data s u \<noteq> Some ?n" for m u
    using assms(2,3) fresh unfolding timer_inv_def by (metis option.distinct(1))+
  have "ex_timeouts s' m = Some u \<longleftrightarrow> ex_timeout_data s' u = Some m" for m u
    using assms(2) s'(2) new unfolding timer_inv_def keeps_timers_def by auto
  moreover have "m < ex_next s'" if "ex_timeouts s' m = Some u" for m u
    using assms(2) that s'(2) unfolding timer_inv_def keeps_timers_def
    by (auto split: if_splits intro: less_SucI)
  moreover have "out (ex_loop s') m \<le> 1" for m
    using assms(2) s'(3) by (simp add: timer_inv_def)
  ultimately have "timer_inv out s'" unfolding timer_inv_def by blast
  then show thesis using that [OF run] s'(2,3) by (simp add: keeps_timers_def)
qed

lemma toggled_run:
  assumes "counts_timers V out" and "timer_inv out s" and "ex_timeout_data s t = Some n"
  obtains s' where "on_dbus_timeout_toggled V t s = (Inr (), s')" and "timer_inv out s'" and "keeps_timers s s'"
    and "el_timeout_enabled V t (ex_loop s) \<Longrightarrow> out (ex_loop s') n = 1"
proof -
  have n: "ex_timeouts s n = Some t" using assms(2,3) by (simp add: timer_inv_def)
  obtain s' where s': "timeout_start V n s = (Inr (), s')" "keeps_timers s s'"
      "out (ex_loop s') = (if el_timeout_enabled V t (ex_loop s) then (out (ex_loop s))(n := 1) else out (ex_loop s))"
    by (rule timeout_start_run [OF assms(1) n])
  have "timer_inv out s'"
    by (rule timer_inv_loop [OF assms(2) s'(2)]) (use assms(2) s'(3) in \<open>simp add: timer_inv_def\<close>)
  then show thesis using that s' assms(3) by (simp add: on_dbus_timeout_toggled_def)
qed

lemma timer_inv_erased:
  assumes "timer_inv out s" and "ex_timeouts s n = Some t"
  shows "timer_inv out (s\<lparr>ex_timeouts := (ex_timeouts s)(n := None), ex_timeout_data := (ex_timeout_data s)(t := None)\<rparr>)"
proof -
  have "ex_timeouts s m = Some u \<longleftrightarrow> ex_timeout_data s u = Some m" for m u
    using assms(1) unfolding timer_inv_def by blast
  then have "((ex_timeouts s)(n := None)) m = Some u \<longleftrightarrow> ((ex_timeout_data s)(t := None)) u = Some m" for m u
    using assms(2) by (metis fun_upd_apply option.distinct(1) option.inject)
  moreover have "((ex_timeouts s)(n := None)) m = Some u \<longrightarrow> m < ex_next s" for m u
    using assms(1) unfolding timer_inv_def by auto
  ultimately show ?thesis using assms(1) unfolding timer_inv_def by simp
qed

lemma remove_timeout_inv:
  assumes "counts_timers V out" and "timer_inv out s"
    and "then_eff (on_dbus_remove_timeout V t) (set_timeout_data t None) s = (r, s')"
  shows "timer_inv out s'"
proof (cases "ex_timeout_data s t")
  case None
  then show ?thesis
    using assms(2,3) by (simp add: on_dbus_remove_timeout_def then_eff_def bind_eff_def)
next
  case (Some n)
  then have n: "ex_timeouts s n = Some t" using assms(2) by (simp add: timer_inv_def)
  obtain s1 where s1: "timeout_cancel V n s = (Inr (), s1)" "keeps_timers s s1"
    "out (ex_loop s1) = out (ex_loop s) \<or> out (ex_loop s1) = (out (ex_loop s))(n := 0)"
    by (rule timeout_cancel_run [OF assms(1) n])
  have "timer_inv out s1"
    by (rule timer_inv_loop [OF assms(2) s1(2)]) (use assms(2) s1(3) in \<open>auto simp: timer_inv_def\<close>)
  moreover have "s' = s1\<lparr>ex_timeouts := (ex_timeouts s1)(n := None), ex_timeout_data := (ex_timeout_data s1)(t := None)\<rparr>"
    using assms(3) Some s1(1,2)
    by (simp add: on_dbus_remove_timeout_def then_eff_def bind_eff_def set_timeout_data_def keeps_timers_def Let_def)
  moreover have "ex_timeouts s1 n = Some t" "ex_timeout_data s1 t = Some n"
    using n Some s1(2) by (simp_all add: keeps_timers_def)
  ultimately show ?thesis by (simp add: timer_inv_erased)
qed

lemma timer_call_inv:
  assumes "counts_timers V out" and "timer_call V out s s'" and "timer_inv out s"
  shows "timer_inv out s'"
  using assms(2)
proof cases
  case (call_add t r)
  then show ?thesis using add_timeout_run [OF assms(1,3) call_add(1)] by (metis prod.inject)
next
  case (call_toggled a' t r)
  have i: "timer_inv out (s\<lparr>ex_loop := a'\<rparr>)" using assms(3) call_toggled(1) by (simp add: timer_inv_def)
  show ?thesis
  proof (cases "ex_timeout_data s t")
    case None
    then show ?thesis using call_toggled(2) i by (simp add: on_dbus_timeout_toggled_def)
  next
    case (Some n)
    then show ?thesis using toggled_run [OF assms(1) i, of t n] call_toggled(2) by auto
  qed
next
  case (call_remove t r)
  then show ?thesis by (rule remove_timeout_inv [OF assms(1,3)])
next
  case (call_aborted n r)
  then show ?thesis
    using assms(3) by (auto simp: timer_done_def on_timeout_def timeout_of_def return_eff_def split: if_splits option.splits)
qed

lemma timer_calls_inv:
  assumes "counts_timers V out" and "(timer_call V out)\<^sup>*\<^sup>* s s'" and "timer_inv out s"
  shows "timer_inv out s'"
  using assms(2,3) by (induction rule: rtranclp_induct) (auto intro: timer_call_inv [OF assms(1)])

lemma timer_reachable_inv:
  assumes "counts_timers V out" and "\<And>t s. (timer_call V out)\<^sup>*\<^sup>* s (snd (el_timeout_handle V t s))"
    and "timer_reachable V out s"
  shows "timer_inv out s"
  using assms(3)
proof induction
  case (timers_start a)
  then show ?case by (simp add: timer_inv_def new_executor_def)
next
  case (timers_call s s')
  then show ?case by (blast intro: timer_call_inv [OF assms(1)])
next
  case (timers_expire s n a' r s')
  let ?s = "s\<lparr>ex_loop := a'\<rparr>"
  have o: "out a' m \<le> out (ex_loop s) m" for m by (simp add: timers_expire(3))
  have "out a' m \<le> 1" for m
    using timers_expire(5) o [of m] order_trans unfolding timer_inv_def by blast
  then have i: "timer_inv out ?s"
    by (intro timer_inv_loop [OF timers_expire(5)]) (simp_all add: keeps_timers_def)
  show ?case
  proof (cases "ex_timeouts s n")
    case None
    then show ?thesis using timers_expire(4) i by (simp add: timer_done_def)
  next
    case (Some t)
    then have "el_timeout_handle V t ?s = (r, s')"
      using timers_expire(4) by (simp add: timer_done_def on_timeout_def timeout_of_def)
    then show ?thesis using timer_calls_inv [OF assms(1) _ i] assms(2) [of ?s t] by simp
  qed
qed

text \<open>
  C31. A timeout is handled once for each time it is started. In every history of adding, enabling,
  disabling and removing timeouts and of timers that expire, whatever of these libdbus does while it
  handles a timeout, no timer waits for more than one expiry; a timeout that is enabled when it is added
  or toggled then waits for exactly one; when the timer expires, libdbus handles the timeout if it was not
  removed, and the timer waits for nothing any more until it is started again.
\<close>

theorem timeout_handled_once:
  assumes "counts_timers V out" and "\<And>t s. (timer_call V out)\<^sup>*\<^sup>* s (snd (el_timeout_handle V t s))"
    and "timer_reachable V out s"
  shows "out (ex_loop s) n \<le> 1
     \<and> (ex_timeout_data s t = None \<and> el_timeout_enabled V t (ex_loop s) \<longrightarrow>
       (\<exists>s'. on_dbus_add_timeout V t s = (Inr True, s') \<and> ex_timeout_data s' t = Some (ex_next s)
          \<and> out (ex_loop s') (ex_next s) = 1))
     \<and> (ex_timeout_data s t = Some n \<and> el_timeout_enabled V t a' \<and> out a' = out (ex_loop s) \<longrightarrow>
       (\<exists>s'. on_dbus_timeout_toggled V t (s\<lparr>ex_loop := a'\<rparr>) = (Inr (), s') \<and> out (ex_loop s') n = 1))
     \<and> (out (ex_loop s) n > 0 \<and> out a' = (out (ex_loop s))(n := out (ex_loop s) n - 1) \<longrightarrow> out a' n = 0
       \<and> timer_done V n Success (s\<lparr>ex_loop := a'\<rparr>) = (case ex_timeouts s n of
            None \<Rightarrow> return_eff () | Some t \<Rightarrow> el_timeout_handle V t) (s\<lparr>ex_loop := a'\<rparr>))"
proof -
  have i: "timer_inv out s" by (rule timer_reachable_inv [OF assms])
  then have one: "out (ex_loop s) n \<le> 1" by (simp add: timer_inv_def)
  have "\<exists>s'. on_dbus_timeout_toggled V t (s\<lparr>ex_loop := a'\<rparr>) = (Inr (), s') \<and> out (ex_loop s') n = 1"
    if "ex_timeout_data s t = Some n" "el_timeout_enabled V t a'" "out a' = out (ex_loop s)" for a'
  proof -
    have "timer_inv out (s\<lparr>ex_loop := a'\<rparr>)" using i that(3) by (simp add: timer_inv_def)
    then show ?thesis
      using toggled_run [OF assms(1), of "s\<lparr>ex_loop := a'\<rparr>" t n] that(1,2) by auto
  qed
  moreover have "timer_done V n Success s' = (case ex_timeouts s' n of
      None \<Rightarrow> return_eff () | Some t \<Rightarrow> el_timeout_handle V t) s'" for s'
    by (simp add: timer_done_def on_timeout_def timeout_of_def return_eff_def split: option.split)
  moreover have "\<exists>s'. on_dbus_add_timeout V t s = (Inr True, s') \<and> ex_timeout_data s' t = Some (ex_next s)
      \<and> out (ex_loop s') (ex_next s) = 1" if "ex_timeout_data s t = None" "el_timeout_enabled V t (ex_loop s)"
    using add_timeout_run [OF assms(1) i that(1)] that(2) by metis
  ultimately show ?thesis using one by auto
qed

text \<open>The event loop of the watches, with timers that are counted.\<close>

definition small_timers :: "(nat, nat, small_loop) event_lib" where
  "small_timers = small_events
     \<lparr>el_timeout_handle := \<lambda>t. return_eff (),
      el_timer_expires := \<lambda>n i (e, out, q). (e, out(n := 0), q),
      el_timer_wait := \<lambda>n (e, out, q). (e, out(n := Suc (out n)), q),
      el_timer_cancel := \<lambda>n (e, out, q). (None, (e, out(n := 0), q))\<rparr>"

theorem timeout_handled_once_witness:
  "\<exists>s. on_dbus_add_timeout small_timers 7 (new_executor ({7}, \<lambda>n. 0, 0)) = (Inr True, s)
     \<and> outstanding (ex_loop s) 0 = 1
     \<and> timer_done small_timers 0 Success (s\<lparr>ex_loop := ({7}, \<lambda>n. 0, 0)\<rparr>) = (Inr (), s\<lparr>ex_loop := ({7}, \<lambda>n. 0, 0)\<rparr>)"
proof -
  let ?s = "new_executor ({7}, \<lambda>n. 0, 0) :: (nat, nat, small_loop) executor"
  have c: "counts_timers small_timers outstanding"
    by (auto simp: counts_timers_def small_timers_def small_events_def split: prod.split)
  have h: "(timer_call small_timers outstanding)\<^sup>*\<^sup>* s (snd (el_timeout_handle small_timers t s))" for t s
    by (simp add: small_timers_def return_eff_def)
  have r0: "timer_reachable small_timers outstanding ?s" by (rule timers_start) simp
  have d0: "ex_timeout_data ?s 7 = None" "el_timeout_enabled small_timers 7 (ex_loop ?s)" "ex_next ?s = 0"
    by (simp_all add: new_executor_def small_timers_def small_events_def)
  let ?s1 = "?s\<lparr>ex_loop := ({7}, (\<lambda>n. 0)(0 := 1), 0), ex_timeouts := [0 \<mapsto> 7], ex_timeout_data := [7 \<mapsto> 0], ex_next := 1\<rparr>"
  have s: "on_dbus_add_timeout small_timers 7 ?s = (Inr True, ?s1)"
    by (simp add: on_dbus_add_timeout_def construct_timeout_def set_timeout_data_def timeout_start_def
        timeout_of_def on_loop_def then_eff_def bind_eff_def return_eff_def Let_def new_executor_def
        small_timers_def small_events_def)
  have r: "timer_reachable small_timers outstanding ?s1"
    by (rule timers_call [OF r0 call_add [OF d0(1) s]])
  have "outstanding ({7}, \<lambda>n. 0, 0) = (outstanding (ex_loop ?s1))(0 := outstanding (ex_loop ?s1) 0 - 1)"
    by (simp add: fun_eq_iff)
  then have "timer_done small_timers 0 Success (?s1\<lparr>ex_loop := ({7}, \<lambda>n. 0, 0)\<rparr>)
      = return_eff () (?s1\<lparr>ex_loop := ({7}, \<lambda>n. 0, 0)\<rparr>)"
    using timeout_handled_once [OF c h r, of 0 7 "({7}, \<lambda>n. 0, 0)"] by (simp add: small_timers_def)
  then show ?thesis using s by (intro exI [of _ ?s1]) (simp add: return_eff_def)
qed

end
