(* ===== verification/Upower.thy ===== *)
theory Upower
  imports Example_Clients
begin

text \<open>
  The UPower client, src/examples/upower/main.cpp: a program that reads and prints what the service has.

  The state is the process with the caches of its properties, one for each description (a static
  variable of \<open>Object::property_cache\<close>), and the text on the standard output. How streams print floating
  point numbers, and what boost's accumulators compute, are parameters; so is connecting a lambda that prints
  a line to a signal. The thread that runs the bus, and the signal of the system that ends the program, are
  not modelled.
\<close>

section \<open>Properties for one expression\<close>

type_synonym ('d, 'h, 'i, 'e, 'c) client_process =
  "(property_description \<Rightarrow> (cache_key, nat, 'c) cache) \<times> ('d, 'h, 'i, 'e) world"

definition on_cache_of ::
  "property_description \<Rightarrow> ((cache_key, nat, 'c) cache \<times> ('d, 'h, 'i, 'e) world, 'a) eff
     \<Rightarrow> (('d, 'h, 'i, 'e, 'c) client_process, 'a) eff" where
  "on_cache_of D e s = (case e (fst s D, snd s) of (r, (c, w)) \<Rightarrow> (r, ((fst s)(D := c), w)))"

text \<open>A property that was made for the expression (it has the number \<open>k\<close>) dies at its end, also when the
  expression throws.\<close>

definition with_temporary ::
  "('w, nat, cache_key, 'c) objects \<Rightarrow> nat \<Rightarrow> nat \<Rightarrow> ((cache_key, nat, 'c) cache \<times> 'w, 'a) eff
     \<Rightarrow> ((cache_key, nat, 'c) cache \<times> 'w, 'a) eff" where
  "with_temporary W k q e s =
     (case e s of (r, s1) \<Rightarrow>
        (case (if q = k then destroy_object W k else return_eff ()) s1 of
           (Inl x, s2) \<Rightarrow> (Inl x, s2)
         | (Inr _, s2) \<Rightarrow> (r, s2)))"

text \<open>\<open>object->get_property<D>()->get()\<close> and \<open>object->get_property<D>()->set(v)\<close>.\<close>

definition read_declared ::
  "(('d, 'h, 'i, 'e) world, nat, cache_key, 'c) objects \<Rightarrow> ('m, 'i, 'w, 'd, 'p, 'h, 'e) env \<Rightarrow> nat \<Rightarrow> nat
     \<Rightarrow> property_description \<Rightarrow> (('d, 'h, 'i, 'e, 'c) client_process, 'i cval) eff" where
  "read_declared W C n k D = on_cache_of D
     (bind_eff (get_property W C n k D) (\<lambda>q. with_temporary W k q (on_world (property_get C q))))"

definition set_declared ::
  "(('d, 'h, 'i, 'e) world, nat, cache_key, 'c) objects \<Rightarrow> ('m, 'i, 'w, 'd, 'p, 'h, 'e) env \<Rightarrow> nat \<Rightarrow> nat
     \<Rightarrow> property_description \<Rightarrow> 'i cval \<Rightarrow> (('d, 'h, 'i, 'e, 'c) client_process, unit) eff" where
  "set_declared W C n k D v = on_cache_of D
     (bind_eff (get_property W C n k D) (\<lambda>q. with_temporary W k q (on_world (property_set C q v))))"

section \<open>The program\<close>

definition in_world ::
  "(('d, 'h, 'i, 'e) world, 'a) eff \<Rightarrow> (('d, 'h, 'i, 'e, 'c) client_process \<times> string, 'a) eff" where
  "in_world e = in_process (zoom snd (\<lambda>w p. (fst p, w)) e)"

definition print_property ::
  "(64 word \<Rightarrow> string) \<Rightarrow> (('d, 'h, 'i, 'e) world, nat, cache_key, 'c) objects
     \<Rightarrow> ('m, 'i, 'w, 'd, 'p, 'h, 'e) env \<Rightarrow> nat \<Rightarrow> nat \<Rightarrow> string \<times> property_description
     \<Rightarrow> (('d, 'h, 'i, 'e, 'c) client_process \<times> string, unit) eff" where
  "print_property show W C n k e =
     bind_eff (in_process (read_declared W C n k (snd e))) (\<lambda>v. print (fst e @ show_value show v @ newline))"

text \<open>The lines with the properties of the service, and those with the properties of a device.\<close>

definition upower_overview :: "(string \<times> property_description) list" where
  "upower_overview = map (\<lambda>D. ([], D)) (filter (\<lambda>D. pd_name D \<noteq> ''OnLowBattery'') upower_properties)"

definition device_report :: "(string \<times> property_description) list" where
  "device_report = map (\<lambda>D. (tab @ pd_name D @ '': '', D))
     (filter (\<lambda>D. pd_name D \<notin> {''NativePath'', ''TimeToEmpty'', ''TimeToFull''})
        (upower_device_identity @ upower_device_state))"

definition print_names ::
  "('m, 'i, 'w, 'd, 'p, 'h, 'e) env \<Rightarrow> nat \<Rightarrow> string \<Rightarrow> string
     \<Rightarrow> (('d, 'h, 'i, 'e, 'c) client_process \<times> string, unit) eff" where
  "print_names C n interface indent =
     bind_eff (in_world (get_all_properties C n interface)) (\<lambda>v.
       case v of
         V_map pairs \<Rightarrow> each_eff (\<lambda>pair. print (indent @ show_value (\<lambda>w. []) (fst pair) @ newline)) pairs
       | _ \<Rightarrow> ill_typed)"

fun print_pair :: "(64 word \<Rightarrow> string) \<Rightarrow> 'i cval \<Rightarrow> ('s \<times> string, unit) eff" where
  "print_pair show (V_struct (V_tuple [a, b])) =
     print (show_value show a @ '', '' @ show_value show b @ newline)"
| "print_pair show v = ill_typed"

definition print_statistics ::
  "(64 word \<Rightarrow> string) \<Rightarrow> ('m, 'i, 'w, 'd, 'p, 'h, 'e) env \<Rightarrow> nat
     \<Rightarrow> (('d, 'h, 'i, 'e, 'c) client_process \<times> string, unit) eff" where
  "print_statistics show C n = or_print_error
     (bind_eff (in_world (call_declared C n upower_device_get_statistics
          (T_vector (T_struct (T_tuple [T_double, T_double]))) [(T_string, V_string ''charging'')])) (\<lambda>v.
        case v of V_vector stats \<Rightarrow> each_eff (print_pair show) stats | _ \<Rightarrow> ill_typed))"

fun load_of :: "'i cval \<Rightarrow> 64 word" where
  "load_of (V_struct (V_tuple [a, V_double load, b])) = load"
| "load_of v = 0"

text \<open>\<open>mean\<close> and \<open>moment\<close>: what is printed for the mean, and for the root of the second moment.\<close>

definition print_history ::
  "(64 word list \<Rightarrow> string) \<Rightarrow> (64 word list \<Rightarrow> string) \<Rightarrow> ('m, 'i, 'w, 'd, 'p, 'h, 'e) env \<Rightarrow> nat
     \<Rightarrow> (('d, 'h, 'i, 'e, 'c) client_process \<times> string, unit) eff" where
  "print_history mean moment C n = or_print_error
     (bind_eff (in_world (call_declared C n upower_device_get_history
          (T_vector (T_struct (T_tuple [T_uint32, T_double, T_uint32])))
          [(T_string, V_string ''charge''), (T_uint32, V_uint32 0), (T_uint32, V_uint32 50)])) (\<lambda>v.
        case v of
          V_vector hist \<Rightarrow> print (''Load statistics(Mean: '' @ mean (map load_of hist) @ '', 2nd Moment: ''
             @ moment (map load_of hist) @ '')'' @ newline)
        | _ \<Rightarrow> ill_typed))"

definition thick_rule :: string where
  "thick_rule = replicate 83 (CHR ''='')"

definition thin_rule :: string where
  "thin_rule = replicate 83 (CHR ''-'')"

text \<open>One device; \<open>announce n D line\<close> connects a lambda that prints the line to the signal \<open>D\<close> of the
  object \<open>n\<close>. The device (its number is \<open>dev\<close>) dies at the end, also when something throws.\<close>

definition print_device ::
  "(64 word \<Rightarrow> string) \<Rightarrow> (64 word list \<Rightarrow> string) \<Rightarrow> (64 word list \<Rightarrow> string)
     \<Rightarrow> (nat \<Rightarrow> signal_description \<Rightarrow> string \<Rightarrow> (('d, 'h, 'i, 'e, 'c) client_process \<times> string, unit) eff)
     \<Rightarrow> (('d, 'h, 'i, 'e) world, nat, cache_key, 'c) objects \<Rightarrow> ('m, 'i, 'w, 'd, 'p, 'h, 'e) env \<Rightarrow> nat \<Rightarrow> nat
     \<Rightarrow> nat \<Rightarrow> string \<Rightarrow> (('d, 'h, 'i, 'e, 'c) client_process \<times> string, unit) eff" where
  "print_device show mean moment announce W C obj dev k path =
     then_eff (print (thick_rule @ newline))
       (bind_eff (in_world (object_add_object_for_path obj dev path)) (\<lambda>dev.
          then_eff
            (catch_eff
              (then_eff (each_eff (\<lambda>D. announce dev D (''core::UPower::Device::Signals::'' @ sd_name D @ newline))
                  upower_device_signals)
              (then_eff (print_statistics show C dev)
              (then_eff (print_history mean moment C dev)
              (then_eff (print (''Manual: '' @ path @ newline))
              (then_eff (each_eff (print_property show W C dev k) device_report)
              (then_eff (print (thin_rule @ newline))
              (then_eff (print_names C dev upower_device_interface tab)
                 (print (thick_rule @ newline)))))))))
              (\<lambda>e. then_eff (in_world (object_destructor C dev)) (throw_eff e)))
            (in_world (object_destructor C dev))))"

text \<open>\<open>main\<close>, from the service on; \<open>obj\<close>, \<open>dev\<close> and \<open>k\<close> are the numbers of the objects that are made.\<close>

definition upower_main ::
  "(64 word \<Rightarrow> string) \<Rightarrow> (64 word list \<Rightarrow> string) \<Rightarrow> (64 word list \<Rightarrow> string)
     \<Rightarrow> (nat \<Rightarrow> signal_description \<Rightarrow> string \<Rightarrow> (('d, 'h, 'i, 'e, 'c) client_process \<times> string, unit) eff)
     \<Rightarrow> (('d, 'h, 'i, 'e) world, nat, cache_key, 'c) objects \<Rightarrow> ('m, 'i, 'w, 'd, 'p, 'h, 'e) env \<Rightarrow> nat \<Rightarrow> nat
     \<Rightarrow> nat \<Rightarrow> (('d, 'h, 'i, 'e, 'c) client_process \<times> string, unit) eff" where
  "upower_main show mean moment announce W C obj dev k =
     bind_eff (in_world (object_for_path obj (use_service upower_interface) ''/core/UPower'')) (\<lambda>obj.
       then_eff (print_names C obj upower_interface [])
      (then_eff (each_eff (print_property show W C obj k) upower_overview)
      (then_eff (each_eff (\<lambda>D. announce obj D (''core::UPower::Signals::'' @ sd_name D @ newline)) upower_signals)
      (bind_eff (in_world (call_declared C obj upower_enumerate_devices (T_vector T_object_path) [])) (\<lambda>v.
        case v of
          V_vector devices \<Rightarrow>
            then_eff (print (''Devices count: '' @ show_nat (length devices) @ newline))
              (each_eff (\<lambda>path. print_device show mean moment announce W C obj dev k (show_value show path)) devices)
        | _ \<Rightarrow> ill_typed)))))"

text \<open>The labels are the names of the properties, in this order.\<close>

lemma device_report_labels:
  "map (\<lambda>e. (fst e, pd_type (snd e))) device_report = map (\<lambda>(name, t). (tab @ name @ '': '', t))
     [(''Vendor'', T_string), (''Model'', T_string), (''Serial'', T_string), (''UpdateTime'', T_uint64),
      (''Type'', T_uint32), (''PowerSupply'', T_boolean), (''HasHistory'', T_boolean), (''HasStatistics'', T_boolean),
      (''Online'', T_boolean), (''Energy'', T_double), (''EnergyEmpty'', T_double), (''EnergyFull'', T_double),
      (''EnergyFullDesign'', T_double), (''EnergyRate'', T_double), (''Voltage'', T_double), (''Percentage'', T_double),
      (''IsPresent'', T_boolean), (''State'', T_uint32), (''IsRechargeable'', T_boolean), (''Capacity'', T_double),
      (''Technology'', T_uint32), (''RecallNotice'', T_boolean), (''RecallVendor'', T_string), (''RecallUrl'', T_string)]"
  by (simp add: device_report_def upower_device_identity_def upower_device_state_def dbus_cpp_readable_property_def)

section \<open>What is read\<close>

text \<open>
  What is used of the properties' signals (\<open>W\<close>): connecting a slot and destroying a property touch no other property,
  no object, and not the other process; and of libdbus: it adds the match rules it is given.
\<close>

definition same_peer ::
  "('d \<Rightarrow> ('e, 'h, 'i, 'g) world) \<Rightarrow> ('d, 'a, 'i, 'b) world \<Rightarrow> ('d, 'a, 'i, 'b) world \<Rightarrow> bool" where
  "same_peer server w w' \<longleftrightarrow>
     w_properties (server (bus_conn (w_bus w'))) = w_properties (server (bus_conn (w_bus w)))
     \<and> w_objects (server (bus_conn (w_bus w'))) = w_objects (server (bus_conn (w_bus w)))"

definition keeps_process ::
  "('d \<Rightarrow> ('e, 'h, 'i, 'g) world) \<Rightarrow> (('d, 'a, 'i, 'b) world, nat, cache_key, 'c) objects \<Rightarrow> bool" where
  "keeps_process server W \<longleftrightarrow> sees_properties W
     \<and> (\<forall>p k w. same_peer server w (snd (connect_slot W p k w)))
     \<and> (\<forall>p w. w_properties (end_object W p w) = (w_properties w)(p := None)
          \<and> w_objects (end_object W p w) = w_objects w \<and> same_peer server w (end_object W p w))"

definition adds_rules :: "('d, 'm, 'p) connection \<Rightarrow> ('d \<Rightarrow> 's) \<Rightarrow> bool" where
  "adds_rules K server \<longleftrightarrow> (\<forall>rule d. fst (conn_add_match K rule d) = None
     \<and> server (snd (conn_add_match K rule d)) = server d)"

text \<open>A client that holds no property, and has a stub of the object.\<close>

definition idle_client :: "('d, 'h, 'i, 'e, 'c) client_process \<Rightarrow> nat \<Rightarrow> bool" where
  "idle_client s n \<longleftrightarrow> (\<forall>D. \<not> cache_guard (fst s D)) \<and> w_properties (snd s) = (\<lambda>k. None)
     \<and> (\<exists>ob. w_objects (snd s) n = Some ob \<and> service_stub (ob_service ob))"

lemma same_peer_trans: "same_peer server w w1 \<Longrightarrow> same_peer server w1 w2 \<Longrightarrow> same_peer server w w2"
  by (simp add: same_peer_def)

lemma watch_changes_run:
  assumes "adds_rules (env_conn C) server" and "w_objects w n = Some ob" and "service_stub (ob_service ob)"
  obtains w' ob' where "watch_changes C n p D w = (Inr (), w')" and "w_objects w' n = Some ob'"
    and "service_stub (ob_service ob')" and "w_properties w' = w_properties w"
    and "server (bus_conn (w_bus w')) = server (bus_conn (w_bus w))"
proof -
  let ?rule = "c_str (as_string (with_sender (with_path properties_changed_rule (ob_path ob)) (service_name (ob_service ob))))"
  obtain d where d: "conn_add_match (env_conn C) ?rule (bus_conn (w_bus w)) = (None, d)"
    and s: "server d = server (bus_conn (w_bus w))"
    using assms(1) unfolding adds_rules_def by (metis prod.collapse)
  let ?ob1 = "ob\<lparr>ob_changed_vtable := (ob_changed_vtable ob)((pd_interface D, pd_name D) \<mapsto> p)\<rparr>"
  let ?ob = "ob\<lparr>ob_match_added := True, ob_changed_vtable := (ob_changed_vtable ob)((pd_interface D, pd_name D) \<mapsto> p)\<rparr>"
  show thesis
  proof (cases "ob_match_added ob")
    case True
    show thesis
      by (rule that [of "put_object n ?ob1 w" ?ob1])
        (use True assms(2,3) in \<open>simp_all add: watch_changes_def if_alive_def object_of_def on_object_def zoom_def
          put_object_def then_eff_def bind_eff_def return_eff_def\<close>)
  next
    case False
    show thesis
      by (rule that [of "put_object n ?ob (w\<lparr>w_bus := w_bus w\<lparr>bus_conn := d\<rparr>\<rparr>)" ?ob])
        (use False assms(2,3) d s in \<open>simp_all add: watch_changes_def if_alive_def object_of_def on_object_def zoom_def
          put_object_def then_eff_def bind_eff_def return_eff_def on_bus_def on_conn_def object_add_match_def
          service_add_match_def add_match_def error_is_set_def Let_def\<close>)
  qed
qed

text \<open>The property that is made for the expression.\<close>

definition new_property :: "nat \<Rightarrow> property_description \<Rightarrow> 'i dbus_property" where
  "new_property n D = \<lparr>pr_object = n, pr_interface = pd_interface D, pr_name = pd_name D, pr_type = pd_type D,
     pr_writable = pd_writable D, pr_value = default_val (pd_type D)\<rparr>"

lemma get_property_new:
  assumes "adds_rules (env_conn C) server" and "keeps_process server W" and "idle_client (cs, w) n"
  obtains c' w' ob' where "get_property W C n k D (cs D, w) = (Inr k, (c', w'))" and "\<not> cache_guard c'"
    and "w_properties w' = [k \<mapsto> new_property n D]" and "w_objects w' n = Some ob'"
    and "service_stub (ob_service ob')" and "same_peer server w w'"
proof -
  obtain ob where g: "\<not> cache_guard (cs D)" and p: "w_properties w = (\<lambda>k. None)"
    and ob: "w_objects w n = Some ob" "service_stub (ob_service ob)"
    using assms(3) unfolding idle_client_def by auto
  let ?key = "(ob_path ob, pd_interface D, pd_name D)"
  let ?w1 = "w\<lparr>w_properties := [k \<mapsto> new_property n D]\<rparr>"
  have make: "make_property n k D w = (Inr k, ?w1)"
    using make_property_stub [OF ob, of k D] p by (simp add: new_property_def)
  have dead: "\<not> alive W w q" for q using assms(2) p by (simp add: keeps_process_def sees_properties_def)
  have none: "retrieve_value_for_key W ?key (cs D, w) = (Inr None, (cs D, w))"
    using g dead by (auto simp: retrieve_run weak_lock_def split: option.split)
  obtain c2 w2 b where ins: "insert_value_for_key W ?key k (cs D, ?w1) = (Inr b, (c2, w2))" and c2: "\<not> cache_guard c2"
    and w2: "w_objects w2 = w_objects w" "w_properties w2 = [k \<mapsto> new_property n D]" "same_peer server w w2"
  proof (cases "cache_find (cs D) ?key")
    case None
    let ?w2 = "snd (connect_slot W k ?key ?w1)"
    have "w_objects ?w2 = w_objects ?w1" "w_properties ?w2 = w_properties ?w1" "same_peer server ?w1 ?w2"
      using assms(2) unfolding keeps_process_def sees_properties_def by blast+
    then show thesis
      using that [of True "cache_put ?key (k, fst (connect_slot W k ?key ?w1)) (cs D)" ?w2] None g
      by (simp add: insert_run same_peer_def)
  next
    case (Some e)
    then show thesis using that [of False "cs D" ?w1] g by (simp add: insert_run same_peer_def)
  qed
  obtain w3 ob3 where w3: "watch_changes C n k D w2 = (Inr (), w3)" "w_objects w3 n = Some ob3"
      "service_stub (ob_service ob3)" "w_properties w3 = w_properties w2"
      "server (bus_conn (w_bus w3)) = server (bus_conn (w_bus w2))"
    using watch_changes_run [OF assms(1), of w2 n ob k D] w2(1) ob by auto
  have "get_property W C n k D (cs D, w) = (Inr k, (c2, w3))"
    using ob none make ins w3(1)
    by (simp add: get_property_def object_of_def object_is_stub_def Let_def bind_eff_def then_eff_def
        catch_eff_def on_world_def zoom_def return_eff_def)
  then show thesis
    using that [of c2 w3 ob3] c2 w2 w3 by (simp add: same_peer_def)
qed

text \<open>And its end.\<close>

lemma with_temporary_run:
  assumes "keeps_process server W" and "e (c, w) = (r, (c1, w1))" and "\<not> cache_guard c1"
    and "w_properties w1 = [k \<mapsto> p]" and "same_peer server w w1"
  obtains c' w' where "with_temporary W k k e (c, w) = (r, (c', w'))" and "\<not> cache_guard c'"
    and "w_properties w' = (\<lambda>k. None)" and "w_objects w' = w_objects w1" and "same_peer server w w'"
proof -
  obtain c' where c': "destroy_object W k (c1, w1) = (Inr (), (c', end_object W k w1))" "\<not> cache_guard c'"
    by (rule destroy_object_run [OF assms(3)])
  have w: "w_properties (end_object W k w1) = (w_properties w1)(k := None)"
      "w_objects (end_object W k w1) = w_objects w1" "same_peer server w1 (end_object W k w1)"
    using assms(1) unfolding keeps_process_def by blast+
  show thesis
    by (rule that [of c' "end_object W k w1"])
      (use c' w assms(2,4) same_peer_trans [OF assms(5)] in \<open>simp_all add: with_temporary_def\<close>)
qed

text \<open>The service has the described property, with a value that libdbus can carry.\<close>

definition offers ::
  "('m, 'i, 'w, 'd, 'p, 'h, 'e) env \<Rightarrow> (int \<Rightarrow> raw \<Rightarrow> bool) \<Rightarrow> ('d, 'h, 'i, 'e) world \<Rightarrow> nat
     \<Rightarrow> property_description \<Rightarrow> 'i cval \<Rightarrow> bool" where
  "offers E ok s ob D v \<longleftrightarrow> (\<exists>n p. serves_property s ob (pd_interface D, pd_name D) n \<and> w_properties s n = Some p
     \<and> pr_interface p = pd_interface D \<and> pr_name p = pd_name D \<and> pr_type p = pd_type D \<and> pr_value p = v
     \<and> property_strings_ok ok p \<and> transportable (env_lib E) (env_floats E) ok (pr_type p) (pr_value p))"

lemma offers_peer:
  "same_peer server w w' \<Longrightarrow> offers E ok (server (bus_conn (w_bus w'))) ob D v = offers E ok (server (bus_conn (w_bus w))) ob D v"
  by (simp add: offers_def serves_property_def same_peer_def)

lemma read_declared_run:
  fixes E :: "('m, 'i, 'w, 'd, 'p, 'h, 'e) env" and C :: "('m, 'i, 'w, 'c, 'q, 'g, 'f) env"
  assumes "rpc_library (env_lib E) ok den" and "env_lib C = env_lib E" and "env_floats C = env_floats E"
    and "posts (env_conn E) outbox" and "connected (env_lib E) (env_conn C) server outbox (on_new_message E ob)"
    and "keeps_process server W" and "adds_rules (env_conn C) server"
    and "offers E ok (server (bus_conn (w_bus (snd s)))) ob D v" and "no_variant (pd_type D)" and "idle_client s n"
  obtains s' where "read_declared W C n k D s = (Inr v, s')" and "idle_client s' n" and "same_peer server (snd s) (snd s')"
proof -
  obtain cs w where s: "s = (cs, w)" by fastforce
  obtain c1 w1 ob1 where g: "get_property W C n k D (cs D, w) = (Inr k, (c1, w1))" "\<not> cache_guard c1"
    and w1: "w_properties w1 = [k \<mapsto> new_property n D]" "w_objects w1 n = Some ob1" "service_stub (ob_service ob1)"
      "same_peer server w w1"
    by (rule get_property_new [OF assms(7,6) assms(10) [unfolded s]])
  have off: "offers E ok (server (bus_conn (w_bus w1))) ob D v"
    using assms(8) offers_peer [OF w1(4), of E] s by simp
  then obtain m p where p: "serves_property (server (bus_conn (w_bus w1))) ob (pr_interface p, pr_name p) m"
      "w_properties (server (bus_conn (w_bus w1))) m = Some p" "property_strings_ok ok p"
      "transportable (env_lib E) (env_floats E) ok (pr_type p) (pr_value p)"
    and D: "pr_interface p = pd_interface D" "pr_name p = pd_name D" "pr_type p = pd_type D" "pr_value p = v"
    unfolding offers_def by metis
  have q: "w_properties w1 k = Some (new_property n D)" "same_property p (new_property n D)"
      "object_is_stub (object_of (pr_object (new_property n D)) w1)"
    using w1 D by (simp_all add: new_property_def same_property_def object_of_def object_is_stub_def)
  obtain w2 where w2: "property_get C k w1 = (Inr v, w2)" "w_properties w2 = [k \<mapsto> (new_property n D)\<lparr>pr_value := v\<rparr>]"
      "w_objects w2 = w_objects w1" "same_peer server w1 w2"
    using remote_get_run [OF assms(1-5) p(1,2) q p(3,4)] assms(9) D(3,4) w1(1) by (auto simp: same_peer_def)
  have e: "on_world (property_get C k) (c1, w1) = (Inr v, (c1, w2))"
    using w2(1) by (simp add: on_world_def zoom_def)
  obtain c' w' where t: "with_temporary W k k (on_world (property_get C k)) (c1, w1) = (Inr v, (c', w'))"
      "\<not> cache_guard c'" "w_properties w' = (\<lambda>k. None)" "w_objects w' = w_objects w2" "same_peer server w1 w'"
    by (rule with_temporary_run [where e = "on_world (property_get C k)" and c = c1 and w = w1,
          OF assms(6) e g(2) w2(2,4)])
  show thesis
    by (rule that [of "(cs(D := c'), w')"])
      (use g(1) t w1(2,3) w2(3) assms(10) same_peer_trans [OF w1(4) t(5)] in
        \<open>simp_all add: s read_declared_def on_cache_of_def bind_eff_def idle_client_def\<close>)
qed

lemma set_declared_read_only:
  fixes C :: "('m, 'i, 'w, 'd, 'p, 'h, 'e) env" and server :: "'d \<Rightarrow> ('c, 'a, 'i, 'b) world"
  assumes "keeps_process server W" and "adds_rules (env_conn C) server" and "\<not> pd_writable D" and "idle_client s n"
  obtains s' where "set_declared W C n k D v s = (Inl (Runtime_error ''Property is not writable''), s')"
    and "same_peer server (snd s) (snd s')"
proof -
  obtain cs w where s: "s = (cs, w)" by fastforce
  obtain c1 w1 ob1 where g: "get_property W C n k D (cs D, w) = (Inr k, (c1, w1))" "\<not> cache_guard c1"
    and w1: "w_properties w1 = [k \<mapsto> new_property n D]" "w_objects w1 n = Some ob1" "service_stub (ob_service ob1)"
      "same_peer server w w1"
    by (rule get_property_new [OF assms(2,1) assms(4) [unfolded s]])
  have e: "on_world (property_set C k v) (c1, w1) = (Inl (Runtime_error ''Property is not writable''), (c1, w1))"
    using w1(1-3) assms(3)
    by (simp add: on_world_def zoom_def property_set_def with_property_def new_property_def object_of_def
        object_is_stub_def then_eff_def bind_eff_def throw_eff_def)
  obtain c' w' where t: "with_temporary W k k (on_world (property_set C k v)) (c1, w1)
      = (Inl (Runtime_error ''Property is not writable''), (c', w'))" "same_peer server w1 w'"
    by (rule with_temporary_run [where e = "on_world (property_set C k v)" and c = c1 and w = w1 and k = k,
          OF assms(1) e g(2) w1(1)]) (simp_all add: same_peer_def)
  show thesis
    by (rule that [of "(cs(D := c'), w')"])
      (use g(1) t(1) same_peer_trans [OF w1(4) t(2)] in
        \<open>simp_all add: s set_declared_def on_cache_of_def bind_eff_def\<close>)
qed

text \<open>
  C20. What the UPower example declares can be read and not be written. For each of the 34 properties that
  src/examples/upower/upower.h declares, if the service has a property of that interface, name and type,
  then \<open>get_property<D>()->get()\<close> on a stub of its object gives exactly the value that the service has, and
  \<open>get_property<D>()->set(v)\<close> throws and changes no property and no object of the service. Either way the property
  that was made for the expression is gone afterwards.
\<close>

theorem upower_properties_are_read:
  fixes E :: "('m, 'i, 'w, 'd, 'p, 'h, 'e) env" and C :: "('m, 'i, 'w, 'c, 'q, 'g, 'f) env"
  assumes "D \<in> set all_upower_properties"
    and "rpc_library (env_lib E) ok den" and "env_lib C = env_lib E" and "env_floats C = env_floats E"
    and "posts (env_conn E) outbox" and "connected (env_lib E) (env_conn C) server outbox (on_new_message E ob)"
    and "keeps_process server W" and "adds_rules (env_conn C) server"
    and "offers E ok (server (bus_conn (w_bus (snd s)))) ob D v" and "idle_client s n"
  shows "\<exists>s'. read_declared W C n k D s = (Inr v, s') \<and> idle_client s' n
     \<and> (\<forall>u. \<exists>s''. set_declared W C n k D u s' = (Inl (Runtime_error ''Property is not writable''), s'')
          \<and> same_peer server (snd s) (snd s''))"
proof -
  have D: "no_variant (pd_type D)" "\<not> pd_writable D"
    using upower_declarations assms(1) by blast+
  obtain s' where s': "read_declared W C n k D s = (Inr v, s')" "idle_client s' n" "same_peer server (snd s) (snd s')"
    by (rule read_declared_run [OF assms(2-9) D(1) assms(10)])
  have "\<exists>s''. set_declared W C n k D u s' = (Inl (Runtime_error ''Property is not writable''), s'')
      \<and> same_peer server (snd s) (snd s'')" for u
    using set_declared_read_only [OF assms(7,8) D(2) s'(2)] same_peer_trans [OF s'(3)] by metis
  then show ?thesis using s'(1,2) by blast
qed

text \<open>A service with the first property, and a client with a stub of its object.\<close>

definition daemon_version :: property_description where
  "daemon_version = dbus_cpp_readable_property ''DaemonVersion'' upower_interface T_string"

definition upower_service :: "(list_message list, unit, dval list, unit) world" where
  "upower_service = (snd (then_eff (construct_object 0 \<lparr>service_name = upower_interface, service_stub = False\<rparr> ''/u'')
       (make_property 0 0 daemon_version) (empty_world [])))
     \<lparr>w_properties := [0 \<mapsto> \<lparr>pr_object = 0, pr_interface = upower_interface, pr_name = ''DaemonVersion'',
        pr_type = T_string, pr_writable = False, pr_value = V_string ''0.9''\<rparr>]\<rparr>"

definition upower_client ::
  "((list_message list, unit, dval list, unit) world, unit, dval list, unit, nat) client_process" where
  "upower_client = (\<lambda>D. new_cache,
     (empty_world upower_service)\<lparr>w_objects := [1 \<mapsto> new_object (use_service upower_interface) ''/u'']\<rparr>)"

lemma upower_client_idle: "idle_client upower_client 1"
  by (simp add: idle_client_def upower_client_def new_cache_def new_object_def use_service_def empty_world_def)

lemma upower_service_offers:
  "offers server_env (\<lambda>c r. True) upower_service 0 daemon_version (V_string ''0.9'')"
proof -
  note D = daemon_version_def dbus_cpp_readable_property_def
  have "serves_property upower_service 0 (upower_interface, ''DaemonVersion'') 0"
    unfolding serves_property_def
    by (simp add: upower_service_def world_run_simps D get_key_def set_key_def properties_interface_def)
  then show ?thesis
    by (auto simp: offers_def D upower_service_def property_strings_ok_def string_ok_def upower_interface_def
        transportable_def sample_envs(1) intro!: exI [of _ 0])
qed

lemma sample_keeps_process: "keeps_process (\<lambda>d. d) world_objects"
  by (simp add: keeps_process_def sees_properties_def same_peer_def world_objects_def)

lemma sample_adds_rules: "adds_rules (env_conn client_env) (\<lambda>d. d)"
  by (simp add: adds_rules_def client_env_def pipe_connection_def)

theorem upower_properties_are_read_witness:
  "\<exists>s'. read_declared world_objects client_env 1 5 daemon_version upower_client = (Inr (V_string ''0.9''), s')
     \<and> (\<exists>s''. set_declared world_objects client_env 1 5 daemon_version (V_string ''1'') s'
          = (Inl (Runtime_error ''Property is not writable''), s''))"
proof -
  have "daemon_version \<in> set all_upower_properties"
    by (simp add: upower_properties_def daemon_version_def dbus_cpp_readable_property_def)
  moreover have "bus_conn (w_bus (snd upower_client)) = upower_service"
    by (simp add: upower_client_def empty_world_def constructed_bus_def new_bus_def)
  ultimately show ?thesis
    using upower_properties_are_read [where E = server_env and C = client_env and server = "\<lambda>d. d" and s = upower_client
        and W = world_objects and n = 1 and k = 5, OF _ sample_envs(6,2,3) sample_posts sample_connected
        sample_keeps_process sample_adds_rules _ upower_client_idle] upower_service_offers
    by fastforce
qed

text \<open>Every line of a report.\<close>

lemma print_properties_run:
  fixes E :: "('m, 'i, 'w, 'd, 'p, 'h, 'e) env" and C :: "('m, 'i, 'w, 'c, 'q, 'g, 'f) env"
  assumes "rpc_library (env_lib E) ok den" and "env_lib C = env_lib E" and "env_floats C = env_floats E"
    and "posts (env_conn E) outbox" and "connected (env_lib E) (env_conn C) server outbox (on_new_message E ob)"
    and "keeps_process server W" and "adds_rules (env_conn C) server"
  shows "\<forall>e \<in> set es. no_variant (pd_type (snd e)) \<and> offers E ok (server (bus_conn (w_bus (snd s)))) ob (snd e) (val (snd e))
     \<Longrightarrow> idle_client s n
     \<Longrightarrow> \<exists>s'. each_eff (print_property show W C n k) es (s, out)
          = (Inr (), (s', out @ concat (map (\<lambda>e. fst e @ show_value show (val (snd e)) @ newline) es)))
        \<and> idle_client s' n"
proof (induction es arbitrary: s out)
  case (Cons e es)
  have e: "no_variant (pd_type (snd e))" "offers E ok (server (bus_conn (w_bus (snd s)))) ob (snd e) (val (snd e))"
    using Cons.prems(1) by simp_all
  obtain s1 where 1: "read_declared W C n k (snd e) s = (Inr (val (snd e)), s1)" "idle_client s1 n"
      "same_peer server (snd s) (snd s1)"
    by (rule read_declared_run [OF assms e(2,1) Cons.prems(2)])
  have "print_property show W C n k e (s, out) = (Inr (), (s1, out @ fst e @ show_value show (val (snd e)) @ newline))"
    using 1(1) by (simp add: print_property_def in_process_def zoom_def bind_eff_def print_def)
  moreover have "\<forall>e \<in> set es. no_variant (pd_type (snd e))
      \<and> offers E ok (server (bus_conn (w_bus (snd s1)))) ob (snd e) (val (snd e))"
    using Cons.prems(1) offers_peer [OF 1(3), of E] by simp
  ultimately show ?case
    using Cons.IH [OF _ 1(2), of "out @ fst e @ show_value show (val (snd e)) @ newline"] by (simp add: then_eff_Inr)
qed (simp add: return_eff_def)

text \<open>The report of a device prints the values that the service has, behind their names.\<close>

lemma device_report_shows:
  fixes E :: "('m, 'i, 'w, 'd, 'p, 'h, 'e) env" and C :: "('m, 'i, 'w, 'c, 'q, 'g, 'f) env"
  assumes "rpc_library (env_lib E) ok den" and "env_lib C = env_lib E" and "env_floats C = env_floats E"
    and "posts (env_conn E) outbox" and "connected (env_lib E) (env_conn C) server outbox (on_new_message E ob)"
    and "keeps_process server W" and "adds_rules (env_conn C) server"
    and "\<forall>e \<in> set device_report. offers E ok (server (bus_conn (w_bus (snd s)))) ob (snd e) (val (snd e))"
    and "idle_client s n"
  shows "\<exists>s'. each_eff (print_property show W C n k) device_report (s, out) = (Inr (), (s', out
     @ concat (map (\<lambda>e. tab @ pd_name (snd e) @ '': '' @ show_value show (val (snd e)) @ newline) device_report)))"
proof -
  have "\<forall>e \<in> set device_report. no_variant (pd_type (snd e))"
    using upower_declarations by (auto simp: device_report_def)
  then have "\<exists>s'. each_eff (print_property show W C n k) device_report (s, out)
      = (Inr (), (s', out @ concat (map (\<lambda>e. fst e @ show_value show (val (snd e)) @ newline) device_report)))"
    using print_properties_run [OF assms(1-7) _ assms(9), of device_report val "show" k out] assms(8) by auto
  moreover have lines: "map (\<lambda>e. tab @ pd_name (snd e) @ '': '' @ show_value show (val (snd e)) @ newline) device_report
      = map (\<lambda>e. fst e @ show_value show (val (snd e)) @ newline) device_report"
    by (simp add: device_report_def)
  ultimately show ?thesis unfolding lines by blast
qed

end
