(* ===== verification/Xml_Reader.thy ===== *)
theory Xml_Reader
  imports Introspection
begin

text \<open>
  The loop of \<open>IntrospectionParser::invoke_for\<close> over libxml2's reader (src/core/dbus/introspection\_parser.cpp),
  node by node, and that it does what \<open>invoke_for\<close> does with the list of all nodes.

  libxml2 is a parameter: opening a file, moving to the next node, and the node the reader is at.
\<close>

record 'x xml_reader =
  xr_open :: "string \<Rightarrow> 'x option"
  xr_read :: "'x \<Rightarrow> int \<times> 'x"
  xr_node :: "'x \<Rightarrow> xml_node"

definition status_has_more :: int where "status_has_more = 1"

definition status_done :: int where "status_done = 0"

definition status_error :: int where "status_error = -1"

text \<open>The state has the status, the reader, and what the callbacks work on.\<close>

definition read_nodes :: "'x xml_reader \<Rightarrow> 's parser \<Rightarrow> ((int \<times> 'x) \<times> 's, unit) eff" where
  "read_nodes R d = loop_eff (\<lambda>s. fst (fst s) = status_has_more)
     (\<lambda>_. then_eff (\<lambda>s. zoom snd (\<lambda>t s. (fst s, t)) (visit_xml_node d (xr_node R (snd (fst s)))) s)
        (\<lambda>s. (Inr (), (xr_read R (snd (fst s)), snd s)))) ()"

definition invoke_for_file :: "'x xml_reader \<Rightarrow> 's parser \<Rightarrow> string \<Rightarrow> ('s, bool) eff" where
  "invoke_for_file R d filename s =
     (case xr_open R (c_str filename) of
        None \<Rightarrow> (Inr False, s)
      | Some reader \<Rightarrow>
          (let start = xr_read R reader in
           if fst start = status_error then (Inr False, s)
           else (case read_nodes R d (start, s) of
                   (Inl e, s') \<Rightarrow> (Inl e, snd s')
                 | (Inr _, s') \<Rightarrow> (Inr (if fst (fst s') = status_error then False else fst (fst s') = status_done), snd s'))))"

text \<open>The reader gives these nodes, and then this status.\<close>

fun yields_nodes :: "'x xml_reader \<Rightarrow> 'x \<Rightarrow> xml_node list \<Rightarrow> int \<Rightarrow> bool" where
  "yields_nodes R x [] status \<longleftrightarrow> fst (xr_read R x) = status \<and> status \<noteq> status_has_more"
| "yields_nodes R x (n # ns) status \<longleftrightarrow> fst (xr_read R x) = status_has_more
     \<and> xr_node R (snd (xr_read R x)) = n \<and> yields_nodes R (snd (xr_read R x)) ns status"

text \<open>The state of the loop with what the last round returned, and one round.\<close>

definition loop_goes_on :: "(exn + unit) \<times> ((int \<times> 'x) \<times> 's) \<Rightarrow> bool" where
  "loop_goes_on = (\<lambda>(r, s). case r of Inl e \<Rightarrow> False | Inr x \<Rightarrow> fst (fst s) = status_has_more)"

definition loop_round ::
  "'x xml_reader \<Rightarrow> 's parser \<Rightarrow> (exn + unit) \<times> ((int \<times> 'x) \<times> 's) \<Rightarrow> (exn + unit) \<times> ((int \<times> 'x) \<times> 's)" where
  "loop_round R d = (\<lambda>(r, s). case r of Inl e \<Rightarrow> (Inl e, s) | Inr x \<Rightarrow>
     then_eff (\<lambda>s. zoom snd (\<lambda>t s. (fst s, t)) (visit_xml_node d (xr_node R (snd (fst s)))) s)
        (\<lambda>s. (Inr (), (xr_read R (snd (fst s)), snd s))) s)"

lemma read_nodes_while:
  "while_option loop_goes_on (loop_round R d) (Inr (), s) = Some rs \<Longrightarrow> read_nodes R d s = rs"
  by (simp add: read_nodes_def loop_eff_def loop_goes_on_def loop_round_def)

lemma read_nodes_ends:
  "yields_nodes R x ns status \<Longrightarrow> \<exists>y. while_option loop_goes_on (loop_round R d) (Inr (), (xr_read R x, s)) =
     Some (case each_eff (visit_xml_node d) ns s of
        (Inl e, s') \<Rightarrow> (Inl e, (y, s'))
      | (Inr _, s') \<Rightarrow> (Inr (), ((status, snd y), s')))"
proof (induction ns arbitrary: x s)
  case Nil
  then show ?case
    by (intro exI [of _ "xr_read R x"], subst while_option_unfold)
      (auto simp: loop_goes_on_def return_eff_def prod_eq_iff)
next
  case (Cons n ns)
  let ?x = "snd (xr_read R x)"
  have x: "fst (xr_read R x) = status_has_more" "xr_node R ?x = n" "yields_nodes R ?x ns status"
    using Cons.prems by simp_all
  obtain r s1 where 1: "visit_xml_node d n s = (r, s1)" by fastforce
  have go: "loop_goes_on (Inr (), (xr_read R x, s))" using x(1) by (simp add: loop_goes_on_def)
  show ?case
  proof (cases r)
    case (Inl e)
    then have "loop_round R d (Inr (), (xr_read R x, s)) = (Inl e, (xr_read R x, s1))"
      using x(2) 1 by (simp add: loop_round_def then_eff_def bind_eff_def zoom_def)
    moreover have "\<not> loop_goes_on (Inl e, (xr_read R x, s1))" by (simp add: loop_goes_on_def)
    ultimately have "while_option loop_goes_on (loop_round R d) (Inr (), (xr_read R x, s)) = Some (Inl e, (xr_read R x, s1))"
      using go by (simp add: while_option_unfold [of _ _ "(Inr (), (xr_read R x, s))"]
        while_option_unfold [of _ _ "(Inl e, (xr_read R x, s1))"])
    then show ?thesis using 1 Inl by (intro exI [of _ "xr_read R x"]) (simp add: then_eff_Inl)
  next
    case (Inr u)
    then have "loop_round R d (Inr (), (xr_read R x, s)) = (Inr (), (xr_read R ?x, s1))"
      using x(2) 1 by (simp add: loop_round_def then_eff_def bind_eff_def zoom_def)
    then have "while_option loop_goes_on (loop_round R d) (Inr (), (xr_read R x, s))
        = while_option loop_goes_on (loop_round R d) (Inr (), (xr_read R ?x, s1))"
      using go by (subst while_option_unfold) simp
    then show ?thesis using Cons.IH [OF x(3), of s1] 1 Inr by (simp add: then_eff_Inr)
  qed
qed

text \<open>
  The loop over the reader does what \<open>invoke_for\<close> does with all nodes: when the reader ends, after the nodes \<open>ns\<close>
  and with the status \<open>status\<close>, the same callbacks are called, an exception of one of them leaves the function
  at the same node, and the answer is the same.
\<close>

lemma invoke_for_file_reads:
  assumes "\<And>reader. xr_open R (c_str filename) = Some reader \<Longrightarrow> yields_nodes R reader (fst (doc reader)) (snd (doc reader))"
    and "open_xml (c_str filename) = map_option doc (xr_open R (c_str filename))"
    and "\<And>reader. xr_open R (c_str filename) = Some reader \<Longrightarrow> snd (doc reader) = status_done \<or> snd (doc reader) = status_error"
  shows "invoke_for_file R d filename = invoke_for open_xml d filename"
proof (rule ext)
  fix s
  show "invoke_for_file R d filename s = invoke_for open_xml d filename s"
  proof (cases "xr_open R (c_str filename)")
    case None
    then show ?thesis using assms(2) by (simp add: invoke_for_file_def invoke_for_def return_eff_def)
  next
    case (Some reader)
    obtain ns status where doc: "doc reader = (ns, status)" by fastforce
    have y: "yields_nodes R reader ns status" using assms(1) [OF Some] doc by simp
    obtain z where "while_option loop_goes_on (loop_round R d) (Inr (), (xr_read R reader, s)) =
      Some (case each_eff (visit_xml_node d) ns s of
          (Inl e, s') \<Rightarrow> (Inl e, (z, s'))
        | (Inr _, s') \<Rightarrow> (Inr (), ((status, snd z), s')))"
      using read_nodes_ends [OF y, of d s] by blast
    note run = read_nodes_while [OF this]
    have st: "status = status_done \<or> status = status_error" using assms(3) [OF Some] doc by simp
    show ?thesis
    proof (cases ns)
      case Nil
      then show ?thesis
        using Some doc y run st assms(2)
        by (auto simp: invoke_for_file_def invoke_for_def Let_def return_eff_def status_done_def status_error_def)
    next
      case (Cons n ns')
      then have "fst (xr_read R reader) = status_has_more" using y by simp
      then show ?thesis
        using Some doc run st assms(2)
        by (cases "each_eff (visit_xml_node d) ns s")
          (auto simp: invoke_for_file_def invoke_for_def Let_def then_eff_def bind_eff_def return_eff_def status_done_def
            status_error_def status_has_more_def split: sum.split)
    qed
  qed
qed

end
