(* ===== verification/Variant_Objects.thy ===== *)
theory Variant_Objects
  imports Codec_Roundtrip
begin

text \<open>
  \<open>types::Variant\<close> and \<open>types::TypedVariant\<close> as objects (include/core/dbus/types/variant.h). The theory on the
  codecs has the values they stand for; here are the objects themselves, because the functions they keep refer to
  them: a default constructed \<open>Variant\<close> and a \<open>TypedVariant\<close> capture \<open>this\<close>, and a copy keeps what was captured.

  An object has an address, a number. A function that was moved from is empty. A reader is a shared pointer to
  an iterator: the iterators are kept in a list, and what an object keeps is a place in it (\<open>None\<close>: a default
  constructed reader, which has no iterator), so copies read on where the others stopped.
\<close>

section \<open>Objects\<close>

datatype 'i encoder = No_encoder | Encode_value ctype "'i cval" | Encode_this nat

datatype decoder = No_decoder | Decode_any nat | Decode_this nat | Decode_variable nat

text \<open>\<open>vo_value\<close>, the member of a \<open>TypedVariant<T>\<close> with its type, is there for these only.\<close>

record 'i variant_object =
  vo_encoder :: "'i encoder"
  vo_decoder :: decoder
  vo_any :: "nat option"
  vo_signature :: string
  vo_value :: "(ctype \<times> 'i cval) option"

record 'i memory =
  mem_variants :: "nat \<Rightarrow> 'i variant_object option"
  mem_variables :: "nat \<Rightarrow> (ctype \<times> 'i cval) option"
  mem_readers :: "'i list"

definition variant_at :: "nat \<Rightarrow> 'i memory \<Rightarrow> exn + 'i variant_object" where
  "variant_at a s = (case mem_variants s a of
     None \<Rightarrow> Inl (Undefined_behaviour ''variant used after its destruction'') | Some ob \<Rightarrow> Inr ob)"

definition put_variant :: "nat \<Rightarrow> 'i variant_object \<Rightarrow> 'i memory \<Rightarrow> 'i memory" where
  "put_variant a ob s = s\<lparr>mem_variants := (mem_variants s)(a \<mapsto> ob)\<rparr>"

definition destroy_variant :: "nat \<Rightarrow> 'i memory \<Rightarrow> 'i memory" where
  "destroy_variant a s = s\<lparr>mem_variants := (mem_variants s)(a := None)\<rparr>"

section \<open>Constructors\<close>

definition default_variant :: "nat \<Rightarrow> 'i memory \<Rightarrow> 'i memory" where
  "default_variant a = put_variant a
     \<lparr>vo_encoder = No_encoder, vo_decoder = Decode_any a, vo_any = None, vo_signature = [], vo_value = None\<rparr>"

definition variant_with_encoder :: "nat \<Rightarrow> 'i encoder \<Rightarrow> string \<Rightarrow> 'i memory \<Rightarrow> 'i memory" where
  "variant_with_encoder a encoder sg = put_variant a
     \<lparr>vo_encoder = encoder, vo_decoder = No_decoder, vo_any = None, vo_signature = sg, vo_value = None\<rparr>"

definition variant_with_decoder :: "nat \<Rightarrow> decoder \<Rightarrow> string \<Rightarrow> 'i memory \<Rightarrow> 'i memory" where
  "variant_with_decoder a decoder sg = put_variant a
     \<lparr>vo_encoder = No_encoder, vo_decoder = decoder, vo_any = None, vo_signature = sg, vo_value = None\<rparr>"

text \<open>\<open>Variant::encode(t)\<close> and \<open>Variant::decode(t)\<close>, for a value and for a variable.\<close>

definition variant_of_value :: "nat \<Rightarrow> ctype \<Rightarrow> 'i cval \<Rightarrow> 'i memory \<Rightarrow> 'i memory" where
  "variant_of_value a t v = variant_with_encoder a (Encode_value t v) (signature t)"

definition variant_of_variable :: "nat \<Rightarrow> ctype \<Rightarrow> nat \<Rightarrow> 'i memory \<Rightarrow> 'i memory" where
  "variant_of_variable a t x = variant_with_decoder a (Decode_variable x) (signature t)"

text \<open>The copy constructor is the default: all members are copied, the captured pointers with them.\<close>

definition copy_variant :: "nat \<Rightarrow> nat \<Rightarrow> 'i memory \<Rightarrow> exn + 'i memory" where
  "copy_variant a b s = (case variant_at a s of Inl e \<Rightarrow> Inl e | Inr ob \<Rightarrow> Inr (put_variant b ob s))"

text \<open>A copy of a \<open>TypedVariant\<close> as a \<open>Variant\<close>, for instance into a map of variants.\<close>

definition slice_variant :: "nat \<Rightarrow> nat \<Rightarrow> 'i memory \<Rightarrow> exn + 'i memory" where
  "slice_variant a b s =
     (case variant_at a s of Inl e \<Rightarrow> Inl e | Inr ob \<Rightarrow> Inr (put_variant b (ob\<lparr>vo_value := None\<rparr>) s))"

definition moved_from :: "'i variant_object \<Rightarrow> 'i variant_object" where
  "moved_from ob = ob\<lparr>vo_encoder := No_encoder, vo_decoder := No_decoder, vo_any := None, vo_signature := []\<rparr>"

definition move_variant :: "nat \<Rightarrow> nat \<Rightarrow> 'i memory \<Rightarrow> exn + 'i memory" where
  "move_variant a b s =
     (case variant_at a s of Inl e \<Rightarrow> Inl e | Inr ob \<Rightarrow> Inr (put_variant b ob (put_variant a (moved_from ob) s)))"

definition move_assign_variant :: "nat \<Rightarrow> nat \<Rightarrow> 'i memory \<Rightarrow> exn + 'i memory" where
  "move_assign_variant lhs rhs s =
     (case variant_at lhs s of
        Inl e \<Rightarrow> Inl e
      | Inr ob \<Rightarrow>
          (case variant_at rhs s of
             Inl e \<Rightarrow> Inl e
           | Inr ob' \<Rightarrow> Inr (put_variant lhs
               (ob\<lparr>vo_encoder := vo_encoder ob', vo_decoder := vo_decoder ob', vo_any := vo_any ob',
                  vo_signature := vo_signature ob'\<rparr>) (put_variant rhs (moved_from ob') s))))"

definition set_encoder :: "'i encoder \<Rightarrow> 'i variant_object \<Rightarrow> 'i variant_object" where
  "set_encoder encoder ob = ob\<lparr>vo_encoder := encoder\<rparr>"

definition set_decoder :: "decoder \<Rightarrow> 'i variant_object \<Rightarrow> 'i variant_object" where
  "set_decoder decoder ob = ob\<lparr>vo_decoder := decoder\<rparr>"

definition set_signature :: "string \<Rightarrow> 'i variant_object \<Rightarrow> 'i variant_object" where
  "set_signature sg ob = ob\<lparr>vo_signature := sg\<rparr>"

text \<open>The constructor of a \<open>TypedVariant<T>\<close>, its \<open>get\<close> and its \<open>set\<close>.\<close>

definition construct_typed_variant :: "nat \<Rightarrow> ctype \<Rightarrow> 'i cval \<Rightarrow> 'i memory \<Rightarrow> 'i memory" where
  "construct_typed_variant a t v s =
     put_variant a
       (set_signature (signature t) (set_encoder (Encode_this a) (set_decoder (Decode_this a)
          \<lparr>vo_encoder = No_encoder, vo_decoder = Decode_any a, vo_any = None, vo_signature = [],
           vo_value = Some (t, v)\<rparr>))) s"

definition value_at :: "nat \<Rightarrow> 'i memory \<Rightarrow> exn + (ctype \<times> 'i cval)" where
  "value_at a s =
     (case variant_at a s of
        Inl e \<Rightarrow> Inl e
      | Inr ob \<Rightarrow> (case vo_value ob of None \<Rightarrow> Inl (Undefined_behaviour ''no typed variant'') | Some tv \<Rightarrow> Inr tv))"

definition typed_variant_get :: "nat \<Rightarrow> 'i memory \<Rightarrow> exn + 'i cval" where
  "typed_variant_get a s = (case value_at a s of Inl e \<Rightarrow> Inl e | Inr (t, v) \<Rightarrow> Inr v)"

definition typed_variant_set :: "nat \<Rightarrow> 'i cval \<Rightarrow> 'i memory \<Rightarrow> exn + 'i memory" where
  "typed_variant_set a w s =
     (case variant_at a s of
        Inl e \<Rightarrow> Inl e
      | Inr ob \<Rightarrow> Inr (put_variant a (ob\<lparr>vo_value := map_option (\<lambda>(t, v). (t, w)) (vo_value ob)\<rparr>) s))"

section \<open>Encoding and decoding\<close>

definition run_encoder ::
  "('m, 'i, 'w) libdbus \<Rightarrow> float_conversions \<Rightarrow> 'i memory \<Rightarrow> 'i encoder \<Rightarrow> ('w \<times> 'm, unit) eff option" where
  "run_encoder L F s encoder =
     (case encoder of
        No_encoder \<Rightarrow> None
      | Encode_value t v \<Rightarrow> Some (encode L F t v)
      | Encode_this a \<Rightarrow> Some (case value_at a s of Inl e \<Rightarrow> throw_eff e | Inr (t, v) \<Rightarrow> encode L F t v))"

definition encode_variant_object ::
  "('m, 'i, 'w) libdbus \<Rightarrow> float_conversions \<Rightarrow> 'i memory \<Rightarrow> nat \<Rightarrow> ('w \<times> 'm, unit) eff" where
  "encode_variant_object L F s a =
     (case variant_at a s of
        Inl e \<Rightarrow> throw_eff e
      | Inr ob \<Rightarrow> codec_variant_encode L (vo_signature ob) (run_encoder L F s (vo_encoder ob)))"

text \<open>Decoding is on the reader, and gives the new memory. \<open>any = Any{in}\<close> keeps a new reader, that of the contents of
the variant, which nothing else uses.\<close>

definition keep_reader :: "nat \<Rightarrow> 'i variant_object \<Rightarrow> 'i option \<Rightarrow> 'i memory \<Rightarrow> 'i memory" where
  "keep_reader a ob j s =
     (case j of
        None \<Rightarrow> put_variant a (ob\<lparr>vo_any := None\<rparr>) s
      | Some i \<Rightarrow> put_variant a (ob\<lparr>vo_any := Some (length (mem_readers s))\<rparr>)
          (s\<lparr>mem_readers := mem_readers s @ [i]\<rparr>))"

definition run_decoder ::
  "('m, 'i, 'w) libdbus \<Rightarrow> float_conversions \<Rightarrow> 'i memory \<Rightarrow> decoder \<Rightarrow> ('i, 'i memory) eff option" where
  "run_decoder L F s decoder =
     (case decoder of
        No_decoder \<Rightarrow> None
      | Decode_any a \<Rightarrow> Some (case variant_at a s of
            Inl e \<Rightarrow> throw_eff e
          | Inr ob \<Rightarrow> bind_eff codec_any_decode (\<lambda>j. return_eff (keep_reader a ob j s)))
      | Decode_this a \<Rightarrow> Some (case value_at a s of
            Inl e \<Rightarrow> throw_eff e
          | Inr (t, v) \<Rightarrow> bind_eff (decode L F t v)
              (\<lambda>x. lift_res (typed_variant_set a x s)))
      | Decode_variable x \<Rightarrow> Some (case mem_variables s x of
            None \<Rightarrow> throw_eff (Undefined_behaviour ''variable used after its end'')
          | Some (t, v) \<Rightarrow> bind_eff (decode L F t v)
              (\<lambda>y. return_eff (s\<lparr>mem_variables := (mem_variables s)(x \<mapsto> (t, y))\<rparr>))))"

definition decode_variant_object ::
  "('m, 'i, 'w) libdbus \<Rightarrow> float_conversions \<Rightarrow> 'i memory \<Rightarrow> nat \<Rightarrow> ('i, 'i memory) eff" where
  "decode_variant_object L F s a =
     (case variant_at a s of
        Inl e \<Rightarrow> throw_eff e
      | Inr ob \<Rightarrow> codec_variant_decode L (run_decoder L F s (vo_decoder ob)))"

text \<open>The codec of \<open>TypedVariant\<close> hands on to that of \<open>Variant\<close>.\<close>

definition encode_typed_variant_object ::
  "('m, 'i, 'w) libdbus \<Rightarrow> float_conversions \<Rightarrow> 'i memory \<Rightarrow> nat \<Rightarrow> ('w \<times> 'm, unit) eff" where
  "encode_typed_variant_object L F s a = encode_variant_object L F s a"

definition decode_typed_variant_object ::
  "('m, 'i, 'w) libdbus \<Rightarrow> float_conversions \<Rightarrow> 'i memory \<Rightarrow> nat \<Rightarrow> ('i, 'i memory) eff" where
  "decode_typed_variant_object L F s a = decode_variant_object L F s a"

text \<open>\<open>as<T>()\<close> is declared \<open>const\<close>, but reads from the reader that is kept, which moves it.\<close>

definition object_as ::
  "('m, 'i, 'w) libdbus \<Rightarrow> float_conversions \<Rightarrow> ctype \<Rightarrow> nat \<Rightarrow> ('i memory, 'i cval) eff" where
  "object_as L F t a s =
     (case variant_at a s of
        Inl e \<Rightarrow> (Inl e, s)
      | Inr ob \<Rightarrow>
          (case vo_any ob of
             None \<Rightarrow> (Inl (Undefined_behaviour ''reader without an iterator''), s)
           | Some r \<Rightarrow> (case stream_in L F t (default_val t) (mem_readers s ! r) of
                (x, j) \<Rightarrow> (x, s\<lparr>mem_readers := (mem_readers s)[r := j]\<rparr>))))"

section \<open>Histories of typed variants\<close>

text \<open>A step makes a \<open>TypedVariant\<close>, copies one, copies one as a \<open>Variant\<close>, sets the value of one or ends the life
of one.\<close>

datatype 'i variant_step =
    Make nat ctype "'i cval"
  | Copy nat nat
  | Slice nat nat
  | Set_value nat "'i cval"
  | Destroy nat

fun run_variant_step :: "'i variant_step \<Rightarrow> 'i memory \<Rightarrow> exn + 'i memory" where
  "run_variant_step (Make a t v) s = Inr (construct_typed_variant a t v s)"
| "run_variant_step (Copy a b) s = copy_variant a b s"
| "run_variant_step (Slice a b) s = slice_variant a b s"
| "run_variant_step (Set_value a w) s = typed_variant_set a w s"
| "run_variant_step (Destroy a) s = Inr (destroy_variant a s)"

fun variant_steps :: "'i variant_step list \<Rightarrow> 'i memory \<Rightarrow> exn + 'i memory" where
  "variant_steps [] s = Inr s"
| "variant_steps (x # xs) s = (case run_variant_step x s of Inl e \<Rightarrow> Inl e | Inr s' \<Rightarrow> variant_steps xs s')"

text \<open>The addresses at which the steps make objects.\<close>

fun new_addresses :: "'i variant_step \<Rightarrow> nat list" where
  "new_addresses (Make a t v) = [a]"
| "new_addresses (Copy a b) = [b]"
| "new_addresses (Slice a b) = [b]"
| "new_addresses (Set_value a w) = []"
| "new_addresses (Destroy a) = []"

text \<open>What there is to know of the living objects: the object each descends from by copying, the type, and its own
value, if it is a \<open>TypedVariant\<close>.\<close>

type_synonym 'i family = "nat \<Rightarrow> (nat \<times> ctype \<times> 'i cval option) option"

fun family_step :: "'i variant_step \<Rightarrow> 'i family \<Rightarrow> 'i family" where
  "family_step (Make a t v) d = d(a \<mapsto> (a, t, Some v))"
| "family_step (Copy a b) d = d(b := d a)"
| "family_step (Slice a b) d = d(b := map_option (\<lambda>(r, t, v). (r, t, None)) (d a))"
| "family_step (Set_value a w) d = d(a := map_option (\<lambda>(r, t, v). (r, t, map_option (\<lambda>_. w) v)) (d a))"
| "family_step (Destroy a) d = d(a := None)"

definition family_after :: "'i variant_step list \<Rightarrow> 'i family" where
  "family_after xs = fold family_step xs Map.empty"

definition no_variants :: "'i memory" where
  "no_variants = \<lparr>mem_variants = Map.empty, mem_variables = Map.empty, mem_readers = []\<rparr>"

fun object_in_family :: "nat \<times> ctype \<times> 'i cval option \<Rightarrow> 'i variant_object" where
  "object_in_family (r, t, v) =
     \<lparr>vo_encoder = Encode_this r, vo_decoder = Decode_this r, vo_any = None, vo_signature = signature t,
      vo_value = map_option (Pair t) v\<rparr>"

text \<open>The memory holds the family, its addresses are in use, and an object has the type of the one it descends from
for as long as that lives.\<close>

definition family_inv :: "nat set \<Rightarrow> 'i family \<Rightarrow> 'i memory \<Rightarrow> bool" where
  "family_inv U d s \<longleftrightarrow>
     (\<forall>a. mem_variants s a = map_option object_in_family (d a))
     \<and> (\<forall>a r t v. d a = Some (r, t, v) \<longrightarrow>
          a \<in> U \<and> r \<in> U \<and> (\<forall>r' t' v'. d r = Some (r', t', v') \<longrightarrow> t' = t \<and> v' \<noteq> None))"

lemma family_step_keeps:
  assumes "family_inv U d s" and "run_variant_step x s = Inr s'" and "set (new_addresses x) \<inter> U = {}"
  shows "family_inv (U \<union> set (new_addresses x)) (family_step x d) s'"
proof (cases x)
  case (Make a t v)
  then show ?thesis
    using assms
    by (auto simp: family_inv_def construct_typed_variant_def put_variant_def set_signature_def set_encoder_def
        set_decoder_def; blast)
next
  case (Copy a b)
  then show ?thesis
    using assms
    by (auto simp: family_inv_def copy_variant_def variant_at_def put_variant_def split: option.splits; blast)
next
  case (Slice a b)
  then show ?thesis
    using assms
    by (auto simp: family_inv_def slice_variant_def variant_at_def put_variant_def split: option.splits; blast)
next
  case (Set_value a w)
  then show ?thesis
    using assms
    by (auto simp: family_inv_def typed_variant_set_def variant_at_def put_variant_def option.map_comp comp_def
        split: option.splits if_splits; blast)
next
  case (Destroy a)
  then show ?thesis
    using assms by (auto simp: family_inv_def destroy_variant_def; blast)
qed

lemma family_steps_keep:
  "family_inv U d s \<Longrightarrow> variant_steps xs s = Inr s' \<Longrightarrow> distinct (concat (map new_addresses xs))
     \<Longrightarrow> set (concat (map new_addresses xs)) \<inter> U = {}
     \<Longrightarrow> \<exists>V. family_inv V (fold family_step xs d) s'"
proof (induction xs arbitrary: U d s)
  case Nil
  then show ?case by auto
next
  case (Cons x xs)
  then obtain s1 where s1: "run_variant_step x s = Inr s1" and rest: "variant_steps xs s1 = Inr s'"
    by (auto split: sum.splits)
  have "family_inv (U \<union> set (new_addresses x)) (family_step x d) s1"
    using family_step_keeps [OF Cons.prems(1) s1] Cons.prems(4) by auto
  then show ?case
    using Cons.IH [OF _ rest, of "U \<union> set (new_addresses x)" "family_step x d"] Cons.prems(3,4) by auto
qed

lemma family_after_inv:
  assumes "variant_steps xs no_variants = Inr s" and "distinct (concat (map new_addresses xs))"
  shows "\<exists>V. family_inv V (family_after xs) s"
  unfolding family_after_def
  by (rule family_steps_keep [OF _ assms, of "{}"]) (simp_all add: family_inv_def no_variants_def)

lemma encode_in_family:
  assumes "family_inv U d s" and "d a = Some (r, t, v)"
  shows "encode_variant_object L F s a = codec_variant_encode L (signature t)
     (Some (case d r of
        Some (_, _, Some x) \<Rightarrow> encode L F t x
      | _ \<Rightarrow> throw_eff (Undefined_behaviour ''variant used after its destruction'')))"
  using assms
  by (fastforce simp: family_inv_def encode_variant_object_def variant_at_def run_encoder_def value_at_def
      split: option.splits prod.splits)

lemma get_in_family:
  assumes "family_inv U d s" and "d a = Some (r, t, Some v)"
  shows "typed_variant_get a s = Inr v"
  using assms by (simp add: family_inv_def typed_variant_get_def value_at_def variant_at_def)

text \<open>An object that was not made by copying encodes as the codec of the value it has.\<close>

lemma original_sends_own_value:
  assumes "family_inv U d s" and "d a = Some (a, t, Some v)"
  shows "encode_typed_variant_object L F s a = encode L F (T_typed_variant t) (V_typed_variant v)"
  using encode_in_family [OF assms] assms(2) by (simp add: encode_typed_variant_object_def)

text \<open>A received value goes to the object the reader's object descends from, and the reader's object keeps its
own.\<close>

lemma decode_of_copy_sets_original:
  assumes "family_inv U d s" and "d a = Some (r, t, v)" and "d r = Some (r', t', Some x)"
  shows "decode_typed_variant_object L F s a = codec_variant_decode L
     (Some (bind_eff (decode L F t x) (\<lambda>y. lift_res (typed_variant_set r y s))))"
proof -
  have "t' = t"
    using assms unfolding family_inv_def by blast
  then show ?thesis
    using assms
    by (simp add: family_inv_def decode_typed_variant_object_def decode_variant_object_def variant_at_def
        run_decoder_def value_at_def)
qed

text \<open>C34. A \<open>TypedVariant\<close> that was made by copying another sends not its own value but that of the object it
descends from by copying, as that is at the time of sending. Let any objects be made, copied, sliced, set and
destroyed, each at an address of its own. An object whose value \<open>get\<close> gives as \<open>v\<close> is sent as a variant of its
type that holds the current value of the object at the start of the chain of copies; if that is gone, its memory is
read after its end. So \<open>set\<close> followed by sending sends what was set exactly if the object is an original.\<close>

theorem copies_send_original:
  assumes "variant_steps xs no_variants = Inr s" and "distinct (concat (map new_addresses xs))"
    and "family_after xs a = Some (r, t, Some v)"
  shows "typed_variant_get a s = Inr v
     \<and> encode_typed_variant_object L F s a =
         codec_variant_encode L (signature t)
           (Some (case family_after xs r of
              Some (_, _, Some x) \<Rightarrow> encode L F t x
            | _ \<Rightarrow> throw_eff (Undefined_behaviour ''variant used after its destruction'')))"
proof -
  obtain V where inv: "family_inv V (family_after xs) s"
    using family_after_inv [OF assms(1,2)] by blast
  show ?thesis
    using encode_in_family [OF inv assms(3), of L F] get_in_family [OF inv assms(3)]
    by (simp add: encode_typed_variant_object_def)
qed

text \<open>A copy is set to 8 and its original to 9: the copy sends 9.\<close>

theorem copies_send_original_witness:
  "\<exists>s :: dval list memory.
     variant_steps [Make 0 T_int32 (V_int32 7), Copy 0 1, Set_value 1 (V_int32 8), Set_value 0 (V_int32 9)]
       no_variants = Inr s
     \<and> typed_variant_get 1 s = Inr (V_int32 8)
     \<and> encode_typed_variant_object list_libdbus sample_conversions s 1 =
         encode list_libdbus sample_conversions (T_typed_variant T_int32) (V_typed_variant (V_int32 9))"
proof -
  let ?xs = "[Make 0 T_int32 (V_int32 7), Copy 0 1, Set_value 1 (V_int32 8), Set_value 0 (V_int32 9)]
     :: dval list variant_step list"
  obtain s where s: "variant_steps ?xs no_variants = Inr s"
    by (simp add: copy_variant_def typed_variant_set_def variant_at_def put_variant_def construct_typed_variant_def
        no_variants_def)
  have "family_after ?xs 1 = Some (0, T_int32, Some (V_int32 8))"
    and "family_after ?xs 0 = Some (0, T_int32, Some (V_int32 9))"
    by (simp_all add: family_after_def)
  then show ?thesis
    using copies_send_original [OF s, of 1 0 T_int32 "V_int32 8" list_libdbus sample_conversions] s by auto
qed

section \<open>Reading what was received\<close>

text \<open>Copies, one after the other, from the first address to the second; and who of the objects has, in the end, a
copy of the reader that those of \<open>H\<close> have in the beginning.\<close>

fun copy_chain :: "(nat \<times> nat) list \<Rightarrow> 'i memory \<Rightarrow> exn + 'i memory" where
  "copy_chain [] s = Inr s"
| "copy_chain ((a, b) # cs) s = (case copy_variant a b s of Inl e \<Rightarrow> Inl e | Inr s' \<Rightarrow> copy_chain cs s')"

fun holders :: "(nat \<times> nat) list \<Rightarrow> nat set \<Rightarrow> nat set" where
  "holders [] H = H"
| "holders ((a, b) # cs) H = holders cs (if a \<in> H then insert b H else H - {b})"

definition keeps_place :: "nat \<Rightarrow> 'i memory \<Rightarrow> nat \<Rightarrow> bool" where
  "keeps_place r s a \<longleftrightarrow> (\<exists>ob. mem_variants s a = Some ob \<and> vo_any ob = Some r)"

lemma copy_chain_shares:
  "copy_chain cs s = Inr s' \<Longrightarrow> \<forall>a \<in> H. keeps_place r s a
     \<Longrightarrow> mem_readers s' = mem_readers s \<and> (\<forall>a \<in> holders cs H. keeps_place r s' a)"
proof (induction cs arbitrary: s H)
  case (Cons c cs)
  obtain a b where c: "c = (a, b)" by (cases c)
  with Cons.prems(1) obtain ob where ob: "mem_variants s a = Some ob" and rest: "copy_chain cs (put_variant b ob s) = Inr s'"
    by (auto simp: copy_variant_def variant_at_def split: option.splits)
  have "\<forall>d \<in> (if a \<in> H then insert b H else H - {b}). keeps_place r (put_variant b ob s) d"
    using Cons.prems(2) ob by (auto simp: keeps_place_def put_variant_def)
  then show ?case
    using Cons.IH [OF rest] by (simp add: c put_variant_def)
qed simp

text \<open>At its end a reader gives no basic value, and stays there.\<close>

lemma decode_at_end:
  assumes "reader_type L i = At_invalid" and "basic_type u"
  obtains why where "decode L F u v i = (Inl (Runtime_error why), i)"
proof -
  have e: "argument_type_of (iter_get_arg_type L i) = At_invalid" using assms(1) by (simp add: reader_type_def)
  note pops = pop_byte_def pop_boolean_def pop_int16_def pop_uint16_def pop_int32_def pop_uint32_def pop_int64_def
    pop_uint64_def pop_floating_point_def pop_string_def pop_object_path_def pop_signature_def pop_unix_fd_def
  note codecs = codec_byte_decode_def codec_boolean_decode_def codec_int16_decode_def codec_uint16_decode_def
    codec_int32_decode_def codec_uint32_decode_def codec_int64_decode_def codec_uint64_decode_def
    codec_float_decode_def codec_double_decode_def codec_string_decode_def codec_object_path_decode_def
    codec_signature_decode_def codec_unix_fd_decode_def
  have "\<exists>why. decode L F u v i = (Inl (Runtime_error why), i)"
    using assms(2) e
    by (cases u) (simp_all add: pops codecs bind_eff_def then_eff_def ensure_argument_type_or_throw_def Let_def argument_type_of_eq_iff)
  then show thesis using that by blast
qed

lemma object_as_at:
  assumes "keeps_place r s a"
  shows "object_as L F t a s = (case decode L F t (default_val t) (mem_readers s ! r) of
     (x, j) \<Rightarrow> (x, s\<lparr>mem_readers := (mem_readers s)[r := j]\<rparr>))"
  using assms by (auto simp: keeps_place_def object_as_def variant_at_def stream_in_def)

text \<open>A default constructed variant keeps the reader of the contents.\<close>

lemma default_variant_decodes:
  assumes "reads L den" and "den i (D_container 118 sg ds # rest)"
  obtains s1 i' where "decode_variant_object L F (default_variant a s) a i = (Inr s1, i')" and "den i' rest"
    and "keeps_place (length (mem_readers s)) s1 a" and "mem_readers s1 = mem_readers s @ [iter_recurse L i]"
    and "den (iter_recurse L i) ds"
proof -
  let ?s = "default_variant a s"
  have "decode_variant_object L F ?s a i = (Inr (keep_reader a (the (mem_variants ?s a)) (Some (iter_recurse L i)) ?s), iter_next L i)"
    by (simp add: decode_variant_object_def variant_at_def default_variant_def put_variant_def run_decoder_def
        codec_variant_decode_def variant_decode_def pop_variant_def bind_eff_def on_reader_def codec_any_decode_def
        return_eff_def)
  moreover have "den (iter_next L i) rest" and "den (iter_recurse L i) ds"
    using reads_next [OF assms] reads_recurse [OF assms] by blast+
  moreover have "keeps_place (length (mem_readers s)) (keep_reader a (the (mem_variants ?s a)) (Some (iter_recurse L i)) ?s) a"
    and "mem_readers (keep_reader a (the (mem_variants ?s a)) (Some (iter_recurse L i)) ?s) = mem_readers s @ [iter_recurse L i]"
    by (simp_all add: keeps_place_def keep_reader_def default_variant_def put_variant_def)
  ultimately show thesis using that by blast
qed

text \<open>
  C33. A received variant delivers its value once. Let a variant that was made of a value of type \<open>T\<close> be
  received into a default constructed \<open>Variant\<close>, and this be copied, and copies be copied, in any way. The
  first \<open>as<T>()\<close>, on whichever of them, returns the value that was put in (its variants as received). The reader is
  shared by all of them: after that every \<open>as<U>()\<close> of a basic type on any of them throws and changes nothing.
\<close>

theorem variant_is_read_once:
  fixes s :: "'i memory" and L :: "('m, 'i, 'w) libdbus"
  assumes "reads L den" and "single_type t" and "sendable t x" and "clean L F x"
    and "den i (dvals_of F T_variant (make_variant t x) @ rest)"
  shows "\<exists>s1 i'. decode_variant_object L F (default_variant a s) a i = (Inr s1, i') \<and> den i' rest
     \<and> (\<forall>cs s2 c. copy_chain cs s1 = Inr s2 \<and> c \<in> holders cs {a} \<longrightarrow>
          (\<exists>x' s3. object_as L F t c s2 = (Inr x', s3) \<and> mem_variants s3 = mem_variants s2
             \<and> received F den x x' \<and> (no_variant t \<longrightarrow> x' = x)
             \<and> (\<forall>d u. d \<in> holders cs {a} \<and> basic_type u \<longrightarrow>
                  (\<exists>why. object_as L F u d s3 = (Inl (Runtime_error why), s3)))))"
proof -
  let ?r = "length (mem_readers s)" and ?j = "iter_recurse L i"
  have "dvals_of F T_variant (make_variant t x) = [D_container 118 (Some (signature t)) (dvals_of F t x)]"
    by (simp add: make_variant_def)
  then obtain s1 i' where s1: "decode_variant_object L F (default_variant a s) a i = (Inr s1, i')" "den i' rest"
      "keeps_place ?r s1 a" "mem_readers s1 = mem_readers s @ [?j]" and j: "den ?j (dvals_of F t x @ [])"
    using default_variant_decodes [OF assms(1), where F = F and s = s and a = a] assms(5)
    by (metis append_Cons append_Nil append_Nil2)
  obtain x' j' where x': "decode L F t (default_val t) ?j = (Inr x', j')" "received F den x x'" and j': "den j' []"
    by (rule yields_run [OF decode_yields [OF assms(1) single_multi [OF assms(2)] assms(3,4)] j])
  have "\<exists>x' s3. object_as L F t c s2 = (Inr x', s3) \<and> mem_variants s3 = mem_variants s2
       \<and> received F den x x' \<and> (no_variant t \<longrightarrow> x' = x)
       \<and> (\<forall>d u. d \<in> holders cs {a} \<and> basic_type u \<longrightarrow> (\<exists>why. object_as L F u d s3 = (Inl (Runtime_error why), s3)))"
    if cs: "copy_chain cs s1 = Inr s2" and c: "c \<in> holders cs {a}" for cs s2 c
  proof -
    have s2: "mem_readers s2 = mem_readers s @ [?j]" and share: "\<forall>d \<in> holders cs {a}. keeps_place ?r s2 d"
      using copy_chain_shares [OF cs, of "{a}" ?r] s1(3,4) by simp_all
    let ?s3 = "s2\<lparr>mem_readers := mem_readers s @ [j']\<rparr>"
    have "object_as L F t c s2 = (Inr x', ?s3)"
      using object_as_at [of ?r s2 c L F t] share c x'(1) s2 by simp
    moreover have "\<exists>why. object_as L F u d ?s3 = (Inl (Runtime_error why), ?s3)"
      if d: "d \<in> holders cs {a}" and u: "basic_type u" for d u
    proof -
      obtain why where "decode L F u (default_val u) j' = (Inl (Runtime_error why), j')"
        by (rule decode_at_end [OF reader_type_end [OF assms(1) j'] u])
      moreover have "keeps_place ?r ?s3 d" using share d by (simp add: keeps_place_def)
      ultimately show ?thesis using object_as_at [of ?r ?s3 d L F u] by simp
    qed
    ultimately show ?thesis
      using x'(2) received_no_variant [OF x'(2) assms(3)]
      by (intro exI [of _ x'] exI [of _ ?s3]) simp
  qed
  then show ?thesis using s1(1,2) by blast
qed

text \<open>A variant with a number is received and copied; the copy is read, and then the original.\<close>

theorem variant_is_read_once_witness:
  "\<exists>s1 s2 s3 i' why. decode_variant_object list_libdbus sample_conversions (default_variant 0 no_variants) 0
        [D_container 118 (Some ''i'') [D_basic 105 (Raw32 7)]] = (Inr s1, i')
     \<and> copy_chain [(0, 1)] s1 = Inr s2
     \<and> object_as list_libdbus sample_conversions T_int32 1 s2 = (Inr (V_int32 7), s3)
     \<and> object_as list_libdbus sample_conversions T_int32 0 s3 = (Inl (Runtime_error why), s3)"
proof -
  have d: "list_den [D_container 118 (Some ''i'') [D_basic 105 (Raw32 7)]]
      (dvals_of sample_conversions T_variant (make_variant T_int32 (V_int32 7)) @ [])"
    by (simp add: list_den_def make_variant_def)
  obtain s1 i' where s1: "decode_variant_object list_libdbus sample_conversions (default_variant 0 no_variants) 0
        [D_container 118 (Some ''i'') [D_basic 105 (Raw32 7)]] = (Inr s1, i')"
    and once: "\<And>cs s2 c. copy_chain cs s1 = Inr s2 \<and> c \<in> holders cs {0} \<longrightarrow>
          (\<exists>x' s3. object_as list_libdbus sample_conversions T_int32 c s2 = (Inr x', s3) \<and> mem_variants s3 = mem_variants s2
             \<and> received sample_conversions list_den (V_int32 7) x' \<and> (no_variant T_int32 \<longrightarrow> x' = V_int32 7)
             \<and> (\<forall>d u. d \<in> holders cs {0} \<and> basic_type u \<longrightarrow>
                  (\<exists>why. object_as list_libdbus sample_conversions u d s3 = (Inl (Runtime_error why), s3))))"
    using variant_is_read_once [OF list_reads _ _ _ d, where a = 0 and s = no_variants] by auto
  have "\<exists>ob. mem_variants s1 0 = Some ob"
    using s1 by (auto simp: decode_variant_object_def variant_at_def default_variant_def put_variant_def
        run_decoder_def codec_variant_decode_def variant_decode_def pop_variant_def bind_eff_def on_reader_def
        codec_any_decode_def return_eff_def keep_reader_def)
  then obtain s2 where s2: "copy_chain [(0, 1)] s1 = Inr s2"
    by (auto simp: copy_variant_def variant_at_def)
  show ?thesis using once [of "[(0, 1)]" s2 1] s1 s2 by fastforce
qed

end
