(* ===== verification/Visitor.thy ===== *)
theory Visitor
  imports Libdbus Dbus_Prelude
begin

text \<open>
  \<open>helper::apply_visitor\<close> (include/core/dbus/helper/apply\_visitor.h): a visitor is shown the arguments an
  iterator goes through, those in containers included. Nothing includes the file, which has a closing brace too many.

  The visitor is passed by value, so what it keeps in itself is lost at the end of a container; its state here is
  what it refers to. A loop that never ends is the value \<open>None\<close>.
\<close>

section \<open>The function\<close>

text \<open>What \<open>dbus_message_iter_get_basic\<close> stores in a \<open>DBusBasicValue\<close>; it wants a basic type.\<close>

definition string_value :: "('m, 'i, 'w) libdbus \<Rightarrow> 'i \<Rightarrow> exn + raw" where
  "string_value L it =
     (case iter_get_basic_str L it of
        None \<Rightarrow> Inl (Undefined_behaviour ''null string'') | Some s \<Rightarrow> Inr (Raw_str s))"

definition basic_value :: "('m, 'i, 'w) libdbus \<Rightarrow> argument_type \<Rightarrow> 'i \<Rightarrow> exn + raw" where
  "basic_value L type it =
     (case type of
        At_byte \<Rightarrow> Inr (Raw8 (iter_get_basic8 L it))
      | At_boolean \<Rightarrow> Inr (Raw32 (iter_get_basic32 L it))
      | At_int16 \<Rightarrow> Inr (Raw16 (iter_get_basic16 L it))
      | At_uint16 \<Rightarrow> Inr (Raw16 (iter_get_basic16 L it))
      | At_int32 \<Rightarrow> Inr (Raw32 (iter_get_basic32 L it))
      | At_uint32 \<Rightarrow> Inr (Raw32 (iter_get_basic32 L it))
      | At_int64 \<Rightarrow> Inr (Raw64 (iter_get_basic64 L it))
      | At_uint64 \<Rightarrow> Inr (Raw64 (iter_get_basic64 L it))
      | At_floating_point \<Rightarrow> Inr (Raw64 (iter_get_basic64 L it))
      | At_string \<Rightarrow> string_value L it
      | At_object_path \<Rightarrow> string_value L it
      | At_signature \<Rightarrow> string_value L it
      | At_unix_fd \<Rightarrow> Inr (Raw32 (iter_get_basic32 L it))
      | _ \<Rightarrow> Inl (Undefined_behaviour ''value of an argument that is not basic''))"

text \<open>\<open>visitor(type)\<close> for a container and \<open>visitor(type, &value)\<close> for a basic value. The loop is the call on the
next position; the call on the contents is the function itself.\<close>

partial_function (option) apply_visitor ::
  "('m, 'i, 'w) libdbus \<Rightarrow> (argument_type \<Rightarrow> raw option \<Rightarrow> ('s, unit) eff) \<Rightarrow> 'i \<Rightarrow> 's
     \<Rightarrow> ((exn + unit) \<times> 's) option" where
  "apply_visitor L visitor it s =
     (let type = argument_type_of (iter_get_arg_type L it) in
      if type = At_invalid then Some (Inr (), s)
      else if is_compound_type type
        then (case visitor type None s of
            (Inl e, s1) \<Rightarrow> Some (Inl e, s1)
          | (Inr _, s1) \<Rightarrow>
              Option.bind (apply_visitor L visitor (iter_recurse L it) s1) (\<lambda>inner.
                case inner of
                  (Inl e, s2) \<Rightarrow> Some (Inl e, s2)
                | (Inr _, s2) \<Rightarrow> apply_visitor L visitor (iter_next L it) s2))
        else (case basic_value L type it of
            Inl e \<Rightarrow> Some (Inl e, s)
          | Inr value \<Rightarrow>
              (case visitor type (Some value) s of
                 (Inl e, s1) \<Rightarrow> Some (Inl e, s1)
               | (Inr _, s1) \<Rightarrow> apply_visitor L visitor (iter_next L it) s1)))"

section \<open>What the visitor is shown\<close>

text \<open>A container before its contents.\<close>

fun visits :: "dval \<Rightarrow> (argument_type \<times> raw option) list" where
  "visits (D_basic c r) = [(argument_type_of c, Some r)]"
| "visits (D_container c sg xs) = (argument_type_of c, None) # concat (map visits xs)"

text \<open>The arguments it can be shown: no variants, and the memory of each value has the width of its type.\<close>

fun raw_fits :: "argument_type \<Rightarrow> raw \<Rightarrow> bool" where
  "raw_fits type (Raw8 b) \<longleftrightarrow> type = At_byte"
| "raw_fits type (Raw16 b) \<longleftrightarrow> type \<in> {At_int16, At_uint16}"
| "raw_fits type (Raw32 b) \<longleftrightarrow> type \<in> {At_boolean, At_int32, At_uint32, At_unix_fd}"
| "raw_fits type (Raw64 b) \<longleftrightarrow> type \<in> {At_int64, At_uint64, At_floating_point}"
| "raw_fits type (Raw_str s) \<longleftrightarrow> type \<in> {At_string, At_object_path, At_signature}"

fun visitable :: "dval \<Rightarrow> bool" where
  "visitable (D_basic c r) \<longleftrightarrow> raw_fits (argument_type_of c) r"
| "visitable (D_container c sg xs) \<longleftrightarrow> is_compound_type (argument_type_of c) \<and> list_all visitable xs"

lemma raw_fits_read:
  "raw_fits type r \<Longrightarrow> get_basic_is L it r
     \<Longrightarrow> basic_value L type it = Inr r \<and> type \<noteq> At_invalid \<and> \<not> is_compound_type type"
  by (cases r) (auto simp: basic_value_def string_value_def is_compound_type_def)

lemma apply_visitor_end: "iter_get_arg_type L it = 0 \<Longrightarrow> apply_visitor L visitor it s = Some (Inr (), s)"
  by (subst apply_visitor.simps) simp

lemma apply_visitor_basic:
  assumes "raw_fits (argument_type_of (iter_get_arg_type L it)) r" and "get_basic_is L it r"
  shows "apply_visitor L visitor it s =
     (case visitor (argument_type_of (iter_get_arg_type L it)) (Some r) s of
        (Inl e, s1) \<Rightarrow> Some (Inl e, s1) | (Inr _, s1) \<Rightarrow> apply_visitor L visitor (iter_next L it) s1)"
  using raw_fits_read [OF assms]
  by (subst apply_visitor.simps) (simp add: Let_def)

lemma apply_visitor_container:
  assumes "is_compound_type (argument_type_of (iter_get_arg_type L it))"
    and "\<And>s. apply_visitor L visitor (iter_recurse L it) s = Some (inner s)"
  shows "apply_visitor L visitor it s =
     (case then_eff (visitor (argument_type_of (iter_get_arg_type L it)) None) inner s of
        (Inl e, s1) \<Rightarrow> Some (Inl e, s1) | (Inr _, s1) \<Rightarrow> apply_visitor L visitor (iter_next L it) s1)"
proof -
  have "\<not> is_compound_type At_invalid" by (simp add: is_compound_type_def)
  then have "argument_type_of (iter_get_arg_type L it) \<noteq> At_invalid"
    using assms(1) by metis
  then show ?thesis
    using assms
    by (subst apply_visitor.simps)
       (auto simp: Let_def then_eff_def bind_eff_def split: prod.split sum.split)
qed

text \<open>The visit of arguments without variants ends, and shows the visitor each of them, in the order in which
they are in the message, until it throws.\<close>

lemma apply_visitor_shows_all:
  "reads L den \<Longrightarrow> den it ds \<Longrightarrow> list_all visitable ds
     \<Longrightarrow> apply_visitor L visitor it s = Some (each_eff (\<lambda>(type, value). visitor type value) (concat (map visits ds)) s)"
proof (induction "size_list size ds" arbitrary: it ds s rule: less_induct)
  case less
  show ?case
  proof (cases ds)
    case Nil
    then show ?thesis
      using less.prems by (simp add: apply_visitor_end reads_end return_eff_def)
  next
    case (Cons d rest)
    note ty = reads_type [OF less.prems(1), of it d rest] and next_it = reads_next [OF less.prems(1), of it d rest]
    have rest: "apply_visitor L visitor (iter_next L it) s1
        = Some (each_eff (\<lambda>(type, value). visitor type value) (concat (map visits rest)) s1)" for s1
      by (rule less.hyps) (use less.prems Cons next_it in auto)
    show ?thesis
    proof (cases d)
      case (D_basic c r)
      then show ?thesis
        using less.prems Cons ty rest reads_basic [OF less.prems(1), of it c r rest]
        by (auto simp: apply_visitor_basic [of _ _ r] then_eff_def bind_eff_def split: prod.split sum.split)
    next
      case (D_container c sg xs)
      have "apply_visitor L visitor (iter_recurse L it) s1
          = Some (each_eff (\<lambda>(type, value). visitor type value) (concat (map visits xs)) s1)" for s1
        by (rule less.hyps) (use less.prems Cons D_container reads_recurse [OF less.prems(1)] in auto)
      then show ?thesis
        using less.prems Cons D_container ty rest
        by (auto simp: apply_visitor_container each_eff_append then_eff_def bind_eff_def split: prod.split sum.split)
    qed
  qed
qed

text \<open>A variant is no compound type: its value is asked for as if it were basic.\<close>

lemma apply_visitor_stumbles_on_variant:
  assumes "iter_get_arg_type L it = at_code At_variant"
  shows "apply_visitor L visitor it s
     = Some (Inl (Undefined_behaviour ''value of an argument that is not basic''), s)"
proof -
  have "argument_type_of (at_code At_variant) = At_variant"
    by (rule argument_type_of_at_code) simp
  then show ?thesis
    using assms by (subst apply_visitor.simps) (simp add: is_compound_type_def basic_value_def)
qed

end
