(* ===== verification/Subscriptions.thy ===== *)
theory Subscriptions
  imports Signal_Properties
begin

text \<open>
  What the match rules of a signal mean to the daemon: which messages it sends to a process because of the
  handlers that are connected there. The daemon is not part of the repository; what is used of it is that it selects
  messages as the D-Bus specification says of the clauses of a rule.
\<close>

section \<open>The clauses of a rule\<close>

text \<open>The specification has \<open>arg0\<close> to \<open>arg63\<close>.\<close>

definition argument_number :: "string \<Rightarrow> nat option" where
  "argument_number k = find (\<lambda>n. k = ''arg'' @ show_nat n) [0..<64]"

text \<open>\<open>owns m name\<close>: the sender of the message owns the name. \<open>vals m\<close>: the arguments of the message.\<close>

definition clause_holds ::
  "('m, 'i, 'w) libdbus \<Rightarrow> ('m \<Rightarrow> string \<Rightarrow> bool) \<Rightarrow> ('m \<Rightarrow> dval list) \<Rightarrow> 'm \<Rightarrow> string \<times> string \<Rightarrow> bool" where
  "clause_holds L owns vals m c =
     (case c of (k, v) \<Rightarrow>
        if k = ''type'' then v = print_message_type (msg_type L m)
        else if k = ''sender'' then owns m v
        else if k = ''interface'' then message_get_interface L m = Some v
        else if k = ''member'' then message_get_member L m = Some v
        else if k = ''path'' then message_get_path L m = Some v
        else (case argument_number k of
                None \<Rightarrow> False
              | Some n \<Rightarrow> string_argument (vals m) (word_of_nat n) = Some v))"

definition selects_by_clauses ::
  "('m, 'i, 'w) libdbus \<Rightarrow> ('m \<Rightarrow> string \<Rightarrow> bool) \<Rightarrow> ('m \<Rightarrow> dval list) \<Rightarrow> (string \<Rightarrow> 'm \<Rightarrow> bool) \<Rightarrow> bool" where
  "selects_by_clauses L owns vals selects \<longleftrightarrow>
     (\<forall>rule cs m. read_clauses rule = Some cs \<longrightarrow> selects rule m = list_all (clause_holds L owns vals m) cs)"

text \<open>The numbers of the arguments are told apart by their text.\<close>

lemma show_nat_small: "show_nat ` {0..<64} = set (map show_nat [0..<64]) \<and> distinct (map show_nat [0..<64])"
proof
  show "distinct (map show_nat [0..<64])" by code_simp
qed auto

lemma argument_number_show:
  assumes "n < 64"
  shows "argument_number (''arg'' @ show_nat n) = Some n"
proof -
  have inj: "inj_on show_nat {0..<64}"
    using show_nat_small by (simp add: distinct_map)
  have "argument_number (''arg'' @ show_nat n) \<noteq> None"
    using assms by (auto simp: argument_number_def find_None_iff)
  then obtain k where k: "argument_number (''arg'' @ show_nat n) = Some k" by blast
  then have "k < 64" and "show_nat n = show_nat k"
    by (auto simp: argument_number_def find_Some_iff)
  then show ?thesis
    using k assms inj by (auto simp: inj_on_def)
qed

section \<open>The rules of a signal\<close>

text \<open>Text that can be put between apostrophes and handed to C.\<close>

definition quotable :: "string \<Rightarrow> bool" where
  "quotable s \<longleftrightarrow> CHR 0x27 \<notin> set s \<and> CHR 0x00 \<notin> set s"

definition quotable_args :: "match_args \<Rightarrow> bool" where
  "quotable_args a \<longleftrightarrow> (\<forall>(index, v) \<in> set a. unat index < 64 \<and> quotable v)"

definition signal_rule :: "string \<Rightarrow> string \<Rightarrow> string \<Rightarrow> string \<Rightarrow> match_args \<Rightarrow> match_rule" where
  "signal_rule sender path interface name a =
     \<lparr>rule_type = Mt_signal, rule_sender = sender, rule_interface = interface, rule_member = name,
      rule_path = path, rule_args = a\<rparr>"

lemma signal_rule_clauses:
  assumes "sender \<noteq> []" and "path \<noteq> []" and "interface \<noteq> []" and "name \<noteq> []"
  shows "rule_clauses (signal_rule sender path interface name a) =
     [(''type'', ''signal''), (''sender'', sender), (''interface'', interface), (''member'', name), (''path'', path)]
     @ map (\<lambda>arg. (''arg'' @ show_nat (unat (fst arg)), snd arg)) a"
  using assms by (simp add: rule_clauses_def type_clauses_def other_clauses_def signal_rule_def)

lemma show_nat_no_nul [simp]: "CHR 0x00 \<notin> set (show_nat n)"
proof
  assume "CHR 0x00 \<in> set (show_nat n)"
  then obtain k :: nat where k: "48 \<le> k" "k \<le> 57" and c: "CHR 0x00 = char_of k"
    using show_nat_digits [of n] by fastforce
  have "k mod 256 = of_char CHR 0x00"
    unfolding c by (rule of_char_of [symmetric])
  also have "\<dots> = 0" by simp
  finally show False using k by simp
qed

lemma set_intercalate: "set (intercalate sep xs) \<subseteq> set sep \<union> \<Union> (set (map set xs))"
  by (induction sep xs rule: intercalate.induct) auto

text \<open>The text of the rule is read by the daemon as the clauses of the rule.\<close>

lemma signal_rule_read:
  assumes "quotable sender" and "quotable path" and "quotable interface" and "quotable name" and "quotable_args a"
    and "sender \<noteq> []" and "path \<noteq> []" and "interface \<noteq> []" and "name \<noteq> []"
  shows "read_clauses (c_str (as_string (signal_rule sender path interface name a)))
     = Some (rule_clauses (signal_rule sender path interface name a))"
proof -
  let ?r = "signal_rule sender path interface name a"
  note clauses = signal_rule_clauses [OF assms(6-9), of a]
  have ty: "rule_type ?r \<noteq> Mt_invalid" by (simp add: signal_rule_def)
  have values_ok: "list_all (\<lambda>c. CHR 0x27 \<notin> set (snd c)) (rule_clauses ?r)"
    using assms(1-5) by (auto simp: clauses quotable_def quotable_args_def list_all_iff)
  have "CHR 0x00 \<notin> set (clause_text c)" if "c \<in> set (rule_clauses ?r)" for c
    using that assms(1-5) by (auto simp: clauses clause_text_def quoted_def quotable_def quotable_args_def)
  then have "CHR 0x00 \<notin> set (as_string ?r)"
    using set_intercalate [of "'',''" "map clause_text (rule_clauses ?r)"] ty by (auto simp: as_string_clauses)
  then show ?thesis
    using read_clauses_as_string [OF ty values_ok] by simp
qed

lemma signal_rule_selects:
  assumes "selects_by_clauses L owns vals selects"
    and "quotable sender" and "quotable path" and "quotable interface" and "quotable name" and "quotable_args a"
    and "sender \<noteq> []" and "path \<noteq> []" and "interface \<noteq> []" and "name \<noteq> []"
  shows "selects (c_str (as_string (signal_rule sender path interface name a))) m \<longleftrightarrow>
     print_message_type (msg_type L m) = ''signal'' \<and> owns m sender \<and> message_get_interface L m = Some interface
     \<and> message_get_member L m = Some name \<and> message_get_path L m = Some path
     \<and> (\<forall>(index, v) \<in> set a. string_argument (vals m) index = Some v)"
proof -
  have "clause_holds L owns vals m (''arg'' @ show_nat (unat index), v)
      \<longleftrightarrow> string_argument (vals m) index = Some v" if "(index, v) \<in> set a" for index v
  proof -
    have "unat index < 64" using that assms(6) by (auto simp: quotable_args_def)
    then show ?thesis
      using argument_number_show [of "unat index"] by (simp add: clause_holds_def)
  qed
  then have "list_all (clause_holds L owns vals m) (map (\<lambda>arg. (''arg'' @ show_nat (unat (fst arg)), snd arg)) a)
      \<longleftrightarrow> (\<forall>(index, v) \<in> set a. string_argument (vals m) index = Some v)"
    by (fastforce simp: list_all_iff)
  then show ?thesis
    using assms(1) signal_rule_read [OF assms(2-10)] signal_rule_clauses [OF assms(7-10), of a]
    unfolding selects_by_clauses_def
    by (auto simp: clause_holds_def)
qed

text \<open>What the constructor leaves behind, and what no step changes.\<close>

lemma construct_signal_run:
  assumes "\<not> router_guard (sw_router s)" and "sw_signal s = new_typed_signal service path interface name"
  obtains s0 where "construct_signal route s = (Inr (), s0)" and "sw_conn s0 = sw_conn s"
    and "\<not> sig_guard (sw_signal s0)" and "sig_handlers (sw_signal s0) = []" and "\<not> router_guard (sw_router s0)"
    and "\<And>a. rule_text (sw_signal s0) a = c_str (as_string (signal_rule (service_name service) path interface name a))"
proof -
  let ?s = "s\<lparr>sw_router := put_route (interface, name) route (sw_router s),
     sw_signal := (sw_signal s)\<lparr>sig_rule := snd (set_member name (snd (set_interface interface
        (snd (set_type Mt_signal new_match_rule)))))\<rparr>\<rparr>"
  have "construct_signal route s = (Inr (), ?s)"
    using assms
    by (simp add: construct_signal_def on_sw_router_def zoom_def install_route_run then_eff_Inr on_sw_signal_def
        new_typed_signal_def)
  then show thesis
    by (rule that)
      (use assms in \<open>simp_all add: new_typed_signal_def rule_text_def signal_rule_def with_sender_def with_path_def
         set_path_def copy_match_rule_def set_member_def set_interface_def set_type_def new_match_rule_def
         put_route_def\<close>)
qed

lemma subscription_step_text:
  assumes "subscription_step K p s = (Inr (), s')"
  shows "rule_text (sw_signal s') = rule_text (sw_signal s)"
proof (cases p)
  case (Connect h a)
  then obtain token where c: "connect_with_match_args K h a s = (Inr token, s')"
    using assms by (auto simp: then_eff_def bind_eff_def return_eff_def split: prod.splits sum.splits)
  have "\<not> sig_guard (sw_signal s)"
    using c by (auto simp: connect_with_match_args_def with_handlers_def guarded_def split: if_splits)
  from connect_run [OF this, of K h a] c show ?thesis
    by (auto split: if_splits prod.splits)
next
  case (Disconnect token)
  then have d: "signal_disconnect K token s = (Inr (), s')" using assms by simp
  then have g: "\<not> sig_guard (sw_signal s)"
    by (auto simp: signal_disconnect_def with_handlers_def guarded_def split: if_splits)
  obtain n a h where f: "find (\<lambda>e. fst e = token) (sig_handlers (sw_signal s)) = Some (n, a, h)"
    using d g by (auto simp: signal_disconnect_def with_handlers_def guarded_def split: option.splits)
  from disconnect_run [OF g f, of K] d show ?thesis
    by (auto split: if_splits prod.splits)
qed

lemma subscription_steps_text:
  "each_eff (subscription_step K) ops s = (Inr (), s')
     \<Longrightarrow> rule_text (sw_signal s') = rule_text (sw_signal s)"
proof (induction ops arbitrary: s)
  case (Cons p ops)
  obtain s1 where "subscription_step K p s = (Inr (), s1)" and "each_eff (subscription_step K) ops s1 = (Inr (), s')"
    using Cons.prems by (auto simp: then_eff_def bind_eff_def split: prod.splits sum.splits)
  then show ?case using Cons.IH subscription_step_text by metis
qed (simp add: return_eff_def)

section \<open>Which messages the process is sent\<close>

text \<open>
  C17. The daemon sends a process exactly what its handlers want. A signal is constructed, handlers with any match
  arguments are connected and disconnected, and the daemon, whose rules did not select a message before, selects
  messages by the clauses of the rules it has. Then it selects a message for the process if and only if it is a
  signal from the owner of the service's name, has the path, the interface and the name of the signal, and has the
  match arguments of some handler that is connected. So no signal that a handler waits for is missed and, at the
  daemon, none is sent that nobody waits for.
\<close>

theorem daemon_selects_what_is_wanted:
  assumes "counts_rules K rules" and "selects_by_clauses L owns vals selects"
    and "\<not> router_guard (sw_router s1)" and "sw_signal s1 = new_typed_signal service path interface name"
    and "then_eff (construct_signal route) (each_eff (subscription_step K) ops) s1 = (Inr (), s)"
    and "\<forall>x \<in> {service_name service, path, interface, name}. quotable x \<and> x \<noteq> []"
    and "\<forall>e \<in> set (sig_handlers (sw_signal s)). quotable_args (fst (snd e))"
    and "\<forall>rule \<in># rules (sw_conn s1). \<not> selects rule m"
  shows "(\<exists>rule \<in># rules (sw_conn s). selects rule m) \<longleftrightarrow>
     print_message_type (msg_type L m) = ''signal'' \<and> owns m (service_name service)
     \<and> message_get_path L m = Some path \<and> message_get_interface L m = Some interface
     \<and> message_get_member L m = Some name
     \<and> (\<exists>e \<in> set (sig_handlers (sw_signal s)). matches (vals m) e)"
proof -
  obtain s0 where s0: "construct_signal route s1 = (Inr (), s0)" "sw_conn s0 = sw_conn s1"
    "\<not> sig_guard (sw_signal s0)" "sig_handlers (sw_signal s0) = []"
    and texts: "\<And>a. rule_text (sw_signal s0) a
       = c_str (as_string (signal_rule (service_name service) path interface name a))"
    by (rule construct_signal_run [OF assms(3,4), of route]) blast
  have steps: "each_eff (subscription_step K) ops s0 = (Inr (), s)"
    using assms(5) s0(1) by (simp add: then_eff_Inr)
  have "consistent rules (rules (sw_conn s0)) s0"
    using s0(3,4) by (simp add: consistent_def rules_for_def fresh_tokens_def)
  then have "rules (sw_conn s) = rules (sw_conn s1) + rules_for s"
    using subscriptions_consistent [OF assms(1) _ steps] s0(2) by (simp add: consistent_def)
  then have "(\<exists>rule \<in># rules (sw_conn s). selects rule m) \<longleftrightarrow> (\<exists>rule \<in># rules_for s. selects rule m)"
    using assms(8) by auto
  also have "\<dots> \<longleftrightarrow> (\<exists>e \<in> set (sig_handlers (sw_signal s)). selects (rule_text (sw_signal s0) (fst (snd e))) m)"
    using subscription_steps_text [OF steps] by (simp add: rules_for_def)
  also have "\<dots> \<longleftrightarrow> (\<exists>e \<in> set (sig_handlers (sw_signal s)).
      print_message_type (msg_type L m) = ''signal'' \<and> owns m (service_name service)
      \<and> message_get_interface L m = Some interface \<and> message_get_member L m = Some name
      \<and> message_get_path L m = Some path \<and> matches (vals m) e)"
    using signal_rule_selects [OF assms(2)] assms(6,7) by (intro bex_cong) (simp_all add: texts matches_def)
  finally show ?thesis by blast
qed

text \<open>Two handlers, one of which is disconnected again; the message has the argument the other one asks for.\<close>

definition clause_daemon :: "string \<Rightarrow> list_message \<Rightarrow> bool" where
  "clause_daemon rule m = (case read_clauses rule of
     None \<Rightarrow> False
   | Some cs \<Rightarrow> list_all (clause_holds list_libdbus (\<lambda>m name. lm_sender m = Some name) list_body m) cs)"

definition announcement :: "string \<Rightarrow> list_message" where
  "announcement v = (new_list_message 4)\<lparr>lm_path := Some ''/a'', lm_interface := Some ''x.Y'', lm_member := Some ''N'',
     lm_sender := Some ''x.S'', lm_frames := [(None, [D_basic 115 (Raw_str v)])]\<rparr>"

theorem daemon_selects_what_is_wanted_witness:
  "\<exists>s. then_eff (construct_signal (0 :: nat)) (each_eff (subscription_step
          (counting_connection False :: (string multiset, unit, unit) connection))
          [Connect 1 [(0, ''on'')], Connect 2 [], Disconnect 1]) sample_signal = (Inr (), s)
     \<and> (\<exists>rule \<in># sw_conn s. clause_daemon rule (announcement ''on''))
     \<and> \<not> (\<exists>rule \<in># sw_conn s. clause_daemon rule (announcement ''off''))"
proof -
  let ?K = "counting_connection False :: (string multiset, unit, unit) connection"
  let ?ops = "[Connect (1 :: nat) [(0, ''on'')], Connect 2 [], Disconnect 1]"
  let ?owns = "\<lambda>m name. lm_sender m = Some name"
  obtain s where s: "then_eff (construct_signal (0 :: nat)) (each_eff (subscription_step ?K) ?ops) sample_signal
      = (Inr (), s)" and hs: "sig_handlers (sw_signal s) = [(0, [(0, ''on'')], 1)]"
    by (simp add: construct_signal_def then_eff_def bind_eff_def connect_run sample_signal_def new_typed_signal_def
        inserted_def insert_handler_def Let_def handlers_insert_def counting_connection_def error_is_set_def
        with_rule_args_def return_eff_def signal_disconnect_def with_handlers_def guarded_def has_key_iff
        on_sw_signal_def on_sw_router_def zoom_def install_route_run new_router_def put_route_def
        remove_rule_for_args_run)
  have sel: "selects_by_clauses list_libdbus ?owns list_body clause_daemon"
    by (simp add: selects_by_clauses_def clause_daemon_def)
  have quotable: "\<forall>x \<in> {service_name (use_service ''x.S''), ''/a'', ''x.Y'', ''N''}. quotable x \<and> x \<noteq> []"
    and args: "\<forall>e \<in> set (sig_handlers (sw_signal s)). quotable_args (fst (snd e))"
    by (simp_all add: hs quotable_def quotable_args_def use_service_def)
  have start: "\<not> router_guard (sw_router sample_signal)"
      "sw_signal sample_signal = new_typed_signal (use_service ''x.S'') ''/a'' ''x.Y'' ''N''"
      "\<forall>rule \<in># sw_conn sample_signal. \<not> clause_daemon rule m" for m
    by (simp_all add: sample_signal_def new_router_def)
  have m: "print_message_type (msg_type list_libdbus (announcement v)) = ''signal''"
      "message_get_path list_libdbus (announcement v) = Some ''/a''"
      "message_get_interface list_libdbus (announcement v) = Some ''x.Y''"
      "message_get_member list_libdbus (announcement v) = Some ''N''"
      "lm_sender (announcement v) = Some (service_name (use_service ''x.S''))"
      "string_argument (list_body (announcement v)) 0 = Some v" for v
    by (simp_all add: announcement_def new_list_message_def list_libdbus_def msg_type_def message_type_of_def
        use_service_def list_body_def string_argument_def)
  have e: "(\<exists>e \<in> set (sig_handlers (sw_signal s)). matches (list_body (announcement v)) e) \<longleftrightarrow> v = ''on''" for v
    unfolding hs matches_def by (simp add: m(6))
  have "(\<exists>rule \<in># sw_conn s. clause_daemon rule (announcement v)) \<longleftrightarrow> v = ''on''" for v
    unfolding daemon_selects_what_is_wanted [OF counting_connection_counts sel start(1,2) s quotable args
        start(3) [of "announcement v"]] e m
    by blast
  from this [of "''on''"] this [of "''off''"] s show ?thesis
    by (intro exI [of _ s]) simp
qed

end
