(* ===== verification/Property_Changes.thy ===== *)
theory Property_Changes
  imports Signal_Delivery Object_Properties
begin

text \<open>
  A change of properties from the process that has them to the process that uses them: the signal
  \<open>PropertiesChanged\<close>, its way to the object of the other process, and the properties there.
\<close>

section \<open>What is announced\<close>

text \<open>The argument of the signal: the changed properties of an interface with their types and values, and those that
are only declared invalid.\<close>

definition changes_value :: "string \<Rightarrow> (string \<times> ctype \<times> 'i cval) list \<Rightarrow> string list \<Rightarrow> 'i cval" where
  "changes_value interface cs invalidated =
     V_tuple [V_string interface, V_map (map (\<lambda>(name, t, v). (V_string name, make_variant t v)) cs),
       V_vector (map V_string invalidated)]"

text \<open>The properties of the object have the types that are announced for them.\<close>

definition typed_as_announced ::
  "'h dbus_object \<Rightarrow> (nat \<Rightarrow> 'i dbus_property option) \<Rightarrow> string \<Rightarrow> (string \<times> ctype \<times> 'i cval) list \<Rightarrow> bool" where
  "typed_as_announced b P interface cs \<longleftrightarrow>
     (\<forall>(name, t, v) \<in> set cs. \<forall>p q. ob_changed_vtable b (interface, name) = Some p \<and> P p = Some q \<longrightarrow> pr_type q = t)"

lemma key_less_string:
  "sorted_wrt key_less (map (\<lambda>x. V_string (f x) :: 'i cval) xs) \<Longrightarrow> distinct (map f xs)"
proof (induction xs)
  case (Cons x xs)
  have "\<not> key_less (V_string s :: 'i cval) (V_string s)" for s
    by (simp add: key_less_def)
  then show ?case using Cons by force
qed simp

lemma sendable_changes:
  fixes cs :: "(string \<times> ctype \<times> 'i cval) list"
  assumes "sendable properties_changed_type (changes_value interface cs invalidated)"
  shows "distinct (map fst cs)" and "(name, t, v) \<in> set cs \<Longrightarrow> single_type t \<and> sendable t v"
proof -
  have "sorted_wrt key_less (map (\<lambda>x. V_string (fst x) :: 'i cval) cs)"
    using assms by (simp add: properties_changed_type_def changes_value_def comp_def split_def)
  then show "distinct (map fst cs)" by (rule key_less_string)
  show "single_type t \<and> sendable t v" if "(name, t, v) \<in> set cs"
    using assms that by (fastforce simp: properties_changed_type_def changes_value_def make_variant_def)
qed

lemma clean_changes:
  "clean L F (changes_value interface cs invalidated) \<Longrightarrow> (name, t, v) \<in> set cs \<Longrightarrow> clean L F v"
  by (fastforce simp: changes_value_def make_variant_def)

section \<open>What is received\<close>

lemma received_mapD:
  "received F den (V_map kvs) y \<Longrightarrow> \<exists>ls. y = V_map ls \<and> length ls = length kvs
     \<and> (\<forall>k < length kvs. fst (ls ! k) = fst (kvs ! k) \<and> received F den (snd (kvs ! k)) (snd (ls ! k)))"
  by (erule received_mapE) auto

lemma received_tupleD:
  "received F den (V_tuple vs) y \<Longrightarrow> \<exists>ws. y = V_tuple ws \<and> length ws = length vs
     \<and> (\<forall>k < length vs. received F den (vs ! k) (ws ! k))"
  by (erule received_tupleE) auto

text \<open>The same names, with variants that give the values.\<close>

lemma received_changes:
  fixes cs :: "(string \<times> ctype \<times> 'i cval) list"
  assumes "received F den (changes_value interface cs invalidated) x"
  shows "\<exists>kvs w. x = V_tuple [V_string interface, V_map kvs, w] \<and> length kvs = length cs
     \<and> (\<forall>k < length cs. \<forall>name t v. cs ! k = (name, t, v)
          \<longrightarrow> fst (kvs ! k) = V_string name \<and> received F den (make_variant t v) (snd (kvs ! k)))"
proof -
  let ?kvs = "map (\<lambda>(name, t, v). (V_string name :: 'i cval, make_variant t v)) cs"
  let ?vs = "[V_string interface, V_map ?kvs, V_vector (map V_string invalidated)]"
  obtain vs where x: "x = V_tuple vs" and len: "length vs = length ?vs"
    and each: "\<forall>k < length ?vs. received F den (?vs ! k) (vs ! k)"
    using received_tupleD [OF assms [unfolded changes_value_def]] by blast
  obtain i m w where vs: "vs = [i, m, w]"
    using len by (auto simp: numeral_3_eq_3 length_Suc_conv)
  have 0: "received F den (V_string interface) i" and 1: "received F den (V_map ?kvs) m"
    using each [rule_format, of 0] each [rule_format, of 1] by (simp_all add: vs)
  obtain kvs where kvs: "m = V_map kvs \<and> length kvs = length ?kvs
      \<and> (\<forall>k < length ?kvs. fst (kvs ! k) = fst (?kvs ! k) \<and> received F den (snd (?kvs ! k)) (snd (kvs ! k)))"
    using received_mapD [OF 1] by (rule exE)
  have "fst (kvs ! k) = V_string name \<and> received F den (make_variant t v) (snd (kvs ! k))"
    if "k < length cs" and "cs ! k = (name, t, v)" for k name t v
    using kvs [THEN conjunct2, THEN conjunct2, rule_format, of k] that by simp
  then show ?thesis
    using x vs kvs received_plain_eq [OF 0] by (intro exI [of _ kvs] exI [of _ w]) simp
qed

text \<open>What they make of the properties.\<close>

lemma received_changes_announced:
  fixes E :: "('m, 'i, 'w, 'd, 'p, 'h, 'e) env"
  assumes "reads (env_lib E) den" and "received (env_floats E) den (changes_value interface cs invalidated) x"
    and "sendable properties_changed_type (changes_value interface cs invalidated)"
    and "clean (env_lib E) (env_floats E) (changes_value interface cs invalidated)"
    and "typed_as_announced b P interface cs" and "\<forall>(name, t, v) \<in> set cs. no_variant t"
  obtains kvs w where "x = V_tuple [V_string interface, V_map kvs, w]" and "announces E b P interface kvs"
    and "\<forall>name t v. (name, t, v) \<in> set cs \<longrightarrow> (\<exists>u. (V_string name, u) \<in> set kvs
       \<and> fst (variant_as (env_lib E) (env_floats E) t u) = Inr v)"
    and "fst ` set kvs = V_string ` fst ` set cs"
proof -
  obtain kvs w where x: "x = V_tuple [V_string interface, V_map kvs, w]" and len: "length kvs = length cs"
    and each: "\<And>k name t v. k < length cs \<Longrightarrow> cs ! k = (name, t, v)
       \<Longrightarrow> fst (kvs ! k) = V_string name \<and> received (env_floats E) den (make_variant t v) (snd (kvs ! k))"
    using received_changes [OF assms(2)] by metis
  note ty = sendable_changes [OF assms(3)]
  have value_at: "fst (variant_as (env_lib E) (env_floats E) t (snd (kvs ! k))) = Inr v"
    if "k < length cs" "cs ! k = (name, t, v)" for k name t v
  proof -
    have "(name, t, v) \<in> set cs" using that nth_mem by metis
    then show ?thesis
      using variant_as_received [OF assms(1) _ _ _ conjunct2 [OF each [OF that]]] ty(2)
        clean_changes [OF assms(4)] assms(6) by blast
  qed
  have keys: "map fst kvs = map (\<lambda>c. V_string (fst c)) cs"
  proof (rule nth_equalityI)
    show "map fst kvs ! k = map (\<lambda>c. V_string (fst c)) cs ! k" if "k < length (map fst kvs)" for k
      using that len each [of k "fst (cs ! k)" "fst (snd (cs ! k))" "snd (snd (cs ! k))"] by simp
  qed (simp add: len)
  show thesis
  proof (rule that [OF x])
    have "distinct (map fst kvs)"
      using ty(1) by (simp add: keys distinct_map inj_on_def)
    moreover have "\<exists>name. k = V_string name \<and> decodable E b P (interface, name) u" if entry: "(k, u) \<in> set kvs" for k u
    proof -
      obtain n where n: "n < length cs" "kvs ! n = (k, u)" using entry len by (auto simp: in_set_conv_nth)
      obtain name t v where c: "cs ! n = (name, t, v)" by (cases "cs ! n")
      have "(name, t, v) \<in> set cs" using n(1) c nth_mem by metis
      then have "decodable E b P (interface, name) u"
        using assms(5) value_at [OF n(1) c] n(2) by (fastforce simp: decodable_def typed_as_announced_def)
      then show ?thesis using each [OF n(1) c] n(2) by simp
    qed
    ultimately show "announces E b P interface kvs" by (auto simp: announces_def)
    show "\<forall>name t v. (name, t, v) \<in> set cs \<longrightarrow> (\<exists>u. (V_string name, u) \<in> set kvs
       \<and> fst (variant_as (env_lib E) (env_floats E) t u) = Inr v)"
    proof (intro allI impI)
      fix name t v assume entry: "(name, t, v) \<in> set cs"
      obtain n where n: "n < length cs" "cs ! n = (name, t, v)" using entry by (auto simp: in_set_conv_nth)
      have "kvs ! n \<in> set kvs" and "kvs ! n = (V_string name, snd (kvs ! n))"
        using n len each [OF n] by (simp_all add: prod_eq_iff)
      then show "\<exists>u. (V_string name, u) \<in> set kvs \<and> fst (variant_as (env_lib E) (env_floats E) t u) = Inr v"
        using value_at [OF n] by metis
    qed
    show "fst ` set kvs = V_string ` fst ` set cs"
      using arg_cong [OF keys, of set] by (simp add: image_image)
  qed
qed

section \<open>From the announcement to the properties\<close>

lemma announces_names: "announces E b P interface kvs \<Longrightarrow> distinct (map fst kvs)"
  by (simp add: announces_def)

text \<open>What is received says what becomes of each property.\<close>

lemma received_changes_stored:
  fixes E :: "('m, 'i, 'w, 'd, 'p, 'h, 'e) env"
  assumes "reads (env_lib E) den" and "received (env_floats E) den (changes_value interface cs invalidated) x"
    and "sendable properties_changed_type (changes_value interface cs invalidated)"
    and "clean (env_lib E) (env_floats E) (changes_value interface cs invalidated)"
    and "typed_as_announced b P interface cs" and "\<forall>(name, t, v) \<in> set cs. no_variant t" and "entered_once b"
  obtains kvs w where "x = V_tuple [V_string interface, V_map kvs, w]" and "announces E b P interface kvs"
    and "\<forall>(name, t, v) \<in> set cs. \<forall>p q. ob_changed_vtable b (interface, name) = Some p \<and> P p = Some q
       \<longrightarrow> change_properties E b interface kvs P p = Some (q\<lparr>pr_value := env_store E (pr_value q) v\<rparr>)"
    and "\<forall>p. (\<forall>name \<in> fst ` set cs. ob_changed_vtable b (interface, name) \<noteq> Some p)
       \<longrightarrow> change_properties E b interface kvs P p = P p"
proof -
  obtain kvs w where kvs: "x = V_tuple [V_string interface, V_map kvs, w]" "announces E b P interface kvs"
    and named: "\<forall>name t v. (name, t, v) \<in> set cs \<longrightarrow> (\<exists>u. (V_string name, u) \<in> set kvs
       \<and> fst (variant_as (env_lib E) (env_floats E) t u) = Inr v)"
    and keys: "fst ` set kvs = V_string ` fst ` set cs"
    by (rule received_changes_announced [OF assms(1-6)])
  have stored: "change_properties E b interface kvs P p = Some (q\<lparr>pr_value := env_store E (pr_value q) v\<rparr>)"
    if at: "(name, t, v) \<in> set cs" "ob_changed_vtable b (interface, name) = Some p" "P p = Some q" for name t v p q
  proof -
    obtain u where u: "(V_string name, u) \<in> set kvs" "fst (variant_as (env_lib E) (env_floats E) t u) = Inr v"
      using named at(1) by blast
    have "pr_type q = t" using assms(5) at by (auto simp: typed_as_announced_def)
    then show ?thesis
      using change_properties_named [OF assms(7) at(2) announces_names [OF kvs(2)] u(1), of E P] at(3) u(2)
      by (simp add: changed_property_def)
  qed
  have other: "change_properties E b interface kvs P p = P p"
    if "\<forall>name \<in> fst ` set cs. ob_changed_vtable b (interface, name) \<noteq> Some p" for p
  proof -
    have "name \<in> fst ` set cs" if "(V_string name, u) \<in> set kvs" for name u
    proof -
      have "(V_string name :: 'i cval) \<in> V_string ` fst ` set cs" using imageI [OF that, of fst] by (simp add: keys)
      then show ?thesis by auto
    qed
    then show ?thesis using that by (intro change_properties_other) blast
  qed
  show thesis
    by (rule that [OF kvs]) (use stored other in fastforce)+
qed

lemma changes_route_run:
  assumes "carries (env_lib E) den m ds" and "w_objects s n = Some b"
    and "fst (stream_in (env_lib E) (env_floats E) properties_changed_type (default_val properties_changed_type)
           (snd (iter_init (env_lib E) m))) = Inr (V_tuple [V_string interface, V_map changed, w])"
    and "announces E b (w_properties s) interface changed"
  shows "run_object_route E n Route_properties_changed m s =
     (Inr (), s\<lparr>w_properties := change_properties E b interface changed (w_properties s)\<rparr>)"
  using change_steps_run [OF assms(2,4)] assms(3) carries_reader [OF assms(1)]
  by (simp add: run_object_route_def lift_res_def bind_eff_def on_properties_changed_each)

text \<open>
  C18. A change of properties that one process announces arrives in the properties of another. When \<open>PropertiesChanged\<close>
  is emitted with the new values of some properties, one message is sent. The other process, which has a stub for the
  path, takes it through the filter of the bus and the routers of the bus and the stub, and reads it. Then each property
  of the stub that is alive and entered under the interface and one of the names has stored exactly the value that was
  announced for it; all other properties, the objects and the bus are as before.
\<close>

theorem property_change_arrives:
  fixes C :: "('m, 'i, 'w, 'c, 'q, 'g, 'f) env" and K :: "('d, 'm, 'p) connection"
  assumes "reads (env_lib C) den" and "makes_signal (env_lib C) ok den path properties_changed_key"
    and "posts K outbox" and "c_str path = path" and "validate_path (env_lib C) path"
    and "payload (env_lib C) (env_floats C) ok [(properties_changed_type, changes_value interface cs invalidated)]"
    and "leads_to c path properties_changed_key n b Route_properties_changed" and "entered_once b"
    and "typed_as_announced b (w_properties c) interface cs" and "\<forall>(name, t, v) \<in> set cs. no_variant t"
  shows "\<exists>m d' s'. signal_emit (env_lib C) K (env_floats C) path properties_changed_key properties_changed_type
         (changes_value interface cs invalidated) d = (Inr (), d')
     \<and> outbox d' = m # outbox d
     \<and> filter_message C (Some m) c = (Inr Not_yet_handled, s') \<and> w_bus s' = w_bus c \<and> w_objects s' = w_objects c
     \<and> (\<forall>(name, t, v) \<in> set cs. \<forall>p q. ob_changed_vtable b (interface, name) = Some p \<and> w_properties c p = Some q
          \<longrightarrow> w_properties s' p = Some (q\<lparr>pr_value := env_store C (pr_value q) v\<rparr>))
     \<and> (\<forall>p. (\<forall>name \<in> fst ` set cs. ob_changed_vtable b (interface, name) \<noteq> Some p)
          \<longrightarrow> w_properties s' p = w_properties c p)"
proof -
  let ?v = "changes_value interface cs invalidated"
  have key: "c_str (fst properties_changed_key) = fst properties_changed_key"
      "c_str (snd properties_changed_key) = snd properties_changed_key"
    by (simp_all add: properties_changed_key_def properties_interface_def)
  obtain m d' x where emit: "signal_emit (env_lib C) K (env_floats C) path properties_changed_key
      properties_changed_type ?v d = (Inr (), d')" "outbox d' = m # outbox d"
    and m: "msg_type (env_lib C) m = Mt_signal" "message_get_path (env_lib C) m = Some path"
      "member_key (env_lib C) m = Inr properties_changed_key"
      "carries (env_lib C) den m (dvals_of (env_floats C) properties_changed_type ?v)"
    and x: "fst (stream_in (env_lib C) (env_floats C) properties_changed_type (default_val properties_changed_type)
           (snd (iter_init (env_lib C) m))) = Inr x" "arrives (env_floats C) den (properties_changed_type, ?v) x"
    by (rule emit_signal_run [OF assms(1-4) key assms(6)])
  have sent: "sendable properties_changed_type ?v" "clean (env_lib C) (env_floats C) ?v"
    using assms(6) by (simp_all add: payload_def sendable_args_def)
  have rx: "received (env_floats C) den ?v x" using x(2) by (simp add: arrives_def)
  obtain kvs w where kvs: "x = V_tuple [V_string interface, V_map kvs, w]" "announces C b (w_properties c) interface kvs"
    and stored: "\<forall>(name, t, v) \<in> set cs. \<forall>p q. ob_changed_vtable b (interface, name) = Some p \<and> w_properties c p = Some q
       \<longrightarrow> change_properties C b interface kvs (w_properties c) p = Some (q\<lparr>pr_value := env_store C (pr_value q) v\<rparr>)"
    "\<forall>p. (\<forall>name \<in> fst ` set cs. ob_changed_vtable b (interface, name) \<noteq> Some p)
       \<longrightarrow> change_properties C b interface kvs (w_properties c) p = w_properties c p"
    by (rule received_changes_stored [OF assms(1) rx sent assms(9,10,8)])
  let ?s = "c\<lparr>w_properties := change_properties C b interface kvs (w_properties c)\<rparr>"
  have ob: "w_objects c n = Some b" using assms(7) by (simp add: leads_to_def)
  have "filter_message C (Some m) c = (Inr Not_yet_handled, ?s)"
    using changes_route_run [OF m(4) ob x(1) [unfolded kvs(1)] kvs(2)] signal_path [OF m(2)] assms(4,5)
    by (intro filter_reaches_route [OF assms(7) m(1) _ m(3)]) simp_all
  then have "filter_message C (Some m) c = (Inr Not_yet_handled, ?s) \<and> w_bus ?s = w_bus c
     \<and> w_objects ?s = w_objects c
     \<and> (\<forall>(name, t, v) \<in> set cs. \<forall>p q. ob_changed_vtable b (interface, name) = Some p \<and> w_properties c p = Some q
          \<longrightarrow> w_properties ?s p = Some (q\<lparr>pr_value := env_store C (pr_value q) v\<rparr>))
     \<and> (\<forall>p. (\<forall>name \<in> fst ` set cs. ob_changed_vtable b (interface, name) \<noteq> Some p)
          \<longrightarrow> w_properties ?s p = w_properties c p)"
    using stored by simp
  then show ?thesis using emit by blast
qed

text \<open>A process whose object has the property \<open>P\<close> and hears of its changes.\<close>

definition hearing_world :: "(unit, unit, dval list, unit) world" where
  "hearing_world = snd (on_object 0 (\<lambda>ob. (Inr (), ob\<lparr>ob_changed_vtable :=
     (ob_changed_vtable ob)((''x.Y'', ''P'') \<mapsto> 0)\<rparr>)) (sample_world (use_service ''x.S'') True ()))"

abbreviation sample_changes :: "(string \<times> ctype \<times> dval list cval) list" where
  "sample_changes \<equiv> [(''P'', T_string, V_string ''new''), (''Q'', T_int32, V_int32 7)]"

theorem property_change_arrives_witness:
  "\<exists>m s'. signal_emit list_libdbus (pipe_connection (\<lambda>m d. m # d) (\<lambda>m d. (m, d)) :: (list_message list, list_message, unit) connection)
         sample_conversions ''/x'' properties_changed_key properties_changed_type
         (changes_value ''x.Y'' sample_changes []) [] = (Inr (), [m])
     \<and> filter_message (plain_env (pipe_connection (\<lambda>m d. d) (\<lambda>m d. (m, d)))) (Some m) hearing_world
         = (Inr Not_yet_handled, s')
     \<and> w_properties hearing_world 0 = Some (sample_property True [])
     \<and> w_properties s' 0 = Some (sample_property True ''new'')"
proof -
  let ?E = "plain_env (pipe_connection (\<lambda>m d. d) (\<lambda>m d. (m, d))) ::
      (list_message, dval list, unit, unit, unit, unit, unit) env"
  let ?K = "pipe_connection (\<lambda>m d. m # d) (\<lambda>m d. (m, d)) :: (list_message list, list_message, unit) connection"
  let ?b = "object_of 0 hearing_world"
  have k: "posts ?K (\<lambda>d. d)" by (simp add: posts_def pipe_connection_def)
  have p: "w_properties hearing_world 0 = Some (sample_property True [])"
    by (simp add: hearing_world_def world_run_simps use_service_def sample_property_def)
  have b: "ob_changed_vtable ?b = [(''x.Y'', ''P'') \<mapsto> 0]"
    by (simp add: hearing_world_def world_run_simps use_service_def)
  have l: "leads_to hearing_world ''/x'' properties_changed_key 0 ?b Route_properties_changed"
    unfolding leads_to_def by (simp add: hearing_world_def world_run_simps use_service_def wired_def)
  have o: "entered_once ?b" by (auto simp: entered_once_def b split: if_splits)
  have ty: "typed_as_announced ?b (w_properties hearing_world) ''x.Y'' sample_changes"
    by (auto simp: typed_as_announced_def b p sample_property_def split: if_splits)
  have pay: "payload list_libdbus sample_conversions (\<lambda>c r. True)
      [(properties_changed_type, changes_value ''x.Y'' sample_changes [] :: dval list cval)]"
    by (simp add: payload_def sendable_args_def args_dvals_def properties_changed_type_def changes_value_def
        make_variant_def key_less_def)
  have v: "validate_path list_libdbus ''/x''" by (simp add: list_libdbus_def)
  obtain m s' where "signal_emit list_libdbus ?K sample_conversions ''/x'' properties_changed_key
      properties_changed_type (changes_value ''x.Y'' sample_changes []) [] = (Inr (), [m])"
    "filter_message ?E (Some m) hearing_world = (Inr Not_yet_handled, s')"
    "w_properties s' 0 = Some (sample_property True []\<lparr>pr_value := V_string ''new''\<rparr>)"
    using property_change_arrives [where C = ?E and K = ?K and d = "[]", unfolded plain_env_simps,
      OF list_reads list_makes_signal k _ v pay l o ty] by (auto simp: b p)
  then show ?thesis using p by (auto simp: sample_property_def)
qed

end
