(* ===== verification/Compiler_Run.thy ===== *)
theory Compiler_Run
  imports Generator_Properties
begin

text \<open>
  A run of the compiler from the command line: several files are compiled one after the other; the first one that
  cannot be read ends the run. The header has the last component of the interface's name, so of two interfaces that
  agree in it the later overwrites the header of the earlier.
\<close>

section \<open>What a run is to do\<close>

text \<open>An input file, the document it holds, and the interface that document declares.\<close>

record compile_job =
  job_file :: string
  job_document :: doc
  job_path :: string
  job_name :: string
  job_methods :: "(string \<times> parameter list) list"
  job_signals :: "(string \<times> parameter list) list"

definition job_ok ::
  "(string \<Rightarrow> (xml_node list \<times> int) option) \<Rightarrow> (string \<Rightarrow> string \<Rightarrow> string list) \<Rightarrow> (string \<Rightarrow> bool)
     \<Rightarrow> compile_job \<Rightarrow> bool" where
  "job_ok open_xml split can_open j \<longleftrightarrow>
     (\<exists>nodes. open_xml (c_str (job_file j)) = Some (nodes, 0)
        \<and> filter is_element_node nodes = render (job_document j))
     \<and> no_property (job_document j)
     \<and> build (job_document j) = interface_element (job_path j) (job_name j)
         (map (\<lambda>(n, ps). Method_decl n ps) (job_methods j) @ map (\<lambda>(n, ps). Signal_decl n ps) (job_signals j))
     \<and> (\<forall>(n, ps) \<in> set (job_methods j). printable (in_types ps) \<and> printable (out_types ps))
     \<and> (\<forall>(n, ps) \<in> set (job_signals j). printable (all_types ps))
     \<and> can_open (file_name split (job_name j))"

definition header_of ::
  "(string \<Rightarrow> string \<Rightarrow> string list) \<Rightarrow> generator_configuration \<Rightarrow> compile_job \<Rightarrow> string \<Rightarrow> string" where
  "header_of split config j raw =
     header_text split config (job_path j) (job_name j) (job_methods j) (job_signals j) raw"

text \<open>The directory after the run; each file has a configuration of its own.\<close>

fun headers_written ::
  "(string \<Rightarrow> string \<Rightarrow> string list) \<Rightarrow> (nat \<Rightarrow> generator_configuration) \<Rightarrow> compile_job list
     \<Rightarrow> (string \<Rightarrow> string option) \<Rightarrow> string \<Rightarrow> string option" where
  "headers_written split configs [] fs = fs"
| "headers_written split configs (j # js) fs = headers_written split (\<lambda>k. configs (Suc k)) js
     (fs(file_name split (job_name j) \<mapsto> header_of split (configs 0) j (the (fs (c_str (job_file j))))))"

definition ok_line :: "string \<Rightarrow> string" where
  "ok_line file = print_ok @ '' '' @ file @ endl"

definition fail_line :: "string \<Rightarrow> string" where
  "fail_line file = print_fail @ '' '' @ file @ endl"

text \<open>The header of one file is not another input file.\<close>

definition headers_apart :: "(string \<Rightarrow> string \<Rightarrow> string list) \<Rightarrow> compile_job list \<Rightarrow> bool" where
  "headers_apart split js \<longleftrightarrow> (\<forall>j \<in> set js. \<forall>j' \<in> set js. file_name split (job_name j) \<noteq> c_str (job_file j'))"

section \<open>What it does\<close>

lemma job_compiled:
  assumes "job_ok open_xml split can_open j" and "fs (c_str (job_file j)) = Some raw"
  shows "process_introspection_file open_xml split can_open config (job_file j) ctx fs
     = (Inr True, \<lparr>ctx_root = Some (build (job_document j)), ctx_current = None\<rparr>,
        fs(file_name split (job_name j) \<mapsto> header_of split config j raw))"
proof -
  obtain nodes where "open_xml (c_str (job_file j)) = Some (nodes, 0)"
    and "filter is_element_node nodes = render (job_document j)"
    using assms(1) unfolding job_ok_def by blast
  then show ?thesis
    using assms unfolding job_ok_def header_of_def
    by (intro document_compiled [where open_xml = open_xml and fs = fs and can_open = can_open]) blast+
qed

lemma unreadable_file_fails:
  assumes "open_xml (c_str file) = None"
  shows "process_introspection_file open_xml split can_open config file ctx fs
     = (Inr False, ctx\<lparr>ctx_root := None, ctx_current := None\<rparr>, fs)"
  using assms by (simp add: process_introspection_file_def then_eff_def bind_eff_def reset_def invoke_for_def
      return_eff_def)

lemma compile_files_run:
  assumes "\<forall>j \<in> set js. job_ok open_xml split can_open j \<and> fs (c_str (job_file j)) \<noteq> None"
    and "headers_apart split js" and "rest \<noteq> [] \<longrightarrow> open_xml (c_str (hd rest)) = None"
  shows "compile_files (process_introspection_file open_xml split can_open) configs (map job_file js @ rest) ctx fs out
     = (Inr (if rest = [] then 0 else 1), headers_written split configs js fs,
        out @ concat (map (\<lambda>j. ok_line (job_file j)) js) @ (if rest = [] then [] else fail_line (hd rest)))"
  using assms
proof (induction js arbitrary: configs ctx fs out)
  case Nil
  then show ?case
    by (cases rest) (simp_all add: unreadable_file_fails fail_line_def Let_def)
next
  case (Cons j js)
  obtain raw where raw: "fs (c_str (job_file j)) = Some raw"
    using Cons.prems(1) by auto
  let ?fs = "fs(file_name split (job_name j) \<mapsto> header_of split (configs 0) j raw)"
  have rest_ok: "\<forall>j' \<in> set js. job_ok open_xml split can_open j' \<and> ?fs (c_str (job_file j')) \<noteq> None"
    using Cons.prems(1,2) by (auto simp: headers_apart_def)
  have apart: "headers_apart split js"
    using Cons.prems(2) by (simp add: headers_apart_def)
  have "job_ok open_xml split can_open j" using Cons.prems(1) by simp
  from job_compiled [where fs = fs, OF this raw] show ?case
    by (simp add: Cons.IH [OF rest_ok apart Cons.prems(3)] raw ok_line_def Let_def del: fun_upd_apply)
qed

text \<open>The headers are written one over the other: the last one of its name stays.\<close>

lemma headers_written_other:
  "f \<notin> (\<lambda>j. file_name split (job_name j)) ` set js \<Longrightarrow> headers_written split configs js fs f = fs f"
  by (induction js arbitrary: configs fs) auto

lemma headers_written_last:
  assumes "k < length js" and "\<forall>i. k < i \<and> i < length js \<longrightarrow> file_name split (job_name (js ! i)) \<noteq> file_name split (job_name (js ! k))"
    and "headers_apart split js"
  shows "headers_written split configs js fs (file_name split (job_name (js ! k)))
     = Some (header_of split (configs k) (js ! k) (the (fs (c_str (job_file (js ! k))))))"
  using assms
proof (induction js arbitrary: configs fs k)
  case (Cons j js)
  have apart: "headers_apart split js" using Cons.prems(3) by (simp add: headers_apart_def)
  show ?case
  proof (cases k)
    case 0
    have "file_name split (job_name j') \<noteq> file_name split (job_name j)" if j': "j' \<in> set js" for j'
    proof -
      obtain i where "i < length js" "js ! i = j'" using j' by (meson in_set_conv_nth)
      then show ?thesis using Cons.prems(2) [rule_format, of "Suc i"] 0 by auto
    qed
    then have "file_name split (job_name j) \<notin> (\<lambda>j. file_name split (job_name j)) ` set js" by force
    from headers_written_other [OF this] 0 show ?thesis by simp
  next
    case (Suc m)
    have "file_name split (job_name j) \<noteq> c_str (job_file (js ! m))"
      using Cons.prems(1,3) Suc by (simp add: headers_apart_def)
    moreover have "\<forall>i. m < i \<and> i < length js \<longrightarrow> file_name split (job_name (js ! i)) \<noteq> file_name split (job_name (js ! m))"
      using Cons.prems(2) Suc by (metis Suc_less_eq length_Cons nth_Cons_Suc)
    ultimately show ?thesis using Cons.IH [OF _ _ apart, of m] Cons.prems(1) Suc by simp
  qed
qed simp

text \<open>
  C19. A run of the compiler. The command line names files, each of which holds one interface with methods and
  signals; none of the headers has the name of an input file. Then the compiler prints a line for each and ends with
  success, and of all the files that give a header of the same name, that is whose interfaces have the same last
  component, the last one has its header in the directory, made from its own text; every other file is as before.
  If after them there is a file that cannot be read, it leaves the same headers, reports that file as failed, ends
  with failure and does not look at what comes behind.
\<close>

theorem compiler_run:
  assumes "store argv = Inr (Some (map job_file js @ rest))"
    and "\<forall>j \<in> set js. job_ok open_xml split can_open j \<and> fs (c_str (job_file j)) \<noteq> None"
    and "headers_apart split js" and "rest \<noteq> [] \<longrightarrow> open_xml (c_str (hd rest)) = None"
  shows "\<exists>fs'. compiler_main store usage open_xml split can_open configs argv fs
     = (Inr (if rest = [] then 0 else 1), fs',
        concat (map (\<lambda>j. ok_line (job_file j)) js) @ (if rest = [] then [] else fail_line (hd rest)))
   \<and> (\<forall>k < length js. (\<forall>i. k < i \<and> i < length js
          \<longrightarrow> file_name split (job_name (js ! i)) \<noteq> file_name split (job_name (js ! k)))
        \<longrightarrow> fs' (file_name split (job_name (js ! k)))
             = Some (header_of split (configs k) (js ! k) (the (fs (c_str (job_file (js ! k)))))))
   \<and> (\<forall>f. (\<forall>j \<in> set js. file_name split (job_name j) \<noteq> f) \<longrightarrow> fs' f = fs f)"
proof (intro exI conjI)
  show "compiler_main store usage open_xml split can_open configs argv fs
     = (Inr (if rest = [] then 0 else 1), headers_written split configs js fs,
        concat (map (\<lambda>j. ok_line (job_file j)) js) @ (if rest = [] then [] else fail_line (hd rest)))"
    using compile_files_run [OF assms(2-4)] assms(1) by (simp add: compiler_main_def parse_command_line_def)
  show "\<forall>k < length js. (\<forall>i. k < i \<and> i < length js
          \<longrightarrow> file_name split (job_name (js ! i)) \<noteq> file_name split (job_name (js ! k)))
        \<longrightarrow> headers_written split configs js fs (file_name split (job_name (js ! k)))
             = Some (header_of split (configs k) (js ! k) (the (fs (c_str (job_file (js ! k))))))"
    using headers_written_last [OF _ _ assms(3)] by blast
  show "\<forall>f. (\<forall>j \<in> set js. file_name split (job_name j) \<noteq> f) \<longrightarrow> headers_written split configs js fs f = fs f"
    by (intro allI impI headers_written_other) auto
qed

definition sample_job :: compile_job where
  "sample_job = \<lparr>job_file = ''a.xml'', job_document = sample_doc, job_path = ''/a'', job_name = ''x.Y'',
     job_methods = [(''M'', [(''a'', Dir_in, T_int32)])], job_signals = [(''S'', [])]\<rparr>"

definition sample_config :: generator_configuration where
  "sample_config = \<lparr>include_guard_generator = \<lambda>n. ''G'', build_time_stamp_generator = \<lambda>n. ''now''\<rparr>"

text \<open>A second file, whose interface has the same last component.\<close>

definition other_doc :: doc where
  "other_doc = Doc (P_node \<lparr>node_name = ''/b''\<rparr>) False
     [Doc (P_interface \<lparr>interface_name = ''z.Y''\<rparr>) False [Doc (P_signal \<lparr>signal_name = ''T''\<rparr>) True []]]"

definition other_job :: compile_job where
  "other_job = \<lparr>job_file = ''b.xml'', job_document = other_doc, job_path = ''/b'', job_name = ''z.Y'',
     job_methods = [], job_signals = [(''T'', [])]\<rparr>"

theorem compiler_run_witness:
  "compiler_main (\<lambda>argv. Inr (Some (tl argv))) ''usage''
       ([''a.xml'' \<mapsto> (render sample_doc, 0), ''b.xml'' \<mapsto> (render other_doc, 0)]) (\<lambda>sep. split_at (hd sep)) (\<lambda>f. True)
       (\<lambda>k. sample_config) [''compiler'', ''a.xml'', ''b.xml'', ''c.xml'', ''d.xml'']
       [''a.xml'' \<mapsto> ''<node/>'', ''b.xml'' \<mapsto> ''<node></node>'']
     = (Inr 1, [''a.xml'' \<mapsto> ''<node/>'', ''b.xml'' \<mapsto> ''<node></node>'', ''Y.h'' \<mapsto>
          header_of (\<lambda>sep. split_at (hd sep)) sample_config other_job ''<node></node>''],
        ok_line ''a.xml'' @ ok_line ''b.xml'' @ fail_line ''c.xml'')"
proof -
  let ?open = "[''a.xml'' \<mapsto> (render sample_doc, 0), ''b.xml'' \<mapsto> (render other_doc, 0)]
      :: string \<Rightarrow> (xml_node list \<times> int) option"
  let ?split = "\<lambda>sep :: string. split_at (hd sep)"
  let ?fs = "[''a.xml'' \<mapsto> ''<node/>'', ''b.xml'' \<mapsto> ''<node></node>'']"
  have 1: "filter is_element_node (render sample_doc) = render sample_doc"
      "filter is_element_node (render other_doc) = render other_doc"
    by (simp_all add: sample_doc_def other_doc_def start_node_def end_node_def is_element_node_def)
  have 2: "build sample_doc = interface_element ''/a'' ''x.Y''
      (map (\<lambda>(n, ps). Method_decl n ps) [(''M'', [(''a'', Dir_in, T_int32)])]
        @ map (\<lambda>(n, ps). Signal_decl n ps) [(''S'', [])])"
      "build other_doc = interface_element ''/b'' ''z.Y'' (map (\<lambda>(n, ps). Signal_decl n ps) [(''T'', [])])"
    by (simp_all add: sample_doc_def other_doc_def interface_element_def member_element_def tm_basic_defs)
  have 3: "file_name ?split ''x.Y'' = ''Y.h''" "file_name ?split ''z.Y'' = ''Y.h''"
    by (simp_all add: file_name_def parse_namespaces_and_interface_def)
  have 4: "no_property sample_doc" "no_property other_doc" by (simp_all add: sample_doc_def other_doc_def)
  have ok: "\<forall>j \<in> set [sample_job, other_job]. job_ok ?open ?split (\<lambda>f. True) j \<and> ?fs (c_str (job_file j)) \<noteq> None"
    using 1 2 4 by (simp add: job_ok_def sample_job_def other_job_def printable_def types_defs arrays_last_def)
  have apart: "headers_apart ?split [sample_job, other_job]"
    by (simp add: headers_apart_def sample_job_def other_job_def 3)
  let ?store = "\<lambda>argv. Inr (Some (tl argv)) :: exn + string list option"
  let ?argv = "[''compiler'', ''a.xml'', ''b.xml'', ''c.xml'', ''d.xml'']"
  let ?js = "[sample_job, other_job]"
  have s: "?store ?argv = Inr (Some (map job_file ?js @ [''c.xml'', ''d.xml'']))"
    by (simp add: sample_job_def other_job_def)
  have r: "[''c.xml'', ''d.xml''] \<noteq> [] \<longrightarrow> ?open (c_str (hd [''c.xml'', ''d.xml''])) = None" by simp
  obtain fs' where run: "compiler_main ?store ''usage'' ?open ?split (\<lambda>f. True) (\<lambda>k. sample_config) ?argv ?fs
      = (Inr (if [''c.xml'', ''d.xml''] = [] then 0 else 1), fs', concat (map (\<lambda>j. ok_line (job_file j)) ?js)
           @ (if [''c.xml'', ''d.xml''] = [] then [] else fail_line (hd [''c.xml'', ''d.xml''])))"
    and last: "\<forall>k < length ?js. (\<forall>i. k < i \<and> i < length ?js
          \<longrightarrow> file_name ?split (job_name (?js ! i)) \<noteq> file_name ?split (job_name (?js ! k)))
        \<longrightarrow> fs' (file_name ?split (job_name (?js ! k)))
             = Some (header_of ?split sample_config (?js ! k) (the (?fs (c_str (job_file (?js ! k))))))"
    and rest: "\<forall>f. (\<forall>j \<in> set ?js. file_name ?split (job_name j) \<noteq> f) \<longrightarrow> fs' f = ?fs f"
    using compiler_run [where usage = "''usage''" and configs = "\<lambda>k. sample_config" and store = ?store and argv = ?argv
        and js = ?js and rest = "[''c.xml'', ''d.xml'']" and open_xml = ?open and split = ?split and fs = ?fs
        and can_open = "\<lambda>f. True", OF s ok apart r]
    by (elim exE conjE) (rule that; assumption)
  have y: "fs' ''Y.h'' = Some (header_of ?split sample_config other_job ''<node></node>'')"
    using last [THEN spec, of 1] by (auto simp: other_job_def 3)
  have "fs' = ?fs(''Y.h'' \<mapsto> header_of ?split sample_config other_job ''<node></node>'')"
    using rest y by (auto simp: sample_job_def other_job_def 3 fun_eq_iff)
  then show ?thesis using run by (simp add: sample_job_def other_job_def)
qed

end
