(* ===== verification/Test_Fixture.thy ===== *)
theory Test_Fixture
  imports Dbus_Signal
begin

text \<open>
  fixture.h and fixture.cpp.in: a session bus and a system bus of its own for a test. Two daemons are found in the
  path and started, and the process is pointed at them through its environment. The operating system is reached
  through process-cpp and boost, which are parameters (\<open>posix\<close>).
\<close>

section \<open>The system\<close>

text \<open>\<open>'e\<close> is the state of the system with the environment of the process, \<open>'c\<close> a child process. In this order:
\<open>env::get\<close>, what \<open>env::for_each\<close> goes through, \<open>env::unset\<close> with its error ignored, \<open>env::set_or_throw\<close>;
\<open>path::is_absolute\<close>, \<open>operator/\<close>, \<open>exists\<close>; \<open>exec\<close> with the standard output redirected, \<open>cout() >>\<close> a string,
\<open>send_signal_or_throw(sig_term)\<close>, \<open>wait_for(untraced)\<close>, and the destructor of the child.\<close>

record ('e, 'c) posix =
  px_get :: "string \<Rightarrow> 'e \<Rightarrow> string"
  px_vars :: "'e \<Rightarrow> (string \<times> string) list"
  px_unset :: "string \<Rightarrow> 'e \<Rightarrow> 'e"
  px_set :: "string \<Rightarrow> string \<Rightarrow> ('e, unit) eff"
  px_absolute :: "string \<Rightarrow> bool"
  px_append :: "string \<Rightarrow> string \<Rightarrow> string"
  px_exists :: "string \<Rightarrow> 'e \<Rightarrow> exn + bool"
  px_exec :: "string \<Rightarrow> string list \<Rightarrow> (string \<Rightarrow> string option) \<Rightarrow> ('e, 'c) eff"
  px_read :: "'c \<Rightarrow> 'e \<Rightarrow> string \<times> 'e"
  px_terminate :: "'c \<Rightarrow> ('e, unit) eff"
  px_wait :: "'c \<Rightarrow> ('e, unit) eff"
  px_drop :: "'c \<Rightarrow> 'e \<Rightarrow> 'e"

definition dbus_session_bus_address :: string where
  "dbus_session_bus_address = ''DBUS_SESSION_BUS_ADDRESS''"

definition dbus_system_bus_address :: string where
  "dbus_system_bus_address = ''DBUS_SYSTEM_BUS_ADDRESS''"

definition dbus_starter_address :: string where
  "dbus_starter_address = ''DBUS_STARTER_ADDRESS''"

definition dbus_starter_bus_type :: string where
  "dbus_starter_bus_type = ''DBUS_STARTER_BUS_TYPE''"

lemmas variable_names = dbus_session_bus_address_def dbus_system_bus_address_def dbus_starter_address_def
  dbus_starter_bus_type_def

section \<open>Finding a program\<close>

text \<open>\<open>while (std::getline(ss, token, ':'))\<close>: a text that ends in the separator has no empty token behind it.\<close>

function getline_tokens :: "char \<Rightarrow> string \<Rightarrow> string list" where
  "getline_tokens sep [] = []"
| "getline_tokens sep (c # cs) = takeWhile (\<lambda>x. x \<noteq> sep) (c # cs)
     # getline_tokens sep (tl (dropWhile (\<lambda>x. x \<noteq> sep) (c # cs)))"
  by pat_completeness auto

termination getline_tokens
proof (relation "measure (\<lambda>(sep, s). length s)", goal_cases)
  case (2 sep c cs)
  have "length (tl (dropWhile (\<lambda>x. x \<noteq> sep) (c # cs))) < length (c # cs)"
    using length_dropWhile_le [of "\<lambda>x. x \<noteq> sep" "c # cs"] by simp
  then show ?case by simp
qed simp

fun first_existing ::
  "('e, 'c) posix \<Rightarrow> string list \<Rightarrow> string \<Rightarrow> 'e \<Rightarrow> exn + string option" where
  "first_existing P [] name e = Inr None"
| "first_existing P (token # tokens) name e =
     (case px_exists P (px_append P token name) e of
        Inl x \<Rightarrow> Inl x
      | Inr True \<Rightarrow> Inr (Some (px_append P token name))
      | Inr False \<Rightarrow> first_existing P tokens name e)"

definition find_executable :: "('e, 'c) posix \<Rightarrow> string \<Rightarrow> 'e \<Rightarrow> exn + string option" where
  "find_executable P name e =
     (if px_absolute P name then Inr (Some name)
      else first_existing P (getline_tokens CHR 0x3A (px_get P ''PATH'' e)) name e)"

definition found_or_throw :: "exn + string option \<Rightarrow> string \<Rightarrow> exn + string" where
  "found_or_throw r why =
     (case r of Inl x \<Rightarrow> Inl x | Inr None \<Rightarrow> Inl (Runtime_error why) | Inr (Some path) \<Rightarrow> Inr path)"

definition dbus_daemon :: "('e, 'c) posix \<Rightarrow> 'e \<Rightarrow> exn + string" where
  "dbus_daemon P e = found_or_throw (find_executable P ''dbus-daemon'' e)
     ''Could not locate the dbus-daemon executable, please check your installation.''"

definition timeout_program :: "('e, 'c) posix \<Rightarrow> 'e \<Rightarrow> exn + string" where
  "timeout_program P e = found_or_throw (find_executable P ''timeout'' e)
     ''Could not locate the timeout executable, please check your installation.''"

section \<open>A daemon\<close>

text \<open>\<open>env.insert\<close> keeps the first value of a name.\<close>

definition copied_environment :: "(string \<times> string) list \<Rightarrow> string \<Rightarrow> string option" where
  "copied_environment vars = fold (\<lambda>(k, v) m. if m k = None then m(k \<mapsto> v) else m) vars (\<lambda>k. None)"

text \<open>\<open>after\<close> is \<open>std::to_string(default_daemon_timeout().count())\<close>.\<close>

definition daemon_arguments :: "string \<Rightarrow> string \<Rightarrow> string \<Rightarrow> string list" where
  "daemon_arguments after program config_file =
     [''--kill-after=5'', after, program, ''--config-file'', config_file, ''--print-address'']"

record 'c daemon =
  dm_child :: 'c
  dm_address :: string

text \<open>What \<open>Session\<close> and \<open>System\<close> have in common: the program is looked for, the environment copied, the
daemon started under \<open>timeout\<close>, and its address read.\<close>

definition run_daemon :: "('e, 'c) posix \<Rightarrow> string \<Rightarrow> string \<Rightarrow> ('e, 'c daemon) eff" where
  "run_daemon P after config_file e =
     (case dbus_daemon P e of
        Inl x \<Rightarrow> (Inl x, e)
      | Inr program \<Rightarrow>
          (case timeout_program P e of
             Inl x \<Rightarrow> (Inl x, e)
           | Inr timeout \<Rightarrow>
               bind_eff (px_exec P timeout (daemon_arguments after program config_file)
                   (copied_environment (px_vars P e)))
                 (\<lambda>child e. case px_read P child e of
                    (address, e) \<Rightarrow> (Inr \<lparr>dm_child = child, dm_address = address\<rparr>, e)) e))"

text \<open>When a constructor throws behind this, the member \<open>daemon\<close> is destroyed.\<close>

definition with_daemon ::
  "('e, 'c) posix \<Rightarrow> string \<Rightarrow> 'c daemon \<Rightarrow> ('e, unit) eff \<Rightarrow> ('e, 'c daemon) eff" where
  "with_daemon P why dm rest =
     then_eff (catch_eff
        (then_eff (if dm_address dm = [] then throw_eff (Runtime_error why) else return_eff ()) rest)
        (\<lambda>x e. (Inl x, px_drop P (dm_child dm) e)))
      (return_eff dm)"

definition construct_session :: "('e, 'c) posix \<Rightarrow> string \<Rightarrow> string \<Rightarrow> ('e, 'c daemon) eff" where
  "construct_session P after config_file =
     bind_eff (run_daemon P after config_file) (\<lambda>dm.
       with_daemon P ''Session: Could not read address of bus instance.'' dm
         (then_eff (\<lambda>e. (Inr (), px_unset P dbus_starter_bus_type (px_unset P dbus_starter_address
                          (px_unset P dbus_session_bus_address e))))
         (then_eff (px_set P dbus_session_bus_address (dm_address dm))
         (then_eff (px_set P dbus_starter_address (dm_address dm))
                   (px_set P dbus_starter_bus_type ''session'')))))"

definition construct_system :: "('e, 'c) posix \<Rightarrow> string \<Rightarrow> string \<Rightarrow> ('e, 'c daemon) eff" where
  "construct_system P after config_file =
     bind_eff (run_daemon P after config_file) (\<lambda>dm.
       with_daemon P ''System: Could not read address of bus instance.'' dm
         (then_eff (\<lambda>e. (Inr (), px_unset P dbus_system_bus_address e))
                   (px_set P dbus_system_bus_address (dm_address dm))))"

definition destroy_daemon :: "('e, 'c) posix \<Rightarrow> 'c daemon \<Rightarrow> ('e, unit) eff" where
  "destroy_daemon P dm =
     then_eff (ignore_exceptions (then_eff (px_terminate P (dm_child dm)) (px_wait P (dm_child dm))))
       (\<lambda>e. (Inr (), px_drop P (dm_child dm) e))"

section \<open>The fixture\<close>

record 'c fixture =
  fx_session :: "'c daemon"
  fx_system :: "'c daemon"

text \<open>When the system bus cannot be had, the session bus that is there already is destroyed.\<close>

definition construct_fixture ::
  "('e, 'c) posix \<Rightarrow> string \<Rightarrow> string \<Rightarrow> string \<Rightarrow> ('e, 'c fixture) eff" where
  "construct_fixture P after session_config system_config =
     bind_eff (construct_session P after session_config) (\<lambda>session.
     bind_eff (catch_eff (construct_system P after system_config)
                 (\<lambda>x. then_eff (destroy_daemon P session) (throw_eff x)))
       (\<lambda>system. return_eff \<lparr>fx_session = session, fx_system = system\<rparr>))"

definition destroy_fixture :: "('e, 'c) posix \<Rightarrow> 'c fixture \<Rightarrow> ('e, unit) eff" where
  "destroy_fixture P f = then_eff (destroy_daemon P (fx_system f)) (destroy_daemon P (fx_session f))"

definition session_bus_address :: "'c fixture \<Rightarrow> string" where
  "session_bus_address f = dm_address (fx_session f)"

definition system_bus_address :: "'c fixture \<Rightarrow> string" where
  "system_bus_address f = dm_address (fx_system f)"

definition create_connection_to_session_bus ::
  "('m, 'i, 'w) libdbus \<Rightarrow> ('d, 'm, 'p) connection \<Rightarrow> 'c fixture \<Rightarrow> 'd \<Rightarrow> (exn + ('d, 'h, 'e) bus) \<times> 'd" where
  "create_connection_to_session_bus L K f = construct_bus_for_address L K (dm_address (fx_session f))"

definition create_connection_to_system_bus ::
  "('m, 'i, 'w) libdbus \<Rightarrow> ('d, 'm, 'p) connection \<Rightarrow> 'c fixture \<Rightarrow> 'd \<Rightarrow> (exn + ('d, 'h, 'e) bus) \<times> 'd" where
  "create_connection_to_system_bus L K f = construct_bus_for_address L K (dm_address (fx_system f))"

text \<open>\<open>share\<close> is the directory that the build puts in, the prefix with the root of the data.\<close>

definition default_session_bus_config_file :: "string \<Rightarrow> string" where
  "default_session_bus_config_file share = share @ ''/dbus-cpp/session.conf''"

definition default_system_bus_config_file :: "string \<Rightarrow> string" where
  "default_system_bus_config_file share = share @ ''/dbus-cpp/system.conf''"

text \<open>\<open>testing::Fixture\<close>, as it is when the default files are not changed.\<close>

definition construct_testing_fixture :: "('e, 'c) posix \<Rightarrow> string \<Rightarrow> string \<Rightarrow> ('e, 'c fixture) eff" where
  "construct_testing_fixture P after share =
     construct_fixture P after (default_session_bus_config_file share) (default_system_bus_config_file share)"

section \<open>What is used of the system\<close>

text \<open>What can be seen of the system: the environment of the process, the programs that were started with the
environment they got, and the children that were terminated, by the number of their start.\<close>

record posix_view =
  pv_vars :: "string \<Rightarrow> string option"
  pv_started :: "(string \<times> string list \<times> (string \<Rightarrow> string option)) list"
  pv_stopped :: "nat list"

text \<open>\<open>files\<close> are the paths that exist, \<open>num\<close> is the number of a child, and \<open>talk\<close> the first word each child writes.\<close>

definition posix_laws ::
  "('e, 'c) posix \<Rightarrow> ('e \<Rightarrow> posix_view) \<Rightarrow> (string \<Rightarrow> bool) \<Rightarrow> ('c \<Rightarrow> nat) \<Rightarrow> (nat \<Rightarrow> string) \<Rightarrow> bool" where
  "posix_laws P view files num talk \<longleftrightarrow>
     (\<forall>k e. px_get P k e = (case pv_vars (view e) k of None \<Rightarrow> [] | Some v \<Rightarrow> v))
     \<and> (\<forall>e. copied_environment (px_vars P e) = pv_vars (view e))
     \<and> (\<forall>path e. px_exists P path e = Inr (files path))
     \<and> (\<forall>k e. view (px_unset P k e) = (view e)\<lparr>pv_vars := (pv_vars (view e))(k := None)\<rparr>)
     \<and> (\<forall>k v e. \<exists>e'. px_set P k v e = (Inr (), e') \<and> view e' = (view e)\<lparr>pv_vars := (pv_vars (view e))(k \<mapsto> v)\<rparr>)
     \<and> (\<forall>prog args env e. \<exists>c e'. px_exec P prog args env e = (Inr c, e') \<and> num c = length (pv_started (view e))
          \<and> view e' = (view e)\<lparr>pv_started := pv_started (view e) @ [(prog, args, env)]\<rparr>)
     \<and> (\<forall>c e. \<exists>e'. px_read P c e = (talk (num c), e') \<and> view e' = view e)
     \<and> (\<forall>c e. \<exists>e'. px_terminate P c e = (Inr (), e') \<and> view e' = (view e)\<lparr>pv_stopped := pv_stopped (view e) @ [num c]\<rparr>)
     \<and> (\<forall>c e. \<exists>e'. px_wait P c e = (Inr (), e') \<and> view e' = view e)
     \<and> (\<forall>c e. view (px_drop P c e) = view e)"

lemma posix_lawsD:
  assumes "posix_laws P view files num talk"
  shows "px_get P k e = (case pv_vars (view e) k of None \<Rightarrow> [] | Some v \<Rightarrow> v)"
    and "copied_environment (px_vars P e) = pv_vars (view e)"
    and "px_exists P path e = Inr (files path)"
    and "view (px_unset P k e) = (view e)\<lparr>pv_vars := (pv_vars (view e))(k := None)\<rparr>"
    and "view (px_drop P c e) = view e"
    and "\<exists>e'. px_set P k v e = (Inr (), e') \<and> view e' = (view e)\<lparr>pv_vars := (pv_vars (view e))(k \<mapsto> v)\<rparr>"
    and "\<exists>c e'. px_exec P prog args env e = (Inr c, e') \<and> num c = length (pv_started (view e))
          \<and> view e' = (view e)\<lparr>pv_started := pv_started (view e) @ [(prog, args, env)]\<rparr>"
    and "\<exists>e'. px_read P c e = (talk (num c), e') \<and> view e' = view e"
    and "\<exists>e'. px_terminate P c e = (Inr (), e') \<and> view e' = (view e)\<lparr>pv_stopped := pv_stopped (view e) @ [num c]\<rparr>"
    and "\<exists>e'. px_wait P c e = (Inr (), e') \<and> view e' = view e"
  using assms unfolding posix_laws_def by simp_all

text \<open>The program a name stands for: the first one in the path.\<close>

definition search_path ::
  "('e, 'c) posix \<Rightarrow> (string \<Rightarrow> bool) \<Rightarrow> (string \<Rightarrow> string option) \<Rightarrow> string \<Rightarrow> string option" where
  "search_path P files vars name =
     (if px_absolute P name then Some name
      else find files (map (\<lambda>token. px_append P token name)
             (getline_tokens CHR 0x3A (case vars ''PATH'' of None \<Rightarrow> [] | Some v \<Rightarrow> v))))"

lemma first_existing_find:
  "\<forall>path e. px_exists P path e = Inr (files path)
     \<Longrightarrow> first_existing P tokens name e = Inr (find files (map (\<lambda>token. px_append P token name) tokens))"
  by (induction tokens) simp_all

lemma find_executable_search:
  assumes "posix_laws P view files num talk"
  shows "find_executable P name e = Inr (search_path P files (pv_vars (view e)) name)"
  using posix_lawsD(1,3) [OF assms]
  by (simp add: find_executable_def search_path_def first_existing_find [where files = files])

section \<open>The two buses\<close>

lemma run_daemon_run:
  assumes "posix_laws P view files num talk"
    and "search_path P files (pv_vars (view e)) ''dbus-daemon'' = Some program"
    and "search_path P files (pv_vars (view e)) ''timeout'' = Some timeout"
  obtains dm e' where "run_daemon P after config_file e = (Inr dm, e')"
    and "num (dm_child dm) = length (pv_started (view e))"
    and "dm_address dm = talk (length (pv_started (view e)))"
    and "view e' = (view e)\<lparr>pv_started := pv_started (view e)
       @ [(timeout, daemon_arguments after program config_file, pv_vars (view e))]\<rparr>"
proof -
  obtain c e1 where c: "px_exec P timeout (daemon_arguments after program config_file) (pv_vars (view e)) e = (Inr c, e1)"
    "num c = length (pv_started (view e))"
    "view e1 = (view e)\<lparr>pv_started := pv_started (view e)
       @ [(timeout, daemon_arguments after program config_file, pv_vars (view e))]\<rparr>"
    using posix_lawsD(7) [OF assms(1)] by blast
  obtain e2 where "px_read P c e1 = (talk (num c), e2)" "view e2 = view e1"
    using posix_lawsD(8) [OF assms(1)] by blast
  then show thesis
    using c assms(2,3) posix_lawsD(2) [OF assms(1)]
    by (intro that [of "\<lparr>dm_child = c, dm_address = talk (num c)\<rparr>" e2])
      (simp_all add: run_daemon_def dbus_daemon_def timeout_program_def found_or_throw_def
        find_executable_search [OF assms(1)] bind_eff_def)
qed

text \<open>The environment once the buses are there.\<close>

definition with_session :: "string \<Rightarrow> (string \<Rightarrow> string option) \<Rightarrow> string \<Rightarrow> string option" where
  "with_session address vars = vars(dbus_session_bus_address \<mapsto> address, dbus_starter_address \<mapsto> address,
     dbus_starter_bus_type \<mapsto> ''session'')"

definition with_system :: "string \<Rightarrow> (string \<Rightarrow> string option) \<Rightarrow> string \<Rightarrow> string option" where
  "with_system address vars = vars(dbus_system_bus_address \<mapsto> address)"

lemma construct_session_run:
  assumes laws: "posix_laws P view files num talk"
    and "search_path P files (pv_vars (view e)) ''dbus-daemon'' = Some program"
    and "search_path P files (pv_vars (view e)) ''timeout'' = Some timeout"
    and "talk (length (pv_started (view e))) \<noteq> []"
  obtains dm e' where "construct_session P after config_file e = (Inr dm, e')"
    and "num (dm_child dm) = length (pv_started (view e))"
    and "dm_address dm = talk (length (pv_started (view e)))"
    and "view e' = (view e)\<lparr>pv_vars := with_session (dm_address dm) (pv_vars (view e)),
       pv_started := pv_started (view e)
         @ [(timeout, daemon_arguments after program config_file, pv_vars (view e))]\<rparr>"
proof -
  obtain dm e1 where dm: "run_daemon P after config_file e = (Inr dm, e1)"
    "num (dm_child dm) = length (pv_started (view e))" "dm_address dm = talk (length (pv_started (view e)))"
    "view e1 = (view e)\<lparr>pv_started := pv_started (view e)
       @ [(timeout, daemon_arguments after program config_file, pv_vars (view e))]\<rparr>"
    by (rule run_daemon_run [OF assms(1-3)])
  let ?e2 = "px_unset P dbus_starter_bus_type (px_unset P dbus_starter_address (px_unset P dbus_session_bus_address e1))"
  note set_run = posix_lawsD(6) [OF laws]
  obtain e3 where e3: "px_set P dbus_session_bus_address (dm_address dm) ?e2 = (Inr (), e3)"
    "view e3 = (view ?e2)\<lparr>pv_vars := (pv_vars (view ?e2))(dbus_session_bus_address \<mapsto> dm_address dm)\<rparr>"
    using set_run by blast
  obtain e4 where e4: "px_set P dbus_starter_address (dm_address dm) e3 = (Inr (), e4)"
    "view e4 = (view e3)\<lparr>pv_vars := (pv_vars (view e3))(dbus_starter_address \<mapsto> dm_address dm)\<rparr>"
    using set_run by blast
  obtain e5 where e5: "px_set P dbus_starter_bus_type ''session'' e4 = (Inr (), e5)"
    "view e5 = (view e4)\<lparr>pv_vars := (pv_vars (view e4))(dbus_starter_bus_type \<mapsto> ''session'')\<rparr>"
    using set_run by blast
  show thesis
  proof (rule that [OF _ dm(2,3)])
    show "construct_session P after config_file e = (Inr dm, e5)"
      using dm(1,3) assms(4) e3(1) e4(1) e5(1)
      by (simp add: construct_session_def with_daemon_def bind_eff_def then_eff_def catch_eff_def return_eff_def)
    show "view e5 = (view e)\<lparr>pv_vars := with_session (dm_address dm) (pv_vars (view e)),
       pv_started := pv_started (view e)
         @ [(timeout, daemon_arguments after program config_file, pv_vars (view e))]\<rparr>"
      unfolding e5(2) e4(2) e3(2) posix_lawsD(4) [OF laws] dm(4)
      by (simp add: with_session_def fun_eq_iff variable_names)
  qed
qed

lemma construct_system_run:
  assumes laws: "posix_laws P view files num talk"
    and "search_path P files (pv_vars (view e)) ''dbus-daemon'' = Some program"
    and "search_path P files (pv_vars (view e)) ''timeout'' = Some timeout"
  obtains (found) dm e' where "talk (length (pv_started (view e))) \<noteq> []"
    and "construct_system P after config_file e = (Inr dm, e')"
    and "num (dm_child dm) = length (pv_started (view e))"
    and "dm_address dm = talk (length (pv_started (view e)))"
    and "view e' = (view e)\<lparr>pv_vars := with_system (dm_address dm) (pv_vars (view e)),
       pv_started := pv_started (view e)
         @ [(timeout, daemon_arguments after program config_file, pv_vars (view e))]\<rparr>"
  | (silent) e' where "talk (length (pv_started (view e))) = []"
    and "construct_system P after config_file e
       = (Inl (Runtime_error ''System: Could not read address of bus instance.''), e')"
    and "view e' = (view e)\<lparr>pv_started := pv_started (view e)
         @ [(timeout, daemon_arguments after program config_file, pv_vars (view e))]\<rparr>"
proof -
  obtain dm e1 where dm: "run_daemon P after config_file e = (Inr dm, e1)"
    "num (dm_child dm) = length (pv_started (view e))" "dm_address dm = talk (length (pv_started (view e)))"
    "view e1 = (view e)\<lparr>pv_started := pv_started (view e)
       @ [(timeout, daemon_arguments after program config_file, pv_vars (view e))]\<rparr>"
    by (rule run_daemon_run [OF assms])
  show thesis
  proof (cases "talk (length (pv_started (view e))) = []")
    case True
    then have "construct_system P after config_file e
        = (Inl (Runtime_error ''System: Could not read address of bus instance.''), px_drop P (dm_child dm) e1)"
      using dm(1,3) by (simp add: construct_system_def with_daemon_def bind_eff_def then_eff_def catch_eff_def throw_eff_def)
    then show thesis using silent True dm(4) posix_lawsD(5) [OF laws] by simp
  next
    case False
    let ?e2 = "px_unset P dbus_system_bus_address e1"
    obtain e3 where e3: "px_set P dbus_system_bus_address (dm_address dm) ?e2 = (Inr (), e3)"
      "view e3 = (view ?e2)\<lparr>pv_vars := (pv_vars (view ?e2))(dbus_system_bus_address \<mapsto> dm_address dm)\<rparr>"
      using posix_lawsD(6) [OF laws] by blast
    have "construct_system P after config_file e = (Inr dm, e3)"
      using dm(1,3) False e3(1)
      by (simp add: construct_system_def with_daemon_def bind_eff_def then_eff_def catch_eff_def return_eff_def)
    moreover have "view e3 = (view e)\<lparr>pv_vars := with_system (dm_address dm) (pv_vars (view e)),
       pv_started := pv_started (view e)
         @ [(timeout, daemon_arguments after program config_file, pv_vars (view e))]\<rparr>"
      unfolding e3(2) posix_lawsD(4) [OF laws] dm(4) by (simp add: with_system_def)
    ultimately show thesis using found False dm(2,3) by blast
  qed
qed

lemma destroy_daemon_run:
  assumes "posix_laws P view files num talk"
  obtains e' where "destroy_daemon P dm e = (Inr (), e')"
    and "view e' = (view e)\<lparr>pv_stopped := pv_stopped (view e) @ [num (dm_child dm)]\<rparr>"
proof -
  obtain e1 where e1: "px_terminate P (dm_child dm) e = (Inr (), e1)"
    "view e1 = (view e)\<lparr>pv_stopped := pv_stopped (view e) @ [num (dm_child dm)]\<rparr>"
    using posix_lawsD(9) [OF assms] by blast
  obtain e2 where e2: "px_wait P (dm_child dm) e1 = (Inr (), e2)" "view e2 = view e1"
    using posix_lawsD(10) [OF assms] by blast
  show thesis
    by (rule that [of "px_drop P (dm_child dm) e2"])
      (use e1 e2 posix_lawsD(5) [OF assms] in \<open>simp_all add: destroy_daemon_def ignore_exceptions_def
         then_eff_def bind_eff_def catch_eff_def\<close>)
qed

text \<open>The two addresses are in the environment that the programs are looked for in; the path is not changed.\<close>

lemma search_with_session [simp]: "search_path P files (with_session a vars) = search_path P files vars"
  by (simp add: fun_eq_iff search_path_def with_session_def variable_names)

text \<open>
  C38. A fixture gives a test buses of its own. If \<open>dbus-daemon\<close> and \<open>timeout\<close> are in the path and both daemons tell
  their address, the constructor returns; it has started exactly two programs, the first \<open>timeout\<close> of the path with
  the first \<open>dbus-daemon\<close>, with the file of the session bus and with that of the system bus. The second daemon got an
  environment that has the address of the first already. The environment of the process has the two addresses and is
  otherwise as before, and the two functions for addresses give them. The destructor stops both daemons, the one
  of the system bus first, and leaves the environment as it is.
\<close>

theorem fixture_has_two_buses:
  assumes "posix_laws P view files num talk" and "view e = v" and "n = length (pv_started v)"
    and "search_path P files (pv_vars v) ''dbus-daemon'' = Some program"
    and "search_path P files (pv_vars v) ''timeout'' = Some timeout"
    and "talk n \<noteq> []" and "talk (Suc n) \<noteq> []"
  shows "\<exists>f e1 e2. construct_fixture P after session_config system_config e = (Inr f, e1)
     \<and> session_bus_address f = talk n \<and> system_bus_address f = talk (Suc n)
     \<and> view e1 = v\<lparr>pv_vars := with_system (talk (Suc n)) (with_session (talk n) (pv_vars v)),
          pv_started := pv_started v @
            [(timeout, daemon_arguments after program session_config, pv_vars v),
             (timeout, daemon_arguments after program system_config, with_session (talk n) (pv_vars v))]\<rparr>
     \<and> destroy_fixture P f e1 = (Inr (), e2)
     \<and> view e2 = (view e1)\<lparr>pv_stopped := pv_stopped v @ [Suc n, n]\<rparr>"
proof -
  let ?v = "v\<lparr>pv_vars := with_session (talk n) (pv_vars v),
      pv_started := pv_started v @ [(timeout, daemon_arguments after program session_config, pv_vars v)]\<rparr>"
  obtain s d1 where s: "construct_session P after session_config e = (Inr s, d1)" "num (dm_child s) = n"
    "dm_address s = talk n" "view d1 = ?v"
    by (rule construct_session_run [OF assms(1), of e program timeout after session_config]) (use assms in simp_all)
  obtain y e1 where y: "construct_system P after system_config d1 = (Inr y, e1)" "num (dm_child y) = Suc n"
    "dm_address y = talk (Suc n)"
    "view e1 = ?v\<lparr>pv_vars := with_system (talk (Suc n)) (pv_vars ?v), pv_started := pv_started ?v
        @ [(timeout, daemon_arguments after program system_config, pv_vars ?v)]\<rparr>"
    by (rule construct_system_run [OF assms(1), of d1 program timeout after system_config])
      (use assms s(4) in simp_all)
  obtain d2 where d2: "destroy_daemon P y e1 = (Inr (), d2)"
    "view d2 = (view e1)\<lparr>pv_stopped := pv_stopped (view e1) @ [num (dm_child y)]\<rparr>"
    by (rule destroy_daemon_run [OF assms(1)])
  obtain e2 where e2: "destroy_daemon P s d2 = (Inr (), e2)"
    "view e2 = (view d2)\<lparr>pv_stopped := pv_stopped (view d2) @ [num (dm_child s)]\<rparr>"
    by (rule destroy_daemon_run [OF assms(1)])
  let ?f = "\<lparr>fx_session = s, fx_system = y\<rparr>"
  have "construct_fixture P after session_config system_config e = (Inr ?f, e1)"
    using s(1) y(1) by (simp add: construct_fixture_def bind_eff_def catch_eff_def return_eff_def)
  moreover have "destroy_fixture P ?f e1 = (Inr (), e2)"
    using d2(1) e2(1) by (simp add: destroy_fixture_def then_eff_Inr)
  moreover have "view e2 = (view e1)\<lparr>pv_stopped := pv_stopped v @ [Suc n, n]\<rparr>"
    using d2(2) e2(2) s(2) y(2,4) by simp
  ultimately show ?thesis
    using s(3) y(3,4) by (intro exI [of _ ?f] exI [of _ e1] exI [of _ e2]) (simp add: session_bus_address_def system_bus_address_def)
qed

text \<open>
  A system bus that does not come up. The constructor throws and the daemon of the session bus is stopped, but the
  environment of the process still has its address.
\<close>

lemma failed_system_bus_leaves_address:
  assumes "posix_laws P view files num talk" and "view e = v" and "n = length (pv_started v)"
    and "search_path P files (pv_vars v) ''dbus-daemon'' = Some program"
    and "search_path P files (pv_vars v) ''timeout'' = Some timeout"
    and "talk n \<noteq> []" and "talk (Suc n) = []"
  obtains e' where "construct_fixture P after session_config system_config e
       = (Inl (Runtime_error ''System: Could not read address of bus instance.''), e')"
    and "pv_stopped (view e') = pv_stopped v @ [n]"
    and "pv_vars (view e') dbus_session_bus_address = Some (talk n)"
proof -
  let ?v = "v\<lparr>pv_vars := with_session (talk n) (pv_vars v),
      pv_started := pv_started v @ [(timeout, daemon_arguments after program session_config, pv_vars v)]\<rparr>"
  obtain s d1 where s: "construct_session P after session_config e = (Inr s, d1)" "num (dm_child s) = n"
    "dm_address s = talk n" "view d1 = ?v"
    by (rule construct_session_run [OF assms(1), of e program timeout after session_config]) (use assms in simp_all)
  obtain d2 where d2: "construct_system P after system_config d1
       = (Inl (Runtime_error ''System: Could not read address of bus instance.''), d2)"
    "pv_vars (view d2) = pv_vars ?v" "pv_stopped (view d2) = pv_stopped v"
    by (rule construct_system_run [OF assms(1), of d1 program timeout after system_config])
      (use assms s(4) in simp_all)
  obtain e' where e': "destroy_daemon P s d2 = (Inr (), e')"
    "view e' = (view d2)\<lparr>pv_stopped := pv_stopped (view d2) @ [num (dm_child s)]\<rparr>"
    by (rule destroy_daemon_run [OF assms(1)])
  have "construct_fixture P after session_config system_config e
       = (Inl (Runtime_error ''System: Could not read address of bus instance.''), e')"
    using s(1) d2(1) e'(1)
    by (simp add: construct_fixture_def bind_eff_def catch_eff_def then_eff_def throw_eff_def)
  then show thesis
    using that e'(2) d2(2,3) s(2) by (simp add: with_session_def variable_names)
qed

text \<open>A system with the variables as a list.\<close>

type_synonym sample_system = "(string \<times> string) list \<times> (string \<times> string list \<times> (string \<Rightarrow> string option)) list \<times> nat list"

definition sample_posix :: "(string \<Rightarrow> bool) \<Rightarrow> (nat \<Rightarrow> string) \<Rightarrow> (sample_system, nat) posix" where
  "sample_posix files talk = \<lparr>
     px_get = (\<lambda>k (vars, rest). case map_of vars k of None \<Rightarrow> [] | Some v \<Rightarrow> v),
     px_vars = fst,
     px_unset = (\<lambda>k (vars, rest). (filter (\<lambda>p. fst p \<noteq> k) vars, rest)),
     px_set = (\<lambda>k v (vars, rest). (Inr (), (k, v) # vars, rest)),
     px_absolute = (\<lambda>p. p \<noteq> [] \<and> hd p = CHR 0x2F),
     px_append = (\<lambda>d name. d @ ''/'' @ name),
     px_exists = (\<lambda>p e. Inr (files p)),
     px_exec = (\<lambda>prog args env (vars, started, stopped).
       (Inr (length started), vars, started @ [(prog, args, env)], stopped)),
     px_read = (\<lambda>c e. (talk c, e)),
     px_terminate = (\<lambda>c (vars, started, stopped). (Inr (), vars, started, stopped @ [c])),
     px_wait = (\<lambda>c e. (Inr (), e)),
     px_drop = (\<lambda>c e. e)\<rparr>"

definition sample_view :: "sample_system \<Rightarrow> posix_view" where
  "sample_view e = \<lparr>pv_vars = map_of (fst e), pv_started = fst (snd e), pv_stopped = snd (snd e)\<rparr>"

lemma copied_environment_map_of: "copied_environment vars = map_of vars"
proof -
  have "fold (\<lambda>(k, v) m. if m k = None then m(k \<mapsto> v) else m) vars m = map_of vars ++ m" for m
  proof (induction vars arbitrary: m)
    case (Cons p vars)
    show ?case
      by (cases p) (simp add: Cons.IH, auto simp: fun_eq_iff map_add_def split: option.split)
  qed simp
  then show ?thesis by (simp add: copied_environment_def)
qed

lemma map_of_without: "map_of (filter (\<lambda>p. fst p \<noteq> k) vars) = (map_of vars)(k := None)"
  by (induction vars) (auto simp: fun_eq_iff)

lemma sample_posix_laws: "posix_laws (sample_posix files talk) sample_view files (\<lambda>c. c) talk"
  by (simp add: posix_laws_def sample_posix_def sample_view_def copied_environment_map_of map_of_without
      split: prod.split)

theorem fixture_has_two_buses_witness:
  "\<exists>f e1 e2. construct_fixture (sample_posix (\<lambda>p. p \<in> {''/usr/bin/timeout'', ''/b/dbus-daemon'', ''/usr/bin/dbus-daemon''})
       (\<lambda>n. ''unix:'' @ show_nat n)) ''60.000000'' ''session.conf'' ''system.conf''
       ([(''PATH'', ''/b:/usr/bin'')], [], []) = (Inr f, e1)
     \<and> destroy_fixture (sample_posix (\<lambda>p. p \<in> {''/usr/bin/timeout'', ''/b/dbus-daemon'', ''/usr/bin/dbus-daemon''})
       (\<lambda>n. ''unix:'' @ show_nat n)) f e1 = (Inr (), e2)
     \<and> session_bus_address f = ''unix:0'' \<and> map fst (fst (snd e1)) = [''/usr/bin/timeout'', ''/usr/bin/timeout'']
     \<and> map_of (fst e1) ''DBUS_SYSTEM_BUS_ADDRESS'' = Some ''unix:1''
     \<and> snd (snd e2) = [1, 0]"
proof -
  let ?files = "\<lambda>p. p \<in> {''/usr/bin/timeout'', ''/b/dbus-daemon'', ''/usr/bin/dbus-daemon''}"
  let ?talk = "\<lambda>n. ''unix:'' @ show_nat n"
  let ?e = "([(''PATH'', ''/b:/usr/bin'')], [], []) :: sample_system"
  have found: "search_path (sample_posix ?files ?talk) ?files (pv_vars (sample_view ?e)) ''dbus-daemon'' = Some ''/b/dbus-daemon''"
    "search_path (sample_posix ?files ?talk) ?files (pv_vars (sample_view ?e)) ''timeout'' = Some ''/usr/bin/timeout''"
    by (simp_all add: search_path_def sample_posix_def sample_view_def)
  have n: "0 = length (pv_started (sample_view ?e))" by (simp add: sample_view_def)
  have t: "show_nat 0 = ''0''" "show_nat (Suc 0) = ''1''" by code_simp+
  obtain f e1 e2 where "construct_fixture (sample_posix ?files ?talk) ''60.000000'' ''session.conf'' ''system.conf'' ?e = (Inr f, e1)"
    and "session_bus_address f = ?talk 0" and e1: "sample_view e1 = (sample_view ?e)\<lparr>
        pv_vars := with_system (?talk (Suc 0)) (with_session (?talk 0) (pv_vars (sample_view ?e))),
        pv_started := pv_started (sample_view ?e) @
          [(''/usr/bin/timeout'', daemon_arguments ''60.000000'' ''/b/dbus-daemon'' ''session.conf'', pv_vars (sample_view ?e)),
           (''/usr/bin/timeout'', daemon_arguments ''60.000000'' ''/b/dbus-daemon'' ''system.conf'',
             with_session (?talk 0) (pv_vars (sample_view ?e)))]\<rparr>"
    and "destroy_fixture (sample_posix ?files ?talk) f e1 = (Inr (), e2)"
    and e2: "sample_view e2 = (sample_view e1)\<lparr>pv_stopped := pv_stopped (sample_view ?e) @ [Suc 0, 0]\<rparr>"
    using fixture_has_two_buses [OF sample_posix_laws refl n found, of "''60.000000''" "''session.conf''" "''system.conf''"]
    by auto
  moreover have "map fst (fst (snd e1)) = map fst (pv_started (sample_view e1))" "map_of (fst e1) = pv_vars (sample_view e1)"
    "snd (snd e2) = pv_stopped (sample_view e2)"
    by (simp_all add: sample_view_def)
  ultimately show ?thesis
    unfolding e1 e2
    by - (rule exI [of _ f], rule exI [of _ e1], rule exI [of _ e2],
      simp add: t sample_view_def with_system_def variable_names)
qed

end
