(* ===== verification/Spec2Isabelle.thy ===== *)
theory Spec2Isabelle
  imports Signature_Grammar Generator_Properties Object_Properties Executor Daemon_Properties Method_Calls Proxies
    Signal_Delivery Object_Lifecycle Benchmark Example_Clients
    Executor_Timers Upower Xml_Reader Variant_Objects Visitor Subscriptions Property_Changes Compiler_Run
    Test_Fixture
begin

text \<open>
  A model of dbus-cpp, a C++ binding of libdbus, and of its protocol compiler: the library under
  include/core/dbus and src/core/dbus, with the properties that make its parts correct.

  \<^bold>\<open>The program.\<close> A \<open>Bus\<close> wraps a connection of libdbus. Services on it have objects, objects have
  methods, properties and signals. A call is a message whose arguments a codec writes in the types of
  C++; the reply is read by the same codecs. libdbus gives an incoming message to a filter of the bus, which
  passes signals on by path to an object, which passes them on by interface and member; calls for a
  registered path go to the object directly. An executor lets boost's event loop run libdbus. The
  compiler reads introspection files and writes headers with the declarations of their interfaces. The
  examples are clients of services of the system, and a benchmark that is both ends of a bus.

  \<^bold>\<open>The theories\<close>, in the order of the calls:

  \<^item> \<open>Dbus_Prelude\<close>: outcomes other than a return (\<open>exn\<close>), functions on a state that may throw (\<open>eff\<close>),
    loops, mutexes (\<open>guarded\<close>), parts of a state (\<open>zoom\<close>), C strings. \<open>State_Parts\<close> and \<open>Registry\<close>: the
    interfaces that components share, as locales: parts of a state, mutexes, and tables that are read by
    key; the routers, the cache, the pending calls, the signals and the bus provide them.
  \<^item> \<open>Argument_Type\<close>, \<open>Dbus_Types\<close>: argument_type.h, error.cpp, types/object_path.h, types/signature.h,
    types/unix_fd.h. \<open>Libdbus\<close>: the functions of libdbus that are called, as a record, what is used of
    them, and a small implementation for the witnesses. \<open>Visitor\<close>: helper/apply_visitor.h.
  \<^item> \<open>Message\<close>: message.cpp and message_p.h, the readers, writers, factories and accessors.
  \<^item> \<open>Type_Mapper\<close>, \<open>Codec\<close>, \<open>Codec_Values\<close>: helper/type_mapper.h, codec.h, types/struct.h,
    types/variant.h, types/any.h and types/stl. C++ chooses a specialisation by type; here types are the
    datatype \<open>ctype\<close>, values \<open>cval\<close>, and the choice is a function on types.
    \<open>Codec_Correct\<close> has what is written, \<open>Codec_Roundtrip\<close> what is read back, \<open>Signature_Grammar\<close> the
    grammar of signatures.
  \<^item> \<open>Match_Rule\<close>: match_rule.cpp. \<open>Message_Router\<close>: message_router.h. \<open>Lifetime_Cache\<close>:
    lifetime_constrained_cache.h. \<open>Pending_Call\<close>: pending_call_impl.h.
  \<^item> \<open>Bus\<close>: bus.cpp and service.cpp. \<open>Dbus_Signal\<close>: impl/signal.h. \<open>Dbus_Object\<close>: impl/object.h,
    impl/property.h, result.h and interfaces/properties.h. \<open>Proxies\<close>: stub.h and skeleton.h.
    \<open>Dbus_Daemon\<close>: dbus.cpp and service_watcher.cpp.
  \<^item> \<open>Variant_Objects\<close>: types/variant.h once more, as objects that keep functions and are copied.
  \<^item> \<open>Executor\<close>: asio/executor.cpp. \<open>Executor_Timers\<close>: histories of its timeouts.
  \<^item> \<open>Type_Mangler\<close>, \<open>Introspection\<close>, \<open>Generator\<close>: generator.cpp, introspection_parser.cpp and
    compiler.cpp with \<open>main\<close>. \<open>Introspection_Model\<close>, \<open>Generator_Model\<close> have the tree a document stands
    for and the header it should give; \<open>Generator_Properties\<close> compares. \<open>Xml_Reader\<close>: the loop over the reader
    of libxml2, which does the same as the parser does on the list of the nodes that are read. \<open>Compiler_Run\<close>: a run over several files.
  \<^item> \<open>Signal_Properties\<close>, \<open>Remote_Properties\<close>, \<open>Object_Properties\<close>, \<open>Method_Calls\<close>,
    \<open>Daemon_Properties\<close>: what holds of signals, of properties used from another process, of objects, of
    calls to another process, and of the watchers of names. \<open>Signal_Delivery\<close>: a signal on its way from
    one process to the handlers of another. \<open>Property_Changes\<close>: a change of properties on its way to the
    properties of another. \<open>Subscriptions\<close>: what the rules of a signal mean to the daemon.
    \<open>Object_Lifecycle\<close>: histories of making and destroying objects.
  \<^item> \<open>Benchmark\<close>: src/examples/benchmark with announcer.h and resolver.h, a service, its stub and a program.
    \<open>Example_Clients\<close>: macros.h, the interfaces that src/examples/upower, geoclue and ofono declare, and the
    program of geoclue. \<open>Upower\<close>: the program of upower.
  \<^item> \<open>Test_Fixture\<close>: fixture.h and fixture.cpp.in, buses of its own for a test.

  \<^bold>\<open>How the code is read.\<close> A class is a record, a shared object a number in a table of the living ones
  (\<open>world\<close>), so that use after destruction is a value, \<open>Undefined_behaviour\<close>. A member function is a
  definition of its name, on the state it touches; what it wrote before a throw stays written. Every
  throw, early return, null pointer, second lock of a mutex by one thread and throw out of a
  \<open>noexcept\<close> function is an outcome. Threads: a function that holds a mutex is one step, and
  histories are sequences of such steps in any order (\<open>Pending_Call\<close>, \<open>Lifetime_Cache\<close>). Handlers of the
  user are functions on the whole state, so they may call back. Callbacks of libdbus and libxml2 are
  definitions of their own, called by the record that stands for the library.

  \<^bold>\<open>Parameters.\<close> libdbus (\<open>libdbus\<close>, \<open>connection\<close>, \<open>pending_lib\<close>, \<open>event_lib\<close>), boost's event loop,
  string splitting, paths, option parser and file streams, process-cpp, libxml2's reader, \<open>core::Signal\<close> and \<open>core::Property\<close>,
  the clock and the random numbers of include guards, the accumulators of boost, and the conversions and
  printing of floating point numbers.
  The call that blocks gives a reply or an error, never a reply that is an error: libdbus hands the error out as a
  \<open>DBusError\<close>, which the code throws (\<open>answer_of\<close>); only an asynchronous call gets an error as its reply. While
  libdbus handles the event of a watch it may call the executor again, to add, remove, enable and disable watches
  (\<open>watch_calls\<close>). What a theorem relies on is a named hypothesis on the record (\<open>reads\<close>, \<open>writes\<close>, \<open>stores\<close>,
  \<open>counts_rules\<close>, \<open>rpc_library\<close>, \<open>counts_operations\<close>, and so on), and its witness instantiates it.

  \<^bold>\<open>What the lemmas show.\<close> The typed values are written with the signature that is announced and read
  back (\<open>Codec\<close> theories), and the signature is valid for libdbus when the type does not nest too deep; a received
  variant gives its value once, its copies share the reader; the routers and caches keep their tables (\<open>Registry\<close> and its
  interpretations); continuations are called once, with the reply that was noticed, which is said over
  the events alone (\<open>noticed\<close>, \<open>calls\<close>); the daemon has one rule for each combination of
  arguments; a method is called and a property read and set through two processes, from the call of the
  stub to the reply; a signal that is emitted is told to the handlers it fits in another process, and the rules of
  that process make the daemon send it exactly the signals its handlers want; a change of properties that is announced
  arrives in the properties of the stub; the routes of a bus are the paths of the objects that are alive; every reply
  that arrives is delivered; the benchmark gets all its values back, ends the service and succeeds; watchers are told
  what they asked for; watches wait once, except those that are toggled while they are handled, handled late or
  failed; timeouts are handled once for each start, and the queue is drained; what UPower declares is read as the service has it; the
  compiler writes the header that the document describes, over that of an interface with the same last component; a fixture starts its two buses and names them to the
  process. Where the code does less than it means to, a theorem or a lemma says what it does instead.

  \<^bold>\<open>Bounds.\<close> No operation of the program has fuel: recursion is structural or has a measure, and \<open>while\<close> loops are
  \<open>loop_eff\<close>, where a loop that does not end is the value \<open>Diverges\<close>; theorems that a function returns
  exclude it. Only the handlers in \<open>Message_Router\<close> that dispatch to handlers in turn are cut off at a depth, and the
  theorem is for every depth. Integers are words of their width where they are sent, counted or
  combined bit by bit.

  \<^bold>\<open>Not modelled.\<close> Reference counts and the release of memory, except where an object that has died can
  still be reached; the codec of types/stl/list.h, interfaces/introspectable.h and
  interfaces/object_manager.h, which do not compile against the rest; message_impl.h, an earlier form of
  message.cpp; the end of a promise that is never kept; in the
  examples, the thread that runs the bus, the wait for a signal of the system and the times the benchmark measures,
  and the program of ofono, which uses no signal; the tests.
\<close>

end
